(* ===== verification/Prelude.thy ===== *)
theory Prelude
  imports Main "HOL-Library.List_Lexorder" "HOL-Library.Char_ord"
begin

text \<open>
  The vocabulary every component shares: Python strings, \<^theory_text>\<open>tuple(sorted(set(...)))\<close>,
  \<^theory_text>\<open>str.upper\<close>, duplicate tests by \<^theory_text>\<open>len(set(...))\<close>, selection of a unique row, and
  the collection of guard lemmas.  Strings are character lists; the identifiers, symbols and
  statuses the code compares are ASCII, so \<open>upper\<close> is the ASCII case map.
\<close>

named_theorems guards "inversion facts of the fail-closed checks"

type_synonym sha = string
type_synonym symbol = string

subsection \<open>Strings\<close>

definition upper_char :: "char \<Rightarrow> char" where
  "upper_char c = (let n = of_char c :: nat in if 97 \<le> n \<and> n \<le> 122 then char_of (n - 32) else c)"

definition upper :: "string \<Rightarrow> string" where
  "upper s = map upper_char s"

text \<open>\<^theory_text>\<open>bool(s) and s == s.upper()\<close>: the test the code makes of every symbol.\<close>

definition upper_symbol :: "string \<Rightarrow> bool" where
  "upper_symbol s \<longleftrightarrow> s \<noteq> [] \<and> s = upper s"

lemma upper_char_idem [simp]: "upper_char (upper_char c) = upper_char c"
proof -
  have "upper_char (char_of (of_char c - 32 :: nat)) = char_of (of_char c - 32 :: nat)"
    if "97 \<le> (of_char c :: nat)" "(of_char c :: nat) \<le> 122"
  proof -
    have "of_char (char_of (of_char c - 32 :: nat)) = (of_char c - 32 :: nat)"
      using that by (simp add: of_char_of)
    with that show ?thesis by (auto simp: upper_char_def Let_def)
  qed
  then show ?thesis by (auto simp: upper_char_def Let_def)
qed

lemma upper_idem [simp]: "upper (upper s) = upper s"
  by (simp add: upper_def)

text \<open>\<^theory_text>\<open>s.strip()\<close>, and a digest in lower-case hexadecimal.\<close>

definition py_space :: "char \<Rightarrow> bool" where
  "py_space c \<longleftrightarrow> (of_char c :: nat) \<in> {9, 10, 11, 12, 13, 28, 29, 30, 31, 32, 133, 160}"

definition strip :: "string \<Rightarrow> string" where
  "strip s = rev (dropWhile py_space (rev (dropWhile py_space s)))"

definition hex64 :: "string \<Rightarrow> bool" where
  "hex64 s \<longleftrightarrow> length s = 64 \<and> list_all (\<lambda>c. c \<in> set ''0123456789abcdef'') s"

subsection \<open>Sorted sets and unique rows\<close>

definition sorted_set :: "'a::linorder list \<Rightarrow> 'a list" where
  "sorted_set xs = sort (remdups xs)"

lemma set_sorted_set [simp]: "set (sorted_set xs) = set xs"
  by (simp add: sorted_set_def)

lemma sorted_set_Nil [simp]: "sorted_set xs = [] \<longleftrightarrow> xs = []"
  using set_sorted_set [of xs] by (metis set_empty)

lemma distinct_sorted_set [simp]: "distinct (sorted_set xs)"
  by (simp add: sorted_set_def)

lemma sorted_sorted_set [simp]: "sorted (sorted_set xs)"
  by (simp add: sorted_set_def)

lemma sorted_set_cong: "set xs = set ys \<Longrightarrow> sorted_set xs = sorted_set ys"
  by (metis distinct_sorted_set set_sorted_set sorted_distinct_set_unique sorted_sorted_set)

text \<open>The one element of a filtered tuple, the code's \<^theory_text>\<open>len(rows) != 1\<close> test.\<close>

fun only :: "'a list \<Rightarrow> 'a option" where
  "only [x] = Some x"
| "only _ = None"

lemma only_Some [simp]: "only xs = Some x \<longleftrightarrow> xs = [x]"
  by (cases xs rule: only.cases) auto

lemma only_None: "only xs = None \<longleftrightarrow> length xs \<noteq> 1"
  by (cases xs rule: only.cases) auto

lemma filter_single_unique:
  assumes "filter P xs = [x]" "y \<in> set xs" "P y"
  shows "y = x"
proof -
  have "y \<in> set (filter P xs)" using assms(2,3) by simp
  then show ?thesis using assms(1) by simp
qed

lemma filter_singleD: "filter P xs = [x] \<Longrightarrow> x \<in> set xs \<and> P x"
  by (metis (mono_tags) list.set_intros(1) mem_Collect_eq set_filter)

subsection \<open>Lists\<close>

lemma sort_key_set [simp]: "set (sort_key f xs) = set xs"
  by (rule set_sort)

lemma last_appended: "ys \<noteq> [] \<Longrightarrow> last (xs @ ys) = last ys"
  by (rule last_appendR)

fun pairwise_list :: "('a \<Rightarrow> 'a \<Rightarrow> bool) \<Rightarrow> 'a list \<Rightarrow> bool" where
  "pairwise_list P (x # y # ys) = (P x y \<and> pairwise_list P (y # ys))"
| "pairwise_list P _ = True"

lemma pairwise_nth: "(\<And>i. Suc i < length xs \<Longrightarrow> P (xs ! i) (xs ! Suc i)) \<Longrightarrow> pairwise_list P xs"
proof (induction P xs rule: pairwise_list.induct)
  case (1 P x y ys)
  have "P x y" using 1(2) [of 0] by simp
  moreover have "pairwise_list P (y # ys)" using 1(1) 1(2) [of "Suc i" for i] by (metis Suc_less_eq length_Cons nth_Cons_Suc)
  ultimately show ?case by simp
qed simp_all

lemma pairwise_nthD: "pairwise_list P xs \<Longrightarrow> Suc i < length xs \<Longrightarrow> P (xs ! i) (xs ! Suc i)"
proof (induction P xs arbitrary: i rule: pairwise_list.induct)
  case (1 P x y ys)
  then show ?case by (cases i) auto
qed simp_all

text \<open>\<^theory_text>\<open>max(..., default=0)\<close> over attempt numbers and sequence numbers.\<close>

definition max_or_zero :: "int list \<Rightarrow> int" where
  "max_or_zero xs = (case xs of [] \<Rightarrow> 0 | y # ys \<Rightarrow> foldl max y ys)"

lemma foldl_max_ge: "(x::int) \<le> foldl max x xs \<and> (\<forall>y \<in> set xs. y \<le> foldl max x xs)"
proof (induction xs arbitrary: x)
  case Nil
  then show ?case by simp
next
  case (Cons a xs)
  show ?case using Cons [of "max x a"] by auto
qed

lemma foldl_max_in: "foldl max (x::int) xs \<in> insert x (set xs)"
proof (induction xs arbitrary: x)
  case Nil
  then show ?case by simp
next
  case (Cons a xs)
  show ?case using Cons [of "max x a"] by (auto simp: max_def split: if_splits)
qed

lemma max_or_zero_ge: "x \<in> set xs \<Longrightarrow> x \<le> max_or_zero xs"
  unfolding max_or_zero_def using foldl_max_ge by (auto split: list.splits)

lemma max_or_zero_in: "xs \<noteq> [] \<Longrightarrow> max_or_zero xs \<in> set xs"
  unfolding max_or_zero_def using foldl_max_in by (auto split: list.splits)

subsection \<open>Sample digests\<close>

text \<open>Digests that differ in the last character.\<close>

definition hex_id :: "nat \<Rightarrow> sha" where
  "hex_id n = replicate 63 CHR ''0'' @ [''0123456789abcdef'' ! (n mod 16)]"

lemma hex_id_pattern: "hex64 (hex_id n)"
proof -
  have "''0123456789abcdef'' ! k \<in> set ''0123456789abcdef''" if "k < 16" for k
    using that by (intro nth_mem) simp
  then have "''0123456789abcdef'' ! (n mod 16) \<in> set ''0123456789abcdef''" by (simp del: list.set)
  then show ?thesis by (auto simp: hex64_def hex_id_def list_all_iff)
qed

subsection \<open>Dictionaries and decimal texts\<close>

text \<open>A dictionary is the list of its values in the order of their first insertion: an existing key keeps its place.\<close>

fun dict_put :: "('a \<Rightarrow> 'k) \<Rightarrow> 'a \<Rightarrow> 'a list \<Rightarrow> 'a list" where
  "dict_put key x [] = [x]"
| "dict_put key x (y # ys) = (if key y = key x then x # ys else y # dict_put key x ys)"

definition dict_values :: "('a \<Rightarrow> 'k) \<Rightarrow> 'a list \<Rightarrow> 'a list" where
  "dict_values key xs = foldl (\<lambda>d x. dict_put key x d) [] xs"

lemma dict_put_fresh: "key x \<notin> key ` set d \<Longrightarrow> dict_put key x d = d @ [x]"
  by (induction d) auto

lemma dict_values_distinct: "distinct (map key xs) \<Longrightarrow> dict_values key xs = xs"
proof (induction xs rule: rev_induct)
  case (snoc x xs)
  then show ?case by (simp add: dict_values_def dict_put_fresh)
qed (simp add: dict_values_def)

text \<open>\<^theory_text>\<open>tuple(dict.fromkeys(xs))\<close>\<close>

definition unique_in_order :: "'a list \<Rightarrow> 'a list" where
  "unique_in_order xs = rev (remdups (rev xs))"

fun nat_text :: "nat \<Rightarrow> string" where
  "nat_text n = (if n < 10 then [char_of (48 + n)] else nat_text (n div 10) @ [char_of (48 + n mod 10)])"

declare nat_text.simps [simp del]

definition int_text :: "int \<Rightarrow> string" where
  "int_text n = (if n < 0 then CHR ''-'' # nat_text (nat (- n)) else nat_text (nat n))"

end
