(* ===== verification/Numeric.thy ===== *)
theory Numeric
  imports Prelude Complex_Main
begin

text \<open>
  Python's two inexact number types, as correctly rounded rational arithmetic.
  \<open>rnd b p\<close> rounds a rational to \<open>p\<close> significant digits in base \<open>b\<close>, ties to even:
  \<open>drnd = rnd 10 28\<close> is the default context of \<^theory_text>\<open>decimal.Decimal\<close> and
  \<open>frnd = rnd 2 53\<close> the rounding of a \<^theory_text>\<open>float\<close> operation.  The exponent range of either
  format is not bounded here: amounts of money and share prices stay far inside it.
  \<open>pynum\<close> adds the non-finite values that the code tests with \<^theory_text>\<open>is_finite\<close> and
  \<^theory_text>\<open>math.isfinite\<close>.
\<close>

subsection \<open>Round half to even\<close>

definition round_half_even :: "rat \<Rightarrow> int" where
  "round_half_even x =
     (let f = \<lfloor>x\<rfloor>; d = x - of_int f
      in if d < 1/2 then f else if d > 1/2 then f + 1 else if even f then f else f + 1)"

lemma round_half_even_error: "\<bar>of_int (round_half_even x) - x\<bar> \<le> 1/2"
proof -
  have f: "of_int \<lfloor>x\<rfloor> \<le> x" "x < of_int \<lfloor>x\<rfloor> + 1" by linarith+
  show ?thesis
    using f by (simp add: round_half_even_def Let_def abs_le_iff)
qed

lemma round_half_even_of_int [simp]: "round_half_even (of_int k) = k"
  by (simp add: round_half_even_def)

lemma round_half_even_mono:
  assumes "x \<le> y"
  shows "round_half_even x \<le> round_half_even y"
proof (cases "\<lfloor>x\<rfloor> = \<lfloor>y\<rfloor>")
  case True
  then show ?thesis using assms by (simp add: round_half_even_def Let_def)
next
  case False
  with assms have lt: "\<lfloor>x\<rfloor> + 1 \<le> \<lfloor>y\<rfloor>" using floor_mono [of x y] by linarith
  have "round_half_even x \<le> \<lfloor>x\<rfloor> + 1" and "\<lfloor>y\<rfloor> \<le> round_half_even y"
    by (simp_all add: round_half_even_def Let_def)
  with lt show ?thesis by linarith
qed

lemma round_half_even_minus: "round_half_even (- x) = - round_half_even x"
proof (cases "x = of_int \<lfloor>x\<rfloor>")
  case True
  then have "round_half_even x = \<lfloor>x\<rfloor>" by (simp add: round_half_even_def Let_def)
  moreover have "round_half_even (- x) = - \<lfloor>x\<rfloor>"
    using True by (metis of_int_minus round_half_even_of_int)
  ultimately show ?thesis by simp
next
  case False
  then have "of_int \<lfloor>x\<rfloor> < x" using of_int_floor_le [of x] by linarith
  then have fl: "\<lfloor>- x\<rfloor> = - \<lfloor>x\<rfloor> - 1" by linarith
  show ?thesis unfolding round_half_even_def Let_def fl by simp
qed

subsection \<open>The exponent of a positive rational\<close>

function ilog :: "int \<Rightarrow> rat \<Rightarrow> int" where
  "ilog b x = (if b < 2 \<or> x \<le> 0 then 0
     else if x \<ge> of_int b then ilog b (x / of_int b) + 1
     else if x < 1 then ilog b (x * of_int b) - 1 else 0)"
  by pat_completeness auto

definition ilog_measure :: "int \<times> rat \<Rightarrow> nat" where
  "ilog_measure = (\<lambda>(b, x). if x < 1 then nat \<lfloor>1 / x\<rfloor> else if x < of_int b then 0 else nat \<lfloor>x\<rfloor>)"

lemma floor_div_less:
  fixes x :: rat
  assumes "2 \<le> b" "1 \<le> x / of_int b"
  shows "\<lfloor>x / of_int b\<rfloor> < \<lfloor>x\<rfloor>"
proof -
  have b: "(2::rat) \<le> of_int b" using assms(1) by (metis of_int_le_iff of_int_numeral)
  define y where "y = x / of_int b"
  with b have x: "x = y * of_int b" by simp
  from assms(2) have y: "1 \<le> y" by (simp add: y_def)
  have "y * 2 \<le> y * of_int b" by (rule mult_left_mono) (use b y in linarith)+
  with x y have "y + 1 \<le> x" by linarith
  then show ?thesis unfolding y_def [symmetric] by linarith
qed

lemma ilog_measure_up:
  assumes "2 \<le> b" "of_int b \<le> x"
  shows "ilog_measure (b, x / of_int b) < ilog_measure (b, x)"
proof -
  have b: "(2::rat) \<le> of_int b" using assms(1) by (metis of_int_le_iff of_int_numeral)
  have one: "1 \<le> x / of_int b" using assms(2) b by (simp add: le_divide_eq)
  have "\<lfloor>x / of_int b\<rfloor> < \<lfloor>x\<rfloor>" by (rule floor_div_less [OF assms(1) one])
  moreover have "1 \<le> \<lfloor>x\<rfloor>" using assms(2) b by linarith
  ultimately show ?thesis using assms(2) b one by (simp add: ilog_measure_def)
qed

lemma ilog_measure_down:
  assumes "2 \<le> b" "0 < x" "x < 1"
  shows "ilog_measure (b, x * of_int b) < ilog_measure (b, x)"
proof -
  have b: "(2::rat) \<le> of_int b" using assms(1) by (metis of_int_le_iff of_int_numeral)
  have inv: "1 \<le> \<lfloor>1 / x\<rfloor>" using assms(2,3) by (simp add: le_floor_iff)
  have less: "x * of_int b < of_int b" using assms(3) b by simp
  show ?thesis
  proof (cases "x * of_int b < 1")
    case False
    then show ?thesis using less inv assms(3) by (simp add: ilog_measure_def)
  next
    case True
    have "1 \<le> 1 / x / of_int b" using True assms(2) b
      by (simp add: le_divide_eq mult.commute)
    then have "\<lfloor>1 / x / of_int b\<rfloor> < \<lfloor>1 / x\<rfloor>" by (rule floor_div_less [OF assms(1)])
    then show ?thesis using True assms(3) inv by (simp add: ilog_measure_def)
  qed
qed

termination ilog
  by (relation "measure ilog_measure") (auto simp: ilog_measure_up ilog_measure_down)

declare ilog.simps [simp del]

lemma ilog_bounds:
  assumes "2 \<le> b" "0 < x"
  shows "of_int b powi ilog b x \<le> x \<and> x < of_int b powi (ilog b x + 1)"
  using assms
proof (induction b x rule: ilog.induct)
  case (1 b x)
  have b: "(0::rat) < of_int b" using "1.prems"(1) by simp
  consider (big) "of_int b \<le> x" | (small) "x < of_int b" "x < 1" | (unit) "1 \<le> x" "x < of_int b"
    by linarith
  then show ?case
  proof cases
    case big
    have "of_int b powi ilog b (x / of_int b) \<le> x / of_int b
        \<and> x / of_int b < of_int b powi (ilog b (x / of_int b) + 1)"
      using "1.IH"(1) "1.prems" big b by simp
    then show ?thesis using big b "1.prems"
      by (subst (1 2) ilog.simps) (simp add: power_int_add field_simps power2_eq_square)
  next
    case small
    have "of_int b powi ilog b (x * of_int b) \<le> x * of_int b
        \<and> x * of_int b < of_int b powi (ilog b (x * of_int b) + 1)"
      using "1.IH"(2) "1.prems" small b by simp
    then show ?thesis using small b "1.prems"
      by (subst (1 2) ilog.simps) (simp add: power_int_add power_int_diff field_simps)
  next
    case unit
    then show ?thesis using "1.prems" b by (subst (1 2) ilog.simps) simp
  qed
qed

lemma ilog_mono:
  assumes "2 \<le> b" "0 < x" "x \<le> y"
  shows "ilog b x \<le> ilog b y"
proof (rule ccontr)
  assume "\<not> ?thesis"
  then have "ilog b y + 1 \<le> ilog b x" by simp
  moreover have "(1::rat) \<le> of_int b" using assms(1) by simp
  ultimately have "(of_int b :: rat) powi (ilog b y + 1) \<le> of_int b powi ilog b x"
    by (rule power_int_increasing)
  moreover have "y < of_int b powi (ilog b y + 1)" "of_int b powi ilog b x \<le> x"
    using ilog_bounds [of b y] ilog_bounds [of b x] assms by auto
  ultimately show False using assms(3) by linarith
qed

subsection \<open>Correct rounding to \<open>p\<close> digits\<close>

definition rnd :: "int \<Rightarrow> nat \<Rightarrow> rat \<Rightarrow> rat" where
  "rnd b p x = (if x = 0 then 0
     else let q = of_int b powi (ilog b \<bar>x\<bar> - int p + 1) in of_int (round_half_even (x / q)) * q)"

definition drnd :: "rat \<Rightarrow> rat" where
  "drnd = rnd 10 28"

definition frnd :: "rat \<Rightarrow> rat" where
  "frnd = rnd 2 53"

lemma rnd_0 [simp]: "rnd b p 0 = 0"
  by (simp add: rnd_def)

lemma rnd_minus [simp]: "rnd b p (- x) = - rnd b p x"
  by (simp add: rnd_def Let_def round_half_even_minus)

lemma rnd_error:
  assumes "2 \<le> b"
  shows "\<bar>rnd b p x - x\<bar> \<le> of_int b powi (1 - int p) / 2 * \<bar>x\<bar>"
proof (cases "x = 0")
  case False
  define q :: rat where "q = of_int b powi (ilog b \<bar>x\<bar> - int p + 1)"
  have b: "(0::rat) < of_int b" using assms by simp
  then have q: "0 < q" by (simp add: q_def)
  have "rnd b p x - x = (of_int (round_half_even (x / q)) - x / q) * q"
    using False q unfolding rnd_def q_def [symmetric] Let_def
    by (simp add: left_diff_distrib)
  then have "\<bar>rnd b p x - x\<bar> = \<bar>of_int (round_half_even (x / q)) - x / q\<bar> * q"
    using q by (simp add: abs_mult)
  also have "\<dots> \<le> 1/2 * q"
    by (rule mult_right_mono [OF round_half_even_error]) (use q in simp)
  also have "\<dots> = of_int b powi (1 - int p) / 2 * of_int b powi ilog b \<bar>x\<bar>"
    using b by (simp add: q_def power_int_add power_int_diff field_simps)
  also have "\<dots> \<le> of_int b powi (1 - int p) / 2 * \<bar>x\<bar>"
    by (rule mult_left_mono) (use ilog_bounds [OF assms, of "\<bar>x\<bar>"] False b in auto)
  finally show ?thesis .
qed simp

lemma rnd_exact:
  assumes "2 \<le> b" "x = of_int m * of_int b powi k" "\<bar>m\<bar> < b ^ p"
  shows "rnd b p x = x"
proof (cases "x = 0")
  case False
  define e where "e = ilog b \<bar>x\<bar> - int p + 1"
  have b: "(1::rat) < of_int b" using assms(1) by simp
  have "\<bar>x\<bar> = of_int \<bar>m\<bar> * of_int b powi k"
    using assms(2) b by (simp add: abs_mult power_int_abs)
  also have "\<dots> < of_int b ^ p * of_int b powi k"
    using assms(3) b by (metis mult_strict_right_mono of_int_less_iff of_int_power zero_less_power_int
        less_trans zero_less_one)
  also have "\<dots> = of_int b powi (int p + k)" using b by (simp add: power_int_add)
  finally have "(of_int b :: rat) powi ilog b \<bar>x\<bar> < of_int b powi (int p + k)"
    using ilog_bounds [OF assms(1), of "\<bar>x\<bar>"] False by simp
  then have "ilog b \<bar>x\<bar> < int p + k" 
    using power_int_increasing [of "int p + k" "ilog b \<bar>x\<bar>" "of_int b :: rat"] b by linarith
  then have e: "e \<le> k" by (simp add: e_def)
  have "x / of_int b powi e = of_int (m * b ^ nat (k - e))"
  proof -
    have "(of_int b :: rat) powi k = of_int b powi (k - e) * of_int b powi e"
      using b by (simp add: power_int_add [symmetric])
    moreover have "(of_int b :: rat) powi (k - e) = of_int b ^ nat (k - e)"
      using e by (simp add: power_int_def)
    ultimately show ?thesis using assms(2) b by simp
  qed
  then have "of_int (round_half_even (x / of_int b powi e)) = x / (of_int b :: rat) powi e"
    by (metis round_half_even_of_int)
  then show ?thesis using False b by (simp add: rnd_def Let_def e_def [symmetric])
qed simp

lemma rnd_pos_bounds:
  assumes "2 \<le> b" "1 \<le> p" "0 < x"
  shows "of_int b powi ilog b x \<le> rnd b p x \<and> rnd b p x \<le> of_int b powi (ilog b x + 1)"
proof -
  define q :: rat where "q = of_int b powi (ilog b x - int p + 1)"
  have b: "(0::rat) < of_int b" using assms(1) by simp
  then have q: "0 < q" by (simp add: q_def)
  have up: "of_int (b ^ p) * q = of_int b powi (ilog b x + 1)"
    using b by (simp add: q_def power_int_add power_int_diff)
  have low: "of_int (b ^ (p - 1)) * q = of_int b powi ilog b x"
  proof -
    have "(of_int b :: rat) powi ilog b x = of_int b powi (int (p - 1) + (ilog b x - int p + 1))"
      using assms(2) by (intro arg_cong [where f = "\<lambda>k. of_int b powi k"]) simp
    also have "\<dots> = of_int b powi int (p - 1) * q"
      unfolding q_def by (rule power_int_add) (use b in simp)
    finally show ?thesis by simp
  qed
  have "x / q \<le> of_int (b ^ p)" "of_int (b ^ (p - 1)) \<le> x / q"
    using ilog_bounds [OF assms(1,3)] q unfolding up [symmetric] low [symmetric]
    by (simp_all add: pos_divide_le_eq pos_le_divide_eq)
  then have "round_half_even (x / q) \<le> b ^ p" "b ^ (p - 1) \<le> round_half_even (x / q)"
    using round_half_even_mono round_half_even_of_int by metis+
  then have "of_int (round_half_even (x / q)) * q \<le> of_int (b ^ p) * q"
    "of_int (b ^ (p - 1)) * q \<le> of_int (round_half_even (x / q)) * q"
    using q by (auto intro!: mult_right_mono simp del: of_int_power)
  moreover have "rnd b p x = of_int (round_half_even (x / q)) * q"
    using assms(3) by (simp add: rnd_def Let_def q_def)
  ultimately show ?thesis unfolding up low by simp
qed

lemma rnd_pos: "2 \<le> b \<Longrightarrow> 1 \<le> p \<Longrightarrow> 0 < x \<Longrightarrow> 0 < rnd b p x"
  using rnd_pos_bounds [of b p x] zero_less_power_int [of "of_int b :: rat" "ilog b x"]
  by (metis less_le_trans of_int_pos zero_less_numeral)

lemma rnd_mono_pos:
  assumes "2 \<le> b" "1 \<le> p" "0 < x" "x \<le> y"
  shows "rnd b p x \<le> rnd b p y"
proof (cases "ilog b x = ilog b y")
  case True
  have "(0::rat) < of_int b powi (ilog b y - int p + 1)" using assms(1) by simp
  then show ?thesis using assms True
    by (auto simp: rnd_def Let_def intro!: mult_right_mono round_half_even_mono divide_right_mono)
next
  case False
  with ilog_mono [OF assms(1,3,4)] have "ilog b x + 1 \<le> ilog b y" by simp
  then have "(of_int b :: rat) powi (ilog b x + 1) \<le> of_int b powi ilog b y"
    by (rule power_int_increasing) (use assms(1) in simp)
  then show ?thesis
    using rnd_pos_bounds [OF assms(1,2,3)] rnd_pos_bounds [OF assms(1,2), of y] assms(3,4) by simp
qed

lemma rnd_mono:
  assumes "2 \<le> b" "1 \<le> p" "x \<le> y"
  shows "rnd b p x \<le> rnd b p y"
proof -
  consider "0 < x" | "y < 0" | "x \<le> 0" "0 \<le> y" by linarith
  then show ?thesis
  proof cases
    case 1
    then show ?thesis using rnd_mono_pos assms by blast
  next
    case 2
    then have "rnd b p (- y) \<le> rnd b p (- x)" using assms by (intro rnd_mono_pos) auto
    then show ?thesis by simp
  next
    case 3
    have "rnd b p x \<le> 0"
      using 3 rnd_pos [OF assms(1,2), of "- x"] by (cases "x = 0") (auto simp: less_le)
    moreover have "0 \<le> rnd b p y"
      using 3 rnd_pos [OF assms(1,2), of y] by (cases "y = 0") (auto simp: less_le)
    ultimately show ?thesis by simp
  qed
qed

lemma rnd_round_bound:
  assumes "2 \<le> b" "1 \<le> p" "x \<noteq> 0"
  shows "\<bar>round_half_even (x / of_int b powi (ilog b \<bar>x\<bar> - int p + 1))\<bar> \<le> b ^ p"
proof -
  define q :: rat where "q = of_int b powi (ilog b \<bar>x\<bar> - int p + 1)"
  have b: "(0::rat) < of_int b" using assms(1) by simp
  then have q: "0 < q" by (simp add: q_def)
  have "of_int (b ^ p) * q = of_int b powi (ilog b \<bar>x\<bar> + 1)"
    using b by (simp add: q_def power_int_add power_int_diff)
  then have "\<bar>x\<bar> < of_int (b ^ p) * q" using ilog_bounds [OF assms(1), of "\<bar>x\<bar>"] assms(3) by simp
  then have "x / q \<le> of_int (b ^ p)" "of_int (- (b ^ p)) \<le> x / q"
    using q by (auto simp: pos_divide_le_eq pos_le_divide_eq abs_less_iff)
  then have "round_half_even (x / q) \<le> b ^ p" "- (b ^ p) \<le> round_half_even (x / q)"
    using round_half_even_mono round_half_even_of_int by metis+
  then show ?thesis unfolding q_def by (simp add: abs_le_iff)
qed

lemma rnd_idem [simp]:
  assumes "2 \<le> b" "1 \<le> p"
  shows "rnd b p (rnd b p x) = rnd b p x"
proof (cases "x = 0")
  case False
  define k m where "k = ilog b \<bar>x\<bar> - int p + 1" and "m = round_half_even (x / of_int b powi k)"
  have b: "(0::rat) < of_int b" using assms(1) by simp
  have r: "rnd b p x = of_int m * of_int b powi k" using False by (simp add: rnd_def k_def m_def Let_def)
  have m: "\<bar>m\<bar> \<le> b ^ p" using rnd_round_bound [OF assms False] by (simp add: m_def k_def)
  show ?thesis
  proof (cases "\<bar>m\<bar> = b ^ p")
    case True
    then have "rnd b p x = of_int (sgn m) * of_int b powi (int p + k)"
      using b unfolding r by (subst sgn_mult_abs [symmetric]) (simp add: power_int_add)
    moreover have "\<bar>sgn m\<bar> < b ^ p" using assms one_less_power [of b p] by (auto simp: sgn_if)
    ultimately show ?thesis using rnd_exact [OF assms(1)] by blast
  next
    case False
    then show ?thesis using rnd_exact [OF assms(1) r] m by simp
  qed
qed simp

subsection \<open>What a client may assume of a rounding\<close>

locale rounding =
  fixes r :: "rat \<Rightarrow> rat" and eps :: rat
  assumes r_mono: "x \<le> y \<Longrightarrow> r x \<le> r y"
    and r_0: "r 0 = 0"
    and r_pos: "0 < x \<Longrightarrow> 0 < r x"
    and r_error: "\<bar>r x - x\<bar> \<le> eps * \<bar>x\<bar>"
    and eps_pos: "0 \<le> eps"
begin

lemma nonneg: "0 \<le> x \<Longrightarrow> 0 \<le> r x"
  using r_mono [of 0 x] r_0 by simp

lemma nonpos: "x \<le> 0 \<Longrightarrow> r x \<le> 0"
  using r_mono [of x 0] r_0 by simp

lemma upper_bound: "0 \<le> x \<Longrightarrow> r x \<le> x * (1 + eps)"
  using r_error [of x] by (simp add: algebra_simps abs_le_iff)

lemma lower_bound: "0 \<le> x \<Longrightarrow> x * (1 - eps) \<le> r x"
  using r_error [of x] by (simp add: algebra_simps abs_le_iff)

text \<open>A quantity bought with a rounded quotient costs the budget up to the rounding error.\<close>

lemma floor_quotient_within:
  assumes "0 < u" "0 \<le> budget" "q \<le> \<lfloor>r (budget / u)\<rfloor>" "0 \<le> q"
  shows "u * of_int q \<le> budget * (1 + eps)"
proof -
  have "of_int q \<le> r (budget / u)" using assms(3) by linarith
  also have "\<dots> \<le> budget / u * (1 + eps)" by (rule upper_bound) (use assms in simp)
  finally have "u * of_int q \<le> u * (budget / u * (1 + eps))"
    by (rule mult_left_mono) (use assms in simp)
  then show ?thesis using assms(1) by simp
qed

end

definition deps :: rat where
  "deps = 1 / (2 * 10 ^ 27)"

definition feps :: rat where
  "feps = 1 / 2 ^ 53"

interpretation dec: rounding drnd deps
proof unfold_locales
  fix x y :: rat
  show "x \<le> y \<Longrightarrow> drnd x \<le> drnd y" unfolding drnd_def by (rule rnd_mono) simp_all
  show "drnd 0 = 0" by (simp add: drnd_def)
  show "0 < x \<Longrightarrow> 0 < drnd x" unfolding drnd_def by (rule rnd_pos) simp_all
  show "\<bar>drnd x - x\<bar> \<le> deps * \<bar>x\<bar>"
    using rnd_error [of 10 28 x] by (simp add: drnd_def deps_def power_int_def power_inverse power_one_over)
  show "0 \<le> deps" by (simp add: deps_def)
qed

interpretation flt: rounding frnd feps
proof unfold_locales
  fix x y :: rat
  show "x \<le> y \<Longrightarrow> frnd x \<le> frnd y" unfolding frnd_def by (rule rnd_mono) simp_all
  show "frnd 0 = 0" by (simp add: frnd_def)
  show "0 < x \<Longrightarrow> 0 < frnd x" unfolding frnd_def by (rule rnd_pos) simp_all
  show "\<bar>frnd x - x\<bar> \<le> feps * \<bar>x\<bar>"
    using rnd_error [of 2 53 x] by (simp add: frnd_def feps_def power_int_def power_inverse power_one_over)
  show "0 \<le> feps" by (simp add: feps_def)
qed

lemma drnd_exact: "x = of_int m / 10 ^ k \<Longrightarrow> \<bar>m\<bar> < 10 ^ 28 \<Longrightarrow> drnd x = x"
  unfolding drnd_def
  by (rule rnd_exact [of 10 x m "- int k"]) (simp_all add: power_int_minus divide_inverse)

lemma drnd_of_int [simp]: "\<bar>k\<bar> < 10 ^ 28 \<Longrightarrow> drnd (of_int k) = of_int k"
  by (rule drnd_exact [of _ k 0]) simp_all

lemma drnd_minus [simp]: "drnd (- x) = - drnd x"
  by (simp add: drnd_def)

lemma drnd_idem [simp]: "drnd (drnd x) = drnd x"
  by (simp add: drnd_def)

lemma frnd_idem [simp]: "frnd (frnd x) = frnd x"
  by (simp add: frnd_def)

lemma drnd_0 [simp]: "drnd 0 = 0"
  by (rule dec.r_0)

text \<open>Values with few digits are not rounded; the evaluation of concrete inputs goes this way.\<close>

lemma rnd_few_digits:
  assumes "2 \<le> b" "quotient_of x = (n, d)" "d dvd b ^ k" "\<bar>n\<bar> * (b ^ k div d) < b ^ p"
  shows "rnd b p x = x"
proof (rule rnd_exact [OF assms(1)])
  have d: "0 < d" and x: "x = of_int n / of_int d"
    using quotient_of_denom_pos [OF assms(2)] quotient_of_div [OF assms(2)] by auto
  have b: "(0::rat) < of_int b" using assms(1) by simp
  have "(of_int b :: rat) ^ k = of_int d * of_int (b ^ k div d)"
    using assms(3) by (metis dvd_mult_div_cancel of_int_mult of_int_power)
  moreover have "(of_int b :: rat) ^ k \<noteq> 0" using b by simp
  ultimately have "x = of_int n * of_int (b ^ k div d) / of_int b ^ k"
    using d unfolding x by (metis mult_divide_mult_cancel_right mult_zero_right)
  also have "\<dots> = of_int (n * (b ^ k div d)) * of_int b powi - int k"
    using b by (simp add: power_int_minus divide_inverse)
  finally show "x = of_int (n * (b ^ k div d)) * of_int b powi - int k" .
  have "0 \<le> b ^ k div d" using assms(1) d by (simp add: pos_imp_zdiv_nonneg_iff)
  then show "\<bar>n * (b ^ k div d)\<bar> < b ^ p" using assms(4) by (simp add: abs_mult)
qed

lemma drnd_code [code]:
  "drnd x = (let (n, d) = quotient_of x in
     if d dvd 10 ^ 14 \<and> \<bar>n\<bar> * (10 ^ 14 div d) < 10 ^ 28 then x else rnd 10 28 x)"
  using rnd_few_digits [of 10 x _ _ 14 28] by (auto simp: drnd_def split: prod.split)

lemma frnd_code [code]:
  "frnd x = (let (n, d) = quotient_of x in
     if d dvd 2 ^ 24 \<and> \<bar>n\<bar> * (2 ^ 24 div d) < 2 ^ 53 then x else rnd 2 53 x)"
  using rnd_few_digits [of 2 x _ _ 24 53] by (auto simp: frnd_def split: prod.split)

subsection \<open>Numbers that may be non-finite\<close>

datatype pynum = Finite rat | PInf | NInf | NaN

fun is_finite :: "pynum \<Rightarrow> bool" where
  "is_finite (Finite _) = True"
| "is_finite _ = False"

text \<open>The value of a finite number; read only behind a finiteness test.\<close>

fun rv :: "pynum \<Rightarrow> rat" where
  "rv (Finite q) = q"
| "rv _ = 0"

lemma is_finite_iff: "is_finite x \<longleftrightarrow> x = Finite (rv x)"
  by (cases x) auto

text \<open>\<^theory_text>\<open>==\<close>, \<^theory_text>\<open><\<close> and \<^theory_text>\<open><=\<close>: a NaN compares with nothing.\<close>

definition num_eq :: "pynum \<Rightarrow> pynum \<Rightarrow> bool" where
  "num_eq x y \<longleftrightarrow> x = y \<and> x \<noteq> NaN"

instantiation pynum :: ord
begin

fun less_pynum :: "pynum \<Rightarrow> pynum \<Rightarrow> bool" where
  "less_pynum (Finite a) (Finite b) = (a < b)"
| "less_pynum (Finite _) PInf = True"
| "less_pynum NInf (Finite _) = True"
| "less_pynum NInf PInf = True"
| "less_pynum _ _ = False"

definition less_eq_pynum :: "pynum \<Rightarrow> pynum \<Rightarrow> bool" where
  "less_eq_pynum x y \<longleftrightarrow> x < y \<or> num_eq x y"

instance ..

end

lemma less_eq_Finite [simp]: "Finite a \<le> Finite b \<longleftrightarrow> a \<le> b"
  by (auto simp: less_eq_pynum_def num_eq_def)

lemma num_eq_Finite [simp]: "num_eq x (Finite a) \<longleftrightarrow> x = Finite a" "num_eq (Finite a) x \<longleftrightarrow> x = Finite a"
  by (auto simp: num_eq_def)

lemma finite_compare:
  assumes "is_finite x"
  shows "Finite a < x \<longleftrightarrow> a < rv x" "x < Finite a \<longleftrightarrow> rv x < a"
    "Finite a \<le> x \<longleftrightarrow> a \<le> rv x" "x \<le> Finite a \<longleftrightarrow> rv x \<le> a"
  using assms by (cases x; simp)+

lemma finite_between: "Finite a \<le> x \<Longrightarrow> x \<le> Finite b \<Longrightarrow> is_finite x"
  by (cases x) (auto simp: less_eq_pynum_def num_eq_def)

fun num_add :: "pynum \<Rightarrow> pynum \<Rightarrow> pynum" where
  "num_add (Finite a) (Finite b) = Finite (drnd (a + b))"
| "num_add NaN _ = NaN"
| "num_add _ NaN = NaN"
| "num_add PInf NInf = NaN"
| "num_add NInf PInf = NaN"
| "num_add PInf _ = PInf"
| "num_add _ PInf = PInf"
| "num_add NInf _ = NInf"
| "num_add _ NInf = NInf"

fun num_neg :: "pynum \<Rightarrow> pynum" where
  "num_neg (Finite a) = Finite (- a)"
| "num_neg PInf = NInf"
| "num_neg NInf = PInf"
| "num_neg NaN = NaN"

definition num_sub :: "pynum \<Rightarrow> pynum \<Rightarrow> pynum" where
  "num_sub x y = num_add x (num_neg y)"

lemma num_sub_Finite [simp]: "num_sub (Finite a) (Finite b) = Finite (drnd (a - b))"
  by (simp add: num_sub_def)

definition num_sign :: "pynum \<Rightarrow> rat" where
  "num_sign x = (case x of Finite a \<Rightarrow> sgn a | PInf \<Rightarrow> 1 | NInf \<Rightarrow> - 1 | NaN \<Rightarrow> 0)"

definition signed_inf :: "rat \<Rightarrow> pynum" where
  "signed_inf s = (if s > 0 then PInf else if s < 0 then NInf else NaN)"

text \<open>\<^theory_text>\<open>Decimal\<close> raises where the product or quotient below is \<open>NaN\<close> without a \<open>NaN\<close> operand.\<close>

definition num_mul :: "pynum \<Rightarrow> pynum \<Rightarrow> pynum" where
  "num_mul x y =
     (case (x, y) of
        (Finite a, Finite b) \<Rightarrow> Finite (drnd (a * b))
      | _ \<Rightarrow> signed_inf (num_sign x * num_sign y))"

definition num_div :: "pynum \<Rightarrow> pynum \<Rightarrow> pynum" where
  "num_div x y =
     (case (x, y) of
        (Finite a, Finite b) \<Rightarrow> if b = 0 then NaN else Finite (drnd (a / b))
      | (Finite _, PInf) \<Rightarrow> Finite 0
      | (Finite _, NInf) \<Rightarrow> Finite 0
      | (_, Finite b) \<Rightarrow> signed_inf (num_sign x * (if b < 0 then - 1 else 1))
      | _ \<Rightarrow> NaN)"

lemma num_mul_Finite [simp]: "num_mul (Finite a) (Finite b) = Finite (drnd (a * b))"
  by (simp add: num_mul_def)

lemma num_div_Finite [simp]: "b \<noteq> 0 \<Longrightarrow> num_div (Finite a) (Finite b) = Finite (drnd (a / b))"
  by (simp add: num_div_def)

definition num_max :: "pynum \<Rightarrow> pynum \<Rightarrow> pynum" where
  "num_max x y = (if x < y then y else x)"

definition num_min :: "pynum \<Rightarrow> pynum \<Rightarrow> pynum" where
  "num_min x y = (if y < x then y else x)"

definition opt_num_eq :: "pynum option \<Rightarrow> pynum option \<Rightarrow> bool" where
  "opt_num_eq x y = (case (x, y) of (None, None) \<Rightarrow> True | (Some a, Some b) \<Rightarrow> num_eq a b | _ \<Rightarrow> False)"

fun num_abs :: "pynum \<Rightarrow> pynum" where
  "num_abs (Finite a) = Finite \<bar>a\<bar>"
| "num_abs NaN = NaN"
| "num_abs _ = PInf"

text \<open>\<^theory_text>\<open>sum(..., start=Decimal(0))\<close>, and \<^theory_text>\<open>value == value.to_integral_value()\<close> of a finite value.\<close>

definition num_sum :: "pynum list \<Rightarrow> pynum" where
  "num_sum xs = foldl num_add (Finite 0) xs"

definition is_integral :: "rat \<Rightarrow> bool" where
  "is_integral q \<longleftrightarrow> of_int \<lfloor>q\<rfloor> = q"

lemma num_add_finite: "is_finite (num_add x y) \<longleftrightarrow> is_finite x \<and> is_finite y"
  by (cases x; cases y) auto

lemma foldl_num_add_finite:
  "is_finite (foldl num_add a xs) \<longleftrightarrow> is_finite a \<and> list_all is_finite xs"
  by (induction xs arbitrary: a) (auto simp: num_add_finite)

lemma num_sum_finite: "is_finite (num_sum xs) \<longleftrightarrow> list_all is_finite xs"
  by (simp add: num_sum_def foldl_num_add_finite)

end
