(* ===== verification/Clock.thy ===== *)
theory Clock
  imports Numeric
begin

text \<open>
  Python's \<^theory_text>\<open>datetime\<close>.  An aware datetime is the instant it denotes, in microseconds
  since 0001-01-01T00:00 UTC; a naive one keeps its own constructor, because the code tests for
  it.  A date is its proleptic Gregorian ordinal (\<^theory_text>\<open>date.toordinal\<close>), a local wall clock
  reading is an integer of microseconds on the same scale.  \<open>ny\<close> is
  \<^theory_text>\<open>astimezone(NEW_YORK)\<close> by the daylight-saving rule in force since 2007, which covers
  every year of the exchange calendar; \<open>kst\<close> is the fixed offset of Seoul.
\<close>

datatype pydt = Aware int | Naive int

fun is_aware :: "pydt \<Rightarrow> bool" where
  "is_aware (Aware _) = True"
| "is_aware (Naive _) = False"

text \<open>The instant of an aware datetime; read only behind an awareness test.\<close>

fun instant :: "pydt \<Rightarrow> int" where
  "instant (Aware i) = i"
| "instant (Naive i) = i"

abbreviation second_us :: int where "second_us \<equiv> 1000000"
abbreviation minute_us :: int where "minute_us \<equiv> 60000000"
abbreviation hour_us :: int where "hour_us \<equiv> 3600000000"
abbreviation day_us :: int where "day_us \<equiv> 86400000000"

subsection \<open>Dates\<close>

definition is_leap :: "int \<Rightarrow> bool" where
  "is_leap y \<longleftrightarrow> y mod 4 = 0 \<and> (y mod 100 \<noteq> 0 \<or> y mod 400 = 0)"

definition days_before_year :: "int \<Rightarrow> int" where
  "days_before_year y = (y - 1) * 365 + (y - 1) div 4 - (y - 1) div 100 + (y - 1) div 400"

definition days_before_month :: "int \<Rightarrow> int \<Rightarrow> int" where
  "days_before_month y m =
     [0, 0, 31, 59, 90, 120, 151, 181, 212, 243, 273, 304, 334] ! nat m
       + (if m > 2 \<and> is_leap y then 1 else 0)"

definition ymd2ord :: "int \<Rightarrow> int \<Rightarrow> int \<Rightarrow> int" where
  "ymd2ord y m d = days_before_year y + days_before_month y m + d"

definition year_of :: "int \<Rightarrow> int" where
  "year_of ord =
     (let n = ord - 1;
          n400 = n div 146097; n = n mod 146097;
          n100 = n div 36524; n = n mod 36524;
          n4 = n div 1461; n = n mod 1461;
          n1 = n div 365;
          year = n400 * 400 + 1 + n100 * 100 + n4 * 4 + n1
      in if n1 = 4 \<or> n100 = 4 then year - 1 else year)"

definition weekday :: "int \<Rightarrow> int" where
  "weekday ord = (ord + 6) mod 7"

subsection \<open>Wall clocks\<close>

definition wall_date :: "int \<Rightarrow> int" where
  "wall_date w = w div day_us + 1"

definition wall_time :: "int \<Rightarrow> int" where
  "wall_time w = w mod day_us"

definition combine :: "int \<Rightarrow> int \<Rightarrow> int" where
  "combine d t = (d - 1) * day_us + t"

text \<open>\<^theory_text>\<open>replace(second=0, microsecond=0)\<close>\<close>

definition floor_minute :: "int \<Rightarrow> int" where
  "floor_minute w = w - w mod minute_us"

definition time_of :: "int \<Rightarrow> int \<Rightarrow> int" where
  "time_of h m = h * hour_us + m * minute_us"

lemma wall_date_combine [simp]: "0 \<le> t \<Longrightarrow> t < day_us \<Longrightarrow> wall_date (combine d t) = d"
  by (simp add: wall_date_def combine_def)

lemma wall_time_combine [simp]: "0 \<le> t \<Longrightarrow> t < day_us \<Longrightarrow> wall_time (combine d t) = t"
  unfolding wall_time_def combine_def by (simp only: mod_mult_self3 mod_pos_pos_trivial)

lemma combine_wall [simp]: "combine (wall_date w) (wall_time w) = w"
  by (simp add: combine_def wall_date_def wall_time_def)

lemma wall_time_bounds: "0 \<le> wall_time w" "wall_time w < day_us"
  by (simp_all add: wall_time_def)

lemma combine_mono: "d \<le> d' \<Longrightarrow> t \<le> t' \<Longrightarrow> combine d t \<le> combine d' t'"
  by (simp add: combine_def)

lemma wall_date_between: "combine d t \<le> w \<Longrightarrow> w < combine d t' \<Longrightarrow> 0 \<le> t \<Longrightarrow> t' \<le> day_us \<Longrightarrow> wall_date w = d"
  unfolding combine_def wall_date_def using div_mult_mod_eq [of w day_us] pos_mod_bound [of day_us w]
    pos_mod_sign [of day_us w] by simp

lemma floor_minute_le: "floor_minute w \<le> w" "w < floor_minute w + minute_us"
proof -
  have "0 \<le> w mod minute_us" "w mod minute_us < minute_us" by simp_all
  then show "floor_minute w \<le> w" "w < floor_minute w + minute_us"
    unfolding floor_minute_def by linarith+
qed

lemma floor_minute_dvd: "minute_us dvd floor_minute w"
  unfolding floor_minute_def by (metis dvd_minus_mod)

lemma floor_minute_idem [simp]: "floor_minute (floor_minute w) = floor_minute w"
  using floor_minute_dvd [of w] by (auto simp: floor_minute_def)

lemma floor_minute_date [simp]: "wall_date (floor_minute w) = wall_date w"
proof -
  have "w mod minute_us = (w mod day_us) mod minute_us"
    using mod_mod_cancel [of minute_us day_us w] by simp
  then have "w mod minute_us \<le> w mod day_us"
    using zmod_le_nonneg_dividend [of "w mod day_us" minute_us] by simp
  moreover have "w = w div day_us * day_us + w mod day_us" by simp
  moreover have "0 \<le> w mod minute_us" "w mod day_us < day_us" by simp_all
  ultimately have "w div day_us * day_us \<le> w - w mod minute_us"
    "w - w mod minute_us < w div day_us * day_us + day_us"
    by linarith+
  then show ?thesis unfolding wall_date_def floor_minute_def by linarith
qed

subsection \<open>New York and Seoul\<close>

definition first_sunday :: "int \<Rightarrow> int \<Rightarrow> int" where
  "first_sunday y m = (let f = ymd2ord y m 1 in f + (6 - weekday f) mod 7)"

text \<open>Offset from UTC of an instant, and (with \<^theory_text>\<open>fold=0\<close>) of a wall clock reading.\<close>

definition ny_offset :: "int \<Rightarrow> int" where
  "ny_offset i =
     (let y = year_of (wall_date i)
      in if combine (first_sunday y 3 + 7) (7 * hour_us) \<le> i \<and> i < combine (first_sunday y 11) (6 * hour_us)
         then - 4 * hour_us else - 5 * hour_us)"

definition ny_wall_offset :: "int \<Rightarrow> int" where
  "ny_wall_offset w =
     (let y = year_of (wall_date w)
      in if combine (first_sunday y 3 + 7) (3 * hour_us) \<le> w \<and> w < combine (first_sunday y 11) (2 * hour_us)
         then - 4 * hour_us else - 5 * hour_us)"

definition ny :: "int \<Rightarrow> int" where
  "ny i = i + ny_offset i"

definition ny_utc :: "int \<Rightarrow> int" where
  "ny_utc w = w - ny_wall_offset w"

definition kst :: "int \<Rightarrow> int" where
  "kst i = i + 9 * hour_us"

definition kst_utc :: "int \<Rightarrow> int" where
  "kst_utc w = w - 9 * hour_us"

lemma ny_bounds: "i - 5 * hour_us \<le> ny i" "ny i \<le> i - 4 * hour_us"
  by (simp_all add: ny_def ny_offset_def Let_def)

lemma ny_utc_bounds: "w + 4 * hour_us \<le> ny_utc w" "ny_utc w \<le> w + 5 * hour_us"
  by (simp_all add: ny_utc_def ny_wall_offset_def Let_def)

lemma kst_kst_utc [simp]: "kst (kst_utc w) = w" "kst_utc (kst i) = i"
  by (simp_all add: kst_def kst_utc_def)

text \<open>A later New York date is a later instant, although the clocks go back once a year.\<close>

lemma ny_date_before:
  assumes "wall_date (ny a) < wall_date (ny b)"
  shows "a < b"
proof (rule ccontr)
  assume "\<not> a < b"
  then have ba: "b < a" using assms by (cases "a = b") simp_all
  define m where "m = wall_date (ny a) * day_us"
  have "ny a < m" "m \<le> ny b"
    using assms div_mult_mod_eq [of "ny a" day_us] pos_mod_bound [of day_us "ny a"]
      div_mult_mod_eq [of "ny b" day_us] pos_mod_sign [of day_us "ny b"]
    by (simp_all add: m_def wall_date_def)
  then have turn: "ny_offset b = - 4 * hour_us" "ny_offset a = - 5 * hour_us"
    using ba by (auto simp: ny_def ny_offset_def Let_def split: if_splits)
  then have t: "m + 4 * hour_us \<le> b" "a < m + 5 * hour_us"
    using \<open>ny a < m\<close> \<open>m \<le> ny b\<close> by (simp_all add: ny_def)
  have day: "wall_date i = wall_date (ny a) + 1" if "m + 4 * hour_us \<le> i" "i < m + 5 * hour_us" for i
    by (rule wall_date_between [of _ "4 * hour_us" _ "5 * hour_us"]) (use that in \<open>simp_all add: combine_def m_def\<close>)
  have "wall_date a = wall_date b" using day [of a] day [of b] t ba by simp
  then have "b < combine (first_sunday (year_of (wall_date b)) 11) (6 * hour_us)"
      "combine (first_sunday (year_of (wall_date b)) 11) (6 * hour_us) \<le> a"
    using turn ba by (auto simp: ny_offset_def Let_def split: if_splits)
  then have turn: "b < first_sunday (year_of (wall_date b)) 11 * day_us - 18 * hour_us"
      "first_sunday (year_of (wall_date b)) 11 * day_us - 18 * hour_us \<le> a"
    by (simp_all add: combine_def)
  then have "first_sunday (year_of (wall_date b)) 11 * day_us < (wall_date (ny a) + 1) * day_us"
    using t unfolding m_def by simp
  then have "first_sunday (year_of (wall_date b)) 11 \<le> wall_date (ny a)" by simp
  then have "first_sunday (year_of (wall_date b)) 11 * day_us \<le> m" unfolding m_def by simp
  then show False using t(1) turn(1) by simp
qed

subsection \<open>Ages\<close>

text \<open>
  The freshness test of the execution plane: both datetimes aware and the age between zero and
  a bound.
\<close>

definition is_current_within :: "int \<Rightarrow> pydt \<Rightarrow> pydt \<Rightarrow> bool" where
  "is_current_within max_age now observed_at \<longleftrightarrow>
     is_aware now \<and> is_aware observed_at
     \<and> 0 \<le> instant now - instant observed_at \<and> instant now - instant observed_at \<le> max_age"

end
