(* ===== verification/Us_Equity_Calendar.thy ===== *)
theory Us_Equity_Calendar
  imports Clock
begin

text \<open>
  \<^verbatim>\<open>trading_agent/us_equity_calendar.py\<close> and the session predicates of
  \<^verbatim>\<open>trading_agent/kis_live.py\<close>: the published XNYS calendar of 2023 to 2028, the
  bounds of a regular session as New York wall clock readings, and the search for the next
  session.  \<open>session_calendar\<close> states what the gates rely on of a calendar; the code's
  calendar is its interpretation \<open>xnys\<close>.
\<close>

subsection \<open>The published calendar\<close>

definition regular_open :: int where "regular_open = time_of 9 30"
definition regular_close :: int where "regular_close = time_of 16 0"
definition early_close :: int where "early_close = time_of 13 0"

definition published_calendar_years :: "int list" where
  "published_calendar_years = [2023..2028]"

definition full_day_holidays :: "(int \<times> int \<times> int) list" where
  "full_day_holidays = [
    (2023, 1, 2), (2023, 1, 16), (2023, 2, 20), (2023, 4, 7), (2023, 5, 29), (2023, 6, 19),
    (2023, 7, 4), (2023, 9, 4), (2023, 11, 23), (2023, 12, 25), (2024, 1, 1), (2024, 1, 15),
    (2024, 2, 19), (2024, 3, 29), (2024, 5, 27), (2024, 6, 19), (2024, 7, 4), (2024, 9, 2),
    (2024, 11, 28), (2024, 12, 25), (2025, 1, 1), (2025, 1, 9), (2025, 1, 20), (2025, 2, 17),
    (2025, 4, 18), (2025, 5, 26), (2025, 6, 19), (2025, 7, 4), (2025, 9, 1), (2025, 11, 27),
    (2025, 12, 25), (2026, 1, 1), (2026, 1, 19), (2026, 2, 16), (2026, 4, 3), (2026, 5, 25),
    (2026, 6, 19), (2026, 7, 3), (2026, 9, 7), (2026, 11, 26), (2026, 12, 25), (2027, 1, 1),
    (2027, 1, 18), (2027, 2, 15), (2027, 3, 26), (2027, 5, 31), (2027, 6, 18), (2027, 7, 5),
    (2027, 9, 6), (2027, 11, 25), (2027, 12, 24), (2028, 1, 17), (2028, 2, 21), (2028, 4, 14),
    (2028, 5, 29), (2028, 6, 19), (2028, 7, 4), (2028, 9, 4), (2028, 11, 23), (2028, 12, 25)]"

definition early_close_days :: "(int \<times> int \<times> int) list" where
  "early_close_days = [
    (2023, 7, 3), (2023, 11, 24), (2024, 7, 3), (2024, 11, 29), (2024, 12, 24), (2025, 7, 3),
    (2025, 11, 28), (2025, 12, 24), (2026, 11, 27), (2026, 12, 24), (2027, 11, 26), (2028, 7, 3),
    (2028, 11, 24)]"

definition date_in :: "int \<Rightarrow> (int \<times> int \<times> int) list \<Rightarrow> bool" where
  "date_in d ds \<longleftrightarrow> list_ex (\<lambda>(y, m, day). ymd2ord y m day = d) ds"

definition regular_session_bounds :: "int \<Rightarrow> (int \<times> int) option" where
  "regular_session_bounds session_date =
     (if year_of session_date \<notin> set published_calendar_years
         \<or> weekday session_date \<ge> 5
         \<or> date_in session_date full_day_holidays
      then None
      else let close_time = (if date_in session_date early_close_days then early_close else regular_close)
           in Some (combine session_date regular_open, combine session_date close_time))"

definition last_published_date :: int where
  "last_published_date = ymd2ord (foldr max published_calendar_years 0) 12 31"

function next_session_from :: "int \<Rightarrow> int option" where
  "next_session_from candidate =
     (if candidate \<le> last_published_date
      then if regular_session_bounds candidate \<noteq> None then Some candidate
           else next_session_from (candidate + 1)
      else None)"
  by pat_completeness auto
termination
  by (relation "measure (\<lambda>c. nat (last_published_date + 1 - c))") auto

declare next_session_from.simps [simp del]

text \<open>\<open>None\<close> stands for \<^theory_text>\<open>UnsupportedUsEquityCalendarDateError\<close>.\<close>

definition next_regular_session :: "int \<Rightarrow> int option" where
  "next_regular_session after = next_session_from (after + 1)"

subsection \<open>Session predicates\<close>

definition premarket_open :: int where "premarket_open = time_of 4 0"
definition daytime_open :: int where "daytime_open = time_of 10 0"

definition regular_session_is_open :: "int \<Rightarrow> bool" where
  "regular_session_is_open observed_at =
     (let current = ny observed_at
      in case regular_session_bounds (wall_date current) of
           None \<Rightarrow> False
         | Some (opens, closes) \<Rightarrow> opens \<le> current \<and> current < closes)"

definition premarket_session_is_open :: "int \<Rightarrow> bool" where
  "premarket_session_is_open observed_at =
     (let current = ny observed_at
      in case regular_session_bounds (wall_date current) of
           None \<Rightarrow> False
         | Some (opens, closes) \<Rightarrow>
             combine (wall_date current) premarket_open \<le> current \<and> current < opens)"

definition daytime_target_session_date :: "int \<Rightarrow> int option" where
  "daytime_target_session_date observed_at =
     (let target = wall_date (kst observed_at)
      in if regular_session_bounds target \<noteq> None then Some target else None)"

definition daytime_session_is_open :: "int \<Rightarrow> bool" where
  "daytime_session_is_open observed_at =
     (let current = kst observed_at
      in case daytime_target_session_date observed_at of
           None \<Rightarrow> False
         | Some target \<Rightarrow>
             (case regular_session_bounds target of
                None \<Rightarrow> False
              | Some _ \<Rightarrow>
                  combine target daytime_open \<le> current
                  \<and> current < kst (ny_utc (combine target premarket_open))))"

subsection \<open>What a calendar promises\<close>

locale session_calendar =
  fixes bounds :: "int \<Rightarrow> (int \<times> int) option"
  assumes bounds_order: "bounds d = Some (opens, closes) \<Longrightarrow> opens < closes"
    and bounds_date: "bounds d = Some (opens, closes) \<Longrightarrow>
      combine d 0 \<le> opens \<and> closes < combine d day_us"
begin

lemma in_session_date:
  assumes "bounds d = Some (opens, closes)" "opens \<le> w" "w < closes"
  shows "wall_date w = d"
  using bounds_date [OF assms(1)] assms(2,3)
  by (intro wall_date_between [of d 0 w day_us]) auto

lemma one_session:
  assumes "bounds d = Some (opens, closes)" "opens \<le> w" "w < closes"
    and "bounds d' = Some (opens', closes')" "opens' \<le> w" "w < closes'"
  shows "d = d'"
  using in_session_date assms by metis

end

lemma regular_session_bounds_SomeD [guards]:
  assumes "regular_session_bounds d = Some (opens, closes)"
  shows "2023 \<le> year_of d \<and> year_of d \<le> 2028 \<and> weekday d < 5
    \<and> \<not> date_in d full_day_holidays \<and> opens = combine d regular_open
    \<and> closes = combine d (if date_in d early_close_days then early_close else regular_close)"
  using assms by (auto simp: regular_session_bounds_def Let_def published_calendar_years_def split: if_splits)

interpretation xnys: session_calendar regular_session_bounds
proof unfold_locales
  fix d opens closes
  assume "regular_session_bounds d = Some (opens, closes)"
  from regular_session_bounds_SomeD [OF this]
  show "opens < closes" "combine d 0 \<le> opens \<and> closes < combine d day_us"
    by (auto simp: combine_def regular_open_def regular_close_def early_close_def time_of_def)
qed

lemma next_session_from_Some:
  "next_session_from c = Some d \<Longrightarrow>
     c \<le> d \<and> regular_session_bounds d \<noteq> None \<and> (\<forall>e. c \<le> e \<and> e < d \<longrightarrow> regular_session_bounds e = None)"
proof (induction c rule: next_session_from.induct)
  case (1 c)
  show ?case
  proof (cases "c \<le> last_published_date \<and> regular_session_bounds c = None")
    case True
    then have "next_session_from (c + 1) = Some d"
      using "1.prems" by (simp add: next_session_from.simps [of c])
    with "1.IH" True have IH [rule_format]: "c + 1 \<le> d \<and> regular_session_bounds d \<noteq> None
        \<and> (\<forall>e. c + 1 \<le> e \<and> e < d \<longrightarrow> regular_session_bounds e = None)" by simp
    moreover have "regular_session_bounds e = None" if "c \<le> e" "e < d" for e
      using that IH True by (cases "e = c") auto
    ultimately show ?thesis by auto
  next
    case False
    then show ?thesis using "1.prems" by (auto simp: next_session_from.simps [of c] split: if_splits)
  qed
qed

lemma next_session_from_None:
  "next_session_from c = None \<Longrightarrow> c \<le> e \<Longrightarrow> e \<le> last_published_date \<Longrightarrow> regular_session_bounds e = None"
proof (induction c rule: next_session_from.induct)
  case (1 c)
  then have c: "regular_session_bounds c = None" "next_session_from (c + 1) = None"
    using next_session_from.simps [of c] by (cases "regular_session_bounds c = None"; simp split: if_splits)+
  with "1.IH" "1.prems" show ?case by (cases "e = c") auto
qed

lemma next_session_from_le: "next_session_from c = Some d \<Longrightarrow> d \<le> last_published_date"
proof (induction c rule: next_session_from.induct)
  case (1 c)
  then show ?case using next_session_from.simps [of c] by (auto split: if_splits)
qed

text \<open>
  The overnight session of a date ends at the premarket open of the same date in New York, also
  across a change of the clocks.
\<close>

lemma daytime_session_before_premarket:
  assumes "daytime_session_is_open i"
  obtains t where "combine (t - 1) (20 * hour_us) \<le> ny i" "ny i < combine t premarket_open"
    "daytime_target_session_date i = Some t"
proof -
  define w where "w = combine (wall_date (kst i)) premarket_open"
  define t where "t = wall_date (kst i)"
  have t: "daytime_target_session_date i = Some t" and low: "combine t daytime_open \<le> kst i"
    and "kst i < kst (ny_utc w)"
    using assms unfolding w_def t_def
    by (auto simp: daytime_session_is_open_def daytime_target_session_date_def Let_def
        split: option.splits if_splits prod.splits)
  then have up: "i < ny_utc w" by (simp add: kst_def)
  have low': "combine t hour_us \<le> i"
    using low by (simp add: kst_def combine_def daytime_open_def time_of_def)
  have w: "w = combine t (4 * hour_us)" by (simp add: w_def t_def premarket_open_def time_of_def)
  have "i < combine t (9 * hour_us)" using up ny_utc_bounds(2) [of w] unfolding w by (simp add: combine_def)
  with low' have date_i: "wall_date i = t" by (intro wall_date_between [of t hour_us i "9 * hour_us"]) auto
  have date_w: "wall_date w = t" unfolding w by (rule wall_date_combine) simp_all
  have step: "t \<le> first_sunday y 3 + 6 \<or> first_sunday y 3 + 7 \<le> t" for y by linarith
  have "ny i < w"
    using up step [of "year_of t"] unfolding ny_utc_def ny_def ny_wall_offset_def ny_offset_def date_i date_w Let_def
    by (auto simp: w combine_def split: if_splits)
  moreover have "combine (t - 1) (20 * hour_us) \<le> ny i"
    using low' ny_bounds(1) [of i] by (simp add: combine_def)
  ultimately show ?thesis using that t unfolding w_def t_def by blast
qed

lemma regular_session_time:
  assumes "regular_session_is_open i"
  shows "combine (wall_date (ny i)) (time_of 9 30) \<le> ny i \<and> ny i < combine (wall_date (ny i)) (time_of 16 0)"
proof -
  obtain opens closes where b: "regular_session_bounds (wall_date (ny i)) = Some (opens, closes)"
    "opens \<le> ny i" "ny i < closes"
    using assms by (auto simp: regular_session_is_open_def Let_def split: option.splits)
  then show ?thesis using regular_session_bounds_SomeD [OF b(1)]
    by (auto simp: regular_open_def regular_close_def early_close_def combine_def time_of_def split: if_splits)
qed

lemma premarket_session_time:
  assumes "premarket_session_is_open i"
  shows "combine (wall_date (ny i)) premarket_open \<le> ny i \<and> ny i < combine (wall_date (ny i)) (time_of 9 30)"
  using assms regular_session_bounds_SomeD [of "wall_date (ny i)"]
  by (auto simp: premarket_session_is_open_def Let_def regular_open_def split: option.splits)

subsection \<open>Properties of the calendar\<close>

text \<open>The next session is the first session after the date: it is later, it is a session, and
  no date in between is one.\<close>

theorem next_regular_session_is_first:
  assumes "next_regular_session after = Some d"
  shows "after < d \<and> d \<le> last_published_date \<and> regular_session_bounds d \<noteq> None
    \<and> (\<forall>e. after < e \<and> e < d \<longrightarrow> regular_session_bounds e = None)"
proof -
  have "d \<le> last_published_date" using assms next_session_from_le unfolding next_regular_session_def by blast
  then show ?thesis
    using next_session_from_Some [OF assms [unfolded next_regular_session_def]] by auto
qed

theorem next_regular_session_is_first_witness:
  "next_regular_session (ymd2ord 2026 7 2) = Some (ymd2ord 2026 7 6)
   \<and> regular_session_bounds (ymd2ord 2026 7 3) = None"
proof -
  have n: "next_regular_session (ymd2ord 2026 7 2) = Some (ymd2ord 2026 7 6)" by code_simp
  have "ymd2ord 2026 7 2 < ymd2ord 2026 7 3 \<and> ymd2ord 2026 7 3 < ymd2ord 2026 7 6" by code_simp
  then show ?thesis using next_regular_session_is_first [OF n] n by blast
qed

text \<open>At no instant are two of the regular, premarket and overnight sessions open, whatever the
  New York clock change.\<close>

theorem one_session_at_a_time:
  "\<not> (regular_session_is_open i \<and> premarket_session_is_open i)
    \<and> \<not> (regular_session_is_open i \<and> daytime_session_is_open i)
    \<and> \<not> (premarket_session_is_open i \<and> daytime_session_is_open i)"
proof -
  have "\<not> daytime_session_is_open i"
    if "combine (wall_date (ny i)) premarket_open \<le> ny i" "ny i < combine (wall_date (ny i)) (time_of 16 0)"
  proof
    assume "daytime_session_is_open i"
    then obtain t where t: "combine (t - 1) (20 * hour_us) \<le> ny i" "ny i < combine t premarket_open"
      by (rule daytime_session_before_premarket)
    from t(1) that(2) have "t - 1 < wall_date (ny i)" by (auto simp: combine_def time_of_def)
    moreover from t(2) that(1) have "wall_date (ny i) < t" by (simp add: combine_def)
    ultimately show False by linarith
  qed
  moreover have "combine d (time_of 9 30) \<le> w \<Longrightarrow> combine d premarket_open \<le> w"
    "w < combine d (time_of 9 30) \<Longrightarrow> w < combine d (time_of 16 0)" for d w
    by (simp_all add: combine_def premarket_open_def time_of_def)
  ultimately show ?thesis using regular_session_time [of i] premarket_session_time [of i] by fastforce
qed

end
