(* ===== verification/Execution_Models.thy ===== *)
theory Execution_Models
  imports Us_Equity_Calendar
begin

text \<open>
  The value types of the paper execution plane, one record or datatype per dataclass or enum of
  \<^verbatim>\<open>paper_execution_models.py\<close>, \<^verbatim>\<open>paper_order_gate_models.py\<close>,
  \<^verbatim>\<open>paper_safety_models.py\<close>, \<^verbatim>\<open>paper_protective_oco_models.py\<close>,
  \<^verbatim>\<open>paper_mutation_ledger_models.py\<close>, \<^verbatim>\<open>paper_stream_recovery_models.py\<close> and the rows of
  \<^verbatim>\<open>execution_schema.py\<close> and \<^verbatim>\<open>trade_update_schema.py\<close>.  Field names carry a prefix of the
  class.  A \<^theory_text>\<open>float\<close> field stands for the decimal \<^theory_text>\<open>Decimal(str(x))\<close> that the
  code always reads it through.
\<close>

subsection \<open>Orders, accounts and positions\<close>

datatype order_side = BUY | SELL

datatype trade_activity_type = Activity_Partial_Fill | Activity_Fill

datatype broker_event_type =
    EV_Submitted | EV_New | EV_Accepted | EV_Rejected | EV_Pending_New | EV_Stopped
  | EV_Pending_Cancel | EV_Partial_Fill | EV_Fill | EV_Canceled | EV_Expired | EV_Done_For_Day
  | EV_Pending_Replace | EV_Replaced | EV_Calculated | EV_Suspended
  | EV_Order_Replace_Rejected | EV_Order_Cancel_Rejected

record paper_order_intent =
  pi_intent_id :: string
  pi_strategy_id :: string
  pi_strategy_version :: string
  pi_symbol :: symbol
  pi_created_at :: pydt
  pi_side :: order_side
  pi_entry_limit :: pynum
  pi_stop :: pynum
  pi_target_1r :: pynum
  pi_target_2r :: pynum

record sized_paper_order =
  so_intent :: paper_order_intent
  so_quantity :: int
  so_risk_per_share :: pynum
  so_planned_risk :: pynum
  so_notional :: pynum

record paper_account_snapshot =
  ac_observed_at :: pydt
  ac_status :: string
  ac_trading_blocked :: bool
  ac_equity :: pynum
  ac_last_equity :: pynum
  ac_buying_power :: pynum
  ac_fingerprint :: string

record paper_market_clock =
  ck_observed_at :: pydt
  ck_market_timestamp :: pydt
  ck_is_open :: bool
  ck_next_open :: pydt
  ck_next_close :: pydt

record paper_order_snapshot =
  os_broker_order_id :: string
  os_client_order_id :: string
  os_symbol :: symbol
  os_side :: order_side
  os_status :: string
  os_quantity :: pynum
  os_filled_quantity :: pynum
  os_limit_price :: "pynum option"
  os_time_in_force :: string
  os_extended_hours :: bool
  os_filled_average_price :: "pynum option"
  os_created_at :: "pydt option"
  os_updated_at :: "pydt option"
  os_submitted_at :: "pydt option"
  os_filled_at :: "pydt option"
  os_canceled_at :: "pydt option"
  os_failed_at :: "pydt option"
  os_replaced_at :: "pydt option"
  os_replaced_by_order_id :: "string option"
  os_replaces_order_id :: "string option"

record paper_position =
  pos_symbol :: symbol
  pos_quantity :: pynum
  pos_market_value :: pynum

record paper_trade_activity =
  ta_activity_id :: string
  ta_broker_order_id :: string
  ta_symbol :: symbol
  ta_side :: order_side
  ta_event_type :: trade_activity_type
  ta_quantity :: pynum
  ta_cumulative_quantity :: pynum
  ta_leaves_quantity :: pynum
  ta_price :: pynum
  ta_transaction_time :: pydt
  ta_payload_json :: string

subsection \<open>Protective one-cancels-other orders\<close>

datatype oco_leg_kind = Take_Profit_Leg | Stop_Loss_Leg

datatype oco_order_type = Limit_Order | Stop_Order

text \<open>
  The plan's class, type, time in force and extended hours fields are not initialised by a
  caller; they are the constants of \<open>plan_time_in_force\<close> and \<open>plan_extended_hours\<close>.
\<close>

record oco_exit_plan =
  op_client_order_id :: string
  op_parent_intent_id :: string
  op_symbol :: symbol
  op_side :: order_side
  op_quantity :: int
  op_take_profit_limit :: pynum
  op_stop_price :: pynum

definition plan_time_in_force :: string where "plan_time_in_force = ''day''"
definition plan_extended_hours :: bool where "plan_extended_hours = False"

record oco_leg_snapshot =
  leg_kind :: oco_leg_kind
  leg_broker_order_id :: string
  leg_client_order_id :: string
  leg_symbol :: symbol
  leg_side :: order_side
  leg_status :: string
  leg_quantity :: pynum
  leg_filled_quantity :: pynum
  leg_order_type :: oco_order_type
  leg_limit_price :: "pynum option"
  leg_stop_price :: "pynum option"
  leg_time_in_force :: string
  leg_extended_hours :: bool

record oco_snapshot =
  oco_observed_at :: pydt
  oco_take_profit :: oco_leg_snapshot
  oco_stop_loss :: oco_leg_snapshot

record stored_oco_plan =
  sp_plan_key :: string
  sp_planned_at :: pydt
  sp_plan :: oco_exit_plan

record paper_broker_state =
  bs_account :: paper_account_snapshot
  bs_open_orders :: "paper_order_snapshot list"
  bs_positions :: "paper_position list"
  bs_protective_ocos :: "oco_snapshot list"

subsection \<open>The portfolio seen by the gates\<close>

datatype exposure_kind = Pending_Entry | Partial_Entry | Open_Position

record portfolio_exposure =
  ex_intent_id :: string
  ex_symbol :: symbol
  ex_kind :: exposure_kind
  ex_gross :: pynum
  ex_planned_risk :: pynum

record complete_portfolio =
  pf_observed_at :: pydt
  pf_account_status :: string
  pf_trading_blocked :: bool
  pf_equity :: pynum
  pf_last_equity :: pynum
  pf_buying_power :: pynum
  pf_exposures :: "portfolio_exposure list"

definition exposed_symbols :: "complete_portfolio \<Rightarrow> symbol list" where
  "exposed_symbols p = remdups (map ex_symbol (pf_exposures p))"

definition pf_gross_exposure :: "complete_portfolio \<Rightarrow> pynum" where
  "pf_gross_exposure p = num_sum (map ex_gross (pf_exposures p))"

definition pf_planned_open_risk :: "complete_portfolio \<Rightarrow> pynum" where
  "pf_planned_open_risk p = num_sum (map ex_planned_risk (pf_exposures p))"

datatype 'r portfolio_snapshot = Complete complete_portfolio | Incomplete "'r list"

subsection \<open>Stored rows\<close>

text \<open>
  \<^theory_text>\<open>StoredIntent.created_at\<close> is ISO text; \<open>si_created_at\<close> is what
  \<^theory_text>\<open>datetime.fromisoformat\<close> makes of it, \<open>None\<close> where that raises \<^theory_text>\<open>ValueError\<close>.
\<close>

record stored_intent =
  si_intent_id :: string
  si_strategy_id :: string
  si_strategy_version :: string
  si_symbol :: symbol
  si_created_at :: "pydt option"
  si_side :: order_side
  si_entry_limit :: pynum
  si_stop :: pynum
  si_target_1r :: pynum
  si_target_2r :: pynum
  si_quantity :: int

record stored_broker_event =
  be_event_id :: int
  be_event_key :: string
  be_intent_id :: string
  be_occurred_at :: pydt
  be_event_type :: broker_event_type
  be_broker_order_id :: string
  be_payload_json :: string

record stored_trade_update =
  tu_event_id :: int
  tu_event_key :: string
  tu_intent_id :: string
  tu_occurred_at :: pydt
  tu_event_type :: broker_event_type
  tu_broker_order_id :: string
  tu_symbol :: symbol
  tu_side :: order_side
  tu_limit_price :: "pynum option"
  tu_time_in_force :: string
  tu_extended_hours :: bool
  tu_broker_event_id :: "string option"
  tu_execution_id :: "string option"
  tu_order_status :: string
  tu_order_quantity :: pynum
  tu_cumulative_filled_quantity :: pynum
  tu_cumulative_filled_average_price :: "pynum option"
  tu_execution_quantity :: "pynum option"
  tu_execution_price :: "pynum option"
  tu_position_quantity :: "pynum option"
  tu_replaced_by_order_id :: "string option"
  tu_replaces_order_id :: "string option"
  tu_payload_json :: string
  tu_connection_epoch :: string
  tu_received_at :: string

datatype recovery_source = From_Open | From_Targeted | From_Recent

record stored_recovery_order =
  ro_recovery_id :: int
  ro_recovery_key :: string
  ro_source :: recovery_source
  ro_order :: paper_order_snapshot

record stored_account_activity =
  aa_recovery_id :: int
  aa_recovery_key :: string
  aa_fingerprint :: string
  aa_activity :: paper_trade_activity

subsection \<open>Safety plans\<close>

datatype safety_phase = Monitoring | Entry_Cutoff | Kill_Switch | Eod_Flatten

datatype safety_action =
    Cancel_Order (act_broker_order_id: string) (act_symbol: symbol) (act_protective_oco: bool)
  | Close_Position (act_symbol: symbol) (act_side: order_side) (act_quantity: pynum)

record safety_plan =
  pl_fingerprint :: string
  pl_observed_at :: pydt
  pl_session_date :: int
  pl_phase :: safety_phase
  pl_mark_to_market :: pynum
  pl_conservative :: pynum
  pl_actions :: "safety_action list"

subsection \<open>Mutations and their recovery\<close>

datatype mutation_operation =
    Submit_Entry | Submit_Protective_Oco | Cancel_Protective_Oco | Cancel_Order_Op | Close_Position_Op

datatype mutation_event_type =
    Attempted | Acknowledged | Rejected | Ambiguous | Recovered_Acknowledged | Recovered_Absent

record mutation_intent =
  mi_fingerprint :: string
  mi_created_at :: pydt
  mi_operation :: mutation_operation
  mi_protective_plan_key :: "string option"
  mi_safety_plan_key :: "string option"
  mi_action_sequence :: "int option"
  mi_request_sha256 :: sha
  mi_symbol :: symbol
  mi_broker_order_id :: "string option"
  mi_side :: "order_side option"
  mi_quantity :: "pynum option"
  mi_entry_intent_id :: "string option"

record mutation_event =
  me_attempt_number :: int
  me_occurred_at :: pydt
  me_event_type :: mutation_event_type
  me_request_id :: "string option"
  me_status_code :: "int option"
  me_broker_order_id :: "string option"
  me_evidence_sha256 :: sha

record stored_mutation_intent =
  smi_key :: sha
  smi_intent :: mutation_intent

datatype mutation_lookup =
    Oco_Lookup (lk_key: sha) (lk_observed_at: pydt) (lk_snapshot: "oco_snapshot option")
  | Cancel_Lookup (lk_key: sha) (lk_observed_at: pydt) (lk_broker_order_id: string)
      (lk_order: "paper_order_snapshot option")
  | Entry_Lookup (lk_key: sha) (lk_observed_at: pydt) (lk_client_order_id: string)
      (lk_order: "paper_order_snapshot option")

record recovery_state =
  rs_broker_state :: paper_broker_state
  rs_targeted_orders :: "paper_order_snapshot list"
  rs_recent_orders :: "paper_order_snapshot list"
  rs_activities :: "paper_trade_activity list"
  rs_protective_ocos :: "oco_snapshot list"
  rs_mutation_lookups :: "mutation_lookup list"

datatype recovery_outcome = Was_Acknowledged | Was_Absent | Unresolved

record recovery_snapshot =
  rv_connection_epoch :: string
  rv_started_at :: pydt
  rv_completed_at :: pydt
  rv_state :: recovery_state

record recovery_result =
  rr_mutation_key :: sha
  rr_state :: recovery_outcome
  rr_broker_order_id :: "string option"

end
