(* ===== verification/Mutation_Ledger.thy ===== *)
theory Mutation_Ledger
  imports Execution_Models
begin

text \<open>
  The append-only ledger of broker mutations: record validation
  (\<^verbatim>\<open>paper_mutation_validation.py\<close>), the transition rule of an intent's event history
  (\<^verbatim>\<open>paper_mutation_transitions.py\<close>), the check of an intent against its source row
  (\<^verbatim>\<open>paper_mutation_source_validation.py\<close>) and the two writes of
  \<^verbatim>\<open>paper_mutation_store.py\<close>.  SHA-256 keys come from the parameter \<open>hashes\<close>.
  \<open>legal_history\<close> is the abstract protocol of one intent; \<open>mutation_log\<close> is the interface
  the executor and the recovery rely on.
\<close>

datatype mutation_error =
    Invalid_Mutation_Record | Invalid_Mutation_Transition | Mutation_Conflict
  | Invalid_Recovery_Snapshot | Recovery_Account_Mismatch | Intent_Conflict | Broker_Raised

datatype evidence =
    Attempt_Evidence sha
  | Rejected_Evidence "string option" int
  | Ambiguous_Evidence string
  | Acknowledged_Evidence string int string
  | Recovered_Evidence sha recovery_outcome "string option" string pydt

record hashes =
  h_intent :: "mutation_intent \<Rightarrow> sha"
  h_event :: "sha \<Rightarrow> mutation_event \<Rightarrow> sha"
  h_evidence :: "evidence \<Rightarrow> sha"

record safety_action_row =
  ar_plan_key :: sha
  ar_sequence :: int
  ar_action :: safety_action

record oco_leg_row =
  lr_plan_key :: sha
  lr_parent_broker_order_id :: string
  lr_leg_kind :: oco_leg_kind

text \<open>The tables of the execution database that the mutation ledger reads and writes.\<close>

record mutation_ledger =
  ml_order_intents :: "stored_intent list"
  ml_oco_plans :: "stored_oco_plan list"
  ml_oco_legs :: "oco_leg_row list"
  ml_safety_actions :: "safety_action_row list"
  ml_intents :: "stored_mutation_intent list"
  ml_events :: "(sha \<times> sha \<times> mutation_event) list"

subsection \<open>Record validation\<close>

definition optional_hex64 :: "string option \<Rightarrow> bool" where
  "optional_hex64 value = (case value of None \<Rightarrow> False | Some v \<Rightarrow> hex64 v)"

definition quantity_valid :: "pynum option \<Rightarrow> bool" where
  "quantity_valid quantity =
     (case quantity of None \<Rightarrow> False
      | Some q \<Rightarrow> is_finite q \<and> rv q > 0 \<and> is_integral (rv q))"

definition falsy :: "string option \<Rightarrow> bool" where
  "falsy value = (case value of None \<Rightarrow> True | Some v \<Rightarrow> v = [])"

definition negative_or_missing :: "int option \<Rightarrow> bool" where
  "negative_or_missing value = (case value of None \<Rightarrow> True | Some n \<Rightarrow> n < 0)"

definition require_mutation_intent :: "mutation_intent \<Rightarrow> bool" where
  "require_mutation_intent i =
     (let common_invalid =
            \<not> hex64 (mi_fingerprint i) \<or> \<not> is_aware (mi_created_at i) \<or> \<not> hex64 (mi_request_sha256 i)
            \<or> mi_symbol i = [] \<or> mi_symbol i \<noteq> upper (mi_symbol i) \<or> length (mi_symbol i) > 16;
          shape_invalid = (case mi_operation i of
              Submit_Entry \<Rightarrow>
                falsy (mi_entry_intent_id i) \<or> mi_protective_plan_key i \<noteq> None
                \<or> mi_safety_plan_key i \<noteq> None \<or> mi_action_sequence i \<noteq> None
                \<or> mi_broker_order_id i \<noteq> None \<or> mi_side i = None \<or> \<not> quantity_valid (mi_quantity i)
            | Submit_Protective_Oco \<Rightarrow>
                \<not> optional_hex64 (mi_protective_plan_key i) \<or> mi_entry_intent_id i \<noteq> None
                \<or> mi_safety_plan_key i \<noteq> None \<or> mi_action_sequence i \<noteq> None
                \<or> mi_broker_order_id i \<noteq> None \<or> mi_side i = None \<or> \<not> quantity_valid (mi_quantity i)
            | Cancel_Protective_Oco \<Rightarrow>
                mi_entry_intent_id i \<noteq> None \<or> \<not> optional_hex64 (mi_protective_plan_key i)
                \<or> mi_safety_plan_key i \<noteq> None \<or> mi_action_sequence i \<noteq> None
                \<or> falsy (mi_broker_order_id i) \<or> mi_side i \<noteq> None \<or> mi_quantity i \<noteq> None
            | Cancel_Order_Op \<Rightarrow>
                mi_entry_intent_id i \<noteq> None \<or> mi_protective_plan_key i \<noteq> None
                \<or> \<not> optional_hex64 (mi_safety_plan_key i) \<or> negative_or_missing (mi_action_sequence i)
                \<or> falsy (mi_broker_order_id i) \<or> mi_side i \<noteq> None \<or> mi_quantity i \<noteq> None
            | Close_Position_Op \<Rightarrow>
                mi_entry_intent_id i \<noteq> None \<or> mi_protective_plan_key i \<noteq> None
                \<or> \<not> optional_hex64 (mi_safety_plan_key i) \<or> negative_or_missing (mi_action_sequence i)
                \<or> mi_broker_order_id i \<noteq> None \<or> mi_side i = None \<or> \<not> quantity_valid (mi_quantity i))
      in \<not> (common_invalid \<or> shape_invalid))"

definition require_mutation_event :: "mutation_event \<Rightarrow> bool" where
  "require_mutation_event e =
     (if me_attempt_number e \<le> 0 \<or> \<not> is_aware (me_occurred_at e) \<or> \<not> hex64 (me_evidence_sha256 e)
         \<or> (case me_request_id e of None \<Rightarrow> False
             | Some r \<Rightarrow> r = [] \<or> strip r \<noteq> r \<or> length r > 128)
      then False
      else case me_event_type e of
          Acknowledged \<Rightarrow>
            me_request_id e \<noteq> None
            \<and> (case me_status_code e of None \<Rightarrow> False | Some s \<Rightarrow> 200 \<le> s \<and> s < 300)
            \<and> me_broker_order_id e \<noteq> None
        | Recovered_Acknowledged \<Rightarrow>
            me_request_id e = None \<and> me_status_code e = None \<and> me_broker_order_id e \<noteq> None
        | Rejected \<Rightarrow>
            (case me_status_code e of None \<Rightarrow> False | Some s \<Rightarrow> s \<ge> 400) \<and> me_broker_order_id e = None
        | _ \<Rightarrow> me_request_id e = None \<and> me_status_code e = None \<and> me_broker_order_id e = None)"

subsection \<open>The transition rule\<close>

definition require_new_attempt :: "mutation_event list \<Rightarrow> mutation_event list \<Rightarrow> int \<Rightarrow> bool" where
  "require_new_attempt existing same_attempt attempt_number =
     (if same_attempt \<noteq> [] then False
      else
        let latest_attempt = max_or_zero (map me_attempt_number existing)
        in if attempt_number \<noteq> latest_attempt + 1 then False
           else if latest_attempt = 0 then True
           else list_ex (\<lambda>e. me_event_type e = Recovered_Absent)
                  (filter (\<lambda>e. me_attempt_number e = latest_attempt) existing))"

definition require_mutation_transition :: "mutation_event list \<Rightarrow> mutation_event \<Rightarrow> bool" where
  "require_mutation_transition existing candidate =
     (let same_attempt = filter (\<lambda>e. me_attempt_number e = me_attempt_number candidate) existing
      in if me_event_type candidate = Attempted
         then require_new_attempt existing same_attempt (me_attempt_number candidate)
         else if \<not> list_ex (\<lambda>e. me_event_type e = Attempted) same_attempt then False
         else if me_event_type candidate \<in> {Acknowledged, Rejected, Ambiguous}
         then \<not> list_ex (\<lambda>e. me_event_type e \<noteq> Attempted) same_attempt
         else \<not> (\<not> list_ex (\<lambda>e. me_event_type e = Ambiguous) same_attempt
                 \<or> list_ex (\<lambda>e. me_event_type e \<in> {Recovered_Acknowledged, Recovered_Absent}) same_attempt))"

subsection \<open>Source rows\<close>

definition whole_quantity :: "pynum option \<Rightarrow> int" where
  "whole_quantity q = (case q of None \<Rightarrow> 0 | Some v \<Rightarrow> \<lfloor>rv v\<rfloor>)"

definition safety_action_fields ::
    "safety_action \<Rightarrow> bool \<times> string option \<times> symbol \<times> order_side option \<times> pynum option" where
  "safety_action_fields a =
     (case a of
        Cancel_Order i s _ \<Rightarrow> (True, Some i, s, None, None)
      | Close_Position s side q \<Rightarrow> (False, None, s, Some side, Some q))"

definition require_mutation_source :: "mutation_ledger \<Rightarrow> mutation_intent \<Rightarrow> bool" where
  "require_mutation_source l i =
     (case mi_entry_intent_id i of
        Some entry_id \<Rightarrow>
          (case find (\<lambda>s. si_intent_id s = entry_id) (ml_order_intents l) of
             None \<Rightarrow> False
           | Some s \<Rightarrow> (si_symbol s, Some (si_side s), si_quantity s)
                         = (mi_symbol i, mi_side i, whole_quantity (mi_quantity i)))
      | None \<Rightarrow>
          if mi_operation i = Cancel_Protective_Oco
          then list_ex (\<lambda>p. Some (sp_plan_key p) = mi_protective_plan_key i
                  \<and> op_symbol (sp_plan p) = mi_symbol i
                  \<and> list_ex (\<lambda>r. lr_plan_key r = sp_plan_key p
                        \<and> Some (lr_parent_broker_order_id r) = mi_broker_order_id i
                        \<and> lr_leg_kind r = Take_Profit_Leg) (ml_oco_legs l)) (ml_oco_plans l)
          else case mi_protective_plan_key i of
            Some plan_key \<Rightarrow>
              (case find (\<lambda>p. sp_plan_key p = plan_key) (ml_oco_plans l) of
                 None \<Rightarrow> False
               | Some p \<Rightarrow> (op_symbol (sp_plan p), Some (op_side (sp_plan p)), op_quantity (sp_plan p))
                             = (mi_symbol i, mi_side i, whole_quantity (mi_quantity i)))
          | None \<Rightarrow>
              (case find (\<lambda>r. Some (ar_plan_key r) = mi_safety_plan_key i
                          \<and> Some (ar_sequence r) = mi_action_sequence i) (ml_safety_actions l) of
                 None \<Rightarrow> False
               | Some r \<Rightarrow> safety_action_fields (ar_action r)
                             = (mi_operation i = Cancel_Order_Op, mi_broker_order_id i, mi_symbol i,
                                mi_side i, mi_quantity i)))"

subsection \<open>Writes\<close>

definition same_identity :: "mutation_intent \<Rightarrow> mutation_intent \<Rightarrow> bool" where
  "same_identity i j \<longleftrightarrow>
     mi_operation i = mi_operation j
     \<and> case_option [] id (mi_protective_plan_key i) = case_option [] id (mi_protective_plan_key j)
     \<and> case_option [] id (mi_safety_plan_key i) = case_option [] id (mi_safety_plan_key j)
     \<and> case_option (- 1) id (mi_action_sequence i) = case_option (- 1) id (mi_action_sequence j)
     \<and> case_option [] id (mi_entry_intent_id i) = case_option [] id (mi_entry_intent_id j)"

definition save_paper_mutation_intent ::
    "hashes \<Rightarrow> mutation_ledger \<Rightarrow> mutation_intent \<Rightarrow> mutation_error + mutation_ledger \<times> bool" where
  "save_paper_mutation_intent H l i =
     (if \<not> require_mutation_intent i then Inl Invalid_Mutation_Record
      else if \<not> require_mutation_source l i then Inl Invalid_Mutation_Record
      else
        let mutation_key = h_intent H i
        in case find (\<lambda>s. smi_key s = mutation_key) (ml_intents l) of
             Some s \<Rightarrow> if smi_intent s \<noteq> i then Inl Mutation_Conflict else Inr (l, False)
           | None \<Rightarrow>
               if list_ex (\<lambda>s. same_identity (smi_intent s) i) (ml_intents l) then Inl Mutation_Conflict
               else Inr (l\<lparr>ml_intents := ml_intents l @ [\<lparr>smi_key = mutation_key, smi_intent = i\<rparr>]\<rparr>, True))"

definition history :: "mutation_ledger \<Rightarrow> sha \<Rightarrow> mutation_event list" where
  "history l key = map (snd \<circ> snd) (filter (\<lambda>(_, k, _). k = key) (ml_events l))"

definition append_paper_mutation_event ::
    "hashes \<Rightarrow> mutation_ledger \<Rightarrow> sha \<Rightarrow> mutation_event \<Rightarrow> mutation_error + mutation_ledger \<times> bool" where
  "append_paper_mutation_event H l mutation_key event =
     (if \<not> require_mutation_event event then Inl Invalid_Mutation_Record
      else if \<not> list_ex (\<lambda>s. smi_key s = mutation_key) (ml_intents l) then Inl Invalid_Mutation_Transition
      else
        let event_key = h_event H mutation_key event
        in case find (\<lambda>(ek, _, _). ek = event_key) (ml_events l) of
             Some (_, k, e) \<Rightarrow> if (k, e) \<noteq> (mutation_key, event) then Inl Mutation_Conflict else Inr (l, False)
           | None \<Rightarrow>
               if list_ex (\<lambda>e. me_attempt_number e = me_attempt_number event
                       \<and> me_event_type e = me_event_type event) (history l mutation_key)
               then Inl Mutation_Conflict
               else if \<not> require_mutation_transition (history l mutation_key) event
               then Inl Invalid_Mutation_Transition
               else Inr (l\<lparr>ml_events := ml_events l @ [(event_key, mutation_key, event)]\<rparr>, True))"

subsection \<open>The protocol of one intent\<close>

text \<open>
  An attempt is answered at most once; only an ambiguous answer is recovered; only an attempt
  recovered as absent is followed by another attempt, with the next number.
\<close>

inductive legal_history :: "mutation_event list \<Rightarrow> bool" where
  legal_empty: "legal_history []"
| legal_first: "me_event_type e = Attempted \<Longrightarrow> me_attempt_number e = 1 \<Longrightarrow> legal_history [e]"
| legal_retry: "legal_history (es @ [r]) \<Longrightarrow> me_event_type r = Recovered_Absent \<Longrightarrow>
    me_event_type e = Attempted \<Longrightarrow> me_attempt_number e = me_attempt_number r + 1 \<Longrightarrow>
    legal_history (es @ [r, e])"
| legal_answer: "legal_history (es @ [a]) \<Longrightarrow> me_event_type a = Attempted \<Longrightarrow>
    me_event_type e \<in> {Acknowledged, Rejected, Ambiguous} \<Longrightarrow>
    me_attempt_number e = me_attempt_number a \<Longrightarrow> legal_history (es @ [a, e])"
| legal_recovery: "legal_history (es @ [a]) \<Longrightarrow> me_event_type a = Ambiguous \<Longrightarrow>
    me_event_type e \<in> {Recovered_Acknowledged, Recovered_Absent} \<Longrightarrow>
    me_attempt_number e = me_attempt_number a \<Longrightarrow> legal_history (es @ [a, e])"

text \<open>The event types of one attempt, determined by the last of them.\<close>

definition attempt_types :: "int \<Rightarrow> mutation_event list \<Rightarrow> mutation_event_type list" where
  "attempt_types k es = map me_event_type (filter (\<lambda>e. me_attempt_number e = k) es)"

fun types_up_to :: "mutation_event_type \<Rightarrow> mutation_event_type list" where
  "types_up_to Attempted = [Attempted]"
| "types_up_to Acknowledged = [Attempted, Acknowledged]"
| "types_up_to Rejected = [Attempted, Rejected]"
| "types_up_to Ambiguous = [Attempted, Ambiguous]"
| "types_up_to Recovered_Acknowledged = [Attempted, Ambiguous, Recovered_Acknowledged]"
| "types_up_to Recovered_Absent = [Attempted, Ambiguous, Recovered_Absent]"

definition history_shape :: "mutation_event list \<Rightarrow> bool" where
  "history_shape es \<longleftrightarrow> es = [] \<or>
     (let n = me_attempt_number (last es) in
        1 \<le> n \<and> (\<forall>e \<in> set es. 1 \<le> me_attempt_number e \<and> me_attempt_number e \<le> n)
        \<and> (\<forall>k. 1 \<le> k \<and> k < n \<longrightarrow> attempt_types k es = types_up_to Recovered_Absent)
        \<and> attempt_types n es = types_up_to (me_event_type (last es)))"

lemma attempt_types_simps [simp]:
  "attempt_types k [] = []"
  "attempt_types k (e # es) = (if me_attempt_number e = k then [me_event_type e] else []) @ attempt_types k es"
  "attempt_types k (es @ fs) = attempt_types k es @ attempt_types k fs"
  by (simp_all add: attempt_types_def)

lemma attempt_types_beyond:
  "\<forall>e \<in> set es. me_attempt_number e \<le> n \<Longrightarrow> n < k \<Longrightarrow> attempt_types k es = []"
  by (auto simp: attempt_types_def filter_empty_conv)

lemma history_shape_extend:
  assumes shape: "history_shape (es @ [a])"
    and next_: "me_attempt_number e = me_attempt_number a \<and> types_up_to (me_event_type e)
        = types_up_to (me_event_type a) @ [me_event_type e]
      \<or> me_event_type a = Recovered_Absent \<and> me_event_type e = Attempted
        \<and> me_attempt_number e = me_attempt_number a + 1"
  shows "history_shape (es @ [a, e])"
proof -
  define n where "n = me_attempt_number a"
  have s: "1 \<le> n" "\<forall>x \<in> set (es @ [a]). 1 \<le> me_attempt_number x \<and> me_attempt_number x \<le> n"
    "\<forall>k. 1 \<le> k \<and> k < n \<longrightarrow> attempt_types k (es @ [a]) = types_up_to Recovered_Absent"
    "attempt_types n (es @ [a]) = types_up_to (me_event_type a)"
    using shape by (simp_all add: history_shape_def Let_def n_def)
  from next_ show ?thesis
  proof
    assume e: "me_attempt_number e = me_attempt_number a \<and> types_up_to (me_event_type e)
        = types_up_to (me_event_type a) @ [me_event_type e]"
    then show ?thesis using s by (auto simp: history_shape_def Let_def n_def)
  next
    assume e: "me_event_type a = Recovered_Absent \<and> me_event_type e = Attempted
        \<and> me_attempt_number e = me_attempt_number a + 1"
    have "attempt_types (n + 1) (es @ [a]) = []"
      by (rule attempt_types_beyond [of _ n]) (use s(2) in auto)
    moreover have "attempt_types k (es @ [a, e]) = types_up_to Recovered_Absent"
      if "1 \<le> k" "k < n + 1" for k
      using s(3,4) that e by (cases "k = n") (auto simp: n_def)
    ultimately show ?thesis using s(1,2) e by (auto simp: history_shape_def Let_def n_def)
  qed
qed

lemma legal_history_shape: "legal_history es \<Longrightarrow> history_shape es"
proof (induction rule: legal_history.induct)
  case legal_empty
  then show ?case by (simp add: history_shape_def)
next
  case (legal_first e)
  then show ?case by (auto simp: history_shape_def attempt_types_def)
next
  case (legal_retry es r e)
  then show ?case by (intro history_shape_extend) simp_all
next
  case (legal_answer es a e)
  then show ?case by (intro history_shape_extend) auto
next
  case (legal_recovery es a e)
  then show ?case by (intro history_shape_extend) auto
qed

lemma history_shape_max:
  assumes "history_shape es" "es \<noteq> []"
  shows "max_or_zero (map me_attempt_number es) = me_attempt_number (last es)"
proof -
  have "me_attempt_number (last es) \<le> max_or_zero (map me_attempt_number es)"
    using assms(2) by (intro max_or_zero_ge) simp
  moreover have "max_or_zero (map me_attempt_number es) \<in> set (map me_attempt_number es)"
    using assms(2) by (intro max_or_zero_in) simp
  ultimately show ?thesis using assms by (fastforce simp: history_shape_def Let_def)
qed

text \<open>The code's test is a test of the event types of the candidate's attempt.\<close>

lemma list_ex_types:
  "list_ex (\<lambda>e. Q (me_event_type e)) (filter (\<lambda>e. me_attempt_number e = k) es)
     \<longleftrightarrow> (\<exists>t \<in> set (attempt_types k es). Q t)"
  by (auto simp: list_ex_iff attempt_types_def)

lemmas list_ex_type_tests =
  list_ex_types [of "\<lambda>t. t = Attempted"] list_ex_types [of "\<lambda>t. t \<noteq> Attempted"]
  list_ex_types [of "\<lambda>t. t = Ambiguous"] list_ex_types [of "\<lambda>t. t = Recovered_Absent"]
  list_ex_types [of "\<lambda>t. t \<in> {Recovered_Acknowledged, Recovered_Absent}"]

lemma attempt_types_Nil_iff:
  "filter (\<lambda>e. me_attempt_number e = k) es = [] \<longleftrightarrow> attempt_types k es = []"
  by (simp add: attempt_types_def)

lemma require_mutation_transition_types:
  "require_mutation_transition es e =
     (let ts = attempt_types (me_attempt_number e) es; m = max_or_zero (map me_attempt_number es) in
      case me_event_type e of
        Attempted \<Rightarrow> ts = [] \<and> me_attempt_number e = m + 1
          \<and> (m = 0 \<or> Recovered_Absent \<in> set (attempt_types m es))
      | Recovered_Acknowledged \<Rightarrow> Attempted \<in> set ts \<and> Ambiguous \<in> set ts
          \<and> Recovered_Acknowledged \<notin> set ts \<and> Recovered_Absent \<notin> set ts
      | Recovered_Absent \<Rightarrow> Attempted \<in> set ts \<and> Ambiguous \<in> set ts
          \<and> Recovered_Acknowledged \<notin> set ts \<and> Recovered_Absent \<notin> set ts
      | _ \<Rightarrow> Attempted \<in> set ts \<and> set ts \<subseteq> {Attempted})"
  unfolding require_mutation_transition_def require_new_attempt_def Let_def list_ex_type_tests attempt_types_Nil_iff
  by (cases "me_event_type e") auto

lemma types_of_attempt:
  assumes "history_shape (es @ [a])"
  shows "attempt_types k (es @ [a]) =
    (if k = me_attempt_number a then types_up_to (me_event_type a)
     else if 1 \<le> k \<and> k < me_attempt_number a then types_up_to Recovered_Absent else [])"
proof -
  have s: "\<forall>x \<in> set (es @ [a]). 1 \<le> me_attempt_number x \<and> me_attempt_number x \<le> me_attempt_number a"
    "\<forall>k. 1 \<le> k \<and> k < me_attempt_number a \<longrightarrow> attempt_types k (es @ [a]) = types_up_to Recovered_Absent"
    "attempt_types (me_attempt_number a) (es @ [a]) = types_up_to (me_event_type a)"
    using assms by (simp_all add: history_shape_def Let_def del: attempt_types_simps)
  moreover have "attempt_types k (es @ [a]) = []" if "k < 1 \<or> me_attempt_number a < k"
    using that s(1) unfolding attempt_types_def by (fastforce simp: filter_empty_conv)
  ultimately show ?thesis by (simp del: attempt_types_simps) (metis linorder_not_le linorder_neqE)
qed

lemma legal_history_snoc:
  "legal_history (es @ [a, e]) \<longleftrightarrow> legal_history (es @ [a]) \<and>
     (if me_event_type e = Attempted
      then me_event_type a = Recovered_Absent \<and> me_attempt_number e = me_attempt_number a + 1
      else if me_event_type e \<in> {Acknowledged, Rejected, Ambiguous}
      then me_event_type a = Attempted \<and> me_attempt_number e = me_attempt_number a
      else me_event_type a = Ambiguous \<and> me_attempt_number e = me_attempt_number a)"
  (is "?L = ?R")
proof
  assume ?L
  then show ?R by (cases rule: legal_history.cases) (auto simp: append_eq_append_conv2 append_eq_Cons_conv)
next
  assume ?R
  then show ?L
    by (cases "me_event_type e") (auto intro: legal_retry legal_answer legal_recovery)
qed

lemma require_transition_iff_legal:
  assumes "legal_history es"
  shows "require_mutation_transition es e \<longleftrightarrow> legal_history (es @ [e])"
proof (cases es rule: rev_cases)
  case Nil
  have "legal_history [e] \<longleftrightarrow> me_event_type e = Attempted \<and> me_attempt_number e = 1"
    by (auto intro: legal_first elim: legal_history.cases)
  then show ?thesis
    by (cases "me_event_type e") (auto simp: Nil require_mutation_transition_types Let_def max_or_zero_def)
next
  case (snoc fs a)
  have shape: "history_shape (fs @ [a])" using legal_history_shape assms snoc by simp
  have pos: "1 \<le> me_attempt_number a" using shape by (simp add: history_shape_def Let_def)
  have m: "max_or_zero (map me_attempt_number (fs @ [a])) = me_attempt_number a"
    using history_shape_max [OF shape] by simp
  show ?thesis
    unfolding snoc require_mutation_transition_types Let_def types_of_attempt [OF shape] m
    using assms pos snoc by (cases "me_event_type e"; cases "me_event_type a") (auto simp: legal_history_snoc)
qed

subsection \<open>Consequences of the protocol\<close>

definition count_type :: "mutation_event_type \<Rightarrow> mutation_event list \<Rightarrow> nat" where
  "count_type t es = length (filter (\<lambda>e. me_event_type e = t) es)"

lemma count_type_simps [simp]:
  "count_type t [] = 0"
  "count_type t (e # es) = (if me_event_type e = t then 1 else 0) + count_type t es"
  "count_type t (es @ fs) = count_type t es + count_type t fs"
  by (simp_all add: count_type_def)

lemma legal_history_counts:
  "legal_history es \<Longrightarrow>
     count_type Attempted es = count_type Recovered_Absent es
       + (if es = [] \<or> me_event_type (last es) = Recovered_Absent then 0 else 1)
     \<and> count_type Acknowledged es + count_type Recovered_Acknowledged es
       = (if es \<noteq> [] \<and> me_event_type (last es) \<in> {Acknowledged, Recovered_Acknowledged} then 1 else 0)"
  by (induction rule: legal_history.induct) (auto split: if_splits)

lemma legal_history_final:
  "legal_history (es @ [a, e]) \<Longrightarrow> me_event_type a \<in> {Attempted, Ambiguous, Recovered_Absent}"
  by (auto simp: legal_history_snoc split: if_splits)

subsection \<open>The ledger as a log\<close>

text \<open>What the executor and the recovery assume of the ledger.\<close>

locale mutation_log =
  fixes append :: "'s \<Rightarrow> 'k \<Rightarrow> mutation_event \<Rightarrow> 's option"
    and log_of :: "'s \<Rightarrow> 'k \<Rightarrow> mutation_event list"
  assumes append_same: "append s k e = Some s' \<Longrightarrow> log_of s' k = log_of s k @ [e]"
    and append_other: "append s k e = Some s' \<Longrightarrow> k' \<noteq> k \<Longrightarrow> log_of s' k' = log_of s k'"
    and append_guard: "append s k e = Some s' \<Longrightarrow> require_mutation_transition (log_of s k) e"
begin

lemma append_legal:
  assumes "append s k e = Some s'" "\<forall>k. legal_history (log_of s k)"
  shows "\<forall>k. legal_history (log_of s' k)"
proof
  fix k'
  show "legal_history (log_of s' k')"
    using append_same [OF assms(1)] append_other [OF assms(1)] append_guard [OF assms(1)] assms(2)
      require_transition_iff_legal by (cases "k' = k") auto
qed

end

definition ledger_append :: "hashes \<Rightarrow> mutation_ledger \<Rightarrow> sha \<Rightarrow> mutation_event \<Rightarrow> mutation_ledger option" where
  "ledger_append H l key e =
     (case append_paper_mutation_event H l key e of Inr (l', True) \<Rightarrow> Some l' | _ \<Rightarrow> None)"

lemma history_append [simp]:
  "history (l\<lparr>ml_events := ml_events l @ [(ek, k, e)]\<rparr>) key = history l key @ (if k = key then [e] else [])"
  by (simp add: history_def)

lemma append_event_True [guards]:
  assumes "append_paper_mutation_event H l key e = Inr (l', True)"
  shows "l' = l\<lparr>ml_events := ml_events l @ [(h_event H key e, key, e)]\<rparr>
    \<and> require_mutation_transition (history l key) e \<and> require_mutation_event e
    \<and> list_ex (\<lambda>s. smi_key s = key) (ml_intents l)"
  using assms by (auto simp: append_paper_mutation_event_def Let_def split: if_splits option.splits)

lemma append_event_False [guards]:
  assumes "append_paper_mutation_event H l key e = Inr (l', False)"
  shows "l' = l \<and> e \<in> set (history l key)"
proof -
  from assms obtain x where "find (\<lambda>(ek, _, _). ek = h_event H key e) (ml_events l) = Some x"
    "x = (fst x, key, e)" "l' = l"
    by (auto simp: append_paper_mutation_event_def Let_def split: if_splits option.splits prod.splits)
  then show ?thesis by (force simp: history_def find_Some_iff image_iff in_set_conv_nth)
qed

lemma append_event_history:
  assumes "append_paper_mutation_event H l key e = Inr (l', b)"
  shows "history l' = (if b then (history l)(key := history l key @ [e]) else history l)"
    "\<not> b \<Longrightarrow> e \<in> set (history l key)"
  using assms append_event_True [of H l key e l'] append_event_False [of H l key e l']
  by (cases b; auto simp: fun_eq_iff)+

lemma ledger_append_Some:
  "ledger_append H l key e = Some l' \<longleftrightarrow> append_paper_mutation_event H l key e = Inr (l', True)"
  by (auto simp: ledger_append_def split: sum.splits bool.splits)

interpretation mlog: mutation_log "ledger_append H" history for H
  by unfold_locales (auto simp: ledger_append_Some dest!: append_event_True)

definition ledger_legal :: "mutation_ledger \<Rightarrow> bool" where
  "ledger_legal l \<longleftrightarrow> (\<forall>key. legal_history (history l key))"

lemma append_event_legal:
  assumes "append_paper_mutation_event H l key e = Inr (l', b)" "ledger_legal l"
  shows "ledger_legal l'"
  using assms mlog.append_legal [of H l key e l'] append_event_False [of H l key e l']
  by (cases b) (auto simp: ledger_legal_def ledger_append_Some)

lemma save_intent_events [simp]:
  "save_paper_mutation_intent H l i = Inr (l', b) \<Longrightarrow> ml_events l' = ml_events l"
  by (auto simp: save_paper_mutation_intent_def Let_def split: if_splits option.splits)

lemma history_cong: "ml_events l' = ml_events l \<Longrightarrow> history l' = history l"
  by (simp add: history_def fun_eq_iff)

lemma legal_history_fresh_type:
  assumes "legal_history (es @ [e])" "x \<in> set es" "me_attempt_number x = me_attempt_number e"
  shows "me_event_type x \<noteq> me_event_type e"
proof -
  have "attempt_types (me_attempt_number e) (es @ [e]) = types_up_to (me_event_type e)"
    using types_of_attempt [OF legal_history_shape [OF assms(1)], of "me_attempt_number e"] by simp
  then have "attempt_types (me_attempt_number e) es @ [me_event_type e] = types_up_to (me_event_type e)" by simp
  moreover have "me_event_type x \<in> set (attempt_types (me_attempt_number e) es)"
    using assms(2,3) by (auto simp: attempt_types_def)
  moreover have "distinct (types_up_to t)" for t by (cases t) auto
  ultimately show ?thesis by (metis distinct_append disjoint_insert(1) list.simps(15))
qed

lemma find_appended: "find P (xs @ [y]) = (case find P xs of None \<Rightarrow> if P y then Some y else None | Some x \<Rightarrow> Some x)"
  by (induction xs) auto

lemma require_source_intents [simp]:
  "require_mutation_source (l\<lparr>ml_intents := is\<rparr>) i = require_mutation_source l i"
  by (simp add: require_mutation_source_def cong: option.case_cong if_cong)

subsection \<open>Properties of the ledger\<close>

definition example_hashes :: hashes where
  "example_hashes = \<lparr> h_intent = (\<lambda>i. mi_symbol i), h_event = (\<lambda>k e. k @ replicate (nat (me_attempt_number e)) CHR ''#''
       @ (case me_event_type e of Attempted \<Rightarrow> ''a'' | Acknowledged \<Rightarrow> ''k'' | Rejected \<Rightarrow> ''r''
          | Ambiguous \<Rightarrow> ''m'' | Recovered_Acknowledged \<Rightarrow> ''rk'' | Recovered_Absent \<Rightarrow> ''ra'')),
     h_evidence = (\<lambda>_. replicate 64 CHR ''0'') \<rparr>"

definition example_mutation :: mutation_intent where
  "example_mutation = \<lparr> mi_fingerprint = replicate 64 CHR ''a'', mi_created_at = Aware 0, mi_operation = Submit_Entry,
     mi_protective_plan_key = None, mi_safety_plan_key = None, mi_action_sequence = None,
     mi_request_sha256 = replicate 64 CHR ''1'', mi_symbol = ''ABC'', mi_broker_order_id = None,
     mi_side = Some BUY, mi_quantity = Some (Finite 136), mi_entry_intent_id = Some ''i1'' \<rparr>"

definition example_attempt :: mutation_event where
  "example_attempt = \<lparr> me_attempt_number = 1, me_occurred_at = Aware 1, me_event_type = Attempted,
     me_request_id = None, me_status_code = None, me_broker_order_id = None,
     me_evidence_sha256 = replicate 64 CHR ''1'' \<rparr>"

definition example_ledger :: mutation_ledger where
  "example_ledger = \<lparr> ml_order_intents = [\<lparr> si_intent_id = ''i1'', si_strategy_id = ''orb'',
       si_strategy_version = ''v1'', si_symbol = ''ABC'', si_created_at = Some (Aware 0), si_side = BUY,
       si_entry_limit = Finite 10, si_stop = Finite (95 / 10), si_target_1r = Finite (105 / 10),
       si_target_2r = Finite 11, si_quantity = 136 \<rparr>],
     ml_oco_plans = [], ml_oco_legs = [], ml_safety_actions = [],
     ml_intents = [\<lparr> smi_key = ''ABC'', smi_intent = example_mutation \<rparr>], ml_events = [] \<rparr>"

lemma example_ledger_legal: "ledger_legal example_ledger"
  by (simp add: ledger_legal_def history_def example_ledger_def legal_empty)

text \<open>C4. The stored rows decide a new event exactly as the protocol does: a valid, fresh event of a
  stored intent is accepted if and only if it extends the intent's history legally.\<close>

theorem ledger_accepts_exactly_the_protocol:
  assumes "ledger_legal l" "require_mutation_event e" "list_ex (\<lambda>s. smi_key s = key) (ml_intents l)"
    and "\<forall>row \<in> set (ml_events l). fst row \<noteq> h_event H key e"
  shows "(\<exists>l'. append_paper_mutation_event H l key e = Inr (l', True)
            \<and> history l' = (history l)(key := history l key @ [e]))
    \<longleftrightarrow> legal_history (history l key @ [e])"
    (is "?L \<longleftrightarrow> ?R")
proof -
  have legal: "legal_history (history l key)" using assms(1) by (simp add: ledger_legal_def)
  have fresh: "find (\<lambda>(ek, _, _). ek = h_event H key e) (ml_events l) = None"
    using assms(4) by (auto simp: find_None_iff)
  show ?thesis
  proof
    assume ?L
    then obtain l' where "append_paper_mutation_event H l key e = Inr (l', True)" by blast
    then show ?R using append_event_True require_transition_iff_legal [OF legal] by blast
  next
    assume r: ?R
    then have "\<not> list_ex (\<lambda>x. me_attempt_number x = me_attempt_number e \<and> me_event_type x = me_event_type e)
        (history l key)"
      using legal_history_fresh_type by (auto simp: list_ex_iff)
    then show ?L using r require_transition_iff_legal [OF legal] assms(2,3) fresh
      by (simp add: append_paper_mutation_event_def Let_def fun_eq_iff)
  qed
qed

theorem ledger_accepts_exactly_the_protocol_witness:
  "\<exists>l'. append_paper_mutation_event example_hashes example_ledger ''ABC'' example_attempt = Inr (l', True)"
proof -
  have "require_mutation_event example_attempt" by code_simp
  moreover have "list_ex (\<lambda>s. smi_key s = ''ABC'') (ml_intents example_ledger)" by code_simp
  moreover have "\<forall>row \<in> set (ml_events example_ledger). fst row \<noteq> h_event example_hashes ''ABC'' example_attempt"
    by (simp add: example_ledger_def)
  moreover have "legal_history (history example_ledger ''ABC'' @ [example_attempt])"
    by (simp add: history_def example_ledger_def example_attempt_def legal_first)
  ultimately show ?thesis
    using ledger_accepts_exactly_the_protocol [OF example_ledger_legal, of example_attempt "''ABC''" example_hashes] by blast
qed

text \<open>Both writes may be repeated: writing the same event or the same intent again changes nothing
  and is reported as a duplicate, never as an error.\<close>

theorem ledger_writes_are_idempotent:
  "(append_paper_mutation_event H l key e = Inr (l', b) \<longrightarrow>
      append_paper_mutation_event H l' key e = Inr (l', False))
   \<and> (save_paper_mutation_intent H l i = Inr (l', b) \<longrightarrow>
      save_paper_mutation_intent H l' i = Inr (l', False))"
proof (intro conjI impI)
  assume a: "append_paper_mutation_event H l key e = Inr (l', b)"
  show "append_paper_mutation_event H l' key e = Inr (l', False)"
  proof (cases b)
    case True
    then show ?thesis using a
      by (auto simp: append_paper_mutation_event_def Let_def find_appended split: if_splits option.splits)
  next
    case False
    then show ?thesis using a append_event_False by metis
  qed
next
  assume s: "save_paper_mutation_intent H l i = Inr (l', b)"
  then show "save_paper_mutation_intent H l' i = Inr (l', False)"
    by (auto simp: save_paper_mutation_intent_def Let_def find_appended split: if_splits option.splits)
qed

theorem ledger_writes_are_idempotent_witness:
  "\<exists>l'. append_paper_mutation_event example_hashes example_ledger ''ABC'' example_attempt = Inr (l', True)
     \<and> append_paper_mutation_event example_hashes l' ''ABC'' example_attempt = Inr (l', False)"
proof -
  have "map_sum (\<lambda>_. ()) snd (append_paper_mutation_event example_hashes example_ledger ''ABC'' example_attempt)
      = Inr True"
    by code_simp
  then obtain l' where "append_paper_mutation_event example_hashes example_ledger ''ABC'' example_attempt
      = Inr (l', True)"
    by (cases "append_paper_mutation_event example_hashes example_ledger ''ABC'' example_attempt") auto
  then show ?thesis
    using ledger_writes_are_idempotent [of example_hashes example_ledger "''ABC''" example_attempt l' True] by blast
qed

end
