(* ===== verification/Mutation_Executor.thy ===== *)
theory Mutation_Executor
  imports Mutation_Ledger
begin

text \<open>
  \<^verbatim>\<open>paper_mutation_executor.py\<close>, \<^verbatim>\<open>paper_mutation_acknowledgement.py\<close>,
  \<^verbatim>\<open>paper_mutation_intents.py\<close> and \<^verbatim>\<open>paper_entry_mutation_persistence.py\<close>: an intent is
  stored, the attempt is appended, only then the broker is called, and the answer is appended.
  The broker and the clock are functions of the ledger at the moment they are called, so every
  call may answer differently.  \<open>Uncaught\<close> is every exception the executor does not catch, and a
  process that dies during the call: the attempt is on record, its answer is not.  An operation
  returns the ledger it leaves behind beside its error or result, so nothing written before a
  raise is lost.
\<close>

datatype mutation_receipt =
    Oco_Receipt (rec_request_id: string) oco_snapshot
  | Cancel_Receipt (rec_request_id: string) string pydt
  | Close_Receipt (rec_request_id: string) pydt paper_order_snapshot
  | Entry_Receipt (rec_request_id: string) pydt paper_order_snapshot

datatype broker_outcome =
    Receipt mutation_receipt
  | Broker_Rejected "string option" int
  | Transport_Error
  | Response_Incomplete
  | Uncaught

datatype execution_state = Exec_Acknowledged | Exec_Already_Acknowledged | Exec_Rejected | Exec_Ambiguous

record execution_result =
  er_mutation_key :: sha
  er_state :: execution_state
  er_broker_order_id :: "string option"

record stored_safety_plan =
  ssp_plan_key :: sha
  ssp_plan :: safety_plan

record resize_cancel_plan =
  rcp_parent_intent_id :: string
  rcp_source_plan_key :: sha
  rcp_broker_order_id :: string
  rcp_symbol :: symbol
  rcp_observed_at :: pydt

text \<open>The request a mutation sends, whose canonical digest the intent stores.\<close>

datatype mutation_request =
    Entry_Request sized_paper_order
  | Oco_Request oco_exit_plan
  | Cancel_Request safety_action
  | Close_Request safety_action

record environment =
  env_hashes :: hashes
  env_request_sha256 :: "mutation_request \<Rightarrow> sha"
  env_broker :: "mutation_ledger \<Rightarrow> mutation_request \<Rightarrow> broker_outcome"
  env_clock :: "mutation_ledger \<Rightarrow> pydt"

subsection \<open>Intents\<close>

definition entry_order_mutation_intent :: "environment \<Rightarrow> string \<Rightarrow> sized_paper_order \<Rightarrow> mutation_intent" where
  "entry_order_mutation_intent env fingerprint order =
     (let intent = so_intent order in
      \<lparr> mi_fingerprint = fingerprint, mi_created_at = pi_created_at intent, mi_operation = Submit_Entry,
        mi_protective_plan_key = None, mi_safety_plan_key = None, mi_action_sequence = None,
        mi_request_sha256 = env_request_sha256 env (Entry_Request order), mi_symbol = pi_symbol intent,
        mi_broker_order_id = None, mi_side = Some (pi_side intent),
        mi_quantity = Some (Finite (of_int (so_quantity order))),
        mi_entry_intent_id = Some (pi_intent_id intent) \<rparr>)"

definition protective_oco_mutation_intent :: "environment \<Rightarrow> string \<Rightarrow> stored_oco_plan \<Rightarrow> mutation_intent" where
  "protective_oco_mutation_intent env fingerprint stored =
     (let plan = sp_plan stored in
      \<lparr> mi_fingerprint = fingerprint, mi_created_at = sp_planned_at stored, mi_operation = Submit_Protective_Oco,
        mi_protective_plan_key = Some (sp_plan_key stored), mi_safety_plan_key = None, mi_action_sequence = None,
        mi_request_sha256 = env_request_sha256 env (Oco_Request plan), mi_symbol = op_symbol plan,
        mi_broker_order_id = None, mi_side = Some (op_side plan),
        mi_quantity = Some (Finite (of_int (op_quantity plan))), mi_entry_intent_id = None \<rparr>)"

definition protective_oco_cancel_mutation_intent ::
    "environment \<Rightarrow> string \<Rightarrow> stored_oco_plan \<Rightarrow> resize_cancel_plan \<Rightarrow> mutation_error + mutation_intent" where
  "protective_oco_cancel_mutation_intent env fingerprint stored cancel_plan =
     (if rcp_parent_intent_id cancel_plan \<noteq> op_parent_intent_id (sp_plan stored)
         \<or> rcp_source_plan_key cancel_plan \<noteq> sp_plan_key stored
         \<or> rcp_symbol cancel_plan \<noteq> op_symbol (sp_plan stored)
      then Inl Invalid_Mutation_Record
      else
        let action = Cancel_Order (rcp_broker_order_id cancel_plan) (rcp_symbol cancel_plan) True in
        Inr \<lparr> mi_fingerprint = fingerprint, mi_created_at = sp_planned_at stored,
          mi_operation = Cancel_Protective_Oco, mi_protective_plan_key = Some (rcp_source_plan_key cancel_plan),
          mi_safety_plan_key = None, mi_action_sequence = None,
          mi_request_sha256 = env_request_sha256 env (Cancel_Request action), mi_symbol = rcp_symbol cancel_plan,
          mi_broker_order_id = Some (rcp_broker_order_id cancel_plan), mi_side = None, mi_quantity = None,
          mi_entry_intent_id = None \<rparr>)"

definition safety_action_mutation_intent ::
    "environment \<Rightarrow> stored_safety_plan \<Rightarrow> int \<Rightarrow> safety_action \<Rightarrow> mutation_intent" where
  "safety_action_mutation_intent env stored seq_no action =
     (let plan = ssp_plan stored;
          base = (\<lambda>operation request broker_order_id side quantity.
            \<lparr> mi_fingerprint = pl_fingerprint plan, mi_created_at = pl_observed_at plan,
              mi_operation = operation, mi_protective_plan_key = None,
              mi_safety_plan_key = Some (ssp_plan_key stored), mi_action_sequence = Some seq_no,
              mi_request_sha256 = env_request_sha256 env request, mi_symbol = act_symbol action,
              mi_broker_order_id = broker_order_id, mi_side = side, mi_quantity = quantity,
              mi_entry_intent_id = None \<rparr>)
      in case action of
           Cancel_Order i _ _ \<Rightarrow> base Cancel_Order_Op (Cancel_Request action) (Some i) None None
         | Close_Position _ side quantity \<Rightarrow>
             base Close_Position_Op (Close_Request action) None (Some side) (Some quantity))"

subsection \<open>One attempt\<close>

definition acknowledged_mutation_event :: "hashes \<Rightarrow> mutation_receipt \<Rightarrow> int \<Rightarrow> pydt \<Rightarrow> mutation_event" where
  "acknowledged_mutation_event H receipt attempt_number occurred_at =
     (let (status_code, broker_order_id) = (case receipt of
            Entry_Receipt _ _ order \<Rightarrow> (200, os_broker_order_id order)
          | Oco_Receipt _ snapshot \<Rightarrow> (200, leg_broker_order_id (oco_take_profit snapshot))
          | Cancel_Receipt _ broker_order_id _ \<Rightarrow> (204, broker_order_id)
          | Close_Receipt _ _ order \<Rightarrow> (200, os_broker_order_id order))
      in \<lparr> me_attempt_number = attempt_number, me_occurred_at = occurred_at, me_event_type = Acknowledged,
           me_request_id = Some (rec_request_id receipt), me_status_code = Some status_code,
           me_broker_order_id = Some broker_order_id,
           me_evidence_sha256 =
             h_evidence H (Acknowledged_Evidence (rec_request_id receipt) status_code broker_order_id) \<rparr>)"

definition existing_result :: "sha \<Rightarrow> mutation_event list \<Rightarrow> execution_result option" where
  "existing_result mutation_key events =
     (if events = [] then None
      else
        let latest = last events;
            result = (\<lambda>state. Some \<lparr> er_mutation_key = mutation_key, er_state = state,
              er_broker_order_id = me_broker_order_id latest \<rparr>)
        in case me_event_type latest of
             Acknowledged \<Rightarrow> result Exec_Already_Acknowledged
           | Recovered_Acknowledged \<Rightarrow> result Exec_Already_Acknowledged
           | Rejected \<Rightarrow> result Exec_Rejected
           | Attempted \<Rightarrow> result Exec_Ambiguous
           | Ambiguous \<Rightarrow> result Exec_Ambiguous
           | Recovered_Absent \<Rightarrow> None)"

text \<open>
  The part of \<^verbatim>\<open>_run\<close> before the broker call: either the stored outcome, or the ledger with
  the attempt appended and its number.
\<close>

definition begin_attempt ::
    "environment \<Rightarrow> mutation_ledger \<Rightarrow> mutation_intent \<Rightarrow> bool
      \<Rightarrow> mutation_ledger \<times> (mutation_error + execution_result + int)" where
  "begin_attempt env l intent persist_intent =
     (case (if persist_intent then save_paper_mutation_intent (env_hashes env) l intent else Inr (l, False)) of
        Inl e \<Rightarrow> (l, Inl e)
      | Inr (l1, _) \<Rightarrow>
          (let mutation_key = h_intent (env_hashes env) intent;
               events = history l1 mutation_key
           in case existing_result mutation_key events of
                Some existing \<Rightarrow> (l1, Inr (Inl existing))
              | None \<Rightarrow>
                  (let attempt_number = max_or_zero (map me_attempt_number events) + 1
                   in case append_paper_mutation_event (env_hashes env) l1 mutation_key
                          \<lparr> me_attempt_number = attempt_number, me_occurred_at = env_clock env l1,
                            me_event_type = Attempted, me_request_id = None, me_status_code = None,
                            me_broker_order_id = None, me_evidence_sha256 = mi_request_sha256 intent \<rparr> of
                        Inl e \<Rightarrow> (l1, Inl e)
                      | Inr (l2, _) \<Rightarrow> (l2, Inr (Inr attempt_number)))))"

text \<open>The part after it: the answer of the broker becomes the next event.\<close>

definition answer_event :: "hashes \<Rightarrow> broker_outcome \<Rightarrow> int \<Rightarrow> pydt \<Rightarrow> mutation_event" where
  "answer_event H outcome attempt_number now =
     (case outcome of
        Receipt receipt \<Rightarrow> acknowledged_mutation_event H receipt attempt_number now
      | Broker_Rejected request_id status_code \<Rightarrow>
          \<lparr> me_attempt_number = attempt_number, me_occurred_at = now, me_event_type = Rejected,
            me_request_id = request_id, me_status_code = Some status_code, me_broker_order_id = None,
            me_evidence_sha256 = h_evidence H (Rejected_Evidence request_id status_code) \<rparr>
      | _ \<Rightarrow>
          \<lparr> me_attempt_number = attempt_number, me_occurred_at = now, me_event_type = Ambiguous,
            me_request_id = None, me_status_code = None, me_broker_order_id = None,
            me_evidence_sha256 = h_evidence H (Ambiguous_Evidence
              (if outcome = Transport_Error then ''transport_error'' else ''response_incomplete'')) \<rparr>)"

definition answer_state :: "broker_outcome \<Rightarrow> execution_state" where
  "answer_state outcome =
     (case outcome of Receipt _ \<Rightarrow> Exec_Acknowledged | Broker_Rejected _ _ \<Rightarrow> Exec_Rejected | _ \<Rightarrow> Exec_Ambiguous)"

definition finish_attempt ::
    "environment \<Rightarrow> mutation_ledger \<Rightarrow> sha \<Rightarrow> int \<Rightarrow> broker_outcome
      \<Rightarrow> mutation_ledger \<times> (mutation_error + execution_result)" where
  "finish_attempt env l mutation_key attempt_number outcome =
     (if outcome = Uncaught then (l, Inl Broker_Raised)
      else
        let event = answer_event (env_hashes env) outcome attempt_number (env_clock env l)
        in case append_paper_mutation_event (env_hashes env) l mutation_key event of
             Inl e \<Rightarrow> (l, Inl e)
           | Inr (l', _) \<Rightarrow> (l', Inr
               \<lparr> er_mutation_key = mutation_key, er_state = answer_state outcome,
                 er_broker_order_id = me_broker_order_id event \<rparr>))"

text \<open>\<^verbatim>\<open>_run\<close>; the third component lists the broker calls it made.\<close>

definition run_mutation ::
    "environment \<Rightarrow> mutation_ledger \<Rightarrow> mutation_intent \<Rightarrow> mutation_request \<Rightarrow> bool
      \<Rightarrow> mutation_ledger \<times> (mutation_error + execution_result) \<times> mutation_request list" where
  "run_mutation env l intent request persist_intent =
     (case begin_attempt env l intent persist_intent of
        (l1, Inl e) \<Rightarrow> (l1, Inl e, [])
      | (l1, Inr (Inl existing)) \<Rightarrow> (l1, Inr existing, [])
      | (l1, Inr (Inr attempt_number)) \<Rightarrow>
          (case finish_attempt env l1 (h_intent (env_hashes env) intent) attempt_number (env_broker env l1 request) of
             (l2, result) \<Rightarrow> (l2, result, [request])))"

subsection \<open>The four entry points\<close>

definition stored_values :: "sized_paper_order \<Rightarrow> stored_intent" where
  "stored_values order =
     (let i = so_intent order in
      \<lparr> si_intent_id = pi_intent_id i, si_strategy_id = pi_strategy_id i,
        si_strategy_version = pi_strategy_version i, si_symbol = pi_symbol i,
        si_created_at = Some (pi_created_at i), si_side = pi_side i, si_entry_limit = pi_entry_limit i,
        si_stop = pi_stop i, si_target_1r = pi_target_1r i, si_target_2r = pi_target_2r i,
        si_quantity = so_quantity order \<rparr>)"

text \<open>One transaction: a failing mutation intent also undoes the order intent.\<close>

definition save_entry_mutation_intent ::
    "hashes \<Rightarrow> mutation_ledger \<Rightarrow> sized_paper_order \<Rightarrow> mutation_intent
      \<Rightarrow> mutation_error + mutation_ledger \<times> bool" where
  "save_entry_mutation_intent H l order mutation =
     (let values = stored_values order;
          existing = find (\<lambda>s. si_intent_id s = pi_intent_id (so_intent order)) (ml_order_intents l)
      in if existing \<noteq> None \<and> existing \<noteq> Some values then Inl Intent_Conflict
         else
           let order_inserted = (existing = None);
               l1 = (if order_inserted then l\<lparr>ml_order_intents := ml_order_intents l @ [values]\<rparr> else l)
           in case save_paper_mutation_intent H l1 mutation of
                Inl e \<Rightarrow> Inl e
              | Inr (l2, mutation_inserted) \<Rightarrow> Inr (l2, order_inserted \<or> mutation_inserted))"

definition execute_entry where
  "execute_entry env l fingerprint order =
     (let intent = entry_order_mutation_intent env fingerprint order
      in case save_entry_mutation_intent (env_hashes env) l order intent of
           Inl e \<Rightarrow> (l, Inl e, [])
         | Inr (l1, _) \<Rightarrow> run_mutation env l1 intent (Entry_Request order) False)"

definition execute_protective_oco where
  "execute_protective_oco env l fingerprint stored =
     run_mutation env l (protective_oco_mutation_intent env fingerprint stored) (Oco_Request (sp_plan stored)) True"

definition execute_protective_oco_cancel where
  "execute_protective_oco_cancel env l fingerprint stored cancel_plan =
     (case protective_oco_cancel_mutation_intent env fingerprint stored cancel_plan of
        Inl e \<Rightarrow> (l, Inl e, [])
      | Inr intent \<Rightarrow>
          run_mutation env l intent
            (Cancel_Request (Cancel_Order (rcp_broker_order_id cancel_plan) (rcp_symbol cancel_plan) True)) True)"

text \<open>The actions of a stored plan in order, with the running results and broker calls.\<close>

fun execute_actions ::
    "environment \<Rightarrow> stored_safety_plan \<Rightarrow> bool \<Rightarrow> int \<Rightarrow> safety_action list \<Rightarrow> mutation_ledger
      \<Rightarrow> execution_result list \<Rightarrow> mutation_request list
      \<Rightarrow> mutation_ledger \<times> (mutation_error + execution_result list) \<times> mutation_request list" where
  "execute_actions env stored reconcile n [] l results calls = (l, Inr results, calls)"
| "execute_actions env stored reconcile n (action # actions) l results calls =
     (let intent = safety_action_mutation_intent env stored n action;
          request = (if is_Cancel_Order action then Cancel_Request action else Close_Request action)
      in if \<not> is_Cancel_Order action \<and> reconcile then (l, Inr results, calls)
         else case run_mutation env l intent request True of
                (l', Inl e, cs) \<Rightarrow> (l', Inl e, calls @ cs)
              | (l', Inr result, cs) \<Rightarrow>
                  (if er_state result \<notin> {Exec_Acknowledged, Exec_Already_Acknowledged}
                   then (l', Inr (results @ [result]), calls @ cs)
                   else execute_actions env stored reconcile (n + 1) actions l' (results @ [result]) (calls @ cs)))"

definition execute_safety_plan where
  "execute_safety_plan env l stored =
     (let actions = pl_actions (ssp_plan stored)
      in execute_actions env stored (list_ex is_Cancel_Order actions) 0 actions l [] [])"

subsection \<open>At most once\<close>

text \<open>
  What a run may leave behind: the ledger before it with the intent stored, or that ledger with
  one attempt, or with one attempt and its answer.
\<close>

lemma saved_intent_history:
  "(if p then save_paper_mutation_intent H l intent else Inr (l, False)) = Inr (l1, b) \<Longrightarrow> history l1 = history l"
  by (auto split: if_splits intro!: history_cong)

lemma begin_attempt_cases:
  obtains (error) l1 e where "begin_attempt env l intent p = (l1, Inl e)" "history l1 = history l"
  | (existing) l1 r where "begin_attempt env l intent p = (l1, Inr (Inl r))" "history l1 = history l"
      "existing_result (h_intent (env_hashes env) intent) (history l (h_intent (env_hashes env) intent)) = Some r"
  | (new) l0 l1 n b where "begin_attempt env l intent p = (l1, Inr (Inr n))" "history l0 = history l"
      "existing_result (h_intent (env_hashes env) intent) (history l (h_intent (env_hashes env) intent)) = None"
      "n = max_or_zero (map me_attempt_number (history l (h_intent (env_hashes env) intent))) + 1"
      "append_paper_mutation_event (env_hashes env) l0 (h_intent (env_hashes env) intent)
          \<lparr> me_attempt_number = n, me_occurred_at = env_clock env l0,
            me_event_type = Attempted, me_request_id = None, me_status_code = None,
            me_broker_order_id = None, me_evidence_sha256 = mi_request_sha256 intent \<rparr> = Inr (l1, b)"
proof (cases "if p then save_paper_mutation_intent (env_hashes env) l intent else Inr (l, False)")
  case (Inl e)
  then have "begin_attempt env l intent p = (l, Inl e)" unfolding begin_attempt_def by simp
  then show ?thesis by (rule error) simp
next
  case (Inr y)
  obtain l0 b0 where y: "y = (l0, b0)" by (cases y)
  have h: "history l0 = history l" by (rule saved_intent_history [OF Inr [unfolded y]])
  note b = begin_attempt_def [of env l intent p, unfolded Inr y Let_def h, simplified]
  show ?thesis
  proof (cases "existing_result (h_intent (env_hashes env) intent) (history l (h_intent (env_hashes env) intent))")
    case (Some r)
    then show ?thesis using existing [of l0 r] b h by simp
  next
    case None
    define n where "n = max_or_zero (map me_attempt_number (history l (h_intent (env_hashes env) intent))) + 1"
    show ?thesis
    proof (cases "append_paper_mutation_event (env_hashes env) l0 (h_intent (env_hashes env) intent)
          \<lparr> me_attempt_number = n, me_occurred_at = env_clock env l0,
            me_event_type = Attempted, me_request_id = None, me_status_code = None,
            me_broker_order_id = None, me_evidence_sha256 = mi_request_sha256 intent \<rparr>")
      case (Inl e)
      then show ?thesis using error [of l0 e] b h None by (simp add: n_def)
    next
      case (Inr x)
      then show ?thesis using new [of "fst x" n l0 "snd x"] b h None by (simp add: n_def split: prod.splits)
    qed
  qed
qed

lemma begin_attempt_new [guards]:
  assumes "begin_attempt env l intent p = (l1, Inr (Inr n))" "ledger_legal l"
  defines "key \<equiv> h_intent (env_hashes env) intent"
  shows "ledger_legal l1 \<and> (history l key = [] \<or> me_event_type (last (history l key)) = Recovered_Absent)
    \<and> (\<exists>e. me_event_type e = Attempted \<and> me_attempt_number e = n
         \<and> history l1 = (history l)(key := history l key @ [e]))"
proof (cases rule: begin_attempt_cases [of env l intent p])
  case (new l0 l1' n' b)
  then have eq: "l1' = l1" "n' = n" using assms(1) by simp_all
  define e where "e = \<lparr> me_attempt_number = n, me_occurred_at = env_clock env l0,
            me_event_type = Attempted, me_request_id = None, me_status_code = None,
            me_broker_order_id = None, me_evidence_sha256 = mi_request_sha256 intent \<rparr>"
  note ap = new(5) [unfolded eq, folded e_def key_def]
  have "history l key = [] \<or> me_event_type (last (history l key)) = Recovered_Absent"
    using new(3) unfolding existing_result_def Let_def key_def by (auto split: if_splits mutation_event_type.splits)
  moreover have "ledger_legal l0" using assms(2) new(2) by (simp add: ledger_legal_def)
  then have "ledger_legal l1" using append_event_legal [OF ap] by blast
  moreover have b: "b"
  proof (rule ccontr)
    assume "\<not> b"
    then have "e \<in> set (history l key)" using append_event_history(2) [OF ap] new(2) by simp
    then have "me_attempt_number e \<in> set (map me_attempt_number (history l key))" by simp
    then show False using max_or_zero_ge new(4) unfolding eq key_def by (fastforce simp: e_def)
  qed
  have "history l1 = (history l)(key := history l key @ [e])"
    using append_event_history(1) [OF ap] b new(2) by simp
  moreover have "me_event_type e = Attempted" "me_attempt_number e = n" by (simp_all add: e_def)
  ultimately show ?thesis by blast
qed (use assms(1) in simp_all)

lemma finish_attempt_histories:
  assumes "finish_attempt env l key n outcome = (l', r)"
  shows "history l' = history l
    \<or> (\<exists>e. me_event_type e \<in> {Acknowledged, Rejected, Ambiguous}
         \<and> history l' = (history l)(key := history l key @ [e]))"
proof -
  define e where "e = answer_event (env_hashes env) outcome n (env_clock env l)"
  have t: "me_event_type e \<in> {Acknowledged, Rejected, Ambiguous}"
    unfolding e_def answer_event_def acknowledged_mutation_event_def Let_def
    by (auto split: broker_outcome.splits prod.splits)
  have "l' = l \<or> (\<exists>b. append_paper_mutation_event (env_hashes env) l key e = Inr (l', b))"
    using assms unfolding finish_attempt_def Let_def e_def by (auto split: if_splits sum.splits)
  then consider "l' = l" | b where "append_paper_mutation_event (env_hashes env) l key e = Inr (l', b)" by blast
  then show ?thesis
  proof cases
    case (2 b)
    then show ?thesis using t append_event_history(1) [OF 2] by (cases b) auto
  qed simp
qed

lemma finish_attempt_legal:
  "finish_attempt env l key n outcome = (l', r) \<Longrightarrow> ledger_legal l \<Longrightarrow> ledger_legal l'"
  unfolding finish_attempt_def Let_def
  by (auto dest: append_event_legal split: if_splits sum.splits prod.splits)

lemma run_mutation_cases:
  assumes "run_mutation env l intent request p = (l', r, cs)"
  obtains (stored) x where "begin_attempt env l intent p = (l', x)" "cs = []" "\<And>n. x \<noteq> Inr (Inr n)"
      "\<And>e. x = Inl e \<Longrightarrow> r = Inl e" "\<And>existing. x = Inr (Inl existing) \<Longrightarrow> r = Inr existing"
    | (called) l1 n where "begin_attempt env l intent p = (l1, Inr (Inr n))" "cs = [request]"
      "finish_attempt env l1 (h_intent (env_hashes env) intent) n (env_broker env l1 request) = (l', r)"
proof -
  obtain l1 x where b: "begin_attempt env l intent p = (l1, x)" by (cases "begin_attempt env l intent p")
  then show ?thesis
  proof (cases "\<exists>n. x = Inr (Inr n)")
    case True
    then show ?thesis using assms called b unfolding run_mutation_def by (auto split: prod.splits)
  next
    case False
    then show ?thesis using assms stored [of x] b unfolding run_mutation_def by (auto split: sum.splits)
  qed
qed

lemma run_mutation_legal:
  assumes "run_mutation env l intent request p = (l', r, cs)" "ledger_legal l"
  shows "ledger_legal l'"
  using assms(1)
proof (cases rule: run_mutation_cases)
  case (stored x)
  then have "history l' = history l"
    by (cases rule: begin_attempt_cases [of env l intent p]) auto
  then show ?thesis using assms(2) by (simp add: ledger_legal_def)
next
  case (called l1 n)
  then show ?thesis using begin_attempt_new [OF _ assms(2)] finish_attempt_legal by blast
qed

text \<open>How a run changes the histories: not at all without a call, by one attempt and at most one
  answer with one.\<close>

lemma run_mutation_history:
  assumes "run_mutation env l intent request p = (l', r, cs)" "ledger_legal l"
  defines "key \<equiv> h_intent (env_hashes env) intent"
  shows "(cs = [] \<and> history l' = history l)
    \<or> (cs = [request] \<and> (history l key = [] \<or> me_event_type (last (history l key)) = Recovered_Absent)
       \<and> (\<exists>a answer. me_event_type a = Attempted \<and> length answer \<le> 1
            \<and> (\<forall>e \<in> set answer. me_event_type e \<in> {Acknowledged, Rejected, Ambiguous})
            \<and> history l' = (history l)(key := history l key @ a # answer)))"
  using assms(1)
proof (cases rule: run_mutation_cases)
  case (stored x)
  then show ?thesis by (cases rule: begin_attempt_cases [of env l intent p]) auto
next
  case (called l1 n)
  from begin_attempt_new [OF called(1) assms(2), folded key_def] obtain a where
    a: "me_event_type a = Attempted" "history l1 = (history l)(key := history l key @ [a])"
    and last_: "history l key = [] \<or> me_event_type (last (history l key)) = Recovered_Absent"
    by auto
  from finish_attempt_histories [OF called(3), folded key_def] consider
      "history l' = (history l)(key := history l key @ a # [])"
    | e where "me_event_type e \<in> {Acknowledged, Rejected, Ambiguous}"
        "history l' = (history l)(key := history l key @ a # [e])"
    using a(2) by auto
  then show ?thesis
  proof cases
    case 1
    then show ?thesis using a(1) last_ called(2) by - (rule disjI2, intro conjI exI [of _ a] exI [of _ "[]"], simp_all)
  next
    case (2 e)
    then show ?thesis using a(1) last_ called(2) by - (rule disjI2, intro conjI exI [of _ a] exI [of _ "[e]"], simp_all)
  qed
qed

end
