(* ===== verification/Mutation_Recovery.thy ===== *)
theory Mutation_Recovery
  imports Mutation_Ledger
begin

text \<open>
  \<^verbatim>\<open>paper_mutation_recovery_rules.py\<close>, \<^verbatim>\<open>paper_entry_mutation_recovery.py\<close> and
  \<^verbatim>\<open>paper_mutation_recovery.py\<close>: from a broker snapshot of the current epoch, decide whether
  a mutation whose outcome is unknown took effect, did not, or stays unresolved, and record the
  decision in the ledger.
\<close>

definition recovery_settle_delay :: int where "recovery_settle_delay = 30 * second_us"
definition recovery_max_evidence_age :: int where "recovery_max_evidence_age = day_us"
definition max_runtime_receipt_age :: int where "max_runtime_receipt_age = 5 * second_us"

definition cancel_effect_statuses :: "string list" where
  "cancel_effect_statuses =
     [''pending_cancel'', ''canceled'', ''filled'', ''expired'', ''rejected'', ''done_for_day'',
      ''stopped'', ''calculated'', ''replaced'']"

definition cancel_retryable_statuses :: "string list" where
  "cancel_retryable_statuses = [''new'', ''accepted'', ''pending_new'', ''partially_filled'']"

definition failed_close_statuses :: "string list" where
  "failed_close_statuses = [''canceled'', ''expired'', ''rejected'', ''failed'']"

record recovery_case =
  rc_stored_intent :: stored_mutation_intent
  rc_attempted :: mutation_event
  rc_snapshot :: recovery_snapshot
  rc_order_intents :: "stored_intent list"
  rc_protective_plans :: "stored_oco_plan list"

definition result_of :: "sha \<Rightarrow> recovery_outcome \<Rightarrow> string option \<Rightarrow> recovery_result" where
  "result_of key outcome broker_order_id =
     \<lparr>rr_mutation_key = key, rr_state = outcome, rr_broker_order_id = broker_order_id\<rparr>"

definition unresolved :: "recovery_case \<Rightarrow> recovery_result" where
  "unresolved c = result_of (smi_key (rc_stored_intent c)) Unresolved None"

definition absent :: "recovery_case \<Rightarrow> recovery_result" where
  "absent c = result_of (smi_key (rc_stored_intent c)) Was_Absent None"

definition acknowledged :: "recovery_case \<Rightarrow> string \<Rightarrow> recovery_result" where
  "acknowledged c i = result_of (smi_key (rc_stored_intent c)) Was_Acknowledged (Some i)"

definition is_settled :: "recovery_case \<Rightarrow> bool" where
  "is_settled c =
     (let age = instant (rv_completed_at (rc_snapshot c)) - instant (me_occurred_at (rc_attempted c))
      in recovery_settle_delay \<le> age \<and> age \<le> recovery_max_evidence_age)"

definition case_lookups :: "recovery_case \<Rightarrow> mutation_lookup list" where
  "case_lookups c =
     filter (\<lambda>lk. lk_key lk = smi_key (rc_stored_intent c)) (rs_mutation_lookups (rv_state (rc_snapshot c)))"

subsection \<open>Protective one-cancels-other orders\<close>

definition oco_snapshot_matches_plan :: "oco_snapshot \<Rightarrow> oco_exit_plan \<Rightarrow> bool" where
  "oco_snapshot_matches_plan snapshot plan =
     (let take_profit = oco_take_profit snapshot; stop_loss = oco_stop_loss snapshot;
          plan_quantity = Finite (of_int (op_quantity plan));
          quantities = [leg_quantity take_profit, leg_quantity stop_loss];
          filled_quantities = [leg_filled_quantity take_profit, leg_filled_quantity stop_loss]
      in leg_kind take_profit = Take_Profit_Leg
         \<and> leg_kind stop_loss = Stop_Loss_Leg
         \<and> leg_order_type take_profit = Limit_Order
         \<and> leg_order_type stop_loss = Stop_Order
         \<and> leg_broker_order_id take_profit \<noteq> leg_broker_order_id stop_loss
         \<and> leg_client_order_id take_profit = op_client_order_id plan
         \<and> leg_client_order_id stop_loss \<noteq> []
         \<and> leg_symbol take_profit = op_symbol plan
         \<and> leg_symbol stop_loss = op_symbol plan
         \<and> leg_side take_profit = op_side plan
         \<and> leg_side stop_loss = op_side plan
         \<and> list_all (\<lambda>q. is_finite q \<and> Finite 0 < q \<and> q \<le> plan_quantity) quantities
         \<and> list_all is_finite filled_quantities
         \<and> num_eq (num_max (leg_quantity take_profit) (leg_quantity stop_loss)) plan_quantity
         \<and> Finite 0 \<le> leg_filled_quantity take_profit
         \<and> leg_filled_quantity take_profit \<le> leg_quantity take_profit
         \<and> Finite 0 \<le> leg_filled_quantity stop_loss
         \<and> leg_filled_quantity stop_loss \<le> leg_quantity stop_loss
         \<and> leg_limit_price take_profit = Some (op_take_profit_limit plan)
         \<and> leg_stop_price take_profit = None
         \<and> leg_limit_price stop_loss = None
         \<and> leg_stop_price stop_loss = Some (op_stop_price plan)
         \<and> leg_time_in_force take_profit = plan_time_in_force
         \<and> leg_time_in_force stop_loss = plan_time_in_force
         \<and> leg_extended_hours take_profit = plan_extended_hours
         \<and> leg_extended_hours stop_loss = plan_extended_hours)"

definition oco_decision :: "recovery_case \<Rightarrow> recovery_result" where
  "oco_decision c =
     (let source_key = mi_protective_plan_key (smi_intent (rc_stored_intent c));
          plans = filter (\<lambda>p. Some (sp_plan_key p) = source_key) (rc_protective_plans c)
      in case only plans of None \<Rightarrow> unresolved c
       | Some plan \<Rightarrow>
         (let generic_matches = filter (\<lambda>s. oco_snapshot_matches_plan s (sp_plan plan))
                (rs_protective_ocos (rv_state (rc_snapshot c)))
          in case only (case_lookups c) of None \<Rightarrow> unresolved c
           | Some (Oco_Lookup _ _ snapshot) \<Rightarrow>
               (case snapshot of
                  Some s \<Rightarrow>
                    if oco_snapshot_matches_plan s (sp_plan plan)
                    then acknowledged c (leg_broker_order_id (oco_take_profit s))
                    else unresolved c
                | None \<Rightarrow>
                    if generic_matches = [] \<and> is_settled c then absent c else unresolved c)
           | Some _ \<Rightarrow> unresolved c))"

subsection \<open>Cancellations\<close>

definition cancel_decision :: "recovery_case \<Rightarrow> recovery_result" where
  "cancel_decision c =
     (let intent = smi_intent (rc_stored_intent c) in
      case mi_broker_order_id intent of None \<Rightarrow> unresolved c
      | Some target \<Rightarrow>
        (case only (case_lookups c) of None \<Rightarrow> unresolved c
         | Some (Cancel_Lookup _ _ broker_order_id order) \<Rightarrow>
             (case order of None \<Rightarrow> unresolved c
              | Some observed \<Rightarrow>
                  if broker_order_id \<noteq> target then unresolved c
                  else if os_broker_order_id observed \<noteq> target \<or> os_symbol observed \<noteq> mi_symbol intent
                  then unresolved c
                  else if os_status observed \<in> set cancel_effect_statuses
                  then acknowledged c (os_broker_order_id observed)
                  else if os_status observed \<in> set cancel_retryable_statuses \<and> is_settled c
                  then absent c
                  else unresolved c)
         | Some _ \<Rightarrow> unresolved c))"

subsection \<open>Closes\<close>

definition simple_orders :: "recovery_case \<Rightarrow> paper_order_snapshot list" where
  "simple_orders c =
     (let state = rv_state (rc_snapshot c)
      in bs_open_orders (rs_broker_state state) @ rs_targeted_orders state @ rs_recent_orders state)"

definition position_is_unchanged :: "recovery_case \<Rightarrow> order_side \<Rightarrow> pynum \<Rightarrow> bool" where
  "position_is_unchanged c side quantity =
     (let positions = filter (\<lambda>p. pos_symbol p = mi_symbol (smi_intent (rc_stored_intent c)))
            (bs_positions (rs_broker_state (rv_state (rc_snapshot c))));
          expected = (if side = SELL then quantity else num_neg quantity)
      in case only positions of None \<Rightarrow> False | Some p \<Rightarrow> num_eq (pos_quantity p) expected)"

definition close_orders :: "recovery_case \<Rightarrow> order_side \<Rightarrow> pynum \<Rightarrow> paper_order_snapshot list" where
  "close_orders c side quantity =
     filter (\<lambda>order. os_symbol order = mi_symbol (smi_intent (rc_stored_intent c))
         \<and> os_side order = side
         \<and> num_eq (os_quantity order) quantity
         \<and> os_limit_price order = None
         \<and> (case os_submitted_at order of None \<Rightarrow> False
            | Some t \<Rightarrow> instant t \<ge> instant (me_occurred_at (rc_attempted c))))
       (simple_orders c)"

definition close_decision :: "recovery_case \<Rightarrow> recovery_result" where
  "close_decision c =
     (let intent = smi_intent (rc_stored_intent c) in
      case (mi_side intent, mi_quantity intent) of
        (Some side, Some quantity) \<Rightarrow>
          (let orders = close_orders c side quantity; unchanged = position_is_unchanged c side quantity
           in case orders of
                [] \<Rightarrow> if unchanged \<and> is_settled c then absent c else unresolved c
              | [order] \<Rightarrow>
                  if os_status order \<in> set failed_close_statuses
                  then (if unchanged \<and> is_settled c then absent c else unresolved c)
                  else acknowledged c (os_broker_order_id order)
              | _ \<Rightarrow> unresolved c)
      | _ \<Rightarrow> unresolved c)"

subsection \<open>Entries\<close>

definition entry_order_matches :: "paper_order_snapshot \<Rightarrow> stored_intent \<Rightarrow> bool" where
  "entry_order_matches order source \<longleftrightarrow>
     os_client_order_id order = si_intent_id source
     \<and> os_symbol order = si_symbol source
     \<and> os_side order = si_side source
     \<and> num_eq (os_quantity order) (Finite (of_int (si_quantity source)))
     \<and> (case os_limit_price order of None \<Rightarrow> False | Some p \<Rightarrow> num_eq p (si_entry_limit source))
     \<and> os_time_in_force order = ''day''
     \<and> \<not> os_extended_hours order"

definition decide_entry_mutation_recovery :: "recovery_case \<Rightarrow> recovery_result" where
  "decide_entry_mutation_recovery c =
     (let entry_id = mi_entry_intent_id (smi_intent (rc_stored_intent c));
          sources = filter (\<lambda>s. Some (si_intent_id s) = entry_id) (rc_order_intents c)
      in case (only sources, only (case_lookups c)) of
           (Some source, Some (Entry_Lookup _ _ client_order_id order)) \<Rightarrow>
             if Some client_order_id \<noteq> entry_id then unresolved c
             else (case order of
                 None \<Rightarrow> if is_settled c then absent c else unresolved c
               | Some o' \<Rightarrow>
                   if entry_order_matches o' source then acknowledged c (os_broker_order_id o')
                   else unresolved c)
         | _ \<Rightarrow> unresolved c)"

definition decide_paper_mutation_recovery :: "recovery_case \<Rightarrow> recovery_result" where
  "decide_paper_mutation_recovery c =
     (case mi_operation (smi_intent (rc_stored_intent c)) of
        Submit_Entry \<Rightarrow> decide_entry_mutation_recovery c
      | Submit_Protective_Oco \<Rightarrow> oco_decision c
      | Cancel_Protective_Oco \<Rightarrow> cancel_decision c
      | Cancel_Order_Op \<Rightarrow> cancel_decision c
      | Close_Position_Op \<Rightarrow> close_decision c)"

subsection \<open>The recovery run\<close>

definition recoverable_types :: "mutation_event_type list" where
  "recoverable_types = [Attempted, Ambiguous]"

definition receipt_in_window :: "recovery_snapshot \<Rightarrow> pydt \<Rightarrow> bool" where
  "receipt_in_window s receipt \<longleftrightarrow>
     instant (rv_started_at s) \<le> instant receipt \<and> instant receipt \<le> instant (rv_completed_at s)
     \<and> instant (rv_completed_at s) - instant receipt \<le> max_runtime_receipt_age"

definition require_current_epoch_snapshot :: "recovery_snapshot \<Rightarrow> bool" where
  "require_current_epoch_snapshot s =
     (let observed_at = ac_observed_at (bs_account (rs_broker_state (rv_state s)));
          receipts = map oco_observed_at (rs_protective_ocos (rv_state s));
          lookup_receipts = map lk_observed_at (rs_mutation_lookups (rv_state s));
          aware = [rv_started_at s, rv_completed_at s, observed_at] @ receipts @ lookup_receipts
      in \<not> (rv_connection_epoch s = []
            \<or> strip (rv_connection_epoch s) \<noteq> rv_connection_epoch s
            \<or> \<not> list_all is_aware aware
            \<or> instant (rv_started_at s) \<ge> instant (rv_completed_at s)
            \<or> \<not> receipt_in_window s observed_at
            \<or> list_ex (\<lambda>r. \<not> receipt_in_window s r) receipts
            \<or> list_ex (\<lambda>r. \<not> receipt_in_window s r) lookup_receipts))"

definition append_recovery_event ::
    "hashes \<Rightarrow> mutation_ledger \<Rightarrow> recovery_result \<Rightarrow> int \<Rightarrow> recovery_snapshot
      \<Rightarrow> mutation_error + mutation_ledger" where
  "append_recovery_event H l result attempt_number snapshot =
     (let record_event = (\<lambda>event_type.
            map_sum id fst (append_paper_mutation_event H l (rr_mutation_key result)
              \<lparr> me_attempt_number = attempt_number,
                me_occurred_at = rv_completed_at snapshot,
                me_event_type = event_type,
                me_request_id = None,
                me_status_code = None,
                me_broker_order_id = rr_broker_order_id result,
                me_evidence_sha256 = h_evidence H (Recovered_Evidence (rr_mutation_key result)
                  (rr_state result) (rr_broker_order_id result) (rv_connection_epoch snapshot)
                  (rv_completed_at snapshot)) \<rparr>))
      in case rr_state result of
           Was_Acknowledged \<Rightarrow> record_event Recovered_Acknowledged
         | Was_Absent \<Rightarrow> record_event Recovered_Absent
         | Unresolved \<Rightarrow> Inr l)"

text \<open>
  The loop over the stored intents.  \<open>events\<close> is the history read once before the loop;
  appended rows stay when a later intent raises, so the ledger is returned beside the error.
\<close>

fun recover_intents ::
    "hashes \<Rightarrow> recovery_snapshot \<Rightarrow> (sha \<Rightarrow> mutation_event list) \<Rightarrow> stored_mutation_intent list
      \<Rightarrow> recovery_result list \<Rightarrow> mutation_ledger
      \<Rightarrow> mutation_ledger \<times> (mutation_error + recovery_result list)" where
  "recover_intents H snapshot events [] results l = (l, Inr results)"
| "recover_intents H snapshot events (si # rest) results l =
     (let es = events (smi_key si) in
      if es = [] \<or> me_event_type (last es) \<notin> set recoverable_types
      then recover_intents H snapshot events rest results l
      else if mi_fingerprint (smi_intent si) \<noteq> ac_fingerprint (bs_account (rs_broker_state (rv_state snapshot)))
      then (l, Inl Recovery_Account_Mismatch)
      else
        let attempt_number = me_attempt_number (last es);
            attempted = filter (\<lambda>e. me_attempt_number e = attempt_number \<and> me_event_type e = Attempted) es
        in case only attempted of
             None \<Rightarrow> (l, Inl Invalid_Recovery_Snapshot)
           | Some a \<Rightarrow>
               (let result = decide_paper_mutation_recovery
                      \<lparr> rc_stored_intent = si, rc_attempted = a, rc_snapshot = snapshot,
                        rc_order_intents = ml_order_intents l, rc_protective_plans = ml_oco_plans l \<rparr>
                in case append_recovery_event H l result attempt_number snapshot of
                     Inl e \<Rightarrow> (l, Inl e)
                   | Inr l' \<Rightarrow> recover_intents H snapshot events rest (results @ [result]) l'))"

definition recover ::
    "hashes \<Rightarrow> mutation_ledger \<Rightarrow> recovery_snapshot
      \<Rightarrow> mutation_ledger \<times> (mutation_error + recovery_result list)" where
  "recover H l snapshot =
     (if \<not> require_current_epoch_snapshot snapshot then (l, Inl Invalid_Recovery_Snapshot)
      else recover_intents H snapshot (history l) (ml_intents l) [] l)"

subsection \<open>What a decision proves\<close>

lemmas outcome_defs = unresolved_def absent_def acknowledged_def result_of_def

lemma outcome_state [simp]:
  "rr_state (unresolved c) = Unresolved" "rr_state (absent c) = Was_Absent"
  "rr_state (acknowledged c i) = Was_Acknowledged"
  by (simp_all add: outcome_defs)

lemma outcome_key [simp]:
  "rr_mutation_key (unresolved c) = smi_key (rc_stored_intent c)"
  "rr_mutation_key (absent c) = smi_key (rc_stored_intent c)"
  "rr_mutation_key (acknowledged c i) = smi_key (rc_stored_intent c)"
  by (simp_all add: outcome_defs)

lemma oco_decision_absent [guards]:
  assumes "rr_state (oco_decision c) = Was_Absent"
  obtains t and p :: stored_oco_plan where "is_settled c" "case_lookups c = [Oco_Lookup (smi_key (rc_stored_intent c)) t None]"
    "filter (\<lambda>s. oco_snapshot_matches_plan s (sp_plan p)) (rs_protective_ocos (rv_state (rc_snapshot c))) = []"
proof -
  let ?plans = "filter (\<lambda>p. Some (sp_plan_key p) = mi_protective_plan_key (smi_intent (rc_stored_intent c)))
    (rc_protective_plans c)"
  obtain p where p: "only ?plans = Some p"
    using assms by (cases "only ?plans") (auto simp: oco_decision_def Let_def simp del: only_Some)
  obtain lk where "only (case_lookups c) = Some lk"
    using assms p by (cases "only (case_lookups c)") (auto simp: oco_decision_def Let_def simp del: only_Some)
  then obtain k t where lk: "case_lookups c = [Oco_Lookup k t None]" and "is_settled c"
    and "filter (\<lambda>s. oco_snapshot_matches_plan s (sp_plan p)) (rs_protective_ocos (rv_state (rc_snapshot c))) = []"
    using assms p
    by (auto simp: oco_decision_def Let_def simp del: filter_eq_Cons_iff
        split: mutation_lookup.splits option.splits if_splits)
  moreover have "k = smi_key (rc_stored_intent c)"
    using filter_singleD [OF lk [unfolded case_lookups_def]] by simp
  ultimately show ?thesis using that by blast
qed

lemma cancel_decision_absent [guards]:
  assumes "rr_state (cancel_decision c) = Was_Absent"
  obtains k t i o' where "is_settled c" "case_lookups c = [Cancel_Lookup k t i (Some o')]"
    "os_status o' \<in> set cancel_retryable_statuses"
    "Some (os_broker_order_id o') = mi_broker_order_id (smi_intent (rc_stored_intent c))"
  using assms
  by (auto simp: cancel_decision_def Let_def split: option.splits mutation_lookup.splits if_splits)

lemma close_decision_absent [guards]:
  assumes "rr_state (close_decision c) = Was_Absent"
  obtains side quantity where "is_settled c" "position_is_unchanged c side quantity"
    "mi_side (smi_intent (rc_stored_intent c)) = Some side"
    "mi_quantity (smi_intent (rc_stored_intent c)) = Some quantity"
    "\<forall>o' \<in> set (close_orders c side quantity). os_status o' \<in> set failed_close_statuses"
  using assms
  by (auto simp: close_decision_def Let_def split: option.splits list.splits if_splits)

lemma entry_decision_absent [guards]:
  assumes "rr_state (decide_entry_mutation_recovery c) = Was_Absent"
  obtains k t i where "is_settled c" "case_lookups c = [Entry_Lookup k t i None]"
    "Some i = mi_entry_intent_id (smi_intent (rc_stored_intent c))"
  using assms
  by (auto simp: decide_entry_mutation_recovery_def Let_def split: option.splits mutation_lookup.splits if_splits)

lemma absent_is_settled:
  assumes "rr_state (decide_paper_mutation_recovery c) = Was_Absent"
  shows "is_settled c"
  using assms unfolding decide_paper_mutation_recovery_def
  by (auto split: mutation_operation.splits
      elim: oco_decision_absent cancel_decision_absent close_decision_absent entry_decision_absent)

lemma entry_decision_acknowledged [guards]:
  assumes "rr_state (decide_entry_mutation_recovery c) = Was_Acknowledged"
  obtains k t i o' s where "case_lookups c = [Entry_Lookup k t i (Some o')]" "entry_order_matches o' s"
    "s \<in> set (rc_order_intents c)" "Some (si_intent_id s) = mi_entry_intent_id (smi_intent (rc_stored_intent c))"
    "rr_broker_order_id (decide_entry_mutation_recovery c) = Some (os_broker_order_id o')"
  using assms
  by (auto simp: decide_entry_mutation_recovery_def Let_def outcome_defs dest!: filter_singleD
      split: option.splits mutation_lookup.splits if_splits)

lemma entry_decision_key: "rr_mutation_key (decide_entry_mutation_recovery c) = smi_key (rc_stored_intent c)"
  unfolding decide_entry_mutation_recovery_def Let_def by (auto split: option.splits mutation_lookup.splits)

lemma oco_decision_key: "rr_mutation_key (oco_decision c) = smi_key (rc_stored_intent c)"
  unfolding oco_decision_def Let_def by (auto split: option.splits mutation_lookup.splits)

lemma cancel_decision_key: "rr_mutation_key (cancel_decision c) = smi_key (rc_stored_intent c)"
  unfolding cancel_decision_def Let_def by (auto split: option.splits mutation_lookup.splits)

lemma close_decision_key: "rr_mutation_key (close_decision c) = smi_key (rc_stored_intent c)"
  unfolding close_decision_def Let_def by (auto split: option.splits list.splits)

lemma decision_key: "rr_mutation_key (decide_paper_mutation_recovery c) = smi_key (rc_stored_intent c)"
  by (cases "mi_operation (smi_intent (rc_stored_intent c))")
    (simp_all add: decide_paper_mutation_recovery_def entry_decision_key oco_decision_key
      cancel_decision_key close_decision_key)

subsection \<open>The run keeps every history legal\<close>

lemma append_recovery_event_legal:
  assumes "append_recovery_event H l r n s = Inr l'" "ledger_legal l"
  shows "ledger_legal l'"
  using assms
  by (auto simp: append_recovery_event_def Let_def map_sum_def split: recovery_outcome.splits sum.splits
      dest!: append_event_legal)

lemma recover_intents_legal:
  "ledger_legal l \<Longrightarrow> ledger_legal (fst (recover_intents H s events sis rs l))"
proof (induction sis arbitrary: rs l)
  case Nil
  then show ?case by simp
next
  case (Cons si sis)
  then show ?case
    by (auto simp del: only_Some simp: Let_def dest: append_recovery_event_legal split: option.split sum.split)
qed

lemma recover_legal: "ledger_legal l \<Longrightarrow> ledger_legal (fst (recover H l s))"
  by (simp add: recover_def recover_intents_legal)

text \<open>An acknowledgement names the broker order, an absence and an unresolved case none.\<close>

definition names_order :: "recovery_result \<Rightarrow> bool" where
  "names_order r \<longleftrightarrow> (rr_state r = Was_Acknowledged) = (rr_broker_order_id r \<noteq> None)"

lemma names_order_outcomes [simp]:
  "names_order (unresolved c)" "names_order (absent c)" "names_order (acknowledged c i)"
  by (simp_all add: names_order_def outcome_defs)

lemma decision_names_order: "names_order (decide_paper_mutation_recovery c)"
proof -
  have "names_order (decide_entry_mutation_recovery c)" "names_order (oco_decision c)" "names_order (cancel_decision c)"
    unfolding decide_entry_mutation_recovery_def oco_decision_def cancel_decision_def Let_def
    by (auto split: option.splits mutation_lookup.splits)
  moreover have "names_order (close_decision c)"
    unfolding close_decision_def Let_def by (auto split: option.splits list.splits)
  ultimately show ?thesis
    by (cases "mi_operation (smi_intent (rc_stored_intent c))") (simp_all add: decide_paper_mutation_recovery_def)
qed

definition recovery_event_of :: "hashes \<Rightarrow> recovery_result \<Rightarrow> int \<Rightarrow> recovery_snapshot \<Rightarrow> mutation_event" where
  "recovery_event_of H r n s =
     \<lparr> me_attempt_number = n, me_occurred_at = rv_completed_at s,
       me_event_type = (if rr_state r = Was_Acknowledged then Recovered_Acknowledged else Recovered_Absent),
       me_request_id = None, me_status_code = None, me_broker_order_id = rr_broker_order_id r,
       me_evidence_sha256 = h_evidence H (Recovered_Evidence (rr_mutation_key r)
         (rr_state r) (rr_broker_order_id r) (rv_connection_epoch s) (rv_completed_at s)) \<rparr>"

lemma append_recovery_event_resolved:
  "rr_state r \<noteq> Unresolved \<Longrightarrow> append_recovery_event H l r n s =
     map_sum id fst (append_paper_mutation_event H l (rr_mutation_key r) (recovery_event_of H r n s))"
  by (cases "rr_state r") (simp_all add: append_recovery_event_def recovery_event_of_def Let_def)

lemma recovery_event_valid:
  assumes "names_order r" "rr_state r \<noteq> Unresolved" "0 < n" "is_aware (rv_completed_at s)"
    "hex64 (me_evidence_sha256 (recovery_event_of H r n s))"
  shows "require_mutation_event (recovery_event_of H r n s)"
  using assms by (cases "rr_state r") (auto simp: require_mutation_event_def recovery_event_of_def names_order_def)


subsection \<open>Properties of the recovery\<close>

definition example_recovery_snapshot :: recovery_snapshot where
  "example_recovery_snapshot = \<lparr> rv_connection_epoch = ''e1'', rv_started_at = Aware (60 * second_us),
     rv_completed_at = Aware (61 * second_us),
     rv_state = \<lparr> rs_broker_state = \<lparr> bs_account = \<lparr> ac_observed_at = Aware (61 * second_us), ac_status = ''ACTIVE'',
           ac_trading_blocked = False, ac_equity = Finite 30000, ac_last_equity = Finite 30000,
           ac_buying_power = Finite 30000, ac_fingerprint = replicate 64 CHR ''a'' \<rparr>,
         bs_open_orders = [], bs_positions = [], bs_protective_ocos = [] \<rparr>,
       rs_targeted_orders = [], rs_recent_orders = [], rs_activities = [], rs_protective_ocos = [],
       rs_mutation_lookups = [Entry_Lookup ''ABC'' (Aware (61 * second_us)) ''i1'' None] \<rparr> \<rparr>"

definition example_answer :: mutation_event where
  "example_answer = example_attempt\<lparr>me_event_type := Ambiguous\<rparr>"

definition example_open_ledger :: "mutation_event list \<Rightarrow> mutation_ledger" where
  "example_open_ledger es = example_ledger\<lparr>ml_events :=
     map (\<lambda>e. (h_event example_hashes ''ABC'' e, ''ABC'', e)) es\<rparr>"

definition example_case :: recovery_case where
  "example_case = \<lparr> rc_stored_intent = \<lparr> smi_key = ''ABC'', smi_intent = example_mutation \<rparr>,
     rc_attempted = example_attempt, rc_snapshot = example_recovery_snapshot,
     rc_order_intents = ml_order_intents example_ledger, rc_protective_plans = [] \<rparr>"

lemma example_decision:
  "decide_paper_mutation_recovery example_case = result_of ''ABC'' Was_Absent None"
  by code_simp

text \<open>C8. A mutation is declared absent only on evidence read from thirty seconds to one day after the
  attempt, and only when the broker says so: it does not know the entry, holds the position
  unchanged, still works the order to be cancelled, or has no order of the protective plan.\<close>

theorem absence_needs_settled_evidence:
  assumes "rr_state (decide_paper_mutation_recovery c) = Was_Absent"
  defines "age \<equiv> instant (rv_completed_at (rc_snapshot c)) - instant (me_occurred_at (rc_attempted c))"
  shows "30 * second_us \<le> age \<and> age \<le> day_us
    \<and> (case mi_operation (smi_intent (rc_stored_intent c)) of
        Submit_Entry \<Rightarrow> \<exists>k t i. case_lookups c = [Entry_Lookup k t i None]
          \<and> Some i = mi_entry_intent_id (smi_intent (rc_stored_intent c))
      | Submit_Protective_Oco \<Rightarrow> \<exists>k t. case_lookups c = [Oco_Lookup k t None]
      | Close_Position_Op \<Rightarrow> \<exists>side quantity. position_is_unchanged c side quantity
          \<and> (\<forall>order \<in> set (close_orders c side quantity). os_status order \<in> set failed_close_statuses)
      | _ \<Rightarrow> \<exists>k t i order. case_lookups c = [Cancel_Lookup k t i (Some order)]
          \<and> os_status order \<in> set cancel_retryable_statuses)"
proof -
  have "is_settled c" by (rule absent_is_settled [OF assms(1)])
  then have "30 * second_us \<le> age \<and> age \<le> day_us"
    by (simp add: is_settled_def Let_def age_def recovery_settle_delay_def recovery_max_evidence_age_def)
  then show ?thesis
    using assms(1) unfolding decide_paper_mutation_recovery_def
    by (cases "mi_operation (smi_intent (rc_stored_intent c))")
      (auto elim!: oco_decision_absent cancel_decision_absent close_decision_absent entry_decision_absent)
qed

theorem absence_needs_settled_evidence_witness:
  "30 * second_us \<le> instant (Aware (61 * second_us)) - instant (Aware 1)"
  using absence_needs_settled_evidence [of example_case] example_decision
  by (simp add: result_of_def example_case_def example_recovery_snapshot_def example_attempt_def)

text \<open>C9. An entry is recovered as acknowledged only when the broker shows exactly the stored order:
  same client id, symbol, side, quantity and limit price, a day order outside extended hours; the
  recovered broker id is that order's.\<close>

theorem acknowledged_entry_matches_its_order:
  assumes "rr_state (decide_paper_mutation_recovery c) = Was_Acknowledged"
    and "mi_operation (smi_intent (rc_stored_intent c)) = Submit_Entry"
  shows "\<exists>(order :: paper_order_snapshot) (source :: stored_intent). source \<in> set (rc_order_intents c)
    \<and> Some (si_intent_id source) = mi_entry_intent_id (smi_intent (rc_stored_intent c))
    \<and> os_client_order_id order = si_intent_id source \<and> os_symbol order = si_symbol source
    \<and> os_side order = si_side source \<and> os_quantity order = Finite (of_int (si_quantity source))
    \<and> os_limit_price order = Some (si_entry_limit source) \<and> os_time_in_force order = ''day''
    \<and> \<not> os_extended_hours order
    \<and> rr_broker_order_id (decide_paper_mutation_recovery c) = Some (os_broker_order_id order)"
proof -
  have eq: "decide_paper_mutation_recovery c = decide_entry_mutation_recovery c"
    using assms(2) by (simp add: decide_paper_mutation_recovery_def)
  with assms(1) obtain k t i order source where d: "entry_order_matches order source"
    "source \<in> set (rc_order_intents c)"
    "Some (si_intent_id source) = mi_entry_intent_id (smi_intent (rc_stored_intent c))"
    "rr_broker_order_id (decide_entry_mutation_recovery c) = Some (os_broker_order_id order)"
    by (elim entry_decision_acknowledged [of c, folded eq]) (auto simp: eq)
  have "os_limit_price order = Some (si_entry_limit source)"
    using d(1) by (auto simp: entry_order_matches_def num_eq_def split: option.splits)
  then show ?thesis unfolding eq
    using d by (intro exI [of _ order] exI [of _ source]) (auto simp: entry_order_matches_def)
qed

theorem acknowledged_entry_matches_its_order_witness:
  "\<exists>c. rr_state (decide_paper_mutation_recovery c) = Was_Acknowledged
     \<and> rr_broker_order_id (decide_paper_mutation_recovery c) = Some ''b7''
     \<and> (\<exists>(order :: paper_order_snapshot). os_client_order_id order = ''i1'')"
proof -
  define order :: paper_order_snapshot where "order = \<lparr> os_broker_order_id = ''b7'', os_client_order_id = ''i1'',
     os_symbol = ''ABC'', os_side = BUY, os_status = ''filled'', os_quantity = Finite 136,
     os_filled_quantity = Finite 136, os_limit_price = Some (Finite 10), os_time_in_force = ''day'',
     os_extended_hours = False, os_filled_average_price = None, os_created_at = None, os_updated_at = None,
     os_submitted_at = None, os_filled_at = None, os_canceled_at = None, os_failed_at = None, os_replaced_at = None,
     os_replaced_by_order_id = None, os_replaces_order_id = None \<rparr>"
  define c where "c = example_case\<lparr>rc_snapshot := example_recovery_snapshot\<lparr>rv_state :=
     rv_state example_recovery_snapshot\<lparr>rs_mutation_lookups := [Entry_Lookup ''ABC'' (Aware 0) ''i1'' (Some order)]\<rparr>\<rparr>\<rparr>"
  have d: "decide_paper_mutation_recovery c = result_of ''ABC'' Was_Acknowledged (Some ''b7'')"
    unfolding c_def order_def by code_simp
  have "mi_operation (smi_intent (rc_stored_intent c)) = Submit_Entry"
    by (simp add: c_def example_case_def example_mutation_def)
  from acknowledged_entry_matches_its_order [OF _ this] obtain x :: paper_order_snapshot and y :: stored_intent where
    "os_client_order_id x = si_intent_id y"
    "Some (si_intent_id y) = mi_entry_intent_id (smi_intent (rc_stored_intent c))"
    using d by (auto simp: result_of_def)
  then have "os_client_order_id x = ''i1''" by (simp add: c_def example_case_def example_mutation_def)
  then show ?thesis using d by (intro exI [of _ c]) (auto simp: result_of_def)
qed

text \<open>C17. An ambiguous attempt is always closed by a resolved decision: if the intent is stored, its
  history is legal and ends in an ambiguous answer, the recovery event is appended and the history
  stays legal.\<close>

theorem ambiguous_attempt_is_closed:
  assumes "ledger_legal l" "history l key \<noteq> []" "me_event_type (last (history l key)) = Ambiguous"
    and "r = decide_paper_mutation_recovery c" "key = smi_key (rc_stored_intent c)" "rr_state r \<noteq> Unresolved"
    and "n = me_attempt_number (last (history l key))" "is_aware (rv_completed_at s)"
    and "list_ex (\<lambda>si. smi_key si = key) (ml_intents l)"
    and "hex64 (me_evidence_sha256 (recovery_event_of H r n s))"
    and "\<forall>row \<in> set (ml_events l). fst row \<noteq> h_event H key (recovery_event_of H r n s)"
  shows "\<exists>l'. append_recovery_event H l r n s = Inr l' \<and> ledger_legal l'
    \<and> history l' = (history l)(key := history l key @ [recovery_event_of H r n s])"
proof -
  obtain es a where h: "history l key = es @ [a]" using assms(2) by (metis rev_exhaust)
  have legal: "legal_history (history l key)" using assms(1) by (simp add: ledger_legal_def)
  then have "1 \<le> n" using legal_history_shape assms(2,7) by (auto simp: history_shape_def Let_def)
  then have valid: "require_mutation_event (recovery_event_of H r n s)"
    using assms(4,6,8,10) decision_names_order by (intro recovery_event_valid) auto
  have "legal_history (history l key @ [recovery_event_of H r n s])"
    using legal assms(3,7) unfolding h by (simp add: legal_history_snoc recovery_event_of_def)
  then have tr: "require_mutation_transition (history l key) (recovery_event_of H r n s)"
    using require_transition_iff_legal [OF legal] by simp
  have fresh: "find (\<lambda>(ek, _, _). ek = h_event H key (recovery_event_of H r n s)) (ml_events l) = None"
    using assms(11) by (auto simp: find_None_iff)
  have once: "\<not> list_ex (\<lambda>e. me_attempt_number e = me_attempt_number (recovery_event_of H r n s)
      \<and> me_event_type e = me_event_type (recovery_event_of H r n s)) (history l key)"
    using legal_history_fresh_type \<open>legal_history (history l key @ _)\<close> by (auto simp: list_ex_iff)
  have "rr_mutation_key r = key" using assms(4,5) decision_key by simp
  then obtain l' where l': "append_paper_mutation_event H l key (recovery_event_of H r n s) = Inr (l', True)"
    "append_recovery_event H l r n s = Inr l'"
    using valid tr fresh once assms(6,9)
    by (simp add: append_recovery_event_resolved append_paper_mutation_event_def Let_def)
  then show ?thesis using append_event_history(1) [OF l'(1)] append_event_legal [OF l'(1) assms(1)] by simp
qed

definition example_absent :: recovery_result where
  "example_absent = result_of ''ABC'' Was_Absent None"

theorem ambiguous_attempt_is_closed_witness:
  "\<exists>l'. append_recovery_event example_hashes (example_open_ledger [example_attempt, example_answer])
      example_absent 1 example_recovery_snapshot = Inr l' \<and> ledger_legal l'"
proof -
  define l where "l = example_open_ledger [example_attempt, example_answer]"
  have h: "history l ''ABC'' = [example_attempt, example_answer]" unfolding l_def by code_simp
  have "\<exists>l'. append_recovery_event example_hashes l example_absent 1 example_recovery_snapshot = Inr l' \<and> ledger_legal l'
      \<and> history l' = (history l)(''ABC'' := history l ''ABC'' @
          [recovery_event_of example_hashes example_absent 1 example_recovery_snapshot])"
  proof (rule ambiguous_attempt_is_closed [where c = example_case])
    have "legal_history ([] @ [example_attempt, example_answer])"
      by (rule legal_answer) (simp_all add: legal_first example_attempt_def example_answer_def)
    then show "ledger_legal l"
      by (simp add: ledger_legal_def l_def example_open_ledger_def example_ledger_def history_def legal_empty)
    show "history l ''ABC'' \<noteq> []" "me_event_type (last (history l ''ABC'')) = Ambiguous"
      "1 = me_attempt_number (last (history l ''ABC''))"
      unfolding h by (simp_all add: example_answer_def example_attempt_def)
    show "example_absent = decide_paper_mutation_recovery example_case"
      by (simp add: example_decision example_absent_def)
    show "''ABC'' = smi_key (rc_stored_intent example_case)" "rr_state example_absent \<noteq> Unresolved"
      "is_aware (rv_completed_at example_recovery_snapshot)" by code_simp+
    show "list_ex (\<lambda>si. smi_key si = ''ABC'') (ml_intents l)" unfolding l_def by code_simp
    show "hex64 (me_evidence_sha256 (recovery_event_of example_hashes example_absent 1 example_recovery_snapshot))"
      by code_simp
    show "\<forall>row \<in> set (ml_events l). fst row \<noteq> h_event example_hashes ''ABC''
        (recovery_event_of example_hashes example_absent 1 example_recovery_snapshot)"
      unfolding l_def by code_simp
  qed
  then show ?thesis unfolding l_def by blast
qed



end
