(* ===== verification/Mutation_Protocol.thy ===== *)
theory Mutation_Protocol
  imports Mutation_Executor Mutation_Recovery "HOL-Library.Sublist"
begin

text \<open>
  The executor and the recovery at work on one ledger: a step relation whose steps are the
  operations of \<^verbatim>\<open>paper_mutation_executor.py\<close> and \<^verbatim>\<open>paper_mutation_recovery.py\<close> in any
  order, with any broker answers, clocks and crashes.  The second component of a state counts what
  the broker has really received: one key for each call.
\<close>

type_synonym protocol_state = "mutation_ledger \<times> sha list"

inductive protocol_step :: "hashes \<Rightarrow> protocol_state \<Rightarrow> protocol_state \<Rightarrow> bool" for H :: hashes where
  step_store: "save_entry_mutation_intent H l order intent = Inr (l', b) \<Longrightarrow> protocol_step H (l, calls) (l', calls)"
| step_run: "env_hashes env = H \<Longrightarrow> run_mutation env l intent request p = (l', r, cs) \<Longrightarrow>
    protocol_step H (l, calls) (l', calls @ map (\<lambda>_. h_intent H intent) cs)"
| step_recover: "recover H l snapshot = (l', r) \<Longrightarrow> protocol_step H (l, calls) (l', calls)"

inductive_cases protocol_stepE: "protocol_step H s s'"

inductive reachable :: "hashes \<Rightarrow> protocol_state \<Rightarrow> bool" for H :: hashes where
  reachable_start: "ml_events l = [] \<Longrightarrow> reachable H (l, [])"
| reachable_step: "reachable H s \<Longrightarrow> protocol_step H s s' \<Longrightarrow> reachable H s'"

subsection \<open>The entry points are sequences of steps\<close>

lemma reachable_run:
  "reachable H (l, calls) \<Longrightarrow> env_hashes env = H \<Longrightarrow> run_mutation env l intent request p = (l', r, cs) \<Longrightarrow>
     reachable H (l', calls @ map (\<lambda>_. h_intent H intent) cs)"
  by (blast intro: reachable_step step_run)

lemma execute_entry_reachable:
  assumes "reachable (env_hashes env) (l, calls)" "execute_entry env l fingerprint order = (l', r, cs)"
  shows "\<exists>calls'. reachable (env_hashes env) (l', calls @ calls') \<and> length calls' = length cs"
proof (cases "save_entry_mutation_intent (env_hashes env) l order (entry_order_mutation_intent env fingerprint order)")
  case (Inl e)
  then show ?thesis using assms by (auto simp: execute_entry_def intro: exI [of _ "[]"])
next
  case (Inr x)
  obtain l1 b where x: "x = (l1, b)" by (cases x)
  have "reachable (env_hashes env) (l1, calls)"
    using assms(1) step_store [OF Inr [unfolded x]] reachable_step by blast
  moreover have "run_mutation env l1 (entry_order_mutation_intent env fingerprint order) (Entry_Request order) False
      = (l', r, cs)"
    using assms(2) Inr x by (simp add: execute_entry_def Let_def)
  ultimately have "reachable (env_hashes env) (l', calls @ map (\<lambda>_. h_intent (env_hashes env)
      (entry_order_mutation_intent env fingerprint order)) cs)"
    using reachable_run by blast
  then show ?thesis by (metis length_map)
qed

lemma execute_actions_reachable:
  assumes "reachable (env_hashes env) (l, calls)" "execute_actions env stored reconcile n actions l rs cs0 = (l', r, cs)"
  shows "\<exists>calls'. reachable (env_hashes env) (l', calls @ calls') \<and> length cs = length cs0 + length calls'"
  using assms
proof (induction actions arbitrary: n l rs cs0 calls)
  case Nil
  then show ?case by (auto intro: exI [of _ "[]"])
next
  case (Cons action actions)
  define request where "request = (if is_Cancel_Order action then Cancel_Request action else Close_Request action)"
  define intent where "intent = safety_action_mutation_intent env stored n action"
  obtain l1 r1 cs1 where run: "run_mutation env l intent request True = (l1, r1, cs1)"
    by (cases "run_mutation env l intent request True")
  have next_: "reachable (env_hashes env) (l1, calls @ map (\<lambda>_. h_intent (env_hashes env) intent) cs1)"
    by (rule reachable_run [OF Cons.prems(1) refl run])
  consider "l' = l" "cs = cs0" | "l' = l1" "cs = cs0 @ cs1"
    | result where "execute_actions env stored reconcile (n + 1) actions l1 (rs @ [result]) (cs0 @ cs1) = (l', r, cs)"
    using Cons.prems(2) run unfolding intent_def request_def
    by (auto simp: Let_def split: if_splits sum.splits)
  then show ?case
  proof cases
    case 1
    then show ?thesis using Cons.prems(1) by (auto intro: exI [of _ "[]"])
  next
    case 2
    then show ?thesis using next_ by (metis length_append length_map)
  next
    case 3
    from Cons.IH [OF next_ 3] show ?thesis by (force simp: ac_simps)
  qed
qed

text \<open>The calls of a plan, and the results before the last.\<close>

definition action_request :: "safety_action \<Rightarrow> mutation_request" where
  "action_request action = (if is_Cancel_Order action then Cancel_Request action else Close_Request action)"

definition is_acknowledged :: "execution_result \<Rightarrow> bool" where
  "is_acknowledged r \<longleftrightarrow> er_state r \<in> {Exec_Acknowledged, Exec_Already_Acknowledged}"

lemma run_mutation_requests: "run_mutation env l intent request p = (l', r, cs) \<Longrightarrow> cs = [] \<or> cs = [request]"
  by (auto elim: run_mutation_cases)

lemma execute_actions_calls:
  assumes "execute_actions env stored reconcile n actions l rs cs0 = (l', r, cs)" "\<forall>x \<in> set rs. is_acknowledged x"
  shows "(\<exists>cs1. cs = cs0 @ cs1
      \<and> subseq cs1 (map action_request (if reconcile then takeWhile is_Cancel_Order actions else actions)))
    \<and> (\<forall>results. r = Inr results \<longrightarrow> (\<forall>x \<in> set (butlast results). is_acknowledged x))"
  using assms
proof (induction actions arbitrary: n l rs cs0)
  case Nil
  then show ?case by (auto dest: in_set_butlastD)
next
  case (Cons action actions)
  obtain l1 r1 cs1 where run: "run_mutation env l (safety_action_mutation_intent env stored n action)
      (action_request action) True = (l1, r1, cs1)"
    by (cases "run_mutation env l (safety_action_mutation_intent env stored n action) (action_request action) True")
  note cs1 = run_mutation_requests [OF run]
  consider (stop) "reconcile" "\<not> is_Cancel_Order action"
    | (error) e where "r1 = Inl e" "is_Cancel_Order action \<or> \<not> reconcile"
    | (ok) result where "r1 = Inr result" "is_Cancel_Order action \<or> \<not> reconcile"
    by (cases r1) auto
  then show ?case
  proof cases
    case stop
    then have "r = Inr rs" "cs = cs0" using Cons.prems(1) by (simp_all add: Let_def)
    then show ?thesis using Cons.prems(2) by (auto dest: in_set_butlastD)
  next
    case (error e)
    then have "r = Inl e" "cs = cs0 @ cs1"
      using Cons.prems(1) run [unfolded action_request_def] by (auto simp: Let_def split: if_splits)
    then show ?thesis using cs1 error(2) by (auto simp: action_request_def)
  next
    case (ok result)
    have step: "(if is_acknowledged result
        then execute_actions env stored reconcile (n + 1) actions l1 (rs @ [result]) (cs0 @ cs1)
        else (l1, Inr (rs @ [result]), cs0 @ cs1)) = (l', r, cs)"
      using Cons.prems(1) ok run [unfolded action_request_def]
      by (auto simp: Let_def is_acknowledged_def split: if_splits)
    show ?thesis
    proof (cases "is_acknowledged result")
      case False
      then show ?thesis using step cs1 ok(2) Cons.prems(2) by (auto simp: action_request_def)
    next
      case True
      then have "execute_actions env stored reconcile (n + 1) actions l1 (rs @ [result]) (cs0 @ cs1) = (l', r, cs)"
        using step by simp
      from Cons.IH [OF this] obtain cs2 where cs2: "cs = cs0 @ cs1 @ cs2"
        "subseq cs2 (map action_request (if reconcile then takeWhile is_Cancel_Order actions else actions))"
        "\<forall>results. r = Inr results \<longrightarrow> (\<forall>x \<in> set (butlast results). is_acknowledged x)"
        using Cons.prems(2) True by auto
      have "subseq (cs1 @ cs2) (map action_request
          (if reconcile then takeWhile is_Cancel_Order (action # actions) else action # actions))"
        using cs1 cs2(2) ok(2) by (auto split: if_splits)
      then show ?thesis using cs2(1,3) by blast
    qed
  qed
qed

subsection \<open>The invariant\<close>

text \<open>Every history is legal, and the broker has received no more calls than attempts are on record.\<close>

definition protocol_invariant :: "protocol_state \<Rightarrow> bool" where
  "protocol_invariant s \<longleftrightarrow>
     ledger_legal (fst s) \<and> (\<forall>key. count_list (snd s) key \<le> count_type Attempted (history (fst s) key))"

lemma count_list_map_const: "count_list (map (\<lambda>_. k) xs) key = (if k = key then length xs else 0)"
  by (induction xs) auto

lemma save_entry_history: "save_entry_mutation_intent H l order intent = Inr (l', b) \<Longrightarrow> history l' = history l"
  by (auto simp: save_entry_mutation_intent_def Let_def intro!: history_cong split: if_splits sum.splits prod.splits)

lemma recover_attempts:
  "count_type Attempted (history (fst (recover_intents H s events sis rs l)) key) = count_type Attempted (history l key)"
proof (induction sis arbitrary: rs l)
  case (Cons si sis)
  have "count_type Attempted (history l' key) = count_type Attempted (history l key)"
    if a: "append_recovery_event H l r n s = Inr l'" for r n l'
  proof (cases "rr_state r = Unresolved")
    case True
    then show ?thesis using a by (simp add: append_recovery_event_def)
  next
    case False
    then obtain b where b: "append_paper_mutation_event H l (rr_mutation_key r) (recovery_event_of H r n s) = Inr (l', b)"
      using a by (auto simp: append_recovery_event_resolved map_sum_def split: sum.splits)
    then show ?thesis using append_event_history(1) [OF b] by (auto simp: recovery_event_of_def)
  qed
  then show ?case using Cons by (auto simp del: only_Some simp: Let_def split: option.split sum.split)
qed simp

lemma step_preserves_invariant:
  assumes "protocol_step H s s'" "protocol_invariant s"
  shows "protocol_invariant s'"
  using assms
proof (induction rule: protocol_step.induct)
  case (step_store l order intent l' b calls)
  then show ?case using save_entry_history by (fastforce simp: protocol_invariant_def ledger_legal_def)
next
  case (step_run env l intent request p l' r cs calls)
  have legal: "ledger_legal l" "ledger_legal l'"
    using step_run run_mutation_legal by (auto simp: protocol_invariant_def)
  from run_mutation_history [OF step_run(2) legal(1)] consider "cs = []" "history l' = history l"
    | a answer where "cs = [request]" "me_event_type a = Attempted"
      "history l' = (history l)(h_intent (env_hashes env) intent := history l (h_intent (env_hashes env) intent) @ a # answer)"
    by blast
  then show ?case
  proof cases
    case 1
    then show ?thesis using step_run(3) legal by (simp add: protocol_invariant_def)
  next
    case (2 a answer)
    then show ?thesis using step_run(1,3) legal(2)
      by (auto simp: protocol_invariant_def count_list_map_const trans_le_add1)
  qed
next
  case (step_recover l snapshot l' r calls)
  have "ledger_legal l'" using step_recover recover_legal [of l H snapshot] by (simp add: protocol_invariant_def)
  moreover have "count_type Attempted (history l' key) = count_type Attempted (history l key)" for key
    using step_recover(1) recover_attempts [of H snapshot "history l" "ml_intents l" "[]" l key]
    by (auto simp: recover_def split: if_splits)
  ultimately show ?case using step_recover(2) by (simp add: protocol_invariant_def)
qed

lemma reachable_invariant: "reachable H s \<Longrightarrow> protocol_invariant s"
proof (induction rule: reachable.induct)
  case (reachable_start l)
  then show ?case by (simp add: protocol_invariant_def ledger_legal_def history_def legal_empty)
next
  case (reachable_step s s')
  then show ?case using step_preserves_invariant by blast
qed

lemma legal_history_no_early_ack:
  "legal_history (es @ [x]) \<Longrightarrow> count_type Acknowledged es = 0 \<and> count_type Recovered_Acknowledged es = 0"
  using legal_history_counts [of "es @ [x]"] by (auto split: if_splits)

subsection \<open>Properties of the protocol\<close>

definition example_environment :: "broker_outcome \<Rightarrow> environment" where
  "example_environment outcome = \<lparr> env_hashes = example_hashes, env_request_sha256 = (\<lambda>_. replicate 64 CHR ''1''),
     env_broker = (\<lambda>_ _. outcome), env_clock = (\<lambda>l. Aware (1 + int (length (ml_events l)))) \<rparr>"

definition example_request :: mutation_request where
  "example_request = Oco_Request \<lparr> op_client_order_id = ''x'', op_parent_intent_id = ''i1'', op_symbol = ''ABC'',
     op_side = SELL, op_quantity = 136, op_take_profit_limit = Finite 11, op_stop_price = Finite 9 \<rparr>"

lemma example_run:
  obtains l where
    "run_mutation (example_environment Uncaught) example_ledger example_mutation example_request True
      = (l, Inl Broker_Raised, [example_request])"
    "history l ''ABC'' = [example_attempt]" "reachable example_hashes (l, [''ABC''])"
proof -
  define x where "x = run_mutation (example_environment Uncaught) example_ledger example_mutation example_request True"
  have "snd x = (Inl Broker_Raised, [example_request])" "history (fst x) ''ABC'' = [example_attempt]"
    unfolding x_def by code_simp+
  then have x: "run_mutation (example_environment Uncaught) example_ledger example_mutation example_request True
      = (fst x, Inl Broker_Raised, [example_request])" "history (fst x) ''ABC'' = [example_attempt]"
    by (simp_all add: prod_eq_iff flip: x_def)
  have "reachable example_hashes (example_ledger, [])" by (rule reachable_start) (simp add: example_ledger_def)
  from reachable_run [OF this _ x(1)] have "reachable example_hashes (fst x, [''ABC''])"
    by (simp add: example_environment_def example_hashes_def example_mutation_def)
  with x that show ?thesis by blast
qed

text \<open>C1. At most once: whatever the order of entries, protective orders, cancellations, safety plans,
  crashes and recoveries, the broker receives at most one call for a mutation more often than the
  recovery has proved an earlier call absent, and at most one call is ever acknowledged.\<close>

theorem broker_called_at_most_once:
  assumes "reachable H (l, calls)"
  shows "count_list calls key \<le> 1 + count_type Recovered_Absent (history l key)
    \<and> count_type Acknowledged (history l key) + count_type Recovered_Acknowledged (history l key) \<le> 1
    \<and> (\<forall>e \<in> set (history l key). me_event_type e \<in> {Acknowledged, Recovered_Acknowledged}
         \<longrightarrow> e = last (history l key))"
proof -
  have inv: "protocol_invariant (l, calls)" by (rule reachable_invariant [OF assms])
  then have legal: "legal_history (history l key)"
    and calls: "count_list calls key \<le> count_type Attempted (history l key)"
    by (simp_all add: protocol_invariant_def ledger_legal_def)
  note counts = legal_history_counts [OF legal]
  have last_: "e = last (history l key)"
    if mem: "e \<in> set (history l key)" and ack: "me_event_type e \<in> {Acknowledged, Recovered_Acknowledged}" for e
  proof (rule ccontr)
    assume "e \<noteq> last (history l key)"
    then obtain es x where es: "history l key = es @ [x]" "e \<in> set es"
      using mem by (cases "history l key" rule: rev_cases) auto
    then have "0 < count_type (me_event_type e) es"
      unfolding count_type_def by (metis (mono_tags, lifting) filter_empty_conv length_greater_0_conv)
    then show False using legal_history_no_early_ack [OF legal [unfolded es(1)]] ack by auto
  qed
  show ?thesis using calls counts last_ by (auto split: if_splits)
qed

theorem broker_called_at_most_once_witness:
  "\<exists>l. reachable example_hashes (l, [''ABC'']) \<and> (1 :: nat) \<le> 1 + count_type Recovered_Absent (history l ''ABC'')"
proof (rule example_run)
  fix l assume r: "reachable example_hashes (l, [''ABC''])"
  show ?thesis using broker_called_at_most_once [OF r, of "''ABC''"] r by (intro exI [of _ l]) simp
qed

text \<open>A crash during a broker call is safe: the next run of the same intent, whatever the broker
  would now answer, makes no call, leaves every history as it is and reports the mutation as
  ambiguous (or as what its recorded answer says).\<close>

theorem no_second_call_after_a_crash:
  assumes "ledger_legal l" "run_mutation env l intent request p = (l1, Inl Broker_Raised, [request])"
    and "run_mutation env' l1 intent request' p' = (l2, r, cs)" "env_hashes env' = env_hashes env"
  shows "cs = [] \<and> history l2 = history l1
    \<and> (\<forall>result. r = Inr result \<longrightarrow> er_state result = Exec_Ambiguous)"
proof -
  define key where "key = h_intent (env_hashes env) intent"
  have legal: "ledger_legal l1" by (rule run_mutation_legal [OF assms(2,1)])
  have last_: "history l1 key \<noteq> [] \<and> me_event_type (last (history l1 key)) = Attempted"
    using assms(2)
  proof (cases rule: run_mutation_cases)
    case (called l' n)
    then have "l1 = l'" by (auto simp: finish_attempt_def Let_def split: if_splits sum.splits prod.splits)
    then show ?thesis using begin_attempt_new [OF called(1) assms(1)] unfolding key_def by auto
  qed simp
  have none: "cs = [] \<and> history l2 = history l1"
    using run_mutation_history [OF assms(3) legal] last_ unfolding key_def assms(4) by auto
  have ex: "existing_result key (history l1 key) = Some x \<Longrightarrow> er_state x = Exec_Ambiguous" for x
    using last_ by (auto simp: existing_result_def Let_def)
  have "er_state result = Exec_Ambiguous" if res: "r = Inr result" for result
    using assms(3)
  proof (cases rule: run_mutation_cases)
    case (stored x)
    have "begin_attempt env' l1 intent p' = (l2, Inr (Inl result))"
    proof (cases x)
      case (Inl e)
      then show ?thesis using stored(4) res by simp
    next
      case (Inr z)
      then show ?thesis using stored(1,3,5) res by (cases z) simp_all
    qed
    then show ?thesis
      using ex [of result] by (cases rule: begin_attempt_cases [of env' l1 intent p']) (auto simp: key_def assms(4))
  next
    case (called l' n)
    then show ?thesis using none by simp
  qed
  then show ?thesis using none by blast
qed

theorem no_second_call_after_a_crash_witness:
  "\<exists>l1 l2 r. run_mutation (example_environment Transport_Error) l1 example_mutation example_request True = (l2, r, [])
     \<and> history l1 ''ABC'' = [example_attempt] \<and> history l2 = history l1"
proof (rule example_run)
  fix l1
  assume r: "run_mutation (example_environment Uncaught) example_ledger example_mutation example_request True
      = (l1, Inl Broker_Raised, [example_request])" and h: "history l1 ''ABC'' = [example_attempt]"
  obtain l2 x cs where "run_mutation (example_environment Transport_Error) l1 example_mutation example_request True
      = (l2, x, cs)"
    by (cases "run_mutation (example_environment Transport_Error) l1 example_mutation example_request True")
  then show ?thesis
    using no_second_call_after_a_crash [OF example_ledger_legal r, of "example_environment Transport_Error"
        example_request True l2 x cs] h
    by (intro exI [of _ l1] exI [of _ l2] exI [of _ x]) (simp add: example_environment_def)
qed

text \<open>A safety plan is executed in order and stops at the first action that is not acknowledged;
  when it cancels anything, no position is closed in the same run, so a close never races an order
  that may still fill.\<close>

theorem safety_plan_cancels_before_closing:
  assumes "execute_safety_plan env l stored = (l', r, cs)"
  defines "actions \<equiv> pl_actions (ssp_plan stored)"
  shows "subseq cs (map action_request actions)
    \<and> (list_ex is_Cancel_Order actions \<longrightarrow> (\<forall>request \<in> set cs. \<exists>a. request = Cancel_Request a \<and> is_Cancel_Order a))
    \<and> (\<forall>results. r = Inr results \<longrightarrow> (\<forall>x \<in> set (butlast results). is_acknowledged x))"
proof -
  define pre where "pre = (if list_ex is_Cancel_Order actions then takeWhile is_Cancel_Order actions else actions)"
  have c: "subseq cs (map action_request pre)"
    "\<forall>results. r = Inr results \<longrightarrow> (\<forall>x \<in> set (butlast results). is_acknowledged x)"
    using execute_actions_calls [OF assms(1) [unfolded execute_safety_plan_def Let_def]]
    unfolding pre_def actions_def by (auto split: if_splits)
  have "subseq pre actions"
    unfolding pre_def by (simp add: prefix_imp_subseq takeWhile_is_prefix)
  then have "subseq cs (map action_request actions)" using c(1) subseq_map subseq_order.trans by blast
  moreover have "\<exists>a. request = Cancel_Request a \<and> is_Cancel_Order a"
    if x: "list_ex is_Cancel_Order actions" "request \<in> set cs" for request
  proof -
    have "request \<in> action_request ` set (takeWhile is_Cancel_Order actions)"
      using list_emb_set [OF c(1) x(2)] x(1) unfolding pre_def by auto
    then show ?thesis by (auto simp: action_request_def dest: set_takeWhileD)
  qed
  ultimately show ?thesis using c(2) by blast
qed

definition example_stored_plan :: stored_safety_plan where
  "example_stored_plan = \<lparr> ssp_plan_key = replicate 64 CHR ''2'',
     ssp_plan = \<lparr> pl_fingerprint = replicate 64 CHR ''a'', pl_observed_at = Aware 0, pl_session_date = 1,
       pl_phase = Kill_Switch, pl_mark_to_market = Finite (- 300), pl_conservative = Finite (- 300),
       pl_actions = [Cancel_Order ''b1'' ''ABC'' False, Close_Position ''XYZ'' SELL (Finite 10)] \<rparr> \<rparr>"

definition example_plan_ledger :: mutation_ledger where
  "example_plan_ledger = example_ledger\<lparr>ml_intents := [], ml_safety_actions :=
     [\<lparr> ar_plan_key = replicate 64 CHR ''2'', ar_sequence = 0, ar_action = Cancel_Order ''b1'' ''ABC'' False \<rparr>,
      \<lparr> ar_plan_key = replicate 64 CHR ''2'', ar_sequence = 1,
        ar_action = Close_Position ''XYZ'' SELL (Finite 10) \<rparr>]\<rparr>"

theorem safety_plan_cancels_before_closing_witness:
  "\<exists>l' r. execute_safety_plan (example_environment (Receipt (Cancel_Receipt ''q1'' ''b1'' (Aware 2))))
      example_plan_ledger example_stored_plan = (l', Inr r, [Cancel_Request (Cancel_Order ''b1'' ''ABC'' False)])
    \<and> (\<forall>x \<in> set (butlast r). is_acknowledged x)"
proof -
  define x where "x = execute_safety_plan (example_environment (Receipt (Cancel_Receipt ''q1'' ''b1'' (Aware 2))))
      example_plan_ledger example_stored_plan"
  have "snd (snd x) = [Cancel_Request (Cancel_Order ''b1'' ''ABC'' False)]" "isl (fst (snd x)) = False"
    unfolding x_def by code_simp+
  then obtain r where r: "execute_safety_plan (example_environment (Receipt (Cancel_Receipt ''q1'' ''b1'' (Aware 2))))
      example_plan_ledger example_stored_plan = (fst x, Inr r, [Cancel_Request (Cancel_Order ''b1'' ''ABC'' False)])"
    unfolding x_def [symmetric] by (metis isl_def prod.collapse sum.exhaust)
  then show ?thesis using safety_plan_cancels_before_closing [OF r] by blast
qed

end
