(* ===== verification/Paper_Risk.thy ===== *)
theory Paper_Risk
  imports Execution_Models
begin

text \<open>
  \<^verbatim>\<open>trading_agent/paper_risk.py\<close>: the hard limits of the paper account, the check that a
  configuration may only tighten them, and the position sizing of an entry.  \<open>as_float\<close> is the
  decimal reading of \<^theory_text>\<open>float(d)\<close>: a parameter, since only the conversions of the result
  go through it.
\<close>

definition hard_reference_equity :: rat where "hard_reference_equity = 30000"
definition hard_max_risk_dollars :: rat where "hard_max_risk_dollars = 75"
definition hard_risk_fraction :: rat where "hard_risk_fraction = 25 / 10000"
definition hard_max_notional_dollars :: rat where "hard_max_notional_dollars = 6000"
definition hard_max_open_positions :: int where "hard_max_open_positions = 3"
definition hard_daily_loss_limit_dollars :: rat where "hard_daily_loss_limit_dollars = 300"
definition hard_min_per_side_cost_bps :: rat where "hard_min_per_side_cost_bps = 20"
definition basis_point_denominator :: rat where "basis_point_denominator = 10000"

lemmas hard_limit_defs =
  hard_reference_equity_def hard_max_risk_dollars_def hard_risk_fraction_def
  hard_max_notional_dollars_def hard_max_open_positions_def hard_daily_loss_limit_dollars_def
  hard_min_per_side_cost_bps_def

record paper_risk_config =
  rc_reference_equity :: pynum
  rc_max_risk_dollars :: pynum
  rc_risk_fraction :: pynum
  rc_max_notional_dollars :: pynum
  rc_max_open_positions :: int
  rc_daily_loss_limit_dollars :: pynum
  rc_per_side_cost_bps :: pynum

definition default_paper_risk_config :: paper_risk_config where
  "default_paper_risk_config =
     \<lparr> rc_reference_equity = Finite hard_reference_equity,
       rc_max_risk_dollars = Finite hard_max_risk_dollars,
       rc_risk_fraction = Finite hard_risk_fraction,
       rc_max_notional_dollars = Finite hard_max_notional_dollars,
       rc_max_open_positions = hard_max_open_positions,
       rc_daily_loss_limit_dollars = Finite hard_daily_loss_limit_dollars,
       rc_per_side_cost_bps = Finite hard_min_per_side_cost_bps \<rparr>"

text \<open>\<open>False\<close> where \<^theory_text>\<open>assert_within_hard_limits\<close> raises.\<close>

definition within_hard_limits :: "paper_risk_config \<Rightarrow> bool" where
  "within_hard_limits c \<longleftrightarrow>
     \<not> (\<not> list_all is_finite
            [rc_reference_equity c, rc_max_risk_dollars c, rc_risk_fraction c,
             rc_max_notional_dollars c, rc_daily_loss_limit_dollars c, rc_per_side_cost_bps c]
        \<or> \<not> (Finite 0 < rc_reference_equity c \<and> rc_reference_equity c \<le> Finite hard_reference_equity)
        \<or> \<not> (Finite 0 < rc_max_risk_dollars c \<and> rc_max_risk_dollars c \<le> Finite hard_max_risk_dollars)
        \<or> \<not> (Finite 0 < rc_risk_fraction c \<and> rc_risk_fraction c \<le> Finite hard_risk_fraction)
        \<or> \<not> (Finite 0 < rc_max_notional_dollars c \<and> rc_max_notional_dollars c \<le> Finite hard_max_notional_dollars)
        \<or> \<not> (0 < rc_max_open_positions c \<and> rc_max_open_positions c \<le> hard_max_open_positions)
        \<or> \<not> (Finite 0 < rc_daily_loss_limit_dollars c
               \<and> rc_daily_loss_limit_dollars c \<le> Finite hard_daily_loss_limit_dollars)
        \<or> rc_per_side_cost_bps c < Finite hard_min_per_side_cost_bps)"

record paper_sizing_context =
  cx_conservative_equity :: pynum
  cx_liquidity_allowed_quantity :: int
  cx_estimated_spread_bps :: pynum

datatype risk_error = Unsafe_Paper_Risk_Config

definition stop_distance :: "order_side \<Rightarrow> rat \<Rightarrow> rat \<Rightarrow> rat" where
  "stop_distance side entry stop =
     (case side of BUY \<Rightarrow> drnd (entry - stop) | SELL \<Rightarrow> drnd (stop - entry))"

text \<open>The reserves on top of the distance to the stop, all per share.\<close>

definition risk_per_share :: "order_side \<Rightarrow> rat \<Rightarrow> rat \<Rightarrow> rat \<Rightarrow> rat \<Rightarrow> rat" where
  "risk_per_share side entry stop spread_bps cost_bps =
     (let spread_reserve = drnd (drnd (entry * spread_bps) / basis_point_denominator);
          cost_reserve = drnd (drnd (drnd (entry + stop) * cost_bps) / basis_point_denominator)
      in drnd (drnd (stop_distance side entry stop + spread_reserve) + cost_reserve))"

definition risk_budget :: "paper_risk_config \<Rightarrow> rat \<Rightarrow> rat" where
  "risk_budget config equity =
     min (rv (rc_max_risk_dollars config)) (drnd (equity * rv (rc_risk_fraction config)))"

definition sized_quantity :: "paper_risk_config \<Rightarrow> rat \<Rightarrow> rat \<Rightarrow> rat \<Rightarrow> int \<Rightarrow> int" where
  "sized_quantity config equity entry rps liquidity_allowed_quantity =
     (let risk_quantity = \<lfloor>drnd (risk_budget config equity / rps)\<rfloor>;
          notional_quantity = \<lfloor>drnd (rv (rc_max_notional_dollars config) / entry)\<rfloor>
      in min (min risk_quantity notional_quantity) liquidity_allowed_quantity)"

definition size_paper_order ::
    "(rat \<Rightarrow> rat) \<Rightarrow> paper_order_intent \<Rightarrow> paper_sizing_context \<Rightarrow> paper_risk_config
      \<Rightarrow> risk_error + sized_paper_order option" where
  "size_paper_order as_float intent context config =
     (if \<not> within_hard_limits config then Inl Unsafe_Paper_Risk_Config
      else if \<not> list_all is_finite
           [pi_entry_limit intent, pi_stop intent, pi_target_1r intent, pi_target_2r intent,
            cx_conservative_equity context, cx_estimated_spread_bps context]
      then Inr None
      else
        let entry = rv (pi_entry_limit intent);
            stop = rv (pi_stop intent);
            equity = rv (cx_conservative_equity context);
            spread_bps = rv (cx_estimated_spread_bps context);
            cost_bps = rv (rc_per_side_cost_bps config)
        in if entry \<le> 0 \<or> stop \<le> 0 \<or> equity \<le> 0 \<or> cx_liquidity_allowed_quantity context \<le> 0
              \<or> spread_bps < 0 \<or> cost_bps < 0
           then Inr None
           else if stop_distance (pi_side intent) entry stop \<le> 0 then Inr None
           else
             let rps = risk_per_share (pi_side intent) entry stop spread_bps cost_bps;
                 quantity = sized_quantity config equity entry rps (cx_liquidity_allowed_quantity context)
             in if quantity \<le> 0 then Inr None
                else Inr (Some
                  \<lparr> so_intent = intent,
                    so_quantity = quantity,
                    so_risk_per_share = Finite (as_float rps),
                    so_planned_risk = Finite (as_float (drnd (rps * of_int quantity))),
                    so_notional = Finite (as_float (drnd (entry * of_int quantity))) \<rparr>))"

subsection \<open>Inversion\<close>

lemma within_hard_limitsD [guards]:
  assumes "within_hard_limits c"
  shows "0 < rv (rc_reference_equity c) \<and> rv (rc_reference_equity c) \<le> 30000
    \<and> 0 < rv (rc_max_risk_dollars c) \<and> rv (rc_max_risk_dollars c) \<le> 75
    \<and> 0 < rv (rc_risk_fraction c) \<and> rv (rc_risk_fraction c) \<le> 25 / 10000
    \<and> 0 < rv (rc_max_notional_dollars c) \<and> rv (rc_max_notional_dollars c) \<le> 6000
    \<and> 1 \<le> rc_max_open_positions c \<and> rc_max_open_positions c \<le> 3
    \<and> 0 < rv (rc_daily_loss_limit_dollars c) \<and> rv (rc_daily_loss_limit_dollars c) \<le> 300
    \<and> 20 \<le> rv (rc_per_side_cost_bps c)"
proof -
  have fin: "is_finite (rc_reference_equity c)" "is_finite (rc_max_risk_dollars c)"
    "is_finite (rc_risk_fraction c)" "is_finite (rc_max_notional_dollars c)"
    "is_finite (rc_daily_loss_limit_dollars c)" "is_finite (rc_per_side_cost_bps c)"
    using assms by (simp_all add: within_hard_limits_def)
  from assms show ?thesis
    by (simp add: within_hard_limits_def hard_limit_defs finite_compare fin)
qed

lemma default_within_hard_limits [simp]: "within_hard_limits default_paper_risk_config"
  by (simp add: within_hard_limits_def default_paper_risk_config_def hard_limit_defs)

lemma risk_budget_bounds:
  assumes "within_hard_limits c" "0 < equity"
  shows "0 < risk_budget c equity" "risk_budget c equity \<le> 75"
    "risk_budget c equity \<le> drnd (equity * rv (rc_risk_fraction c))"
  using within_hard_limitsD [OF assms(1)] assms(2) by (auto simp: risk_budget_def intro!: dec.r_pos)

lemma risk_per_share_ge_distance:
  assumes "0 < entry" "0 < stop" "0 \<le> spread" "0 \<le> cost" "stop_distance side entry stop > 0"
  shows "stop_distance side entry stop \<le> risk_per_share side entry stop spread cost"
proof -
  have s: "0 \<le> drnd (drnd (entry * spread) / basis_point_denominator)"
    using assms by (intro dec.nonneg divide_nonneg_nonneg) (auto simp: basis_point_denominator_def)
  have c: "0 \<le> drnd (drnd (drnd (entry + stop) * cost) / basis_point_denominator)"
    using assms by (intro dec.nonneg divide_nonneg_nonneg mult_nonneg_nonneg) (auto simp: basis_point_denominator_def)
  have "drnd (stop_distance side entry stop)
      \<le> drnd (stop_distance side entry stop + drnd (drnd (entry * spread) / basis_point_denominator))"
    by (rule dec.r_mono) (use s in simp)
  with c have "drnd (drnd (stop_distance side entry stop)) \<le> risk_per_share side entry stop spread cost"
    unfolding risk_per_share_def Let_def by (intro dec.r_mono) linarith
  then show ?thesis by (simp add: stop_distance_def split: order_side.splits)
qed

lemma risk_per_share_pos:
  assumes "0 < entry" "0 < stop" "0 \<le> spread" "0 \<le> cost" "stop_distance side entry stop > 0"
  shows "0 < risk_per_share side entry stop spread cost"
  using risk_per_share_ge_distance [OF assms] assms(5) by linarith

lemma size_paper_order_SomeD [guards]:
  assumes "size_paper_order f intent cx config = Inr (Some so)"
  defines "entry \<equiv> rv (pi_entry_limit intent)" and "stop \<equiv> rv (pi_stop intent)"
    and "equity \<equiv> rv (cx_conservative_equity cx)"
    and "rps \<equiv> risk_per_share (pi_side intent) (rv (pi_entry_limit intent)) (rv (pi_stop intent))
       (rv (cx_estimated_spread_bps cx)) (rv (rc_per_side_cost_bps config))"
  shows "within_hard_limits config \<and> 0 < entry \<and> 0 < stop \<and> 0 < equity \<and> 0 < rps
    \<and> so_intent so = intent \<and> 0 < so_quantity so
    \<and> so_quantity so \<le> cx_liquidity_allowed_quantity cx
    \<and> so_quantity so \<le> \<lfloor>drnd (risk_budget config equity / rps)\<rfloor>
    \<and> so_quantity so \<le> \<lfloor>drnd (rv (rc_max_notional_dollars config) / entry)\<rfloor>
    \<and> so_risk_per_share so = Finite (f rps)
    \<and> so_planned_risk so = Finite (f (drnd (rps * of_int (so_quantity so))))
    \<and> so_notional so = Finite (f (drnd (entry * of_int (so_quantity so))))
    \<and> 0 < stop_distance (pi_side intent) entry stop"
proof -
  have ok: "within_hard_limits config" "0 < entry" "0 < stop" "0 < equity"
    "0 \<le> rv (cx_estimated_spread_bps cx)" "0 \<le> rv (rc_per_side_cost_bps config)"
    "0 < stop_distance (pi_side intent) entry stop"
    using assms(1) unfolding entry_def stop_def equity_def size_paper_order_def Let_def
    by (auto split: if_splits)
  have "0 < rps" using ok risk_per_share_pos unfolding rps_def entry_def stop_def by blast
  then have "so_intent so = intent \<and> 0 < so_quantity so
      \<and> so_quantity so = sized_quantity config equity entry rps (cx_liquidity_allowed_quantity cx)
      \<and> so_risk_per_share so = Finite (f rps)
      \<and> so_planned_risk so = Finite (f (drnd (rps * of_int (so_quantity so))))
      \<and> so_notional so = Finite (f (drnd (entry * of_int (so_quantity so))))"
    using assms(1) ok unfolding entry_def stop_def equity_def rps_def size_paper_order_def Let_def
    by (auto split: if_splits)
  moreover have "sized_quantity config equity entry rps l \<le> l
      \<and> sized_quantity config equity entry rps l \<le> \<lfloor>drnd (risk_budget config equity / rps)\<rfloor>
      \<and> sized_quantity config equity entry rps l \<le> \<lfloor>drnd (rv (rc_max_notional_dollars config) / entry)\<rfloor>" for l
    unfolding sized_quantity_def Let_def by (intro conjI) (metis min.cobounded1 min.cobounded2 order_trans)+
  ultimately show ?thesis using ok \<open>0 < rps\<close> by simp
qed

lemma sized_inputs_nonneg:
  assumes "size_paper_order f intent cx config = Inr (Some so)"
  shows "0 \<le> rv (cx_estimated_spread_bps cx)" "0 \<le> rv (rc_per_side_cost_bps config)"
  using assms unfolding size_paper_order_def Let_def by (auto split: if_splits)

text \<open>The sizes the sizing may choose cost at most the budgets, up to the context's rounding.\<close>

lemma sized_within_budget:
  assumes "size_paper_order f intent cx config = Inr (Some so)"
  defines "entry \<equiv> rv (pi_entry_limit intent)" and "equity \<equiv> rv (cx_conservative_equity cx)"
    and "rps \<equiv> risk_per_share (pi_side intent) (rv (pi_entry_limit intent)) (rv (pi_stop intent))
       (rv (cx_estimated_spread_bps cx)) (rv (rc_per_side_cost_bps config))"
  shows "rps * of_int (so_quantity so) \<le> risk_budget config equity * (1 + deps)"
    and "entry * of_int (so_quantity so) \<le> rv (rc_max_notional_dollars config) * (1 + deps)"
proof -
  note s = size_paper_order_SomeD [OF assms(1), folded entry_def equity_def rps_def]
  note h = within_hard_limitsD [OF conjunct1 [OF s]]
  have b: "0 < risk_budget config equity" using s by (intro risk_budget_bounds) auto
  show "rps * of_int (so_quantity so) \<le> risk_budget config equity * (1 + deps)"
    by (rule dec.floor_quotient_within) (use s b in auto)
  show "entry * of_int (so_quantity so) \<le> rv (rc_max_notional_dollars config) * (1 + deps)"
    by (rule dec.floor_quotient_within) (use s h in auto)
qed

subsection \<open>Maximality and monotonicity\<close>

text \<open>A quotient whose floor is taken is exceeded by the next quantity, up to the rounding.\<close>

lemma next_quantity_exceeds:
  assumes "0 < u" "0 \<le> budget"
  shows "budget * (1 - deps) < u * of_int (\<lfloor>drnd (budget / u)\<rfloor> + 1)"
proof -
  have "budget / u * (1 - deps) \<le> drnd (budget / u)" by (rule dec.lower_bound) (use assms in simp)
  also have "\<dots> < of_int (\<lfloor>drnd (budget / u)\<rfloor> + 1)" by linarith
  finally have "u * (budget / u * (1 - deps)) < u * of_int (\<lfloor>drnd (budget / u)\<rfloor> + 1)"
    by (rule mult_strict_left_mono) (rule assms)
  then show ?thesis using assms(1) by simp
qed

lemma size_paper_order_quantity:
  assumes "size_paper_order f intent cx config = Inr (Some so)"
  shows "so_quantity so = sized_quantity config (rv (cx_conservative_equity cx)) (rv (pi_entry_limit intent))
    (risk_per_share (pi_side intent) (rv (pi_entry_limit intent)) (rv (pi_stop intent))
       (rv (cx_estimated_spread_bps cx)) (rv (rc_per_side_cost_bps config))) (cx_liquidity_allowed_quantity cx)"
  using assms unfolding size_paper_order_def Let_def by (auto split: if_splits)

text \<open>Higher costs or a wider spread never lower the risk per share.\<close>

lemma risk_per_share_mono:
  assumes "0 < entry" "0 < stop" "spread \<le> spread'" "cost \<le> cost'"
  shows "risk_per_share side entry stop spread cost \<le> risk_per_share side entry stop spread' cost'"
proof -
  have "drnd (drnd (entry * spread) / basis_point_denominator)
      \<le> drnd (drnd (entry * spread') / basis_point_denominator)"
    using assms by (intro dec.r_mono divide_right_mono mult_left_mono) (auto simp: basis_point_denominator_def)
  moreover have "0 \<le> drnd (entry + stop)" using assms by (intro dec.nonneg) simp
  then have "drnd (drnd (drnd (entry + stop) * cost) / basis_point_denominator)
      \<le> drnd (drnd (drnd (entry + stop) * cost') / basis_point_denominator)"
    using assms by (intro dec.r_mono divide_right_mono mult_left_mono) (auto simp: basis_point_denominator_def)
  ultimately show ?thesis unfolding risk_per_share_def Let_def
    by (intro dec.r_mono [OF add_mono [OF dec.r_mono [OF add_mono]]]) auto
qed

definition tighter_config :: "paper_risk_config \<Rightarrow> paper_risk_config \<Rightarrow> bool" where
  "tighter_config c' c \<longleftrightarrow>
     rv (rc_max_risk_dollars c') \<le> rv (rc_max_risk_dollars c)
     \<and> rv (rc_risk_fraction c') \<le> rv (rc_risk_fraction c)
     \<and> rv (rc_max_notional_dollars c') \<le> rv (rc_max_notional_dollars c)
     \<and> rv (rc_per_side_cost_bps c) \<le> rv (rc_per_side_cost_bps c')"

lemma sized_quantity_mono:
  assumes "tighter_config c' c" "0 < equity'" "equity' \<le> equity" "0 < entry" "0 < rps" "rps \<le> rps'" "l' \<le> l"
    "within_hard_limits c'" "within_hard_limits c"
  shows "sized_quantity c' equity' entry rps' l' \<le> sized_quantity c equity entry rps l"
proof -
  note h = within_hard_limitsD [OF assms(8)]
  have "drnd (equity' * rv (rc_risk_fraction c')) \<le> drnd (equity * rv (rc_risk_fraction c))"
    using assms(1-3) h by (intro dec.r_mono mult_mono) (auto simp: tighter_config_def)
  then have b: "risk_budget c' equity' \<le> risk_budget c equity"
    using assms(1) unfolding risk_budget_def tighter_config_def by linarith
  have pos: "0 < risk_budget c equity" using assms by (intro risk_budget_bounds) auto
  have "risk_budget c' equity' / rps' \<le> risk_budget c equity / rps"
    using b pos assms(5,6) by (intro frac_le) auto
  then have 1: "\<lfloor>drnd (risk_budget c' equity' / rps')\<rfloor> \<le> \<lfloor>drnd (risk_budget c equity / rps)\<rfloor>"
    by (intro floor_mono dec.r_mono)
  have 2: "\<lfloor>drnd (rv (rc_max_notional_dollars c') / entry)\<rfloor> \<le> \<lfloor>drnd (rv (rc_max_notional_dollars c) / entry)\<rfloor>"
    using assms(1,4) by (intro floor_mono dec.r_mono divide_right_mono) (auto simp: tighter_config_def)
  show ?thesis unfolding sized_quantity_def Let_def by (intro min.mono 1 2 assms(7))
qed

subsection \<open>Properties of the sizing\<close>

definition example_intent :: paper_order_intent where
  "example_intent = \<lparr> pi_intent_id = ''i1'', pi_strategy_id = ''orb'', pi_strategy_version = ''v1'',
     pi_symbol = ''ABC'', pi_created_at = Aware 0, pi_side = BUY, pi_entry_limit = Finite 10,
     pi_stop = Finite (95 / 10), pi_target_1r = Finite (105 / 10), pi_target_2r = Finite 11 \<rparr>"

definition example_context :: paper_sizing_context where
  "example_context = \<lparr> cx_conservative_equity = Finite 30000, cx_liquidity_allowed_quantity = 1000,
     cx_estimated_spread_bps = Finite 10 \<rparr>"

definition example_order :: sized_paper_order where
  "example_order = \<lparr> so_intent = example_intent, so_quantity = 136, so_risk_per_share = Finite (549 / 1000),
     so_planned_risk = Finite (74664 / 1000), so_notional = Finite 1360 \<rparr>"

lemma example_sized:
  "size_paper_order id example_intent example_context default_paper_risk_config = Inr (Some example_order)"
  by code_simp

text \<open>C16. A sized entry reserves at least the distance to its stop, risks at most 75 dollars and at
  most the configured fraction of the equity, and costs at most 6000 dollars, up to one decimal
  rounding of each quotient; it is at least one share and never more than the liquidity allows.\<close>

theorem sized_entry_within_limits:
  assumes "size_paper_order as_float intent cx config = Inr (Some so)"
  defines "rps \<equiv> risk_per_share (pi_side intent) (rv (pi_entry_limit intent)) (rv (pi_stop intent))
       (rv (cx_estimated_spread_bps cx)) (rv (rc_per_side_cost_bps config))"
  shows "1 \<le> so_quantity so \<and> so_quantity so \<le> cx_liquidity_allowed_quantity cx
    \<and> stop_distance (pi_side intent) (rv (pi_entry_limit intent)) (rv (pi_stop intent)) \<le> rps
    \<and> rps * of_int (so_quantity so) \<le> 75 * (1 + deps)
    \<and> rps * of_int (so_quantity so)
        \<le> drnd (rv (cx_conservative_equity cx) * rv (rc_risk_fraction config)) * (1 + deps)
    \<and> rv (pi_entry_limit intent) * of_int (so_quantity so) \<le> 6000 * (1 + deps)"
proof -
  note s = size_paper_order_SomeD [OF assms(1)]
  note h = within_hard_limitsD [OF conjunct1 [OF s]]
  note w = sized_within_budget [OF assms(1), folded rps_def]
  have scale: "x \<le> y \<Longrightarrow> x * (1 + deps) \<le> y * (1 + deps)" for x y :: rat
    by (intro mult_right_mono) (simp_all add: deps_def)
  note b = risk_budget_bounds [OF conjunct1 [OF s], of "rv (cx_conservative_equity cx)"]
  have "rps * of_int (so_quantity so) \<le> 75 * (1 + deps)"
    "rps * of_int (so_quantity so)
       \<le> drnd (rv (cx_conservative_equity cx) * rv (rc_risk_fraction config)) * (1 + deps)"
    using b s w(1) scale order_trans by blast+
  moreover have "rv (pi_entry_limit intent) * of_int (so_quantity so) \<le> 6000 * (1 + deps)"
    using h w(2) scale order_trans by blast
  moreover have "stop_distance (pi_side intent) (rv (pi_entry_limit intent)) (rv (pi_stop intent)) \<le> rps"
    using s h sized_inputs_nonneg [OF assms(1)] unfolding rps_def by (intro risk_per_share_ge_distance) auto
  moreover have "1 \<le> so_quantity so" "so_quantity so \<le> cx_liquidity_allowed_quantity cx" using s by auto
  ultimately show ?thesis by blast
qed

theorem sized_entry_within_limits_witness:
  "136 * risk_per_share BUY 10 (95 / 10) 10 20 \<le> 75 * (1 + deps)"
  using sized_entry_within_limits [OF example_sized]
  by (simp add: example_intent_def example_context_def example_order_def default_paper_risk_config_def
      hard_limit_defs mult.commute)

text \<open>The sized quantity is maximal: one share more is above the liquidity, above the risk budget
  or above the notional limit, up to one decimal rounding.\<close>

theorem sized_entry_is_maximal:
  assumes "size_paper_order as_float intent cx config = Inr (Some so)"
  defines "rps \<equiv> risk_per_share (pi_side intent) (rv (pi_entry_limit intent)) (rv (pi_stop intent))
       (rv (cx_estimated_spread_bps cx)) (rv (rc_per_side_cost_bps config))"
  shows "cx_liquidity_allowed_quantity cx < so_quantity so + 1
    \<or> risk_budget config (rv (cx_conservative_equity cx)) * (1 - deps) < rps * of_int (so_quantity so + 1)
    \<or> rv (rc_max_notional_dollars config) * (1 - deps) < rv (pi_entry_limit intent) * of_int (so_quantity so + 1)"
proof -
  note s = size_paper_order_SomeD [OF assms(1), folded rps_def]
  note h = within_hard_limitsD [OF conjunct1 [OF s]]
  have b: "0 \<le> risk_budget config (rv (cx_conservative_equity cx))"
    using s risk_budget_bounds(1) [of config "rv (cx_conservative_equity cx)"] by auto
  consider "so_quantity so = cx_liquidity_allowed_quantity cx"
    | "so_quantity so = \<lfloor>drnd (risk_budget config (rv (cx_conservative_equity cx)) / rps)\<rfloor>"
    | "so_quantity so = \<lfloor>drnd (rv (rc_max_notional_dollars config) / rv (pi_entry_limit intent))\<rfloor>"
    using size_paper_order_quantity [OF assms(1), folded rps_def]
    unfolding sized_quantity_def Let_def min_def by presburger
  then show ?thesis
    using next_quantity_exceeds [of rps] next_quantity_exceeds [of "rv (pi_entry_limit intent)"] s h b
    by cases auto
qed

theorem sized_entry_is_maximal_witness:
  "1000 < (137 :: int)
    \<or> risk_budget default_paper_risk_config 30000 * (1 - deps) < risk_per_share BUY 10 (95 / 10) 10 20 * 137
    \<or> 6000 * (1 - deps) < (10 :: rat) * 137"
  using sized_entry_is_maximal [OF example_sized]
  by (simp add: example_intent_def example_context_def example_order_def default_paper_risk_config_def hard_limit_defs)

text \<open>A tighter configuration, less equity or less liquidity never buys more shares of the same
  intent at the same spread.\<close>

theorem tighter_sizing_is_smaller:
  assumes "size_paper_order as_float intent cx config = Inr (Some so)"
    and "size_paper_order as_float intent cx' config' = Inr (Some so')"
    and "tighter_config config' config"
    and "rv (cx_conservative_equity cx') \<le> rv (cx_conservative_equity cx)"
    and "cx_liquidity_allowed_quantity cx' \<le> cx_liquidity_allowed_quantity cx"
    and "rv (cx_estimated_spread_bps cx) \<le> rv (cx_estimated_spread_bps cx')"
  shows "so_quantity so' \<le> so_quantity so"
proof -
  note s = size_paper_order_SomeD [OF assms(1)] and s' = size_paper_order_SomeD [OF assms(2)]
  have "risk_per_share (pi_side intent) (rv (pi_entry_limit intent)) (rv (pi_stop intent))
        (rv (cx_estimated_spread_bps cx)) (rv (rc_per_side_cost_bps config))
      \<le> risk_per_share (pi_side intent) (rv (pi_entry_limit intent)) (rv (pi_stop intent))
        (rv (cx_estimated_spread_bps cx')) (rv (rc_per_side_cost_bps config'))"
    using s assms(3,6) by (intro risk_per_share_mono) (auto simp: tighter_config_def)
  then show ?thesis
    unfolding size_paper_order_quantity [OF assms(1)] size_paper_order_quantity [OF assms(2)]
    using s s' assms(3-5) by (intro sized_quantity_mono) auto
qed

definition example_tight_config :: paper_risk_config where
  "example_tight_config = default_paper_risk_config\<lparr>rc_max_risk_dollars := Finite 40\<rparr>"

lemma example_tight_sized:
  "map_sum id (map_option so_quantity)
     (size_paper_order id example_intent example_context example_tight_config) = Inr (Some 72)"
  by code_simp

theorem tighter_sizing_is_smaller_witness:
  "tighter_config example_tight_config default_paper_risk_config \<and> (72 :: int) \<le> so_quantity example_order"
proof -
  obtain so where so: "size_paper_order id example_intent example_context example_tight_config = Inr (Some so)"
      "so_quantity so = 72"
    using example_tight_sized
    by (cases "size_paper_order id example_intent example_context example_tight_config") auto
  have t: "tighter_config example_tight_config default_paper_risk_config"
    by (simp add: tighter_config_def example_tight_config_def default_paper_risk_config_def hard_limit_defs)
  show ?thesis using tighter_sizing_is_smaller [OF example_sized so(1) t] t so(2) by simp
qed

end
