(* ===== verification/Portfolio_Gate.thy ===== *)
theory Portfolio_Gate
  imports Paper_Risk
begin

text \<open>
  \<^verbatim>\<open>trading_agent/paper_portfolio_gate.py\<close>: the last check before an entry is sized into
  the book.  Each message of the code is a constructor of \<open>portfolio_reason\<close>; an empty list is
  approval.
\<close>

datatype portfolio_reason =
    Portfolio_Incomplete
  | Values_Not_Current
  | Account_Not_Active
  | Aggregation_Inconsistent
  | Geometry_Invalid
  | Symbol_Already_Exposed
  | Too_Many_Positions
  | Candidate_Arithmetic_Inconsistent
  | Existing_Exposure_Over_Limit
  | Candidate_Over_Limit
  | Daily_Loss_Reached
  | Total_Planned_Risk_Over_Limit
  | Total_Exposure_Over_Limit
  | Buying_Power_Too_Small

definition current_portfolio_age :: int where "current_portfolio_age = 5 * second_us"
definition max_symbol_notional_fraction :: rat where "max_symbol_notional_fraction = 20 / 100"
definition money_tolerance :: rat where "money_tolerance = 1 / 100"

definition portfolio_is_current :: "pydt \<Rightarrow> pydt \<Rightarrow> bool" where
  "portfolio_is_current = is_current_within current_portfolio_age"

definition order_geometry_is_valid :: "sized_paper_order \<Rightarrow> bool" where
  "order_geometry_is_valid candidate =
     (let intent = so_intent candidate;
          entry = rv (pi_entry_limit intent); stop = rv (pi_stop intent);
          target_1r = rv (pi_target_1r intent); target_2r = rv (pi_target_2r intent);
          rps = rv (so_risk_per_share candidate)
      in if min (min (min (min entry stop) target_1r) target_2r) rps \<le> 0 then False
         else
           let distance = stop_distance (pi_side intent) entry stop;
               targets_valid = (case pi_side intent of
                   BUY \<Rightarrow> entry < target_1r \<and> target_1r < target_2r
                 | SELL \<Rightarrow> target_2r < target_1r \<and> target_1r < entry)
           in distance > 0 \<and> rps \<ge> distance \<and> targets_valid)"

text \<open>The first check: every value present, current and of the right sign.\<close>

definition values_unusable :: "complete_portfolio \<Rightarrow> sized_paper_order \<Rightarrow> pydt \<Rightarrow> bool" where
  "values_unusable portfolio candidate evaluated_at \<longleftrightarrow>
     (let intent = so_intent candidate in
      \<not> portfolio_is_current evaluated_at (pf_observed_at portfolio)
      \<or> \<not> list_all is_finite
           [pf_equity portfolio, pf_last_equity portfolio, pf_buying_power portfolio,
            pf_gross_exposure portfolio, pf_planned_open_risk portfolio]
      \<or> \<not> list_all is_finite
           [pi_entry_limit intent, pi_stop intent, pi_target_1r intent, pi_target_2r intent,
            so_risk_per_share candidate, so_planned_risk candidate, so_notional candidate]
      \<or> rv (pf_equity portfolio) \<le> 0
      \<or> rv (pf_last_equity portfolio) \<le> 0
      \<or> rv (pf_buying_power portfolio) < 0
      \<or> rv (pf_gross_exposure portfolio) < 0
      \<or> rv (pf_planned_open_risk portfolio) < 0
      \<or> so_quantity candidate \<le> 0
      \<or> rv (so_risk_per_share candidate) \<le> 0
      \<or> rv (so_planned_risk candidate) \<le> 0
      \<or> rv (so_notional candidate) \<le> 0)"

definition exposure_is_valid :: "portfolio_exposure \<Rightarrow> bool" where
  "exposure_is_valid e \<longleftrightarrow>
     ex_intent_id e \<noteq> [] \<and> ex_symbol e \<noteq> [] \<and> ex_symbol e = upper (ex_symbol e)
     \<and> is_finite (ex_gross e) \<and> rv (ex_gross e) > 0
     \<and> is_finite (ex_planned_risk e) \<and> rv (ex_planned_risk e) > 0"

definition aggregation_is_consistent :: "complete_portfolio \<Rightarrow> bool" where
  "aggregation_is_consistent portfolio \<longleftrightarrow>
     (let exposure_count = length (pf_exposures portfolio);
          gross = rv (pf_gross_exposure portfolio); risk = rv (pf_planned_open_risk portfolio)
      in length (exposed_symbols portfolio) = exposure_count
         \<and> list_all exposure_is_valid (pf_exposures portfolio)
         \<and> ((exposure_count = 0 \<and> gross = 0 \<and> risk = 0)
             \<or> (exposure_count > 0 \<and> gross > 0 \<and> risk > 0)))"

definition conservative_equity :: "complete_portfolio \<Rightarrow> paper_risk_config \<Rightarrow> rat" where
  "conservative_equity portfolio config =
     min (min (rv (pf_equity portfolio)) (rv (pf_last_equity portfolio))) (rv (rc_reference_equity config))"

definition effective_risk_limit :: "complete_portfolio \<Rightarrow> paper_risk_config \<Rightarrow> rat" where
  "effective_risk_limit portfolio config =
     min (rv (rc_max_risk_dollars config))
       (drnd (conservative_equity portfolio config * rv (rc_risk_fraction config)))"

definition effective_notional_limit :: "complete_portfolio \<Rightarrow> paper_risk_config \<Rightarrow> rat" where
  "effective_notional_limit portfolio config =
     min (rv (rc_max_notional_dollars config))
       (drnd (conservative_equity portfolio config * max_symbol_notional_fraction))"

definition complete_portfolio_reasons ::
    "complete_portfolio \<Rightarrow> sized_paper_order \<Rightarrow> pydt \<Rightarrow> paper_risk_config \<Rightarrow> portfolio_reason list" where
  "complete_portfolio_reasons portfolio candidate evaluated_at config =
     (let exposure_count = length (pf_exposures portfolio);
          intent = so_intent candidate;
          candidate_risk = rv (so_planned_risk candidate);
          candidate_notional = rv (so_notional candidate);
          quantity = of_int (so_quantity candidate);
          expected_risk = drnd (rv (so_risk_per_share candidate) * quantity);
          expected_notional = drnd (rv (pi_entry_limit intent) * quantity);
          daily_loss_limit = rv (rc_daily_loss_limit_dollars config);
          risk_limit = effective_risk_limit portfolio config;
          notional_limit = effective_notional_limit portfolio config;
          resulting_slot_count = of_nat (exposure_count + 1);
          gross_limit = min (conservative_equity portfolio config) (drnd (notional_limit * resulting_slot_count))
      in
      if values_unusable portfolio candidate evaluated_at then [Values_Not_Current]
      else if upper (pf_account_status portfolio) \<noteq> ''ACTIVE'' \<or> pf_trading_blocked portfolio
      then [Account_Not_Active]
      else if \<not> aggregation_is_consistent portfolio then [Aggregation_Inconsistent]
      else if \<not> order_geometry_is_valid candidate then [Geometry_Invalid]
      else if pi_symbol intent \<in> set (exposed_symbols portfolio) then [Symbol_Already_Exposed]
      else if int exposure_count + 1 > rc_max_open_positions config then [Too_Many_Positions]
      else if \<bar>drnd (candidate_risk - expected_risk)\<bar> > money_tolerance
              \<or> \<bar>drnd (candidate_notional - expected_notional)\<bar> > money_tolerance
      then [Candidate_Arithmetic_Inconsistent]
      else if list_ex (\<lambda>e. rv (ex_planned_risk e) > risk_limit \<or> rv (ex_gross e) > notional_limit)
                (pf_exposures portfolio)
      then [Existing_Exposure_Over_Limit]
      else if candidate_risk > risk_limit \<or> candidate_notional > notional_limit then [Candidate_Over_Limit]
      else if drnd (rv (pf_equity portfolio) - rv (pf_last_equity portfolio)) \<le> - daily_loss_limit
      then [Daily_Loss_Reached]
      else if drnd (rv (pf_planned_open_risk portfolio) + candidate_risk) > drnd (risk_limit * resulting_slot_count)
      then [Total_Planned_Risk_Over_Limit]
      else if drnd (rv (pf_gross_exposure portfolio) + candidate_notional) > gross_limit
      then [Total_Exposure_Over_Limit]
      else if rv (pf_buying_power portfolio) < candidate_notional then [Buying_Power_Too_Small]
      else [])"

fun portfolio_reasons ::
    "'r portfolio_snapshot \<Rightarrow> sized_paper_order \<Rightarrow> pydt \<Rightarrow> paper_risk_config \<Rightarrow> portfolio_reason list" where
  "portfolio_reasons (Incomplete _) candidate evaluated_at config = [Portfolio_Incomplete]"
| "portfolio_reasons (Complete portfolio) candidate evaluated_at config =
     complete_portfolio_reasons portfolio candidate evaluated_at config"

subsection \<open>What approval means\<close>

text \<open>The book after an approved entry, in the terms of the risk policy.\<close>

definition approved_book :: "complete_portfolio \<Rightarrow> sized_paper_order \<Rightarrow> paper_risk_config \<Rightarrow> bool" where
  "approved_book p c config \<longleftrightarrow>
     upper (pf_account_status p) = ''ACTIVE'' \<and> \<not> pf_trading_blocked p
     \<and> distinct (map ex_symbol (pf_exposures p))
     \<and> pi_symbol (so_intent c) \<notin> ex_symbol ` set (pf_exposures p)
     \<and> int (length (pf_exposures p)) + 1 \<le> rc_max_open_positions config
     \<and> 0 < so_quantity c
     \<and> 0 < rv (so_planned_risk c) \<and> rv (so_planned_risk c) \<le> effective_risk_limit p config
     \<and> 0 < rv (so_notional c) \<and> rv (so_notional c) \<le> effective_notional_limit p config
     \<and> rv (so_notional c) \<le> rv (pf_buying_power p)
     \<and> (\<forall>e \<in> set (pf_exposures p). rv (ex_planned_risk e) \<le> effective_risk_limit p config
          \<and> rv (ex_gross e) \<le> effective_notional_limit p config)
     \<and> - rv (rc_daily_loss_limit_dollars config) < drnd (rv (pf_equity p) - rv (pf_last_equity p))
     \<and> drnd (rv (pf_planned_open_risk p) + rv (so_planned_risk c))
         \<le> drnd (effective_risk_limit p config * of_nat (length (pf_exposures p) + 1))
     \<and> drnd (rv (pf_gross_exposure p) + rv (so_notional c)) \<le> conservative_equity p config"

lemma complete_portfolio_reasons_Nil [guards]:
  assumes "complete_portfolio_reasons p c now config = []"
  shows "approved_book p c config \<and> \<not> values_unusable p c now \<and> aggregation_is_consistent p
    \<and> order_geometry_is_valid c"
proof -
  have d: "distinct (map ex_symbol (pf_exposures p))" if "aggregation_is_consistent p"
    using that unfolding aggregation_is_consistent_def exposed_symbols_def Let_def
    by (metis card_distinct length_map length_remdups_card_conv)
  show ?thesis
    using assms d unfolding complete_portfolio_reasons_def Let_def approved_book_def
    by (auto simp: exposed_symbols_def values_unusable_def Let_def list_ex_iff not_less split: if_splits)
qed

lemma approved_risk_total:
  assumes "within_hard_limits config" "approved_book p c config"
  shows "rv (so_planned_risk c) \<le> 75" "rv (so_notional c) \<le> 6000" "length (pf_exposures p) \<le> 2"
    "drnd (rv (pf_planned_open_risk p) + rv (so_planned_risk c)) \<le> 225"
    "drnd (rv (pf_gross_exposure p) + rv (so_notional c)) \<le> 30000"
    "- 300 < drnd (rv (pf_equity p) - rv (pf_last_equity p))"
proof -
  note h = within_hard_limitsD [OF assms(1)]
  have e: "effective_risk_limit p config \<le> 75" "effective_notional_limit p config \<le> 6000"
    "conservative_equity p config \<le> 30000"
    using h by (auto simp: effective_risk_limit_def effective_notional_limit_def conservative_equity_def min_def)
  then show "rv (so_planned_risk c) \<le> 75" "rv (so_notional c) \<le> 6000"
    "drnd (rv (pf_gross_exposure p) + rv (so_notional c)) \<le> 30000"
    using assms(2) by (auto simp: approved_book_def)
  show l: "length (pf_exposures p) \<le> 2" using assms(2) h by (auto simp: approved_book_def)
  have "0 < effective_risk_limit p config" using assms(2) by (auto simp: approved_book_def)
  moreover have "(of_nat (length (pf_exposures p) + 1) :: rat) \<le> 3"
    using l by (metis One_nat_def Suc_eq_plus1 Suc_le_mono numeral_2_eq_2 numeral_3_eq_3 of_nat_le_iff of_nat_numeral)
  ultimately have "effective_risk_limit p config * of_nat (length (pf_exposures p) + 1) \<le> 75 * 3"
    using e(1) by (intro mult_mono) auto
  then have "drnd (effective_risk_limit p config * of_nat (length (pf_exposures p) + 1)) \<le> drnd (of_int 225)"
    by (intro dec.r_mono) simp
  moreover have "drnd (of_int 225) = of_int 225" by (rule drnd_of_int) simp
  ultimately have "drnd (effective_risk_limit p config * of_nat (length (pf_exposures p) + 1)) \<le> 225"
    by simp
  then show "drnd (rv (pf_planned_open_risk p) + rv (so_planned_risk c)) \<le> 225"
    using assms(2) unfolding approved_book_def by linarith
  show "- 300 < drnd (rv (pf_equity p) - rv (pf_last_equity p))"
    using assms(2) h by (auto simp: approved_book_def)
qed

end
