(* ===== verification/Order_Gate.thy ===== *)
theory Order_Gate
  imports Portfolio_Gate
begin

text \<open>
  \<^verbatim>\<open>trading_agent/paper_order_gate.py\<close>: an entry is approved only inside a regular
  session that the broker and the local calendar agree on, at least thirty minutes before the
  close, on the bar that has just completed, with a live order stream, and within the portfolio
  limits.
\<close>

datatype order_gate_state =
    Session_Blocked | Current_Bar_Blocked | Stream_Blocked | Reconciliation_Blocked
  | Portfolio_Blocked | Approved_State

datatype order_gate_reason =
    Clock_Not_Current | Clock_Not_Open | Calendar_Closed | Outside_Regular_Hours
  | Close_Mismatch | Entry_Cutoff_Reached
  | Naive_Timestamps | Not_Current_Bar
  | Stream_Not_Current
  | Portfolio_Not_Complete | Candidate_Not_Sizable
  | Portfolio_Says portfolio_reason

record latest_completed_bar =
  lb_symbol :: symbol
  lb_started_at :: pydt
  lb_first_observed_at :: pydt

record stream_heartbeat =
  hb_connection_epoch :: string
  hb_authorized_at :: pydt
  hb_subscribed_at :: pydt
  hb_pong_at :: pydt

record 'r order_gate_snapshot =
  gs_market_clock :: paper_market_clock
  gs_latest_bar :: latest_completed_bar
  gs_stream_heartbeat :: stream_heartbeat
  gs_portfolio :: "'r portfolio_snapshot"
  gs_candidate_intent :: paper_order_intent
  gs_liquidity_allowed_quantity :: int
  gs_estimated_spread_bps :: pynum

datatype order_gate_decision =
    Approved sized_paper_order
  | Blocked order_gate_state "order_gate_reason list"

datatype order_gate_error = Gate_Unsafe_Config | Invalid_Gate_Decision

definition current_data_age :: int where "current_data_age = 5 * second_us"
definition bar_duration :: int where "bar_duration = minute_us"
definition entry_cutoff_before_close :: int where "entry_cutoff_before_close = 30 * minute_us"

definition gate_is_current :: "pydt \<Rightarrow> pydt \<Rightarrow> bool" where
  "gate_is_current = is_current_within current_data_age"

text \<open>The constructor of a blocked decision refuses an approval or an empty list of reasons.\<close>

definition blocked :: "order_gate_state \<Rightarrow> order_gate_reason list \<Rightarrow> order_gate_error + order_gate_decision" where
  "blocked state reasons =
     (if state = Approved_State \<or> reasons = [] then Inl Invalid_Gate_Decision else Inr (Blocked state reasons))"

definition session_reasons :: "'r order_gate_snapshot \<Rightarrow> pydt \<Rightarrow> order_gate_reason list" where
  "session_reasons snapshot now =
     (let clock = gs_market_clock snapshot in
      if \<not> (gate_is_current now (ck_observed_at clock)
             \<and> gate_is_current now (ck_market_timestamp clock)
             \<and> is_aware (ck_next_open clock)
             \<and> is_aware (ck_next_close clock))
      then [Clock_Not_Current]
      else if \<not> ck_is_open clock then [Clock_Not_Open]
      else
        let now_new_york = ny (instant now) in
        case regular_session_bounds (wall_date now_new_york) of
          None \<Rightarrow> [Calendar_Closed]
        | Some (session_open, session_close) \<Rightarrow>
            if \<not> (session_open \<le> now_new_york \<and> now_new_york < session_close) then [Outside_Regular_Hours]
            else if ny (instant (ck_next_close clock)) \<noteq> session_close then [Close_Mismatch]
            else if now_new_york \<ge> session_close - entry_cutoff_before_close then [Entry_Cutoff_Reached]
            else [])"

definition current_bar_reasons :: "'r order_gate_snapshot \<Rightarrow> pydt \<Rightarrow> order_gate_reason list" where
  "current_bar_reasons snapshot now =
     (let bar = gs_latest_bar snapshot; intent = gs_candidate_intent snapshot in
      if \<not> list_all is_aware [now, lb_started_at bar, lb_first_observed_at bar, pi_created_at intent]
      then [Naive_Timestamps]
      else
        let expected_start = floor_minute (ny (instant now)) - bar_duration;
            bar_end = expected_start + bar_duration;
            bounds = regular_session_bounds (wall_date expected_start)
        in if (case bounds of None \<Rightarrow> True | Some (opens, closes) \<Rightarrow> expected_start < opens \<or> bar_end > closes)
              \<or> lb_symbol bar \<noteq> pi_symbol intent
              \<or> pi_symbol intent = []
              \<or> pi_symbol intent \<noteq> upper (pi_symbol intent)
              \<or> ny (instant (lb_started_at bar)) \<noteq> expected_start
              \<or> \<not> bar_end \<le> ny (instant (lb_first_observed_at bar))
              \<or> instant (lb_first_observed_at bar) > instant now
              \<or> \<not> (instant (lb_first_observed_at bar) \<le> instant (pi_created_at intent)
                    \<and> instant (pi_created_at intent) \<le> instant now)
           then [Not_Current_Bar] else [])"

definition stream_reasons :: "'r order_gate_snapshot \<Rightarrow> pydt \<Rightarrow> order_gate_reason list" where
  "stream_reasons snapshot evaluated_at =
     (let heartbeat = gs_stream_heartbeat snapshot in
      if hb_connection_epoch heartbeat = []
         \<or> \<not> gate_is_current evaluated_at (hb_pong_at heartbeat)
         \<or> \<not> list_all is_aware [hb_authorized_at heartbeat, hb_subscribed_at heartbeat, hb_pong_at heartbeat]
         \<or> \<not> (instant (hb_authorized_at heartbeat) \<le> instant (hb_subscribed_at heartbeat)
               \<and> instant (hb_subscribed_at heartbeat) \<le> instant (hb_pong_at heartbeat))
      then [Stream_Not_Current] else [])"

fun num_float :: "(rat \<Rightarrow> rat) \<Rightarrow> pynum \<Rightarrow> pynum" where
  "num_float f (Finite q) = Finite (f q)"
| "num_float f x = x"

definition evaluate_order_gate ::
    "(rat \<Rightarrow> rat) \<Rightarrow> 'r order_gate_snapshot \<Rightarrow> pydt \<Rightarrow> paper_risk_config
      \<Rightarrow> order_gate_error + order_gate_decision" where
  "evaluate_order_gate as_float snapshot evaluated_at config =
     (if \<not> within_hard_limits config then Inl Gate_Unsafe_Config
      else if session_reasons snapshot evaluated_at \<noteq> []
      then blocked Session_Blocked (session_reasons snapshot evaluated_at)
      else if current_bar_reasons snapshot evaluated_at \<noteq> []
      then blocked Current_Bar_Blocked (current_bar_reasons snapshot evaluated_at)
      else if stream_reasons snapshot evaluated_at \<noteq> []
      then blocked Stream_Blocked (stream_reasons snapshot evaluated_at)
      else case gs_portfolio snapshot of
        Incomplete _ \<Rightarrow> blocked Portfolio_Blocked [Portfolio_Not_Complete]
      | Complete portfolio \<Rightarrow>
          let conservative = num_float as_float
                (num_min (num_min (pf_equity portfolio) (pf_last_equity portfolio)) (rc_reference_equity config));
              candidate = size_paper_order as_float (gs_candidate_intent snapshot)
                \<lparr> cx_conservative_equity = conservative,
                  cx_liquidity_allowed_quantity = gs_liquidity_allowed_quantity snapshot,
                  cx_estimated_spread_bps = gs_estimated_spread_bps snapshot \<rparr>
                config
          in case candidate of
               Inl _ \<Rightarrow> Inl Gate_Unsafe_Config
             | Inr None \<Rightarrow> blocked Portfolio_Blocked [Candidate_Not_Sizable]
             | Inr (Some sized) \<Rightarrow>
                 (let reasons = complete_portfolio_reasons portfolio sized evaluated_at config
                  in if reasons \<noteq> [] then blocked Portfolio_Blocked (map Portfolio_Says reasons)
                     else Inr (Approved sized)))"

subsection \<open>Inversion of the three time checks\<close>

lemma session_reasons_Nil [guards]:
  assumes "session_reasons snapshot now = []"
  obtains opens closes where
    "regular_session_bounds (wall_date (ny (instant now))) = Some (opens, closes)"
    "is_aware now" "ck_is_open (gs_market_clock snapshot)"
    "opens \<le> ny (instant now)" "ny (instant now) < closes - entry_cutoff_before_close"
    "ny (instant (ck_next_close (gs_market_clock snapshot))) = closes"
  using assms
  by (auto simp: session_reasons_def Let_def gate_is_current_def is_current_within_def not_le
      split: if_splits option.splits prod.splits)

lemma current_bar_reasons_Nil [guards]:
  assumes "current_bar_reasons snapshot now = []"
  defines "bar \<equiv> gs_latest_bar snapshot" and "intent \<equiv> gs_candidate_intent snapshot"
  shows "lb_symbol bar = pi_symbol intent \<and> upper_symbol (pi_symbol intent)
    \<and> ny (instant (lb_started_at bar)) = floor_minute (ny (instant now)) - bar_duration
    \<and> instant (lb_first_observed_at bar) \<le> instant (pi_created_at intent)
    \<and> instant (pi_created_at intent) \<le> instant now
    \<and> floor_minute (ny (instant now)) \<le> ny (instant (lb_first_observed_at bar))"
  using assms(1) unfolding current_bar_reasons_def bar_def intent_def
  by (auto simp: Let_def upper_symbol_def split: if_splits option.splits)

lemma stream_reasons_Nil [guards]:
  assumes "stream_reasons snapshot now = []"
  shows "hb_connection_epoch (gs_stream_heartbeat snapshot) \<noteq> []
    \<and> instant now - instant (hb_pong_at (gs_stream_heartbeat snapshot)) \<le> current_data_age"
  using assms by (auto simp: stream_reasons_def Let_def gate_is_current_def is_current_within_def split: if_splits)

lemma evaluate_order_gate_ApprovedD [guards]:
  assumes "evaluate_order_gate f snapshot now config = Inr (Approved so)"
  obtains portfolio cx where
    "within_hard_limits config" "session_reasons snapshot now = []"
    "current_bar_reasons snapshot now = []" "stream_reasons snapshot now = []"
    "gs_portfolio snapshot = Complete portfolio"
    "size_paper_order f (gs_candidate_intent snapshot) cx config = Inr (Some so)"
    "cx_liquidity_allowed_quantity cx = gs_liquidity_allowed_quantity snapshot"
    "complete_portfolio_reasons portfolio so now config = []"
  using assms
  by (auto simp: evaluate_order_gate_def blocked_def Let_def
      split: if_splits portfolio_snapshot.splits sum.splits option.splits)

lemma evaluate_order_gate_cases:
  assumes "within_hard_limits config"
  shows "(\<exists>so. evaluate_order_gate f snapshot now config = Inr (Approved so))
    \<or> (\<exists>state reasons. evaluate_order_gate f snapshot now config = Inr (Blocked state reasons)
         \<and> reasons \<noteq> [] \<and> state \<noteq> Approved_State)"
proof -
  have "size_paper_order f intent cx config \<noteq> Inl e" for intent cx e
    using assms by (auto simp: size_paper_order_def Let_def)
  then show ?thesis
    using assms by (auto simp: evaluate_order_gate_def blocked_def Let_def
        split: portfolio_snapshot.splits sum.splits option.splits)
qed

subsection \<open>Properties of the gate\<close>

definition example_now :: int where
  "example_now = ny_utc (combine (ymd2ord 2026 7 6) (time_of 10 0)) + 2 * second_us"

definition example_portfolio :: complete_portfolio where
  "example_portfolio = \<lparr> pf_observed_at = Aware example_now, pf_account_status = ''ACTIVE'',
     pf_trading_blocked = False, pf_equity = Finite 30000, pf_last_equity = Finite 30100,
     pf_buying_power = Finite 20000,
     pf_exposures = [\<lparr> ex_intent_id = ''i0'', ex_symbol = ''XYZ'', ex_kind = Open_Position,
       ex_gross = Finite 2000, ex_planned_risk = Finite 50 \<rparr>] \<rparr>"

definition example_snapshot :: "unit order_gate_snapshot" where
  "example_snapshot =
     (let now = Aware example_now in
      \<lparr> gs_market_clock = \<lparr> ck_observed_at = now, ck_market_timestamp = now, ck_is_open = True,
          ck_next_open = now, ck_next_close = Aware (ny_utc (combine (ymd2ord 2026 7 6) (time_of 16 0))) \<rparr>,
        gs_latest_bar = \<lparr> lb_symbol = ''ABC'',
          lb_started_at = Aware (ny_utc (combine (ymd2ord 2026 7 6) (time_of 9 59))),
          lb_first_observed_at = Aware (example_now - second_us) \<rparr>,
        gs_stream_heartbeat = \<lparr> hb_connection_epoch = ''e1'', hb_authorized_at = Aware 0,
          hb_subscribed_at = Aware 1, hb_pong_at = now \<rparr>,
        gs_portfolio = Complete example_portfolio,
        gs_candidate_intent = example_intent\<lparr>pi_created_at := now\<rparr>,
        gs_liquidity_allowed_quantity = 1000, gs_estimated_spread_bps = Finite 10 \<rparr>)"

lemma example_approved:
  "evaluate_order_gate id example_snapshot (Aware example_now) default_paper_risk_config
     = Inr (Approved (example_order\<lparr>so_intent := example_intent\<lparr>pi_created_at := Aware example_now\<rparr>\<rparr>))"
  by code_simp

text \<open>C2. An approved entry respects the account's limits after the fill: at most 75 dollars planned
  risk and 6000 dollars notional, at most three positions in distinct symbols, at most 225 dollars
  planned risk and 30000 dollars gross in total, bought with present buying power, after a daily
  loss below 300 dollars, in an active account.\<close>

theorem approved_entry_within_limits:
  assumes "evaluate_order_gate as_float snapshot now config = Inr (Approved so)"
  shows "\<exists>p. gs_portfolio snapshot = Complete p
    \<and> so_intent so = gs_candidate_intent snapshot
    \<and> 1 \<le> so_quantity so \<and> so_quantity so \<le> gs_liquidity_allowed_quantity snapshot
    \<and> rv (so_planned_risk so) \<le> 75 \<and> rv (so_notional so) \<le> 6000
    \<and> rv (so_notional so) \<le> rv (pf_buying_power p)
    \<and> distinct (pi_symbol (so_intent so) # map ex_symbol (pf_exposures p))
    \<and> length (pf_exposures p) + 1 \<le> 3
    \<and> drnd (rv (pf_planned_open_risk p) + rv (so_planned_risk so)) \<le> 225
    \<and> drnd (rv (pf_gross_exposure p) + rv (so_notional so)) \<le> 30000
    \<and> - 300 < drnd (rv (pf_equity p) - rv (pf_last_equity p))
    \<and> upper (pf_account_status p) = ''ACTIVE'' \<and> \<not> pf_trading_blocked p"
proof -
  obtain p cx where g: "within_hard_limits config" "gs_portfolio snapshot = Complete p"
    "size_paper_order as_float (gs_candidate_intent snapshot) cx config = Inr (Some so)"
    "cx_liquidity_allowed_quantity cx = gs_liquidity_allowed_quantity snapshot"
    "complete_portfolio_reasons p so now config = []"
    using assms by (rule evaluate_order_gate_ApprovedD)
  have b: "approved_book p so config" using complete_portfolio_reasons_Nil [OF g(5)] by simp
  note t = approved_risk_total [OF g(1) b]
  show ?thesis
    using g(2) t size_paper_order_SomeD [OF g(3)] g(4) b by (intro exI [of _ p]) (auto simp: approved_book_def)
qed

theorem approved_entry_within_limits_witness:
  "(74664 / 1000 :: rat) \<le> 75 \<and> (1360 :: rat) \<le> 6000 \<and> gs_portfolio example_snapshot \<noteq> Incomplete []"
  using approved_entry_within_limits [OF example_approved] by (auto simp: example_order_def)

text \<open>C7. An approval happens only inside a regular session of the exchange calendar whose close the
  broker confirms, more than thirty minutes before that close, on the bar of the minute just
  completed, for an intent made after that bar was seen, with a pong at most five seconds old.\<close>

theorem approved_entry_timing:
  assumes "evaluate_order_gate as_float snapshot now config = Inr (Approved so)"
  shows "\<exists>opens closes. regular_session_bounds (wall_date (ny (instant now))) = Some (opens, closes)
    \<and> opens \<le> ny (instant now) \<and> ny (instant now) + 30 * minute_us < closes
    \<and> ny (instant (ck_next_close (gs_market_clock snapshot))) = closes
    \<and> ny (instant (lb_started_at (gs_latest_bar snapshot))) + minute_us = floor_minute (ny (instant now))
    \<and> lb_symbol (gs_latest_bar snapshot) = pi_symbol (so_intent so)
    \<and> instant (lb_first_observed_at (gs_latest_bar snapshot)) \<le> instant (pi_created_at (so_intent so))
    \<and> instant (pi_created_at (so_intent so)) \<le> instant now
    \<and> instant now - instant (hb_pong_at (gs_stream_heartbeat snapshot)) \<le> 5 * second_us"
proof -
  obtain p cx where g: "session_reasons snapshot now = []" "current_bar_reasons snapshot now = []"
    "stream_reasons snapshot now = []"
    "size_paper_order as_float (gs_candidate_intent snapshot) cx config = Inr (Some so)"
    using assms by (rule evaluate_order_gate_ApprovedD)
  show ?thesis
    using g(1)
  proof (rule session_reasons_Nil)
    fix opens closes
    assume "regular_session_bounds (wall_date (ny (instant now))) = Some (opens, closes)"
      "opens \<le> ny (instant now)" "ny (instant now) < closes - entry_cutoff_before_close"
      "ny (instant (ck_next_close (gs_market_clock snapshot))) = closes"
    then show ?thesis
      using current_bar_reasons_Nil [OF g(2)] stream_reasons_Nil [OF g(3)] size_paper_order_SomeD [OF g(4)]
      by (intro exI [of _ opens] exI [of _ closes])
        (auto simp: entry_cutoff_before_close_def bar_duration_def current_data_age_def)
  qed
qed

theorem approved_entry_timing_witness:
  "regular_session_bounds (wall_date (ny example_now)) \<noteq> None"
  using approved_entry_timing [OF example_approved] by auto

text \<open>The gate raises exactly when the configuration is outside the hard limits; otherwise it
  approves, or blocks with at least one reason.\<close>

theorem gate_decides:
  "(case evaluate_order_gate as_float snapshot now config of
      Inl e \<Rightarrow> e = Gate_Unsafe_Config \<and> \<not> within_hard_limits config
    | Inr (Approved so) \<Rightarrow> within_hard_limits config
    | Inr (Blocked state reasons) \<Rightarrow>
        within_hard_limits config \<and> state \<noteq> Approved_State \<and> reasons \<noteq> [])"
  using evaluate_order_gate_cases [of config as_float snapshot now]
  by (cases "within_hard_limits config") (auto simp: evaluate_order_gate_def)

end
