(* ===== verification/Safety_Planner.thy ===== *)
theory Safety_Planner
  imports Paper_Risk
begin

text \<open>
  \<^verbatim>\<open>trading_agent/paper_safety_planner.py\<close>: the phase of the session (monitoring, entry
  cutoff, end-of-day flattening, kill switch) and the cancellations and closes it calls for.
\<close>

datatype safety_reason =
    Safety_Portfolio_Incomplete | Safety_Not_Current | Safety_Session_Mismatch
  | Safety_Account_Mismatch | Safety_Calendar_Closed
  | Duplicate_Cancel_Identity | Duplicate_Position_Symbol | Position_Not_Integral

datatype safety_decision = Plan safety_plan | Blocked_Plan "safety_reason list"

definition current_safety_snapshot_age :: int where "current_safety_snapshot_age = 5 * second_us"
definition entry_cutoff :: int where "entry_cutoff = 30 * minute_us"
definition eod_flatten_before_close :: int where "eod_flatten_before_close = 5 * minute_us"

definition receipts_are_current :: "pydt \<Rightarrow> pydt list \<Rightarrow> bool" where
  "receipts_are_current now receipts =
     (if \<not> is_aware now \<or> \<not> list_all is_aware receipts then False
      else list_all (\<lambda>value. 0 \<le> instant now - instant value
             \<and> instant now - instant value \<le> current_safety_snapshot_age) receipts)"

definition snapshot_reasons ::
    "paper_broker_state \<Rightarrow> paper_market_clock \<Rightarrow> 'r portfolio_snapshot \<Rightarrow> pydt \<Rightarrow> safety_reason list" where
  "snapshot_reasons state clock portfolio_snapshot now =
     (case portfolio_snapshot of
        Incomplete _ \<Rightarrow> [Safety_Portfolio_Incomplete]
      | Complete portfolio \<Rightarrow>
          let account = bs_account state;
              receipts = [ac_observed_at account, ck_observed_at clock, ck_market_timestamp clock,
                          pf_observed_at portfolio] @ map oco_observed_at (bs_protective_ocos state)
          in if \<not> receipts_are_current now receipts then [Safety_Not_Current]
             else
               let now_new_york = ny (instant now);
                   bounds = regular_session_bounds (wall_date now_new_york)
               in if (case bounds of None \<Rightarrow> True
                      | Some (opens, closes) \<Rightarrow>
                          \<not> ck_is_open clock
                          \<or> \<not> (opens \<le> now_new_york \<and> now_new_york < closes)
                          \<or> ny (instant (ck_next_close clock)) \<noteq> closes)
                  then [Safety_Session_Mismatch]
                  else if upper (pf_account_status portfolio) \<noteq> ''ACTIVE''
                          \<or> pf_trading_blocked portfolio
                          \<or> upper (ac_status account) \<noteq> upper (pf_account_status portfolio)
                          \<or> ac_trading_blocked account \<noteq> pf_trading_blocked portfolio
                          \<or> \<not> num_eq (ac_equity account) (pf_equity portfolio)
                          \<or> \<not> num_eq (ac_last_equity account) (pf_last_equity portfolio)
                  then [Safety_Account_Mismatch]
                  else [])"

definition position_reasons :: "paper_position list \<Rightarrow> safety_reason list" where
  "position_reasons positions =
     (if length positions \<noteq> length (remdups (map pos_symbol positions)) then [Duplicate_Position_Symbol]
      else if list_ex (\<lambda>position. pos_symbol position = []
                \<or> pos_symbol position \<noteq> upper (pos_symbol position)
                \<or> \<not> is_finite (pos_quantity position)
                \<or> rv (pos_quantity position) = 0
                \<or> \<not> is_integral \<bar>rv (pos_quantity position)\<bar>) positions
      then [Position_Not_Integral]
      else [])"

definition close_action :: "paper_position \<Rightarrow> safety_action" where
  "close_action position =
     (let side = (if Finite 0 < pos_quantity position then SELL else BUY)
      in Close_Position (pos_symbol position) side (num_abs (pos_quantity position)))"

definition entry_cancels :: "paper_broker_state \<Rightarrow> safety_action list" where
  "entry_cancels state =
     map (\<lambda>order. Cancel_Order (os_broker_order_id order) (os_symbol order) False)
       (sort_key os_broker_order_id (bs_open_orders state))"

definition protective_cancels :: "paper_broker_state \<Rightarrow> safety_action list" where
  "protective_cancels state =
     map (\<lambda>snapshot. Cancel_Order (leg_broker_order_id (oco_take_profit snapshot))
            (leg_symbol (oco_take_profit snapshot)) True)
       (sort_key (\<lambda>s. leg_broker_order_id (oco_take_profit s)) (bs_protective_ocos state))"

definition cancel_ids :: "safety_action list \<Rightarrow> string list" where
  "cancel_ids actions = map act_broker_order_id (filter is_Cancel_Order actions)"

definition actions_for_phase :: "safety_phase \<Rightarrow> paper_broker_state \<Rightarrow> safety_reason list + safety_action list" where
  "actions_for_phase phase state =
     (if phase = Monitoring then Inr []
      else if phase = Entry_Cutoff then Inr (entry_cancels state)
      else
        let positions = sort_key pos_symbol (bs_positions state)
        in if position_reasons positions \<noteq> [] then Inl (position_reasons positions)
           else
             let closes = map close_action positions;
                 actions = entry_cancels state @ protective_cancels state @ closes
             in if length (cancel_ids actions) \<noteq> length (remdups (cancel_ids actions))
                then Inl [Duplicate_Cancel_Identity]
                else Inr actions)"

definition open_position_risk :: "complete_portfolio \<Rightarrow> pynum" where
  "open_position_risk portfolio =
     num_sum (map ex_planned_risk (filter (\<lambda>e. ex_kind e \<noteq> Pending_Entry) (pf_exposures portfolio)))"

definition safety_phase_of :: "bool \<Rightarrow> pynum \<Rightarrow> pynum \<Rightarrow> paper_risk_config \<Rightarrow> int \<Rightarrow> int \<Rightarrow> safety_phase" where
  "safety_phase_of kill_switch_latched mark_to_market conservative config now_new_york session_close =
     (let loss_limit = num_neg (rc_daily_loss_limit_dollars config)
      in if kill_switch_latched \<or> mark_to_market \<le> loss_limit \<or> conservative \<le> loss_limit then Kill_Switch
         else if now_new_york \<ge> session_close - eod_flatten_before_close then Eod_Flatten
         else if now_new_york \<ge> session_close - entry_cutoff then Entry_Cutoff
         else Monitoring)"

definition plan_paper_safety_actions ::
    "paper_broker_state \<Rightarrow> paper_market_clock \<Rightarrow> 'r portfolio_snapshot \<Rightarrow> pydt \<Rightarrow> paper_risk_config \<Rightarrow> bool
      \<Rightarrow> risk_error + safety_decision" where
  "plan_paper_safety_actions broker_state market_clock portfolio_snapshot evaluated_at config kill_switch_latched =
     (if \<not> within_hard_limits config then Inl Unsafe_Paper_Risk_Config
      else if snapshot_reasons broker_state market_clock portfolio_snapshot evaluated_at \<noteq> []
      then Inr (Blocked_Plan (snapshot_reasons broker_state market_clock portfolio_snapshot evaluated_at))
      else case portfolio_snapshot of
        Incomplete _ \<Rightarrow> Inr (Blocked_Plan [Safety_Portfolio_Incomplete])
      | Complete portfolio \<Rightarrow>
          let mark_to_market = num_sub (pf_equity portfolio) (pf_last_equity portfolio);
              conservative = num_sub mark_to_market (open_position_risk portfolio);
              now_new_york = ny (instant evaluated_at)
          in case regular_session_bounds (wall_date now_new_york) of
               None \<Rightarrow> Inr (Blocked_Plan [Safety_Calendar_Closed])
             | Some (_, session_close) \<Rightarrow>
                 let phase = safety_phase_of kill_switch_latched mark_to_market conservative config
                               now_new_york session_close
                 in case actions_for_phase phase broker_state of
                      Inl reasons \<Rightarrow> Inr (Blocked_Plan reasons)
                    | Inr actions \<Rightarrow> Inr (Plan
                        \<lparr> pl_fingerprint = ac_fingerprint (bs_account broker_state),
                          pl_observed_at = evaluated_at,
                          pl_session_date = wall_date now_new_york,
                          pl_phase = phase,
                          pl_mark_to_market = mark_to_market,
                          pl_conservative = conservative,
                          pl_actions = actions \<rparr>))"

subsection \<open>The actions of a phase\<close>

lemma position_reasons_Nil [guards]:
  "position_reasons ps = [] \<Longrightarrow> distinct (map pos_symbol ps)
     \<and> (\<forall>p \<in> set ps. upper_symbol (pos_symbol p) \<and> is_finite (pos_quantity p)
          \<and> rv (pos_quantity p) \<noteq> 0 \<and> is_integral \<bar>rv (pos_quantity p)\<bar>)"
  unfolding position_reasons_def
  by (auto simp: list_ex_iff upper_symbol_def card_distinct length_remdups_card_conv split: if_splits)

lemma entry_cancels_set:
  "set (entry_cancels s) = (\<lambda>o'. Cancel_Order (os_broker_order_id o') (os_symbol o') False) ` set (bs_open_orders s)"
  by (simp add: entry_cancels_def)

lemma protective_cancels_set:
  "set (protective_cancels s) =
     (\<lambda>p. Cancel_Order (leg_broker_order_id (oco_take_profit p)) (leg_symbol (oco_take_profit p)) True)
       ` set (bs_protective_ocos s)"
  by (simp add: protective_cancels_def)

lemma actions_for_phase_Inr [guards]:
  assumes "actions_for_phase phase s = Inr actions"
  shows "(phase = Monitoring \<and> actions = [])
    \<or> (phase = Entry_Cutoff \<and> actions = entry_cancels s)
    \<or> (phase \<in> {Kill_Switch, Eod_Flatten}
        \<and> actions = entry_cancels s @ protective_cancels s @ map close_action (sort_key pos_symbol (bs_positions s))
        \<and> distinct (cancel_ids actions) \<and> position_reasons (sort_key pos_symbol (bs_positions s)) = [])"
  using assms unfolding actions_for_phase_def Let_def
  by (cases phase) (auto simp: card_distinct length_remdups_card_conv split: if_splits)

lemma plan_paper_safety_actions_PlanD [guards]:
  assumes "plan_paper_safety_actions s ck pf now config k = Inr (Plan pl)"
  obtains portfolio opens closes where
    "pf = Complete portfolio" "snapshot_reasons s ck pf now = []" "within_hard_limits config"
    "regular_session_bounds (wall_date (ny (instant now))) = Some (opens, closes)"
    "pl_mark_to_market pl = num_sub (pf_equity portfolio) (pf_last_equity portfolio)"
    "pl_conservative pl = num_sub (pl_mark_to_market pl) (open_position_risk portfolio)"
    "pl_phase pl = safety_phase_of k (pl_mark_to_market pl) (pl_conservative pl) config (ny (instant now)) closes"
    "actions_for_phase (pl_phase pl) s = Inr (pl_actions pl)"
    "pl_session_date pl = wall_date (ny (instant now))"
  using assms unfolding plan_paper_safety_actions_def Let_def
  by (auto split: if_splits portfolio_snapshot.splits option.splits prod.splits sum.splits)

lemma snapshot_reasons_Complete [guards]:
  assumes "snapshot_reasons s ck (Complete p) now = []"
  obtains opens closes where
    "regular_session_bounds (wall_date (ny (instant now))) = Some (opens, closes)"
    "opens \<le> ny (instant now)" "ny (instant now) < closes"
    "ac_equity (bs_account s) = pf_equity p" "ac_last_equity (bs_account s) = pf_last_equity p"
  using assms unfolding snapshot_reasons_def Let_def
  by (auto simp: num_eq_def split: if_splits option.splits prod.splits)

text \<open>A close sells a long and buys a short position by its whole size.\<close>

definition flat_after :: "safety_action \<Rightarrow> rat \<Rightarrow> bool" where
  "flat_after a held \<longleftrightarrow>
     (case a of Close_Position _ side quantity \<Rightarrow>
        0 < rv quantity \<and> held + (if side = BUY then rv quantity else - rv quantity) = 0
      | _ \<Rightarrow> False)"

lemma close_action_flat:
  assumes "is_finite (pos_quantity p)" "rv (pos_quantity p) \<noteq> 0"
  shows "flat_after (close_action p) (rv (pos_quantity p))" "act_symbol (close_action p) = pos_symbol p"
    "\<not> is_Cancel_Order (close_action p)"
  using assms by (cases "pos_quantity p"; simp add: flat_after_def close_action_def Let_def)+

lemma cancels_are_cancels:
  "\<forall>a \<in> set (entry_cancels s @ protective_cancels s). is_Cancel_Order a"
  by (auto simp: entry_cancels_set protective_cancels_set)

fun severity :: "safety_phase \<Rightarrow> nat" where
  "severity Monitoring = 0"
| "severity Entry_Cutoff = 1"
| "severity Eod_Flatten = 2"
| "severity Kill_Switch = 3"

lemma pynum_le_trans: "(x::pynum) \<le> y \<Longrightarrow> y \<le> z \<Longrightarrow> x \<le> z"
  by (cases x; cases y; cases z) (auto simp: less_eq_pynum_def num_eq_def)

lemma safety_phase_of_mono:
  assumes "latched \<longrightarrow> latched'" "m' \<le> m" "c' \<le> c" "t \<le> t'"
  shows "severity (safety_phase_of latched m c config t close) \<le> severity (safety_phase_of latched' m' c' config t' close)"
proof -
  have "m \<le> x \<Longrightarrow> m' \<le> x" "c \<le> x \<Longrightarrow> c' \<le> x" for x
    using pynum_le_trans assms(2,3) by blast+
  then show ?thesis using assms(1,4)
    by (auto simp: safety_phase_of_def Let_def entry_cutoff_def eod_flatten_before_close_def)
qed

subsection \<open>Properties of the planner\<close>

definition example_planner_now :: int where
  "example_planner_now = ny_utc (combine (ymd2ord 2026 7 6) (time_of 15 56))"

definition example_open_order :: paper_order_snapshot where
  "example_open_order = \<lparr> os_broker_order_id = ''b1'', os_client_order_id = ''i9'', os_symbol = ''AAA'',
     os_side = BUY, os_status = ''new'', os_quantity = Finite 5, os_filled_quantity = Finite 0,
     os_limit_price = Some (Finite 7), os_time_in_force = ''day'', os_extended_hours = False,
     os_filled_average_price = None, os_created_at = None, os_updated_at = None, os_submitted_at = None,
     os_filled_at = None, os_canceled_at = None, os_failed_at = None, os_replaced_at = None,
     os_replaced_by_order_id = None, os_replaces_order_id = None \<rparr>"

definition example_broker_state :: paper_broker_state where
  "example_broker_state = \<lparr> bs_account = \<lparr> ac_observed_at = Aware example_planner_now,
       ac_status = ''ACTIVE'', ac_trading_blocked = False, ac_equity = Finite 30000,
       ac_last_equity = Finite 30100, ac_buying_power = Finite 20000, ac_fingerprint = ''f'' \<rparr>,
     bs_open_orders = [example_open_order],
     bs_positions = [\<lparr> pos_symbol = ''XYZ'', pos_quantity = Finite 10, pos_market_value = Finite 2000 \<rparr>,
       \<lparr> pos_symbol = ''ABC'', pos_quantity = Finite (- 4), pos_market_value = Finite (- 80) \<rparr>],
     bs_protective_ocos = [] \<rparr>"

definition example_market_clock :: paper_market_clock where
  "example_market_clock = \<lparr> ck_observed_at = Aware example_planner_now,
     ck_market_timestamp = Aware example_planner_now, ck_is_open = True,
     ck_next_open = Aware example_planner_now,
     ck_next_close = Aware (ny_utc (combine (ymd2ord 2026 7 6) (time_of 16 0))) \<rparr>"

definition example_planner_portfolio :: "unit portfolio_snapshot" where
  "example_planner_portfolio = Complete \<lparr> pf_observed_at = Aware example_planner_now,
     pf_account_status = ''active'', pf_trading_blocked = False, pf_equity = Finite 30000,
     pf_last_equity = Finite 30100, pf_buying_power = Finite 20000, pf_exposures = [] \<rparr>"

definition example_safety_plan :: safety_plan where
  "example_safety_plan = \<lparr> pl_fingerprint = ''f'', pl_observed_at = Aware example_planner_now,
     pl_session_date = ymd2ord 2026 7 6, pl_phase = Eod_Flatten, pl_mark_to_market = Finite (- 100),
     pl_conservative = Finite (- 100),
     pl_actions = [Cancel_Order ''b1'' ''AAA'' False, Close_Position ''ABC'' BUY (Finite 4),
       Close_Position ''XYZ'' SELL (Finite 10)] \<rparr>"

lemma example_planned:
  "plan_paper_safety_actions example_broker_state example_market_clock example_planner_portfolio
     (Aware example_planner_now) default_paper_risk_config False = Inr (Plan example_safety_plan)"
  by code_simp

text \<open>C3. A flattening plan (end of day or kill switch) cancels every open order and every protective
  order, once each and before anything else, and closes every position with the opposite side and
  the whole held quantity, once per symbol; it does nothing else.\<close>

theorem flattening_plan_is_complete:
  assumes "plan_paper_safety_actions s clock pf now config latched = Inr (Plan pl)"
    and "pl_phase pl \<in> {Kill_Switch, Eod_Flatten}"
  shows "\<exists>cancels closes. pl_actions pl = cancels @ closes
    \<and> set cancels =
        (\<lambda>x. Cancel_Order (os_broker_order_id x) (os_symbol x) False) ` set (bs_open_orders s)
        \<union> (\<lambda>x. Cancel_Order (leg_broker_order_id (oco_take_profit x)) (leg_symbol (oco_take_profit x)) True)
            ` set (bs_protective_ocos s)
    \<and> distinct (map act_broker_order_id cancels)
    \<and> length closes = length (bs_positions s) \<and> distinct (map act_symbol closes)
    \<and> (\<forall>p \<in> set (bs_positions s). \<exists>a \<in> set closes. act_symbol a = pos_symbol p
          \<and> flat_after a (rv (pos_quantity p)))"
proof -
  define ps where "ps = sort_key pos_symbol (bs_positions s)"
  obtain portfolio opens closes' where "actions_for_phase (pl_phase pl) s = Inr (pl_actions pl)"
    using assms(1) by (rule plan_paper_safety_actions_PlanD)
  from actions_for_phase_Inr [OF this] assms(2) have a:
    "pl_actions pl = (entry_cancels s @ protective_cancels s) @ map close_action ps"
    "distinct (cancel_ids (pl_actions pl))" "position_reasons ps = []"
    unfolding ps_def by auto
  note ok = position_reasons_Nil [OF a(3)]
  have c: "\<forall>p \<in> set ps. flat_after (close_action p) (rv (pos_quantity p))
      \<and> act_symbol (close_action p) = pos_symbol p \<and> \<not> is_Cancel_Order (close_action p)"
    using ok close_action_flat by blast
  then have sym: "map act_symbol (map close_action ps) = map pos_symbol ps" by simp
  have "filter is_Cancel_Order (map close_action ps) = []"
    using c by (simp add: filter_empty_conv)
  moreover have "filter is_Cancel_Order (entry_cancels s @ protective_cancels s)
      = entry_cancels s @ protective_cancels s"
    by (rule filter_True) (rule cancels_are_cancels)
  ultimately have ids: "cancel_ids (pl_actions pl) = map act_broker_order_id (entry_cancels s @ protective_cancels s)"
    unfolding a(1) cancel_ids_def by simp
  have "\<forall>p \<in> set (bs_positions s). \<exists>a \<in> set (map close_action ps). act_symbol a = pos_symbol p
      \<and> flat_after a (rv (pos_quantity p))"
    using c unfolding ps_def by (metis image_eqI list.set_map sort_key_set)
  moreover have "length (map close_action ps) = length (bs_positions s)" by (simp add: ps_def)
  ultimately show ?thesis
    using a(1) a(2) [unfolded ids] ok sym
    by (intro exI [of _ "entry_cancels s @ protective_cancels s"] exI [of _ "map close_action ps"] conjI)
      (simp_all only: set_append entry_cancels_set protective_cancels_set)
qed

theorem flattening_plan_is_complete_witness:
  "\<exists>a \<in> set (pl_actions example_safety_plan). act_symbol a = ''ABC'' \<and> flat_after a (- 4)"
  using flattening_plan_is_complete [OF example_planned]
  by (fastforce simp: example_safety_plan_def example_broker_state_def)

text \<open>The kill switch is entered exactly when it was latched or a daily loss figure reaches the
  configured limit, so a day that has lost 300 dollars is always flattened; without it the last five
  minutes flatten, the last thirty minutes cancel entries, and earlier nothing is done.\<close>

theorem plan_phase:
  assumes "plan_paper_safety_actions s clock pf now config latched = Inr (Plan pl)" and "pf = Complete p"
  shows "\<exists>opens closes. regular_session_bounds (wall_date (ny (instant now))) = Some (opens, closes)
    \<and> opens \<le> ny (instant now) \<and> ny (instant now) < closes
    \<and> (pl_phase pl = Kill_Switch \<longleftrightarrow>
        latched \<or> num_sub (pf_equity p) (pf_last_equity p) \<le> num_neg (rc_daily_loss_limit_dollars config)
        \<or> pl_conservative pl \<le> num_neg (rc_daily_loss_limit_dollars config))
    \<and> (num_sub (pf_equity p) (pf_last_equity p) \<le> Finite (- 300) \<longrightarrow> pl_phase pl = Kill_Switch)
    \<and> (pl_phase pl = Eod_Flatten \<longrightarrow> closes - 5 * minute_us \<le> ny (instant now))
    \<and> (pl_phase pl = Entry_Cutoff \<longrightarrow> closes - 30 * minute_us \<le> ny (instant now)
         \<and> ny (instant now) < closes - 5 * minute_us)
    \<and> (pl_phase pl = Monitoring \<longrightarrow> ny (instant now) < closes - 30 * minute_us \<and> pl_actions pl = [])"
proof -
  obtain portfolio opens closes where d: "pf = Complete portfolio"
    "snapshot_reasons s clock pf now = []" "within_hard_limits config"
    "regular_session_bounds (wall_date (ny (instant now))) = Some (opens, closes)"
    "pl_mark_to_market pl = num_sub (pf_equity portfolio) (pf_last_equity portfolio)"
    "pl_phase pl = safety_phase_of latched (pl_mark_to_market pl) (pl_conservative pl) config (ny (instant now)) closes"
    "actions_for_phase (pl_phase pl) s = Inr (pl_actions pl)"
    using assms(1) by (rule plan_paper_safety_actions_PlanD) blast
  have "opens \<le> ny (instant now)" "ny (instant now) < closes"
    using snapshot_reasons_Complete [OF d(2) [unfolded assms(2)]] d(4) by auto
  moreover have "Finite (- 300) \<le> num_neg (rc_daily_loss_limit_dollars config)"
    using d(3) within_hard_limitsD [OF d(3)]
    by (cases "rc_daily_loss_limit_dollars config") (simp_all add: within_hard_limits_def)
  then have "m \<le> Finite (- 300) \<Longrightarrow> m \<le> num_neg (rc_daily_loss_limit_dollars config)" for m
    using pynum_le_trans by blast
  moreover have "pl_phase pl = Monitoring \<longrightarrow> pl_actions pl = []" using actions_for_phase_Inr [OF d(7)] by auto
  ultimately show ?thesis
    using d(1,4,5,6) assms(2) by (intro exI [of _ opens] exI [of _ closes])
      (auto simp: safety_phase_of_def Let_def entry_cutoff_def eod_flatten_before_close_def)
qed

theorem plan_phase_witness:
  "ymd2ord 2026 7 6 = wall_date (ny example_planner_now)
    \<and> regular_session_bounds (wall_date (ny example_planner_now)) \<noteq> None"
proof -
  have "ymd2ord 2026 7 6 = wall_date (ny example_planner_now)" by code_simp
  then show ?thesis using plan_phase [OF example_planned example_planner_portfolio_def] by auto
qed

text \<open>Within a session the plans never step down: later, with losses no smaller and the kill
  switch still latched, the phase is at least as severe.\<close>

theorem plan_phase_escalates:
  assumes "plan_paper_safety_actions s clock pf now config latched = Inr (Plan pl)"
    and "plan_paper_safety_actions s' clock' pf' now' config latched' = Inr (Plan pl')"
    and "pl_session_date pl' = pl_session_date pl" "ny (instant now) \<le> ny (instant now')"
    and "latched \<longrightarrow> latched'" "pl_mark_to_market pl' \<le> pl_mark_to_market pl"
    and "pl_conservative pl' \<le> pl_conservative pl"
  shows "severity (pl_phase pl) \<le> severity (pl_phase pl')"
proof -
  obtain closes where d: "\<exists>opens. regular_session_bounds (pl_session_date pl) = Some (opens, closes)"
    "pl_phase pl = safety_phase_of latched (pl_mark_to_market pl) (pl_conservative pl) config (ny (instant now)) closes"
    using assms(1) by (rule plan_paper_safety_actions_PlanD) auto
  obtain closes' where d': "\<exists>opens. regular_session_bounds (pl_session_date pl') = Some (opens, closes')"
    "pl_phase pl' = safety_phase_of latched' (pl_mark_to_market pl') (pl_conservative pl') config (ny (instant now')) closes'"
    using assms(2) by (rule plan_paper_safety_actions_PlanD) auto
  have "closes' = closes" using d(1) d'(1) assms(3) by auto
  then show ?thesis unfolding d(2) d'(2) using safety_phase_of_mono assms(4-7) by simp
qed

theorem plan_phase_escalates_witness:
  "severity (pl_phase example_safety_plan) \<le> 2"
  using plan_phase_escalates [OF example_planned example_planned]
  by (simp add: example_safety_plan_def)

end
