(* ===== verification/Broker_Projection.thy ===== *)
theory Broker_Projection
  imports Execution_Models "HOL-Library.Product_Lexorder" "HOL-Library.Multiset"
begin

text \<open>
  The state of one paper order as its evidence shows it: \<^verbatim>\<open>rest_recovery_projection.py\<close>
  (orders read back over REST), \<^verbatim>\<open>paper_account_activity_projection.py\<close> (account activities),
  \<^verbatim>\<open>broker_execution_projection.py\<close> (executions of the trade update stream) and
  \<^verbatim>\<open>broker_order_projection.py\<close> (their combination).  Every anomaly message is a constructor of
  \<open>anomaly\<close>; anomalies are ordered as their texts are, so that
  \<^theory_text>\<open>tuple(sorted(set(reasons)))\<close> is \<open>sorted_set\<close>.
\<close>

subsection \<open>Anomalies\<close>

datatype order_field = F_Client_Order_Id | F_Extended_Hours | F_Limit_Price | F_Quantity | F_Side | F_Symbol
  | F_Time_In_Force

datatype anomaly =
    Activity_Order_Id | Activity_Side | Activity_Symbol | Activity_Total_Differs_Rest
  | Activity_Running_Total | Activity_Leaves | Activity_Kind | Activity_Average_Price
  | Rest_Filled_Quantity | Rest_Partial_Quantity | Rest_Below_Stream | Rest_Average_Differs_Executions
  | Rest_Average_Invalid | Rest_Detail_Incomplete | Rest_Terminal_Changed | Rest_Fill_Decreased
  | Rest_Mismatch order_field
  | Rest_Several_Orders | Rest_Terminal_Quantity_Changed | Rest_Terminal_Price_Changed
  | Rest_Quantity_Range | Rest_No_Activity | Rest_No_Average | Stream_Gap_Recovered
  | Stream_Average_Differs_Activity | Legacy_Lifecycle | Legacy_Fill | Replacement | Several_Terminals
  | Several_Order_Ids | Fill_Quantity | Event_After_Terminal | Stream_Final_Gap | Stream_Gap
  | Stream_No_Execution_Id | Stream_No_Price | Stream_No_Quantity

definition anomaly_order :: "anomaly list" where
  "anomaly_order =
     [Activity_Order_Id, Activity_Side, Activity_Symbol, Activity_Total_Differs_Rest,
      Activity_Running_Total, Activity_Leaves, Activity_Kind, Activity_Average_Price,
      Rest_Filled_Quantity, Rest_Partial_Quantity, Rest_Below_Stream, Rest_Average_Differs_Executions,
      Rest_Average_Invalid, Rest_Detail_Incomplete, Rest_Terminal_Changed, Rest_Fill_Decreased,
      Rest_Mismatch F_Client_Order_Id, Rest_Mismatch F_Extended_Hours, Rest_Mismatch F_Limit_Price,
      Rest_Mismatch F_Quantity, Rest_Mismatch F_Side, Rest_Mismatch F_Symbol, Rest_Mismatch F_Time_In_Force,
      Rest_Several_Orders, Rest_Terminal_Quantity_Changed, Rest_Terminal_Price_Changed,
      Rest_Quantity_Range, Rest_No_Activity, Rest_No_Average, Stream_Gap_Recovered,
      Stream_Average_Differs_Activity, Legacy_Lifecycle, Legacy_Fill, Replacement, Several_Terminals,
      Several_Order_Ids, Fill_Quantity, Event_After_Terminal, Stream_Final_Gap, Stream_Gap,
      Stream_No_Execution_Id, Stream_No_Price, Stream_No_Quantity]"

fun list_rank :: "'a \<Rightarrow> 'a list \<Rightarrow> nat" where
  "list_rank x [] = 0"
| "list_rank x (y # ys) = (if x = y then 0 else Suc (list_rank x ys))"

lemma nth_list_rank: "x \<in> set xs \<Longrightarrow> xs ! list_rank x xs = x"
  by (induction xs) auto

lemma in_anomaly_order: "x \<in> set anomaly_order"
proof (cases x)
  case (Rest_Mismatch f)
  then show ?thesis by (cases f) (simp_all add: anomaly_order_def)
qed (simp_all add: anomaly_order_def)

instantiation anomaly :: linorder
begin

definition less_eq_anomaly :: "anomaly \<Rightarrow> anomaly \<Rightarrow> bool" where
  "less_eq_anomaly x y \<longleftrightarrow> list_rank x anomaly_order \<le> list_rank y anomaly_order"

definition less_anomaly :: "anomaly \<Rightarrow> anomaly \<Rightarrow> bool" where
  "less_anomaly x y \<longleftrightarrow> list_rank x anomaly_order < list_rank y anomaly_order"

instance
proof
  fix x y z :: anomaly
  show "x < y \<longleftrightarrow> x \<le> y \<and> \<not> y \<le> x" "x \<le> x" "x \<le> y \<Longrightarrow> y \<le> z \<Longrightarrow> x \<le> z" "x \<le> y \<or> y \<le> x"
    by (auto simp: less_eq_anomaly_def less_anomaly_def)
  show "x \<le> y \<Longrightarrow> y \<le> x \<Longrightarrow> x = y"
    using nth_list_rank [OF in_anomaly_order] by (metis less_eq_anomaly_def order_antisym)
qed

end

subsection \<open>Orders read back over REST\<close>

definition rest_terminal_statuses :: "string list" where
  "rest_terminal_statuses = [''filled'', ''canceled'', ''expired'', ''rejected'']"

definition recovery_order_id :: "stored_recovery_order \<Rightarrow> string" where
  "recovery_order_id r = os_broker_order_id (ro_order r)"

definition recovery_step_reasons :: "paper_order_snapshot \<Rightarrow> paper_order_snapshot \<Rightarrow> anomaly list" where
  "recovery_step_reasons prior order =
     (if os_filled_quantity order < os_filled_quantity prior then [Rest_Fill_Decreased] else [])
     @ (if os_status prior \<in> set rest_terminal_statuses \<and> os_status order \<noteq> os_status prior
        then [Rest_Terminal_Changed] else [])
     @ (if os_status prior \<in> set rest_terminal_statuses
           \<and> \<not> num_eq (os_filled_quantity order) (os_filled_quantity prior)
        then [Rest_Terminal_Quantity_Changed] else [])
     @ (if os_status prior \<in> set rest_terminal_statuses
           \<and> \<not> opt_num_eq (os_filled_average_price order) (os_filled_average_price prior)
        then [Rest_Terminal_Price_Changed] else [])"

fun recovery_walk ::
    "stored_recovery_order list \<Rightarrow> stored_recovery_order list \<Rightarrow> anomaly list
      \<Rightarrow> stored_recovery_order list \<times> anomaly list" where
  "recovery_walk [] latest reasons = (latest, reasons)"
| "recovery_walk (r # rs) latest reasons =
     (let new_reasons = (case find (\<lambda>p. recovery_order_id p = recovery_order_id r) latest of
            None \<Rightarrow> [] | Some prior \<Rightarrow> recovery_step_reasons (ro_order prior) (ro_order r))
      in recovery_walk rs (dict_put recovery_order_id r latest) (reasons @ new_reasons))"

definition latest_recovery_order ::
    "stored_recovery_order list \<Rightarrow> stored_recovery_order option \<times> anomaly list" where
  "latest_recovery_order recoveries =
     (let (latest, reasons) = recovery_walk (sort_key ro_recovery_id recoveries) [] []
      in case latest of
           [] \<Rightarrow> (None, reasons)
         | r # rs \<Rightarrow>
             (Some (foldl (\<lambda>best x. if ro_recovery_id x > ro_recovery_id best then x else best) r rs),
              reasons @ (if length latest > 1 then [Rest_Several_Orders] else [])))"

definition recovery_order_mismatch_reasons :: "stored_intent \<Rightarrow> paper_order_snapshot \<Rightarrow> anomaly list" where
  "recovery_order_mismatch_reasons intent order =
     map Rest_Mismatch
       ((if os_client_order_id order \<noteq> si_intent_id intent then [F_Client_Order_Id] else [])
        @ (if os_symbol order \<noteq> si_symbol intent then [F_Symbol] else [])
        @ (if os_side order \<noteq> si_side intent then [F_Side] else [])
        @ (if \<not> num_eq (os_quantity order) (Finite (of_int (si_quantity intent))) then [F_Quantity] else [])
        @ (if \<not> opt_num_eq (os_limit_price order) (Some (si_entry_limit intent)) then [F_Limit_Price] else [])
        @ (if os_time_in_force order \<noteq> ''day'' then [F_Time_In_Force] else [])
        @ (if os_extended_hours order then [F_Extended_Hours] else []))"

definition recovery_order_integrity_reasons :: "paper_order_snapshot \<Rightarrow> anomaly list" where
  "recovery_order_integrity_reasons order =
     (let quantity = os_quantity order; filled = os_filled_quantity order in
      (if \<not> is_finite quantity \<or> quantity \<le> Finite 0 \<or> \<not> is_finite filled \<or> filled < Finite 0 \<or> quantity < filled
       then [Rest_Quantity_Range] else [])
      @ (if os_status order = ''filled'' \<and> \<not> num_eq filled quantity then [Rest_Filled_Quantity] else [])
      @ (if os_status order = ''partially_filled'' \<and> \<not> (Finite 0 < filled \<and> filled < quantity)
         then [Rest_Partial_Quantity] else [])
      @ (if Finite 0 < filled
            \<and> (case os_filled_average_price order of None \<Rightarrow> True
               | Some price \<Rightarrow> \<not> is_finite price \<or> price \<le> Finite 0)
         then [Rest_Average_Invalid] else []))"

definition recovery_has_replacement :: "stored_recovery_order list \<Rightarrow> bool" where
  "recovery_has_replacement recoveries =
     list_ex (\<lambda>r. os_replaced_by_order_id (ro_order r) \<noteq> None
        \<or> os_replaces_order_id (ro_order r) \<noteq> None
        \<or> os_status (ro_order r) = ''replaced'') recoveries"

subsection \<open>Account activities\<close>

definition average_price_tolerance :: pynum where
  "average_price_tolerance = Finite (1 / 1000000)"

record activity_evidence =
  ae_cumulative_quantity :: pynum
  ae_average_price :: "pynum option"
  ae_complete :: bool
  ae_reasons :: "anomaly list"

fun activity_walk ::
    "paper_order_snapshot \<Rightarrow> paper_trade_activity list \<Rightarrow> pynum \<Rightarrow> pynum \<Rightarrow> anomaly list
      \<Rightarrow> pynum \<times> pynum \<times> anomaly list" where
  "activity_walk order [] cumulative notional reasons = (cumulative, notional, reasons)"
| "activity_walk order (a # as) cumulative notional reasons =
     (let cumulative = num_add cumulative (ta_quantity a);
          notional = num_add notional (num_mul (ta_quantity a) (ta_price a));
          expected_type = (if num_eq (ta_leaves_quantity a) (Finite 0) then Activity_Fill else Activity_Partial_Fill)
      in activity_walk order as cumulative notional (reasons
        @ (if ta_broker_order_id a \<noteq> os_broker_order_id order then [Activity_Order_Id] else [])
        @ (if ta_symbol a \<noteq> os_symbol order then [Activity_Symbol] else [])
        @ (if ta_side a \<noteq> os_side order then [Activity_Side] else [])
        @ (if \<not> num_eq (ta_cumulative_quantity a) cumulative then [Activity_Running_Total] else [])
        @ (if \<not> num_eq (ta_leaves_quantity a) (num_sub (os_quantity order) cumulative) then [Activity_Leaves] else [])
        @ (if ta_event_type a \<noteq> expected_type then [Activity_Kind] else [])))"

definition sorted_activities :: "paper_trade_activity list \<Rightarrow> paper_trade_activity list" where
  "sorted_activities = sort_key (\<lambda>a. (instant (ta_transaction_time a), ta_activity_id a))"

definition project_paper_activity_execution ::
    "paper_order_snapshot \<Rightarrow> paper_trade_activity list \<Rightarrow> activity_evidence" where
  "project_paper_activity_execution order activities =
     (let ordered = sorted_activities activities;
          (cumulative, notional, walk_reasons) = activity_walk order ordered (Finite 0) (Finite 0) [];
          average = (if num_eq cumulative (Finite 0) then None else Some (num_div notional cumulative));
          reasons = walk_reasons
            @ (if \<not> num_eq cumulative (os_filled_quantity order) then [Activity_Total_Differs_Rest] else [])
            @ (if Finite 0 < os_filled_quantity order \<and> ordered = [] then [Rest_No_Activity] else [])
            @ (case (average, os_filled_average_price order) of
                 (Some a, Some b) \<Rightarrow>
                   if average_price_tolerance < num_abs (num_sub a b) then [Activity_Average_Price] else []
               | _ \<Rightarrow> [])
            @ (if Finite 0 < os_filled_quantity order \<and> os_filled_average_price order = None
               then [Rest_No_Average] else [])
      in \<lparr> ae_cumulative_quantity = cumulative, ae_average_price = average,
           ae_complete = (reasons = []), ae_reasons = sorted_set reasons \<rparr>)"

subsection \<open>Executions of the stream\<close>

record broker_order_evidence =
  bo_broker_events :: "stored_broker_event list"
  bo_trade_updates :: "stored_trade_update list"
  bo_recovery_orders :: "stored_recovery_order list"
  bo_account_activities :: "stored_account_activity list"

datatype projection_error = Stored_Execution_Timestamp

definition execution_event_types :: "broker_event_type list" where
  "execution_event_types = [EV_Partial_Fill, EV_Fill]"

record broker_execution_projection =
  bx_ordered_updates :: "stored_trade_update list"
  bx_cumulative_quantity :: pynum
  bx_average_price :: "pynum option"
  bx_detail_complete :: bool
  bx_complete_fill :: bool
  bx_reasons :: "anomaly list"
  bx_warnings :: "anomaly list"

definition sorted_updates :: "stored_trade_update list \<Rightarrow> stored_trade_update list" where
  "sorted_updates = sort_key (\<lambda>e. (instant (tu_occurred_at e), tu_event_id e))"

fun execution_walk ::
    "stored_trade_update list \<Rightarrow> pynum \<Rightarrow> pynum \<Rightarrow> anomaly list \<Rightarrow> pynum \<times> pynum \<times> anomaly list" where
  "execution_walk [] quantity notional reasons = (quantity, notional, reasons)"
| "execution_walk (e # es) quantity notional reasons =
     (let reasons = reasons @ (if tu_execution_id e = None then [Stream_No_Execution_Id] else [])
      in case tu_execution_quantity e of
           None \<Rightarrow> execution_walk es quantity notional (reasons @ [Stream_No_Quantity])
         | Some q \<Rightarrow>
             (let quantity = num_add quantity q;
                  (notional, price_reasons) = (case tu_execution_price e of
                      None \<Rightarrow> (notional, [Stream_No_Price])
                    | Some p \<Rightarrow> (num_add notional (num_mul q p), []))
              in execution_walk es quantity notional (reasons @ price_reasons
                   @ (if \<not> num_eq (tu_cumulative_filled_quantity e) quantity then [Stream_Gap] else []))))"

definition stream_cumulative :: "stored_trade_update list \<Rightarrow> pynum" where
  "stream_cumulative updates =
     (case map tu_cumulative_filled_quantity updates of [] \<Rightarrow> Finite 0 | q # qs \<Rightarrow> foldl num_max q qs)"

text \<open>\<^theory_text>\<open>{key(x): x for x in xs}.values()\<close>: first place, last value.\<close>

definition tolerable :: "pynum option \<Rightarrow> pynum option \<Rightarrow> bool" where
  "tolerable x y =
     (case (x, y) of
        (Some a, Some b) \<Rightarrow> \<not> average_price_tolerance < num_abs (num_sub a b)
      | _ \<Rightarrow> True)"

text \<open>The stream's figures corrected by the latest recovered order and its complete activities.\<close>

definition recovered_execution ::
    "paper_order_snapshot \<Rightarrow> activity_evidence option \<Rightarrow> pynum \<Rightarrow> pynum \<Rightarrow> pynum option \<Rightarrow> bool
      \<Rightarrow> pynum \<times> pynum option \<times> bool \<times> anomaly list \<times> anomaly list" where
  "recovered_execution recovered complete_activity stream_quantity stream_total stream_average stream_complete =
     (let filled = os_filled_quantity recovered;
          below = (if filled < stream_total then [Rest_Below_Stream] else []);
          (cumulative, average, detail_complete, differs, warnings) = (case complete_activity of
              Some a \<Rightarrow>
                (let agrees = tolerable stream_average (ae_average_price a)
                 in (ae_cumulative_quantity a, ae_average_price a, agrees,
                     if agrees then [] else [Stream_Average_Differs_Activity],
                     if \<not> stream_complete \<or> \<not> num_eq stream_total (ae_cumulative_quantity a)
                     then [Stream_Gap_Recovered] else []))
            | None \<Rightarrow>
                if stream_total < filled
                then (filled, stream_average, False, [], [Rest_Detail_Incomplete])
                else (stream_total, stream_average, stream_complete, [], []));
          rest_differs = (Finite 0 < filled \<and> num_eq filled stream_quantity \<and> stream_complete
            \<and> \<not> tolerable (os_filled_average_price recovered) stream_average)
      in (cumulative, average, detail_complete \<and> \<not> rest_differs,
          below @ differs @ (if rest_differs then [Rest_Average_Differs_Executions] else []),
          warnings))"

definition project_broker_execution ::
    "stored_intent \<Rightarrow> broker_order_evidence \<Rightarrow> stored_recovery_order option
      \<Rightarrow> projection_error + broker_execution_projection" where
  "project_broker_execution intent evidence latest_recovery =
     (if \<not> list_all (\<lambda>e. is_aware (tu_occurred_at e)) (bo_trade_updates evidence)
      then Inl Stored_Execution_Timestamp
      else
        let updates = bo_trade_updates evidence;
            ordered = sorted_updates updates;
            executions = filter (\<lambda>e. tu_event_type e \<in> set execution_event_types) ordered;
            (stream_quantity, stream_notional, walk_reasons) = execution_walk executions (Finite 0) (Finite 0) [];
            stream_total = stream_cumulative updates;
            stream_reasons = walk_reasons
              @ (if Finite 0 < stream_total \<and> \<not> num_eq stream_quantity stream_total then [Stream_Final_Gap] else []);
            stream_complete = (stream_reasons = []);
            stream_average = (if Finite 0 < stream_quantity \<and> stream_complete
              then Some (num_div stream_notional stream_quantity) else None);
            activities = dict_values ta_activity_id (map aa_activity (bo_account_activities evidence));
            activity_projection = (case latest_recovery of
                None \<Rightarrow> None
              | Some r \<Rightarrow> if activities = [] then None
                          else Some (project_paper_activity_execution (ro_order r) activities));
            activity_reasons = (case activity_projection of
                None \<Rightarrow> [] | Some a \<Rightarrow> if ae_complete a then [] else ae_reasons a);
            complete_activity = (case activity_projection of
                None \<Rightarrow> None | Some a \<Rightarrow> if ae_complete a then Some a else None);
            (cumulative, average, detail_complete, recovery_reasons, warnings) = (case latest_recovery of
                None \<Rightarrow> (stream_total, stream_average, stream_complete, [], [])
              | Some r \<Rightarrow> recovered_execution (ro_order r) complete_activity stream_quantity stream_total
                  stream_average stream_complete);
            unexplained = (stream_reasons \<noteq> [] \<and> complete_activity = None);
            intent_quantity = Finite (of_int (si_quantity intent));
            complete_fill =
              (list_ex (\<lambda>e. tu_event_type e = EV_Fill \<and> num_eq (tu_cumulative_filled_quantity e) intent_quantity) updates
               \<or> (case latest_recovery of None \<Rightarrow> False
                  | Some r \<Rightarrow> os_status (ro_order r) = ''filled''
                      \<and> num_eq (os_quantity (ro_order r)) intent_quantity
                      \<and> num_eq (os_filled_quantity (ro_order r)) intent_quantity));
            fill_reasons = (if list_ex (\<lambda>e. tu_event_type e = EV_Fill) updates \<and> \<not> complete_fill
              then [Fill_Quantity] else [])
        in Inr
          \<lparr> bx_ordered_updates = ordered,
            bx_cumulative_quantity = cumulative,
            bx_average_price = average,
            bx_detail_complete = (detail_complete \<and> \<not> unexplained),
            bx_complete_fill = complete_fill,
            bx_reasons = sorted_set (activity_reasons @ recovery_reasons
              @ (if unexplained then stream_reasons else []) @ fill_reasons),
            bx_warnings = sorted_set warnings \<rparr>)"

subsection \<open>The state of an order\<close>

definition terminal_event_types :: "broker_event_type list" where
  "terminal_event_types = [EV_Canceled, EV_Expired, EV_Fill, EV_Rejected]"

definition rest_terminal_status_to_event :: "string \<Rightarrow> broker_event_type option" where
  "rest_terminal_status_to_event status =
     map_of [(''filled'', EV_Fill), (''canceled'', EV_Canceled), (''expired'', EV_Expired), (''rejected'', EV_Rejected)]
       status"

definition invalid_after_terminal :: "broker_event_type list" where
  "invalid_after_terminal =
     [EV_New, EV_Accepted, EV_Pending_New, EV_Stopped, EV_Partial_Fill, EV_Pending_Cancel, EV_Pending_Replace]"

record broker_order_state =
  bl_intent_id :: string
  bl_broker_order_ids :: "string list"
  bl_terminal_event_types :: "broker_event_type list"
  bl_cumulative_filled_quantity :: pynum
  bl_complete_fill :: bool
  bl_terminal :: bool
  bl_has_fill_evidence :: bool
  bl_anomaly_reasons :: "anomaly list"
  bl_execution_detail_complete :: bool
  bl_warning_reasons :: "anomaly list"
  bl_execution_average_price :: "pynum option"

definition terminal_order_anomalies :: "stored_trade_update list \<Rightarrow> anomaly list" where
  "terminal_order_anomalies updates =
     (case map (\<lambda>e. instant (tu_occurred_at e))
             (filter (\<lambda>e. tu_event_type e \<in> set terminal_event_types) updates) of
        [] \<Rightarrow> []
      | t # ts \<Rightarrow>
          if list_ex (\<lambda>e. tu_event_type e \<in> set invalid_after_terminal
               \<and> foldl min t ts < instant (tu_occurred_at e)) updates
          then [Event_After_Terminal] else [])"

text \<open>The terminal types present, in the order of their texts.\<close>

definition terminal_types_of :: "broker_event_type set \<Rightarrow> broker_event_type list" where
  "terminal_types_of present = filter (\<lambda>t. t \<in> present) terminal_event_types"

definition project_broker_order_state ::
    "stored_intent \<Rightarrow> broker_order_evidence \<Rightarrow> projection_error + broker_order_state" where
  "project_broker_order_state intent evidence =
     (let (latest_recovery, recovery_reasons) = latest_recovery_order (bo_recovery_orders evidence)
      in case project_broker_execution intent evidence latest_recovery of
           Inl e \<Rightarrow> Inl e
         | Inr execution \<Rightarrow>
             (let broker_events = bo_broker_events evidence;
                  updates = bo_trade_updates evidence;
                  recoveries = bo_recovery_orders evidence;
                  rest_reasons = (case latest_recovery of None \<Rightarrow> []
                    | Some r \<Rightarrow> recovery_order_mismatch_reasons intent (ro_order r)
                               @ recovery_order_integrity_reasons (ro_order r));
                  legacy_fill = list_ex (\<lambda>e. be_event_type e \<in> {EV_Partial_Fill, EV_Fill}) broker_events;
                  replacement = (list_ex (\<lambda>e. tu_event_type e = EV_Replaced
                        \<or> tu_replaced_by_order_id e \<noteq> None \<or> tu_replaces_order_id e \<noteq> None) updates
                      \<or> recovery_has_replacement recoveries);
                  rest_terminal = (case latest_recovery of None \<Rightarrow> None
                    | Some r \<Rightarrow> rest_terminal_status_to_event (os_status (ro_order r)));
                  terminal_types = terminal_types_of (set (map be_event_type broker_events)
                    \<union> set (map tu_event_type updates)
                    \<union> (case rest_terminal of None \<Rightarrow> {} | Some t \<Rightarrow> {t}));
                  broker_order_ids = sorted_set (map be_broker_order_id broker_events
                    @ map tu_broker_order_id updates @ map recovery_order_id recoveries);
                  reasons = recovery_reasons @ bx_reasons execution @ rest_reasons
                    @ (if legacy_fill then [Legacy_Fill] else [])
                    @ (if list_ex (\<lambda>e. be_event_type e \<noteq> EV_Submitted) broker_events then [Legacy_Lifecycle] else [])
                    @ (if replacement then [Replacement] else [])
                    @ (if length terminal_types > 1 then [Several_Terminals] else [])
                    @ (if length broker_order_ids > 1 \<and> \<not> replacement then [Several_Order_Ids] else [])
                    @ terminal_order_anomalies (bx_ordered_updates execution)
              in Inr
                \<lparr> bl_intent_id = si_intent_id intent,
                  bl_broker_order_ids = broker_order_ids,
                  bl_terminal_event_types = terminal_types,
                  bl_cumulative_filled_quantity = bx_cumulative_quantity execution,
                  bl_complete_fill = bx_complete_fill execution,
                  bl_terminal = (list_ex (\<lambda>e. tu_event_type e \<in> set terminal_event_types) updates
                                 \<or> rest_terminal \<noteq> None),
                  bl_has_fill_evidence = (Finite 0 < bx_cumulative_quantity execution \<or> legacy_fill),
                  bl_anomaly_reasons = sorted_set reasons,
                  bl_execution_detail_complete = bx_detail_complete execution,
                  bl_warning_reasons = bx_warnings execution,
                  bl_execution_average_price = bx_average_price execution \<rparr>))"

subsection \<open>Evidence in any order\<close>

lemma sort_key_perm:
  assumes "mset xs = mset ys" "inj_on f (set xs)"
  shows "sort_key f xs = sort_key f ys"
proof (rule sort_key_inj_key_eq)
  show "mset xs = mset (sort_key f ys)" "inj_on f (set xs)" "sorted (map f (sort_key f ys))"
    using assms by simp_all
qed

lemma foldl_num_max_finite: "foldl num_max (Finite q) (map Finite qs) = Finite (foldl max q qs)"
  by (induction qs arbitrary: q) (simp_all add: num_max_def max_def)

lemma foldl_max_fold: "foldl max (x :: rat) qs = fold max qs x"
  by (induction qs arbitrary: x) (simp_all add: max.commute)

lemma stream_cumulative_perm:
  assumes "mset xs = mset ys" "\<forall>e \<in> set xs. is_finite (tu_cumulative_filled_quantity e)"
  shows "stream_cumulative xs = stream_cumulative ys"
proof -
  have eq: "stream_cumulative zs = (if zs = [] then Finite 0
      else Finite (Max (set (map (rv \<circ> tu_cumulative_filled_quantity) zs))))"
    if "\<forall>e \<in> set zs. is_finite (tu_cumulative_filled_quantity e)" for zs
  proof (cases zs)
    case (Cons e es)
    define qs where "qs = map (rv \<circ> tu_cumulative_filled_quantity) es"
    have "map tu_cumulative_filled_quantity es = map Finite qs"
      "tu_cumulative_filled_quantity e = Finite (rv (tu_cumulative_filled_quantity e))"
      using that Cons is_finite_iff by (auto simp: qs_def)
    then have "stream_cumulative zs = foldl num_max (Finite (rv (tu_cumulative_filled_quantity e))) (map Finite qs)"
      by (simp add: stream_cumulative_def Cons)
    also have "\<dots> = Finite (fold max qs (rv (tu_cumulative_filled_quantity e)))"
      by (simp add: foldl_num_max_finite foldl_max_fold)
    also have "\<dots> = Finite (Max (set (rv (tu_cumulative_filled_quantity e) # qs)))"
      by (simp only: Max.set_eq_fold)
    finally show ?thesis by (simp add: Cons qs_def)
  qed (simp add: stream_cumulative_def)
  show ?thesis using eq [of xs] eq [of ys] assms mset_eq_setD [OF assms(1)] by auto
qed

lemma list_ex_set: "set xs = set ys \<Longrightarrow> list_ex P xs = list_ex P ys"
  by (auto simp: list_ex_iff)

lemma list_all_set: "set xs = set ys \<Longrightarrow> list_all P xs = list_all P ys"
  by (auto simp: list_all_iff)

definition same_evidence :: "broker_order_evidence \<Rightarrow> broker_order_evidence \<Rightarrow> bool" where
  "same_evidence e e' \<longleftrightarrow>
     mset (bo_broker_events e) = mset (bo_broker_events e')
     \<and> mset (bo_trade_updates e) = mset (bo_trade_updates e')
     \<and> mset (bo_recovery_orders e) = mset (bo_recovery_orders e')
     \<and> mset (bo_account_activities e) = mset (bo_account_activities e')"

text \<open>What the ledger's primary keys and its writers guarantee of stored evidence.\<close>

definition stored_evidence :: "broker_order_evidence \<Rightarrow> bool" where
  "stored_evidence e \<longleftrightarrow>
     distinct (map tu_event_id (bo_trade_updates e))
     \<and> distinct (map ro_recovery_id (bo_recovery_orders e))
     \<and> distinct (map (ta_activity_id \<circ> aa_activity) (bo_account_activities e))
     \<and> list_all (\<lambda>u. is_aware (tu_occurred_at u) \<and> is_finite (tu_cumulative_filled_quantity u)) (bo_trade_updates e)"

lemma activity_execution_perm:
  assumes "mset xs = mset ys" "distinct (map ta_activity_id xs)"
  shows "project_paper_activity_execution order xs = project_paper_activity_execution order ys"
proof -
  have "inj_on (\<lambda>a. (instant (ta_transaction_time a), ta_activity_id a)) (set xs)"
    using assms(2) by (auto simp: distinct_map inj_on_def)
  then have "sorted_activities xs = sorted_activities ys"
    unfolding sorted_activities_def by (rule sort_key_perm [OF assms(1)])
  then show ?thesis by (simp add: project_paper_activity_execution_def)
qed

lemma broker_execution_perm:
  assumes "same_evidence e e'" "stored_evidence e" "stored_evidence e'"
  shows "project_broker_execution intent e r = project_broker_execution intent e' r"
proof -
  note same = assms(1) [unfolded same_evidence_def] and st = assms(2) [unfolded stored_evidence_def]
    and st' = assms(3) [unfolded stored_evidence_def]
  have sets: "set (bo_trade_updates e) = set (bo_trade_updates e')" using same by (metis mset_eq_setD)
  have "inj_on (\<lambda>u. (instant (tu_occurred_at u), tu_event_id u)) (set (bo_trade_updates e))"
    using st by (auto simp: distinct_map inj_on_def)
  then have sorted_: "sorted_updates (bo_trade_updates e) = sorted_updates (bo_trade_updates e')"
    unfolding sorted_updates_def using same sort_key_perm by blast
  have total: "stream_cumulative (bo_trade_updates e) = stream_cumulative (bo_trade_updates e')"
    using same st by (intro stream_cumulative_perm) (auto simp: list_all_iff)
  define xs ys where "xs = map aa_activity (bo_account_activities e)" and "ys = map aa_activity (bo_account_activities e')"
  have d: "distinct (map ta_activity_id xs)" "distinct (map ta_activity_id ys)" and m: "mset xs = mset ys"
    using st st' same by (simp_all add: xs_def ys_def)
  have acts: "dict_values ta_activity_id xs = xs" "dict_values ta_activity_id ys = ys"
    using d dict_values_distinct by blast+
  have emp: "xs = [] \<longleftrightarrow> ys = []" using m by (metis mset_zero_iff)
  have proj: "project_paper_activity_execution order xs = project_paper_activity_execution order ys" for order
    by (rule activity_execution_perm [OF m d(1)])
  show ?thesis
    unfolding project_broker_execution_def Let_def xs_def [symmetric] ys_def [symmetric] acts sorted_ total emp proj
      list_all_set [OF sets] list_ex_set [OF sets] ..
qed

lemma latest_recovery_perm:
  assumes "mset xs = mset ys" "distinct (map ro_recovery_id xs)"
  shows "latest_recovery_order xs = latest_recovery_order ys"
  using sort_key_perm [OF assms(1), of ro_recovery_id] assms(2)
  by (simp add: latest_recovery_order_def distinct_map)

subsection \<open>Projections without anomalies\<close>

lemma activity_complete_total:
  "ae_complete (project_paper_activity_execution order xs) \<Longrightarrow>
     ae_cumulative_quantity (project_paper_activity_execution order xs) = os_filled_quantity order"
  unfolding project_paper_activity_execution_def Let_def
  by (auto simp: num_eq_def split: prod.splits if_splits)

lemma finite_eq: "is_finite x \<Longrightarrow> is_finite y \<Longrightarrow> \<not> x < y \<Longrightarrow> \<not> y < x \<Longrightarrow> x = (y :: pynum)"
  by (cases x; cases y) auto

lemma recovered_execution_clean:
  assumes "recovered_execution order activity quantity running average whole = (c, a, True, [], w)"
    and "\<forall>x. activity = Some x \<longrightarrow> ae_cumulative_quantity x = os_filled_quantity order"
    and "is_finite running" "is_finite (os_filled_quantity order)"
  shows "c = os_filled_quantity order"
  using assms finite_eq [OF assms(3,4)] unfolding recovered_execution_def Let_def
  by (cases activity) (simp_all split: if_splits)

lemma execution_clean:
  assumes "project_broker_execution intent e (Some r) = Inr x" "bx_reasons x = []" "bx_detail_complete x"
    and fin: "is_finite (stream_cumulative (bo_trade_updates e))" "is_finite (os_filled_quantity (ro_order r))"
  shows "bx_cumulative_quantity x = os_filled_quantity (ro_order r)"
proof -
  define acts where "acts = dict_values ta_activity_id (map aa_activity (bo_account_activities e))"
  define proj where "proj = (if acts = [] then None else Some (project_paper_activity_execution (ro_order r) acts))"
  define act where "act = (case proj of None \<Rightarrow> None | Some a \<Rightarrow> if ae_complete a then Some a else None)"
  define executions where "executions = filter (\<lambda>e. tu_event_type e \<in> set execution_event_types)
    (sorted_updates (bo_trade_updates e))"
  obtain quantity notional walk where w: "execution_walk executions (Finite 0) (Finite 0) [] = (quantity, notional, walk)"
    by (cases "execution_walk executions (Finite 0) (Finite 0) []")
  define running where "running = stream_cumulative (bo_trade_updates e)"
  define gaps where "gaps = walk
    @ (if Finite 0 < running \<and> \<not> num_eq quantity running then [Stream_Final_Gap] else [])"
  define average where "average = (if Finite 0 < quantity \<and> gaps = [] then Some (num_div notional quantity) else None)"
  obtain c a d rr ws where re: "recovered_execution (ro_order r) act quantity running average (gaps = []) = (c, a, d, rr, ws)"
    by (metis prod.exhaust)
  have "bx_cumulative_quantity x = c" "rr = []" "d"
    using assms(1-3) unfolding project_broker_execution_def executions_def [symmetric] running_def [symmetric]
      acts_def [symmetric] Let_def w prod.case gaps_def [symmetric] average_def [symmetric] option.case
      proj_def [symmetric] act_def [symmetric] re
    by (auto split: if_split_asm)
  then have "recovered_execution (ro_order r) act quantity running average (gaps = [])
      = (bx_cumulative_quantity x, a, True, [], ws)" using re by simp
  moreover have "\<forall>x. act = Some x \<longrightarrow> ae_cumulative_quantity x = os_filled_quantity (ro_order r)"
    using activity_complete_total by (simp add: act_def proj_def)
  ultimately show ?thesis using recovered_execution_clean fin unfolding running_def by blast
qed

lemma dict_put_subset: "set (dict_put key x d) \<subseteq> insert x (set d)"
  by (induction d) auto

lemma recovery_walk_subset: "set (fst (recovery_walk rs d reasons)) \<subseteq> set rs \<union> set d"
proof (induction rs arbitrary: d reasons)
  case (Cons r rs)
  then show ?case using dict_put_subset [of recovery_order_id r d] by (fastforce simp: Let_def)
qed simp

lemma latest_recovery_in: "fst (latest_recovery_order recoveries) = Some r \<Longrightarrow> r \<in> set recoveries"
proof -
  assume a: "fst (latest_recovery_order recoveries) = Some r"
  have best: "foldl (\<lambda>best x. if ro_recovery_id x > ro_recovery_id best then x else best) y ys \<in> insert y (set ys)"
    for y :: stored_recovery_order and ys by (induction ys arbitrary: y) auto
  obtain y ys reasons where w: "recovery_walk (sort_key ro_recovery_id recoveries) [] [] = (y # ys, reasons)"
    and r: "r = foldl (\<lambda>best x. if ro_recovery_id x > ro_recovery_id best then x else best) y ys"
    using a unfolding latest_recovery_order_def Let_def by (auto split: prod.splits list.splits)
  have "set (y # ys) \<subseteq> set recoveries"
    using recovery_walk_subset [of "sort_key ro_recovery_id recoveries" "[]" "[]"] w by simp
  then show ?thesis using best [of y ys] unfolding r by auto
qed

lemma stream_cumulative_finite:
  assumes "\<forall>e \<in> set xs. is_finite (tu_cumulative_filled_quantity e)"
  shows "is_finite (stream_cumulative xs)"
proof -
  have "is_finite q \<Longrightarrow> \<forall>x \<in> set qs. is_finite x \<Longrightarrow> is_finite (foldl num_max q qs)" for q qs
    by (induction qs arbitrary: q) (auto simp: num_max_def)
  then show ?thesis using assms by (auto simp: stream_cumulative_def split: list.splits)
qed

lemma sorted_set_single: "length (sorted_set xs) \<le> 1 \<Longrightarrow> x \<in> set xs \<Longrightarrow> sorted_set xs = [x]"
proof -
  assume l: "length (sorted_set xs) \<le> 1" and x: "x \<in> set xs"
  then have "x \<in> set (sorted_set xs)" by simp
  then show ?thesis using l by (cases "sorted_set xs") auto
qed

subsection \<open>Properties of the projection\<close>

definition example_stored :: stored_intent where
  "example_stored = \<lparr> si_intent_id = ''i1'', si_strategy_id = ''orb'', si_strategy_version = ''v1'',
     si_symbol = ''ABC'', si_created_at = Some (Aware 0), si_side = BUY, si_entry_limit = Finite 10,
     si_stop = Finite (95 / 10), si_target_1r = Finite (105 / 10), si_target_2r = Finite 11, si_quantity = 100 \<rparr>"

definition example_update :: "int \<Rightarrow> int \<Rightarrow> broker_event_type \<Rightarrow> rat \<Rightarrow> rat \<Rightarrow> stored_trade_update" where
  "example_update n t kind quantity running = \<lparr> tu_event_id = n, tu_event_key = ''k'', tu_intent_id = ''i1'',
     tu_occurred_at = Aware t, tu_event_type = kind, tu_broker_order_id = ''b1'', tu_symbol = ''ABC'', tu_side = BUY,
     tu_limit_price = Some (Finite 10), tu_time_in_force = ''day'', tu_extended_hours = False,
     tu_broker_event_id = None, tu_execution_id = Some ''x'', tu_order_status = ''s'', tu_order_quantity = Finite 100,
     tu_cumulative_filled_quantity = Finite running, tu_cumulative_filled_average_price = None,
     tu_execution_quantity = Some (Finite quantity), tu_execution_price = Some (Finite 10),
     tu_position_quantity = None, tu_replaced_by_order_id = None, tu_replaces_order_id = None,
     tu_payload_json = [], tu_connection_epoch = ''e'', tu_received_at = [] \<rparr>"

definition example_rest_order :: paper_order_snapshot where
  "example_rest_order = \<lparr> os_broker_order_id = ''b1'', os_client_order_id = ''i1'',
     os_symbol = ''ABC'', os_side = BUY, os_status = ''filled'', os_quantity = Finite 100,
     os_filled_quantity = Finite 100, os_limit_price = Some (Finite 10), os_time_in_force = ''day'',
     os_extended_hours = False, os_filled_average_price = Some (Finite 10), os_created_at = None,
     os_updated_at = None, os_submitted_at = None, os_filled_at = None, os_canceled_at = None, os_failed_at = None,
     os_replaced_at = None, os_replaced_by_order_id = None, os_replaces_order_id = None \<rparr>"

definition example_recovered :: stored_recovery_order where
  "example_recovered = \<lparr> ro_recovery_id = 1, ro_recovery_key = ''r'', ro_source = From_Recent,
     ro_order = example_rest_order \<rparr>"

definition example_evidence :: "stored_trade_update list \<Rightarrow> broker_order_evidence" where
  "example_evidence updates = \<lparr> bo_broker_events = [], bo_trade_updates = updates,
     bo_recovery_orders = [example_recovered], bo_account_activities = [] \<rparr>"

definition example_first :: stored_trade_update where
  "example_first = example_update 1 10 EV_Partial_Fill 40 40"

definition example_second :: stored_trade_update where
  "example_second = example_update 2 20 EV_Fill 60 100"

text \<open>The projected state of an order does not depend on the order in which its stored evidence
  is read: any permutation of the events, updates, recovered orders and activities projects to the
  same state, anomalies and warnings included.\<close>

theorem projection_ignores_arrival_order:
  assumes "same_evidence e e'" "stored_evidence e" "stored_evidence e'"
  shows "project_broker_order_state intent e = project_broker_order_state intent e'"
proof -
  note same = assms(1) [unfolded same_evidence_def]
  have latest: "latest_recovery_order (bo_recovery_orders e) = latest_recovery_order (bo_recovery_orders e')"
    using same assms(2) by (intro latest_recovery_perm) (simp_all add: stored_evidence_def)
  have sets: "set (bo_broker_events e) = set (bo_broker_events e')" "set (bo_trade_updates e) = set (bo_trade_updates e')"
    "set (bo_recovery_orders e) = set (bo_recovery_orders e')"
    using same by (metis mset_eq_setD)+
  have replaced: "recovery_has_replacement (bo_recovery_orders e) = recovery_has_replacement (bo_recovery_orders e')"
    unfolding recovery_has_replacement_def by (rule list_ex_set [OF sets(3)])
  have ids: "sorted_set (map be_broker_order_id (bo_broker_events e) @ map tu_broker_order_id (bo_trade_updates e)
        @ map recovery_order_id (bo_recovery_orders e))
      = sorted_set (map be_broker_order_id (bo_broker_events e') @ map tu_broker_order_id (bo_trade_updates e')
        @ map recovery_order_id (bo_recovery_orders e'))"
    by (rule sorted_set_cong) (simp add: sets)
  show ?thesis
    unfolding project_broker_order_state_def latest broker_execution_perm [OF assms] Let_def ids replaced
      list_ex_set [OF sets(1)] list_ex_set [OF sets(2)] list.set_map sets ..
qed

theorem projection_ignores_arrival_order_witness:
  "project_broker_order_state example_stored (example_evidence [example_first, example_second])
     = project_broker_order_state example_stored (example_evidence [example_second, example_first])"
  by (rule projection_ignores_arrival_order)
    (simp_all add: same_evidence_def stored_evidence_def example_evidence_def example_first_def example_second_def
      example_update_def example_recovered_def)

text \<open>C19. A projection with complete execution detail and no anomaly agrees with the broker: the
  order read back is the stored intent's order, its filled quantity is the projected one and within
  the order, exactly one broker order id was ever seen, and at most one terminal state.\<close>

theorem clean_projection_agrees_with_broker:
  assumes "project_broker_order_state intent e = Inr st" "bl_anomaly_reasons st = []"
    and "bl_execution_detail_complete st" "stored_evidence e"
    and "fst (latest_recovery_order (bo_recovery_orders e)) = Some r"
  defines "order \<equiv> ro_order r"
  shows "bl_cumulative_filled_quantity st = os_filled_quantity order
    \<and> Finite 0 \<le> os_filled_quantity order \<and> os_filled_quantity order \<le> Finite (of_int (si_quantity intent))
    \<and> os_quantity order = Finite (of_int (si_quantity intent))
    \<and> os_client_order_id order = si_intent_id intent \<and> os_symbol order = si_symbol intent
    \<and> os_side order = si_side intent \<and> os_limit_price order = Some (si_entry_limit intent)
    \<and> bl_broker_order_ids st = [os_broker_order_id order]
    \<and> length (bl_terminal_event_types st) \<le> 1"
proof -
  obtain reasons where l: "latest_recovery_order (bo_recovery_orders e) = (Some r, reasons)"
    using assms(5) by (metis prod.collapse)
  obtain x where x: "project_broker_execution intent e (Some r) = Inr x"
    using assms(1) unfolding project_broker_order_state_def l Let_def by (auto split: sum.splits)
  note st = assms(1) [unfolded project_broker_order_state_def l Let_def prod.case option.case x sum.case sum.inject]
  have nil: "(if b then [y :: anomaly] else []) = [] \<longleftrightarrow> \<not> b" for b y by simp
  have clean: "bx_reasons x = []" "recovery_order_mismatch_reasons intent order = []"
    "recovery_order_integrity_reasons order = []" "length (bl_terminal_event_types st) \<le> 1"
    using assms(2) unfolding st [symmetric] order_def by (simp_all add: nil)
  have one_id: "length (bl_broker_order_ids st) \<le> 1"
    using assms(2) unfolding st [symmetric] order_def by (simp add: nil) linarith
  have match: "os_quantity order = Finite (of_int (si_quantity intent)) \<and> os_client_order_id order = si_intent_id intent
      \<and> os_symbol order = si_symbol intent \<and> os_side order = si_side intent
      \<and> os_limit_price order = Some (si_entry_limit intent)"
    using clean(2) unfolding recovery_order_mismatch_reasons_def
    by (auto simp: opt_num_eq_def num_eq_def split: if_splits option.splits)
  have range: "is_finite (os_filled_quantity order)" "\<not> os_filled_quantity order < Finite 0"
    "\<not> os_quantity order < os_filled_quantity order"
    using clean(3) unfolding recovery_order_integrity_reasons_def Let_def by (auto split: if_splits)
  then have bounds: "Finite 0 \<le> os_filled_quantity order"
    "os_filled_quantity order \<le> Finite (of_int (si_quantity intent))"
    using match by (cases "os_filled_quantity order"; simp)+
  have "is_finite (stream_cumulative (bo_trade_updates e))"
    using assms(4) by (intro stream_cumulative_finite) (simp add: stored_evidence_def list_all_iff)
  moreover have "bx_detail_complete x" "bl_cumulative_filled_quantity st = bx_cumulative_quantity x"
    using assms(3) unfolding st [symmetric] by simp_all
  ultimately have total: "bl_cumulative_filled_quantity st = os_filled_quantity order"
    using execution_clean [OF x clean(1)] range(1) unfolding order_def by simp
  have ids: "bl_broker_order_ids st = sorted_set (map be_broker_order_id (bo_broker_events e)
      @ map tu_broker_order_id (bo_trade_updates e) @ map recovery_order_id (bo_recovery_orders e))"
    unfolding st [symmetric] by simp
  have "bl_broker_order_ids st = [recovery_order_id r]"
    unfolding ids using one_id [unfolded ids] latest_recovery_in [OF assms(5)]
    by (intro sorted_set_single) auto
  then show ?thesis using total bounds match clean(4) by (simp add: order_def recovery_order_id_def)
qed

theorem clean_projection_agrees_with_broker_witness:
  "\<exists>st. project_broker_order_state example_stored (example_evidence [example_second, example_first]) = Inr st
     \<and> bl_cumulative_filled_quantity st = Finite 100"
proof -
  define p where "p = project_broker_order_state example_stored (example_evidence [example_second, example_first])"
  have "map_sum id bl_anomaly_reasons p = Inr [] \<and> map_sum id bl_execution_detail_complete p = Inr True"
    unfolding p_def by code_simp
  then obtain st where st: "p = Inr st" "bl_anomaly_reasons st = []" "bl_execution_detail_complete st"
    by (cases p) auto
  have "fst (latest_recovery_order (bo_recovery_orders (example_evidence [example_second, example_first])))
      = Some example_recovered" by code_simp
  moreover have "stored_evidence (example_evidence [example_second, example_first])"
    by (simp add: stored_evidence_def example_evidence_def example_first_def example_second_def example_update_def)
  ultimately have "bl_cumulative_filled_quantity st = os_filled_quantity (ro_order example_recovered)"
    using clean_projection_agrees_with_broker [OF st(1) [unfolded p_def] st(2,3)] by blast
  then show ?thesis using st(1) unfolding p_def by (simp add: example_recovered_def example_rest_order_def)
qed

end
