(* ===== verification/Portfolio_Builder.thy ===== *)
theory Portfolio_Builder
  imports Paper_Risk Broker_Projection
begin

text \<open>
  \<^verbatim>\<open>paper_portfolio_validation.py\<close> and \<^verbatim>\<open>paper_portfolio_builder.py\<close>: the portfolio the
  gates see, rebuilt from the broker's open orders and positions, the stored intents and the
  projected order states.  Every exposure must be explained by exactly one stored intent, and every
  filled intent by an exposure; otherwise the portfolio is incomplete, with the sorted set of
  reasons.
\<close>

subsection \<open>Reasons\<close>

datatype build_reason =
    Account_Incomplete
  | Same_Symbol_Twice
  | Partial_Fill_Mismatch symbol
  | Unfilled_Order_With_Position symbol
  | Order_Price_Missing string
  | Order_Incomplete string
  | Position_Intent_Not_Unique symbol
  | Duplicate_Intent_Ids
  | Duplicate_Projections
  | Unknown_Open_Order string
  | Duplicate_Active_Intent string
  | Fill_Without_Exposure string
  | Position_Incomplete symbol
  | Active_Intent_Incomplete string

text \<open>The place of a reason's text, and its argument.\<close>

fun reason_key :: "build_reason \<Rightarrow> nat \<times> string" where
  "reason_key Account_Incomplete = (0, [])"
| "reason_key Same_Symbol_Twice = (1, [])"
| "reason_key (Unfilled_Order_With_Position s) = (2, s)"
| "reason_key (Order_Price_Missing s) = (3, s)"
| "reason_key (Order_Incomplete s) = (4, s)"
| "reason_key (Partial_Fill_Mismatch s) = (5, s)"
| "reason_key (Position_Intent_Not_Unique s) = (6, s)"
| "reason_key Duplicate_Intent_Ids = (8, [])"
| "reason_key Duplicate_Projections = (9, [])"
| "reason_key (Unknown_Open_Order s) = (7, s)"
| "reason_key (Duplicate_Active_Intent s) = (10, s)"
| "reason_key (Fill_Without_Exposure s) = (11, s)"
| "reason_key (Position_Incomplete s) = (12, s)"
| "reason_key (Active_Intent_Incomplete s) = (13, s)"

instantiation build_reason :: linorder
begin

definition less_eq_build_reason :: "build_reason \<Rightarrow> build_reason \<Rightarrow> bool" where
  "less_eq_build_reason x y \<longleftrightarrow> reason_key x \<le> reason_key y"

definition less_build_reason :: "build_reason \<Rightarrow> build_reason \<Rightarrow> bool" where
  "less_build_reason x y \<longleftrightarrow> reason_key x < reason_key y"

instance
proof
  fix x y z :: build_reason
  show "x < y \<longleftrightarrow> x \<le> y \<and> \<not> y \<le> x" "x \<le> x" "x \<le> y \<Longrightarrow> y \<le> z \<Longrightarrow> x \<le> z" "x \<le> y \<or> y \<le> x"
    unfolding less_eq_build_reason_def less_build_reason_def by (auto intro: order_trans)
  have "reason_key x = reason_key y \<Longrightarrow> x = y" by (cases x; cases y) simp_all
  then show "x \<le> y \<Longrightarrow> y \<le> x \<Longrightarrow> x = y" unfolding less_eq_build_reason_def using antisym by blast
qed

end

subsection \<open>Validation\<close>

definition active_entry_statuses :: "string list" where
  "active_entry_statuses =
     [''accepted'', ''accepted_for_bidding'', ''calculated'', ''new'', ''partially_filled'', ''pending_cancel'',
      ''pending_new'', ''pending_replace'', ''stopped'', ''suspended'']"

definition valid_entry_order :: "paper_order_snapshot \<Rightarrow> stored_intent \<Rightarrow> bool" where
  "valid_entry_order order intent \<longleftrightarrow>
     os_status order \<in> set active_entry_statuses
     \<and> os_symbol order = si_symbol intent
     \<and> os_side order = si_side intent
     \<and> num_eq (os_quantity order) (Finite (of_int (si_quantity intent)))
     \<and> (case os_limit_price order of None \<Rightarrow> False
        | Some limit \<Rightarrow> num_eq limit (si_entry_limit intent) \<and> is_finite limit \<and> Finite 0 < limit)
     \<and> is_finite (os_filled_quantity order)
     \<and> is_integral (rv (os_filled_quantity order))
     \<and> Finite 0 \<le> os_filled_quantity order \<and> os_filled_quantity order < os_quantity order
     \<and> os_time_in_force order = ''day''
     \<and> \<not> os_extended_hours order"

definition position_unusable :: "paper_position \<Rightarrow> bool" where
  "position_unusable position \<longleftrightarrow>
     pos_symbol position = []
     \<or> pos_symbol position \<noteq> upper (pos_symbol position)
     \<or> \<not> is_finite (pos_quantity position)
     \<or> rv (pos_quantity position) = 0
     \<or> \<not> is_integral (rv (pos_quantity position))
     \<or> \<not> is_finite (pos_market_value position)
     \<or> rv (pos_market_value position) = 0
     \<or> (rv (pos_quantity position) > 0) \<noteq> (rv (pos_market_value position) > 0)"

text \<open>The positions in order, each symbol once, and the reasons for the refused ones.\<close>

fun positions_by_symbol ::
    "paper_position list \<Rightarrow> paper_position list \<Rightarrow> build_reason list \<Rightarrow> paper_position list \<times> build_reason list" where
  "positions_by_symbol [] result reasons = (result, reasons)"
| "positions_by_symbol (p # ps) result reasons =
     (if pos_symbol p \<in> pos_symbol ` set result \<or> position_unusable p
      then positions_by_symbol ps result (reasons @ [Position_Incomplete (pos_symbol p)])
      else positions_by_symbol ps (result @ [p]) reasons)"

definition position_matches_fill :: "paper_position \<Rightarrow> paper_order_snapshot \<Rightarrow> bool" where
  "position_matches_fill position order \<longleftrightarrow>
     num_eq (pos_quantity position)
       (case os_side order of BUY \<Rightarrow> os_filled_quantity order | SELL \<Rightarrow> num_neg (os_filled_quantity order))"

definition valid_stored_intent :: "stored_intent \<Rightarrow> pydt \<Rightarrow> bool" where
  "valid_stored_intent intent observed_at =
     (case si_created_at intent of None \<Rightarrow> False
      | Some created_at \<Rightarrow>
          (let prices = [si_entry_limit intent, si_stop intent, si_target_1r intent, si_target_2r intent]
           in if \<not> is_aware created_at \<or> \<not> is_aware observed_at
                 \<or> instant created_at > instant observed_at
                 \<or> wall_date (ny (instant created_at)) \<noteq> wall_date (ny (instant observed_at))
                 \<or> si_symbol intent = []
                 \<or> si_symbol intent \<noteq> upper (si_symbol intent)
                 \<or> si_quantity intent \<le> 0
                 \<or> \<not> list_all (\<lambda>v. is_finite v \<and> Finite 0 < v) prices
              then False
              else case si_side intent of
                  BUY \<Rightarrow> si_stop intent < si_entry_limit intent \<and> si_entry_limit intent < si_target_1r intent
                       \<and> si_target_1r intent < si_target_2r intent
                | SELL \<Rightarrow> si_target_2r intent < si_target_1r intent \<and> si_target_1r intent < si_entry_limit intent
                       \<and> si_entry_limit intent < si_stop intent))"

text \<open>A signed whole quantity: long for a buy, short for a sell.\<close>

definition signed_by :: "order_side \<Rightarrow> pynum \<Rightarrow> pynum" where
  "signed_by side quantity = (case side of BUY \<Rightarrow> quantity | SELL \<Rightarrow> num_neg quantity)"

definition position_matches_current_intent :: "paper_position \<Rightarrow> stored_intent \<Rightarrow> pydt \<Rightarrow> bool" where
  "position_matches_current_intent position intent observed_at \<longleftrightarrow>
     valid_stored_intent intent observed_at
     \<and> pos_symbol position = si_symbol intent
     \<and> num_eq (pos_quantity position) (signed_by (si_side intent) (Finite (of_int (si_quantity intent))))"

definition valid_account_snapshot :: "paper_broker_state \<Rightarrow> bool" where
  "valid_account_snapshot state =
     (let account = bs_account state in
      is_aware (ac_observed_at account)
      \<and> list_all is_finite [ac_equity account, ac_last_equity account, ac_buying_power account]
      \<and> Finite 0 < ac_equity account \<and> Finite 0 < ac_last_equity account \<and> Finite 0 \<le> ac_buying_power account)"

subsection \<open>Exposures\<close>

definition reserved_slot_risk :: "paper_broker_state \<Rightarrow> paper_risk_config \<Rightarrow> rat" where
  "reserved_slot_risk state config =
     (let equity = min (min (rv (ac_equity (bs_account state))) (rv (ac_last_equity (bs_account state))))
            (rv (rc_reference_equity config))
      in min (rv (rc_max_risk_dollars config)) (drnd (equity * rv (rc_risk_fraction config))))"

definition planned_exposure_risk :: "stored_intent \<Rightarrow> rat \<Rightarrow> paper_risk_config \<Rightarrow> rat" where
  "planned_exposure_risk intent reserved_risk config =
     (let entry = rv (si_entry_limit intent); stop = rv (si_stop intent);
          distance = stop_distance (si_side intent) entry stop;
          minimum_cost = drnd (drnd (drnd (entry + stop) * rv (rc_per_side_cost_bps config)) / basis_point_denominator);
          actual_risk = drnd (drnd (distance + minimum_cost) * of_int (si_quantity intent))
      in max reserved_risk actual_risk)"

definition position_gross :: "paper_position \<Rightarrow> rat \<Rightarrow> rat" where
  "position_gross position price =
     max \<bar>rv (pos_market_value position)\<bar> (drnd (\<bar>rv (pos_quantity position)\<bar> * price))"

definition position_matches_ledger_or_intent ::
    "paper_position \<Rightarrow> stored_intent \<Rightarrow> pydt \<Rightarrow> broker_order_state option \<Rightarrow> bool" where
  "position_matches_ledger_or_intent position intent observed_at state =
     (case state of
        None \<Rightarrow> position_matches_current_intent position intent observed_at
      | Some st \<Rightarrow>
          if bl_anomaly_reasons st \<noteq> [] \<or> \<not> bl_terminal st \<or> \<not> bl_has_fill_evidence st
             \<or> \<not> valid_stored_intent intent observed_at
          then False
          else pos_symbol position = si_symbol intent
               \<and> num_eq (pos_quantity position) (signed_by (si_side intent) (bl_cumulative_filled_quantity st)))"

text \<open>What the loops of the builder carry along.\<close>

record build_state =
  bd_exposures :: "portfolio_exposure list"
  bd_positions :: "symbol list"
  bd_intents :: "string list"
  bd_fills :: "string list"
  bd_reasons :: "build_reason list"

definition add_reason :: "build_reason \<Rightarrow> build_state \<Rightarrow> build_state" where
  "add_reason r b = b\<lparr>bd_reasons := bd_reasons b @ [r]\<rparr>"

text \<open>\<^verbatim>\<open>_order_exposure\<close>: the exposure, if any, and whether it consumes the position.\<close>

definition order_exposure ::
    "paper_order_snapshot \<Rightarrow> stored_intent \<Rightarrow> paper_position list \<Rightarrow> rat
      \<Rightarrow> build_reason + portfolio_exposure \<times> bool" where
  "order_exposure order intent positions reserved_risk =
     (if \<not> valid_entry_order order intent then Inl (Order_Incomplete (os_client_order_id order))
      else case os_limit_price order of
        None \<Rightarrow> Inl (Order_Price_Missing (os_client_order_id order))
      | Some limit_price \<Rightarrow>
          (let remaining = drnd (rv (os_quantity order) - rv (os_filled_quantity order));
               position = find (\<lambda>p. pos_symbol p = os_symbol order) positions;
               gross = drnd (remaining * rv limit_price);
               exposure = (\<lambda>kind g. \<lparr> ex_intent_id = si_intent_id intent, ex_symbol = os_symbol order,
                  ex_kind = kind, ex_gross = Finite g, ex_planned_risk = Finite reserved_risk \<rparr>)
           in if rv (os_filled_quantity order) = 0
              then if position \<noteq> None then Inl (Unfilled_Order_With_Position (os_symbol order))
                   else Inr (exposure Pending_Entry gross, False)
              else case position of
                     None \<Rightarrow> Inl (Partial_Fill_Mismatch (os_symbol order))
                   | Some p \<Rightarrow>
                       if \<not> position_matches_fill p order then Inl (Partial_Fill_Mismatch (os_symbol order))
                       else Inr (exposure Partial_Entry (drnd (gross + position_gross p (rv limit_price))), True)))"

definition consume_order ::
    "paper_risk_config \<Rightarrow> pydt \<Rightarrow> rat \<Rightarrow> stored_intent list \<Rightarrow> paper_position list
      \<Rightarrow> paper_order_snapshot \<Rightarrow> build_state \<Rightarrow> build_state" where
  "consume_order config observed_at reserved_risk intents positions order b =
     (case find (\<lambda>i. si_intent_id i = os_client_order_id order) (rev intents) of
        None \<Rightarrow> add_reason (Unknown_Open_Order (os_client_order_id order)) b
      | Some intent \<Rightarrow>
          if \<not> valid_stored_intent intent observed_at then add_reason (Active_Intent_Incomplete (si_intent_id intent)) b
          else case order_exposure order intent positions (planned_exposure_risk intent reserved_risk config) of
            Inl reason \<Rightarrow> add_reason reason b
          | Inr (exposure, consumes) \<Rightarrow>
              (let b = (if si_intent_id intent \<in> set (bd_intents b)
                     then add_reason (Duplicate_Active_Intent (si_intent_id intent)) b else b)
               in b\<lparr> bd_exposures := bd_exposures b @ [exposure],
                     bd_positions := bd_positions b @ (if consumes then [os_symbol order] else []),
                     bd_intents := bd_intents b @ [si_intent_id intent],
                     bd_fills := bd_fills b @ (if Finite 0 < os_filled_quantity order then [si_intent_id intent] else []) \<rparr>))"

definition consume_position ::
    "paper_risk_config \<Rightarrow> pydt \<Rightarrow> rat \<Rightarrow> stored_intent list \<Rightarrow> string list \<Rightarrow> broker_order_state list
      \<Rightarrow> paper_position \<Rightarrow> build_state \<Rightarrow> build_state" where
  "consume_position config observed_at reserved_risk intents filled_intent_ids order_states position b =
     (if pos_symbol position \<in> set (bd_positions b) then b
      else case only (filter (\<lambda>i. si_intent_id i \<in> set filled_intent_ids
             \<and> position_matches_ledger_or_intent position i observed_at
                 (find (\<lambda>s. bl_intent_id s = si_intent_id i) (rev order_states))) intents) of
        None \<Rightarrow> add_reason (Position_Intent_Not_Unique (pos_symbol position)) b
      | Some intent \<Rightarrow>
          if si_intent_id intent \<in> set (bd_intents b) then add_reason (Duplicate_Active_Intent (si_intent_id intent)) b
          else b\<lparr> bd_intents := bd_intents b @ [si_intent_id intent],
                  bd_fills := bd_fills b @ [si_intent_id intent],
                  bd_exposures := bd_exposures b @
                    [\<lparr> ex_intent_id = si_intent_id intent, ex_symbol = pos_symbol position, ex_kind = Open_Position,
                       ex_gross = Finite (position_gross position (rv (si_entry_limit intent))),
                       ex_planned_risk = Finite (planned_exposure_risk intent reserved_risk config) \<rparr>] \<rparr>)"

definition build_paper_portfolio ::
    "paper_broker_state \<Rightarrow> stored_intent list \<Rightarrow> string list \<Rightarrow> paper_risk_config \<Rightarrow> broker_order_state list
      \<Rightarrow> risk_error + build_reason portfolio_snapshot" where
  "build_paper_portfolio state stored_intents filled_intent_ids config order_states =
     (if \<not> within_hard_limits config then Inl Unsafe_Paper_Risk_Config
      else if \<not> valid_account_snapshot state then Inr (Incomplete [Account_Incomplete])
      else
        let account = bs_account state;
            observed_at = ac_observed_at account;
            (positions, position_reasons) = positions_by_symbol (bs_positions state) [] [];
            reserved_risk = reserved_slot_risk state config;
            start = \<lparr> bd_exposures = [], bd_positions = [], bd_intents = [], bd_fills = [],
              bd_reasons = (if distinct (map si_intent_id stored_intents) then [] else [Duplicate_Intent_Ids])
                @ (if distinct (map bl_intent_id order_states) then [] else [Duplicate_Projections])
                @ position_reasons \<rparr>;
            after_orders = fold (consume_order config observed_at reserved_risk stored_intents positions)
              (bs_open_orders state) start;
            final = fold (consume_position config observed_at reserved_risk stored_intents filled_intent_ids order_states)
              positions after_orders;
            expected_fills = filled_intent_ids @ map bl_intent_id (filter bl_has_fill_evidence order_states);
            missing = sorted_set (filter (\<lambda>i. i \<notin> set (bd_fills final)) expected_fills);
            reasons = bd_reasons final @ map Fill_Without_Exposure missing
              @ (if distinct (map ex_symbol (bd_exposures final)) then [] else [Same_Symbol_Twice])
        in if reasons \<noteq> [] then Inr (Incomplete (sorted_set reasons))
           else Inr (Complete
             \<lparr> pf_observed_at = observed_at, pf_account_status = ac_status account,
               pf_trading_blocked = ac_trading_blocked account, pf_equity = ac_equity account,
               pf_last_equity = ac_last_equity account, pf_buying_power = ac_buying_power account,
               pf_exposures = bd_exposures final \<rparr>))"

subsection \<open>Runs without a reason\<close>

lemma add_reason_clean [simp]: "bd_reasons (add_reason r b) \<noteq> []"
  by (simp add: add_reason_def)

lemma positions_by_symbol_clean:
  assumes "positions_by_symbol ps result reasons = (qs, [])" "distinct (map pos_symbol result)"
  shows "reasons = [] \<and> qs = result @ ps \<and> distinct (map pos_symbol qs) \<and> (\<forall>p \<in> set ps. \<not> position_unusable p)"
  using assms
proof (induction ps arbitrary: result reasons)
  case (Cons p ps)
  show ?case
  proof (cases "pos_symbol p \<in> pos_symbol ` set result \<or> position_unusable p")
    case True
    then show ?thesis using Cons.IH [of result "reasons @ [Position_Incomplete (pos_symbol p)]"] Cons.prems by simp
  next
    case False
    then have "positions_by_symbol ps (result @ [p]) reasons = (qs, [])" "distinct (map pos_symbol (result @ [p]))"
      using Cons.prems by auto
    note r = Cons.IH [OF this]
    show ?thesis
    proof (intro conjI)
      show "distinct (map pos_symbol qs)" using r by blast
    qed (use r False in simp_all)
  qed
qed simp

lemma fold_reasons:
  assumes "\<And>x b. x \<in> set xs \<Longrightarrow> bd_reasons (f x b) = [] \<Longrightarrow> bd_reasons b = []" "bd_reasons (fold f xs b) = []"
  shows "bd_reasons b = []"
  using assms
proof (induction xs arbitrary: b)
  case (Cons x xs)
  have "bd_reasons (f x b) = []" 
  proof (rule Cons.IH)
    show "bd_reasons b = []" if "y \<in> set xs" "bd_reasons (f y b) = []" for y b
      by (rule Cons.prems(1) [of y]) (use that in simp_all)
    show "bd_reasons (fold f xs (f x b)) = []" using Cons.prems(2) by simp
  qed
  then show ?case using Cons.prems(1) [of x b] by simp
qed simp

lemma fold_keep:
  assumes "\<And>x b. x \<in> set xs \<Longrightarrow> bd_reasons (f x b) = [] \<Longrightarrow> bd_reasons b = []"
    and "\<And>x b. x \<in> set xs \<Longrightarrow> bd_reasons (f x b) = [] \<Longrightarrow> Q b \<Longrightarrow> Q (f x b)"
    and "bd_reasons (fold f xs b) = []" "Q b"
  shows "Q (fold f xs b)"
  using assms
proof (induction xs arbitrary: b)
  case (Cons x xs)
  have "bd_reasons (f x b) = []" by (rule fold_reasons [of xs f]) (use Cons.prems in auto)
  then show ?case using Cons.IH [of "f x b"] Cons.prems by auto
qed simp

lemma fold_covers:
  assumes "\<And>x b. x \<in> set xs \<Longrightarrow> bd_reasons (f x b) = [] \<Longrightarrow> bd_reasons b = []"
    and "\<And>x b. x \<in> set xs \<Longrightarrow> bd_reasons (f x b) = [] \<Longrightarrow> I b \<Longrightarrow> I (f x b)"
    and "\<And>x b. x \<in> set xs \<Longrightarrow> bd_reasons (f x b) = [] \<Longrightarrow> I b \<Longrightarrow> Q x (f x b)"
    and "\<And>x y b. y \<in> set xs \<Longrightarrow> bd_reasons (f y b) = [] \<Longrightarrow> Q x b \<Longrightarrow> Q x (f y b)"
    and "bd_reasons (fold f xs b) = []" "I b"
  shows "\<forall>x \<in> set xs. Q x (fold f xs b)"
  using assms
proof (induction xs arbitrary: b)
  case (Cons x xs)
  have clean: "bd_reasons (f x b) = []" by (rule fold_reasons [of xs f]) (use Cons.prems in auto)
  have "Q x (fold f xs (f x b))"
    by (rule fold_keep [of xs f]) (use Cons.prems clean in auto)
  moreover have "\<forall>y \<in> set xs. Q y (fold f xs (f x b))"
    by (rule Cons.IH) (use Cons.prems clean in auto)
  ultimately show ?case by simp
qed simp

text \<open>What every exposure of a clean run satisfies, and how orders and positions are covered.\<close>

definition exposure_ok :: "stored_intent list \<Rightarrow> pydt \<Rightarrow> rat \<Rightarrow> portfolio_exposure \<Rightarrow> bool" where
  "exposure_ok intents observed_at reserved_risk e \<longleftrightarrow>
     is_finite (ex_gross e) \<and> is_finite (ex_planned_risk e) \<and> reserved_risk \<le> rv (ex_planned_risk e)
     \<and> 0 < rv (ex_gross e)
     \<and> (\<exists>intent \<in> set intents. valid_stored_intent intent observed_at
          \<and> ex_intent_id e = si_intent_id intent \<and> ex_symbol e = si_symbol intent)"

definition order_covered :: "portfolio_exposure list \<Rightarrow> paper_order_snapshot \<Rightarrow> bool" where
  "order_covered es order \<longleftrightarrow>
     (\<exists>e \<in> set es. ex_intent_id e = os_client_order_id order \<and> ex_symbol e = os_symbol order
        \<and> (\<exists>limit. os_limit_price order = Some (Finite limit)
             \<and> drnd (drnd (rv (os_quantity order) - rv (os_filled_quantity order)) * limit) \<le> rv (ex_gross e)))"

definition position_covered :: "portfolio_exposure list \<Rightarrow> paper_position \<Rightarrow> bool" where
  "position_covered es position \<longleftrightarrow>
     (\<exists>e \<in> set es. ex_symbol e = pos_symbol position \<and> ex_kind e \<noteq> Pending_Entry
        \<and> \<bar>rv (pos_market_value position)\<bar> * (1 - deps) \<le> rv (ex_gross e))"

lemma covered_mono:
  "set es \<subseteq> set fs \<Longrightarrow> order_covered es order \<Longrightarrow> order_covered fs order"
  "set es \<subseteq> set fs \<Longrightarrow> position_covered es position \<Longrightarrow> position_covered fs position"
  unfolding order_covered_def position_covered_def by blast+

lemma valid_stored_intentD [guards]:
  assumes "valid_stored_intent intent observed_at"
  shows "is_finite (si_entry_limit intent) \<and> 0 < rv (si_entry_limit intent) \<and> is_finite (si_stop intent)
    \<and> 0 < rv (si_stop intent) \<and> upper_symbol (si_symbol intent) \<and> 0 < si_quantity intent"
  using assms unfolding valid_stored_intent_def
  by (auto simp: Let_def upper_symbol_def finite_compare split: option.splits if_splits)

lemma valid_entry_orderD [guards]:
  assumes "valid_entry_order order intent"
  obtains limit q f where "os_limit_price order = Some (Finite limit)" "0 < limit"
    "os_quantity order = Finite q" "os_filled_quantity order = Finite f" "0 \<le> f" "f < q"
    "os_symbol order = si_symbol intent" "os_side order = si_side intent"
proof -
  obtain l where l: "os_limit_price order = Some l" "is_finite l" "Finite 0 < l"
    using assms unfolding valid_entry_order_def by (auto split: option.splits)
  obtain limit where limit: "l = Finite limit" using l(2) by (cases l) auto
  obtain f where f: "os_filled_quantity order = Finite f"
    using assms unfolding valid_entry_order_def by (cases "os_filled_quantity order") auto
  show ?thesis
    using that [of limit "of_int (si_quantity intent)" f] assms l limit f
    unfolding valid_entry_order_def by auto
qed

lemma position_gross_ge:
  assumes "0 < price"
  shows "0 \<le> position_gross p price" "\<bar>rv (pos_market_value p)\<bar> \<le> position_gross p price"
  using assms by (auto simp: position_gross_def le_max_iff_disj intro!: dec.nonneg)

lemma order_exposure_kind:
  assumes "order_exposure order intent positions risk = Inr (e, consumes)"
  shows "Finite 0 < os_filled_quantity order \<longleftrightarrow> ex_kind e \<noteq> Pending_Entry"
proof -
  have v: "valid_entry_order order intent"
    using assms unfolding order_exposure_def by (auto split: if_splits)
  then obtain limit f where "os_limit_price order = Some (Finite limit)" "os_filled_quantity order = Finite f" "0 \<le> f"
    by (rule valid_entry_orderD)
  then show ?thesis
    using assms v unfolding order_exposure_def Let_def
    by (cases "f = 0") (auto split: option.splits if_splits)
qed

lemma order_exposure_Inr:
  assumes "order_exposure order intent positions risk = Inr (e, consumes)"
  shows "ex_intent_id e = si_intent_id intent \<and> ex_symbol e = si_symbol intent \<and> ex_symbol e = os_symbol order
    \<and> is_finite (ex_gross e) \<and> 0 < rv (ex_gross e) \<and> ex_planned_risk e = Finite risk
    \<and> (\<exists>limit. os_limit_price order = Some (Finite limit)
         \<and> drnd (drnd (rv (os_quantity order) - rv (os_filled_quantity order)) * limit) \<le> rv (ex_gross e))
    \<and> (consumes \<longleftrightarrow> ex_kind e \<noteq> Pending_Entry)
    \<and> (consumes \<longrightarrow> (\<exists>p. find (\<lambda>p. pos_symbol p = os_symbol order) positions = Some p
         \<and> \<bar>rv (pos_market_value p)\<bar> * (1 - deps) \<le> rv (ex_gross e)))"
proof -
  have v: "valid_entry_order order intent"
    using assms unfolding order_exposure_def by (auto split: if_splits)
  then obtain limit q f where o': "os_limit_price order = Some (Finite limit)" "0 < limit"
    "os_quantity order = Finite q" "os_filled_quantity order = Finite f" "0 \<le> f" "f < q"
    "os_symbol order = si_symbol intent"
    by (rule valid_entry_orderD)
  define g where "g = drnd (drnd (q - f) * limit)"
  have g: "0 < g" unfolding g_def using o' by (intro dec.r_pos mult_pos_pos) simp_all
  note def_ = assms [unfolded order_exposure_def Let_def, simplified v o' option.case rv.simps, folded g_def]
  show ?thesis
  proof (cases "f = 0")
    case True
    then show ?thesis using def_ g o' by (auto simp: g_def split: if_splits)
  next
    case False
    then obtain p where p: "find (\<lambda>p. pos_symbol p = os_symbol order) positions = Some p"
      and e: "consumes" "ex_gross e = Finite (drnd (g + position_gross p limit))" "ex_kind e = Partial_Entry"
        "ex_intent_id e = si_intent_id intent" "ex_symbol e = os_symbol order" "ex_planned_risk e = Finite risk"
      using def_ o' by (auto split: option.splits if_splits)
    note pg = position_gross_ge [OF o'(2), of p]
    have "drnd g \<le> drnd (g + position_gross p limit)" by (rule dec.r_mono) (use pg in simp)
    then have "g \<le> drnd (g + position_gross p limit)" by (simp add: g_def)
    moreover have "\<bar>rv (pos_market_value p)\<bar> * (1 - deps) \<le> drnd (g + position_gross p limit)"
    proof -
      have "\<bar>rv (pos_market_value p)\<bar> * (1 - deps) \<le> drnd \<bar>rv (pos_market_value p)\<bar>"
        by (rule dec.lower_bound) simp
      also have "\<dots> \<le> drnd (g + position_gross p limit)" by (rule dec.r_mono) (use pg g in linarith)
      finally show ?thesis .
    qed
    ultimately show ?thesis using e p g o' by (auto simp: g_def)
  qed
qed

text \<open>The invariant of a clean run.\<close>

definition build_ok ::
    "stored_intent list \<Rightarrow> pydt \<Rightarrow> rat \<Rightarrow> paper_position list \<Rightarrow> build_state \<Rightarrow> bool" where
  "build_ok intents observed_at reserved_risk positions b \<longleftrightarrow>
     (\<forall>e \<in> set (bd_exposures b). exposure_ok intents observed_at reserved_risk e)
     \<and> map ex_intent_id (bd_exposures b) = bd_intents b \<and> distinct (bd_intents b)
     \<and> (\<forall>i \<in> set (bd_fills b). \<exists>e \<in> set (bd_exposures b). ex_intent_id e = i \<and> ex_kind e \<noteq> Pending_Entry)
     \<and> (\<forall>s \<in> set (bd_positions b). \<forall>p. find (\<lambda>p. pos_symbol p = s) positions = Some p \<longrightarrow>
          position_covered (bd_exposures b) p)"

lemma planned_exposure_risk_ge: "reserved_risk \<le> planned_exposure_risk intent reserved_risk config"
  by (simp add: planned_exposure_risk_def Let_def)

lemma find_SomeD: "find P xs = Some x \<Longrightarrow> x \<in> set xs \<and> P x"
  by (auto simp: find_Some_iff)

lemma find_symbol: "find (\<lambda>p. pos_symbol p = s) ps = Some p \<Longrightarrow> pos_symbol p = s \<and> p \<in> set ps"
  by (auto simp: find_Some_iff)

lemma consume_order_clean:
  assumes "bd_reasons (consume_order config t rr intents positions order b) = []"
  defines "b' \<equiv> consume_order config t rr intents positions order b"
  obtains intent e consumes where "bd_reasons b = []"
    "intent \<in> set intents" "si_intent_id intent = os_client_order_id order" "valid_stored_intent intent t"
    "order_exposure order intent positions (planned_exposure_risk intent rr config) = Inr (e, consumes)"
    "si_intent_id intent \<notin> set (bd_intents b)"
    "bd_exposures b' = bd_exposures b @ [e]" "bd_intents b' = bd_intents b @ [si_intent_id intent]"
    "bd_positions b' = bd_positions b @ (if consumes then [os_symbol order] else [])"
    "bd_fills b' = bd_fills b @ (if Finite 0 < os_filled_quantity order then [si_intent_id intent] else [])"
proof -
  obtain intent where f: "find (\<lambda>i. si_intent_id i = os_client_order_id order) (rev intents) = Some intent"
    using assms(1) unfolding consume_order_def by (auto split: option.splits)
  have v: "valid_stored_intent intent t"
    using assms(1) f unfolding consume_order_def by (auto split: if_splits)
  obtain e consumes where oe:
    "order_exposure order intent positions (planned_exposure_risk intent rr config) = Inr (e, consumes)"
    using assms(1) f v unfolding consume_order_def by (auto split: sum.splits)
  have new: "si_intent_id intent \<notin> set (bd_intents b)"
    using assms(1) f v oe unfolding consume_order_def Let_def by (auto simp: add_reason_def split: if_splits)
  show ?thesis
  proof (rule that [of intent e consumes])
    show "intent \<in> set intents" "si_intent_id intent = os_client_order_id order"
      using find_SomeD [OF f] by simp_all
    show "bd_reasons b = []" using assms(1) f v oe new unfolding consume_order_def Let_def by simp
  qed (use v oe new f in \<open>simp_all add: b'_def consume_order_def\<close>)
qed

lemma consume_order_ok:
  assumes "bd_reasons (consume_order config t rr intents positions order b) = []" "build_ok intents t rr positions b"
  shows "bd_reasons b = [] \<and> build_ok intents t rr positions (consume_order config t rr intents positions order b)
    \<and> order_covered (bd_exposures (consume_order config t rr intents positions order b)) order
    \<and> set (bd_exposures b) \<subseteq> set (bd_exposures (consume_order config t rr intents positions order b))"
proof -
  define b' where "b' = consume_order config t rr intents positions order b"
  obtain intent e consumes where c: "bd_reasons b = []" "intent \<in> set intents"
    "si_intent_id intent = os_client_order_id order" "valid_stored_intent intent t"
    "order_exposure order intent positions (planned_exposure_risk intent rr config) = Inr (e, consumes)"
    "si_intent_id intent \<notin> set (bd_intents b)"
    "bd_exposures b' = bd_exposures b @ [e]" "bd_intents b' = bd_intents b @ [si_intent_id intent]"
    "bd_positions b' = bd_positions b @ (if consumes then [os_symbol order] else [])"
    "bd_fills b' = bd_fills b @ (if Finite 0 < os_filled_quantity order then [si_intent_id intent] else [])"
    using assms(1) unfolding b'_def by (rule consume_order_clean)
  note e = order_exposure_Inr [OF c(5)]
  have ok: "exposure_ok intents t rr e"
    unfolding exposure_ok_def using e c(2,4) planned_exposure_risk_ge by auto
  have cov: "order_covered (bd_exposures b') order" unfolding order_covered_def c(7) using e c(3) by auto
  have pos: "position_covered (bd_exposures b') p"
    if "consumes" "find (\<lambda>p. pos_symbol p = os_symbol order) positions = Some p" for p
    unfolding position_covered_def c(7) using e that find_symbol [OF that(2)] by auto
  have kind: "Finite 0 < os_filled_quantity order \<Longrightarrow> ex_kind e \<noteq> Pending_Entry"
    using order_exposure_kind [OF c(5)] by simp
  have old: "position_covered (bd_exposures b) p \<Longrightarrow> position_covered (bd_exposures b @ [e]) p" for p
    by (rule covered_mono(2)) auto
  have "build_ok intents t rr positions b'"
    using assms(2) ok pos [unfolded c(7)] kind e c(6) old
    unfolding build_ok_def c(7-10) by (auto split: if_splits)
  then show ?thesis using c(1) cov c(7) unfolding b'_def by auto
qed

lemma consume_position_clean:
  assumes "bd_reasons (consume_position config t rr intents filled states p b) = []"
  defines "b' \<equiv> consume_position config t rr intents filled states p b"
  obtains (consumed) "pos_symbol p \<in> set (bd_positions b)" "b' = b"
  | (opened) intent where "bd_reasons b = []" "intent \<in> set intents"
      "position_matches_ledger_or_intent p intent t (find (\<lambda>s. bl_intent_id s = si_intent_id intent) (rev states))"
      "si_intent_id intent \<notin> set (bd_intents b)"
      "bd_exposures b' = bd_exposures b @ [\<lparr> ex_intent_id = si_intent_id intent, ex_symbol = pos_symbol p,
         ex_kind = Open_Position, ex_gross = Finite (position_gross p (rv (si_entry_limit intent))),
         ex_planned_risk = Finite (planned_exposure_risk intent rr config) \<rparr>]"
      "bd_intents b' = bd_intents b @ [si_intent_id intent]" "bd_fills b' = bd_fills b @ [si_intent_id intent]"
      "bd_positions b' = bd_positions b"
proof (cases "pos_symbol p \<in> set (bd_positions b)")
  case True
  then show ?thesis using consumed by (simp add: b'_def consume_position_def)
next
  case False
  then obtain intent where o': "only (filter (\<lambda>i. si_intent_id i \<in> set filled
      \<and> position_matches_ledger_or_intent p i t (find (\<lambda>s. bl_intent_id s = si_intent_id i) (rev states))) intents)
      = Some intent"
    using assms(1) unfolding consume_position_def by (auto simp del: only_Some split: option.splits)
  have i: "intent \<in> set intents"
    "position_matches_ledger_or_intent p intent t (find (\<lambda>s. bl_intent_id s = si_intent_id intent) (rev states))"
    using filter_singleD [OF o' [unfolded only_Some]] by simp_all
  have new: "si_intent_id intent \<notin> set (bd_intents b)"
    using assms(1) False o' unfolding consume_position_def by (auto simp del: only_Some split: if_splits)
  show ?thesis
    by (rule opened [of intent])
      (use assms(1) False o' new i in \<open>simp_all add: b'_def consume_position_def del: only_Some\<close>)
qed

lemma position_match_valid:
  assumes "position_matches_ledger_or_intent p intent t st"
  shows "valid_stored_intent intent t \<and> pos_symbol p = si_symbol intent"
  using assms unfolding position_matches_ledger_or_intent_def position_matches_current_intent_def
  by (auto split: option.splits if_splits)

lemma consume_position_ok:
  assumes "bd_reasons (consume_position config t rr intents filled states p b) = []" "build_ok intents t rr positions b"
    and usable: "\<not> position_unusable p" and mem: "find (\<lambda>q. pos_symbol q = pos_symbol p) positions = Some p"
  defines "b' \<equiv> consume_position config t rr intents filled states p b"
  shows "bd_reasons b = [] \<and> build_ok intents t rr positions b'
    \<and> position_covered (bd_exposures b') p \<and> set (bd_exposures b) \<subseteq> set (bd_exposures b')"
  using assms(1)
proof (cases rule: consume_position_clean)
  case consumed
  then have "position_covered (bd_exposures b) p" using assms(2) mem unfolding build_ok_def by blast
  then show ?thesis using assms(1,2) consumed(2) unfolding b'_def by simp
next
  case (opened intent)
  note m = position_match_valid [OF opened(3)]
  note v = valid_stored_intentD [OF conjunct1 [OF m]]
  define e where "e = \<lparr> ex_intent_id = si_intent_id intent, ex_symbol = pos_symbol p,
         ex_kind = Open_Position, ex_gross = Finite (position_gross p (rv (si_entry_limit intent))),
         ex_planned_risk = Finite (planned_exposure_risk intent rr config) \<rparr>"
  note new = opened(5-8) [folded b'_def e_def]
  have pg: "\<bar>rv (pos_market_value p)\<bar> \<le> position_gross p (rv (si_entry_limit intent))"
    using position_gross_ge v by blast
  moreover have mv: "0 < \<bar>rv (pos_market_value p)\<bar>" using usable by (simp add: position_unusable_def)
  ultimately have g: "0 < position_gross p (rv (si_entry_limit intent))" by linarith
  have ok: "exposure_ok intents t rr e"
    unfolding exposure_ok_def using opened(2) m g planned_exposure_risk_ge by (auto simp: e_def)
  have "\<bar>rv (pos_market_value p)\<bar> * (1 - deps) \<le> \<bar>rv (pos_market_value p)\<bar> * 1"
    using mv by (intro mult_left_mono) (simp_all add: deps_def)
  then have cov: "position_covered (bd_exposures b') p"
    unfolding position_covered_def new(1) using pg by (auto simp: e_def)
  have old: "position_covered (bd_exposures b) q \<Longrightarrow> position_covered (bd_exposures b @ [e]) q" for q
    by (rule covered_mono(2)) auto
  have "build_ok intents t rr positions b'"
    using assms(2) ok opened(4) old unfolding build_ok_def new by (auto simp: e_def)
  then show ?thesis using opened(1) cov new(1) by auto
qed

lemma find_distinct: "distinct (map f xs) \<Longrightarrow> x \<in> set xs \<Longrightarrow> find (\<lambda>y. f y = f x) xs = Some x"
  by (induction xs) auto

lemma consume_order_keeps:
  assumes "bd_reasons (consume_order config t rr intents positions order b) = []"
  shows "bd_reasons b = []
    \<and> set (bd_exposures b) \<subseteq> set (bd_exposures (consume_order config t rr intents positions order b))"
  using assms by (rule consume_order_clean) auto

lemma consume_position_keeps:
  assumes "bd_reasons (consume_position config t rr intents filled states p b) = []"
  shows "bd_reasons b = []
    \<and> set (bd_exposures b) \<subseteq> set (bd_exposures (consume_position config t rr intents filled states p b))"
  using assms by (cases rule: consume_position_clean) (use assms in auto)

text \<open>The two loops, from a clean end back to a clean start.\<close>

lemma orders_loop:
  assumes "bd_reasons (fold (consume_order config t rr intents positions) os b) = []"
    "build_ok intents t rr positions b"
  defines "b' \<equiv> fold (consume_order config t rr intents positions) os b"
  shows "build_ok intents t rr positions b' \<and> (\<forall>order \<in> set os. order_covered (bd_exposures b') order)"
proof
  note clean = conjunct1 [OF consume_order_keeps]
  have keep: "bd_reasons (consume_order config t rr intents positions y c) = [] \<Longrightarrow> order_covered (bd_exposures c) x \<Longrightarrow>
      order_covered (bd_exposures (consume_order config t rr intents positions y c)) x" for x y c
    by (rule covered_mono(1) [OF conjunct2 [OF consume_order_keeps]])
  show "build_ok intents t rr positions b'"
    unfolding b'_def
    by (rule fold_keep [where Q = "build_ok intents t rr positions", OF clean _ assms(1,2)])
      (use consume_order_ok in blast)+
  show "\<forall>order \<in> set os. order_covered (bd_exposures b') order"
    unfolding b'_def
    by (rule fold_covers [where I = "build_ok intents t rr positions"
          and Q = "\<lambda>x c. order_covered (bd_exposures c) x", OF clean _ _ _ assms(1,2)])
      (use consume_order_ok keep in blast)+
qed

lemma positions_loop:
  assumes "bd_reasons (fold (consume_position config t rr intents filled states) ps b) = []"
    "build_ok intents t rr positions b" "set ps \<subseteq> set positions" "distinct (map pos_symbol positions)"
    "\<forall>p \<in> set positions. \<not> position_unusable p"
  defines "b' \<equiv> fold (consume_position config t rr intents filled states) ps b"
  shows "build_ok intents t rr positions b' \<and> (\<forall>p \<in> set ps. position_covered (bd_exposures b') p)
    \<and> set (bd_exposures b) \<subseteq> set (bd_exposures b')"
proof (intro conjI)
  note clean = conjunct1 [OF consume_position_keeps]
  have keep: "bd_reasons (consume_position config t rr intents filled states y c) = [] \<Longrightarrow>
      position_covered (bd_exposures c) x \<Longrightarrow>
      position_covered (bd_exposures (consume_position config t rr intents filled states y c)) x" for x y c
    by (rule covered_mono(2) [OF conjunct2 [OF consume_position_keeps]])
  have step: "build_ok intents t rr positions c \<Longrightarrow>
      bd_reasons (consume_position config t rr intents filled states p c) = [] \<Longrightarrow>
      build_ok intents t rr positions (consume_position config t rr intents filled states p c)
      \<and> position_covered (bd_exposures (consume_position config t rr intents filled states p c)) p"
    if "p \<in> set ps" for p c
    using consume_position_ok find_distinct [OF assms(4)] assms(3,5) that by blast
  show "build_ok intents t rr positions b'"
    unfolding b'_def
    by (rule fold_keep [where Q = "build_ok intents t rr positions", OF clean _ assms(1,2)])
      (use step in blast)+
  show "\<forall>p \<in> set ps. position_covered (bd_exposures b') p"
    unfolding b'_def
    by (rule fold_covers [where I = "build_ok intents t rr positions"
          and Q = "\<lambda>x c. position_covered (bd_exposures c) x", OF clean _ _ _ assms(1,2)])
      (use step keep in blast)+
  show "set (bd_exposures b) \<subseteq> set (bd_exposures b')"
    unfolding b'_def
    by (rule fold_keep [where Q = "\<lambda>c. set (bd_exposures b) \<subseteq> set (bd_exposures c)", OF clean _ assms(1)])
      (use consume_position_keeps in blast)+
qed

subsection \<open>Properties of the builder\<close>

text \<open>C20. A complete portfolio hides nothing: every open order and every position of the broker has
  an exposure at least as large as it is worth, every intent with fill evidence has a filled
  exposure, and every exposure belongs to one valid stored intent of the day, with its own symbol,
  and reserves at least a full risk slot.\<close>

theorem complete_portfolio_hides_nothing:
  assumes "build_paper_portfolio state intents filled config states = Inr (Complete p)"
  shows "(\<forall>order \<in> set (bs_open_orders state). order_covered (pf_exposures p) order)
    \<and> (\<forall>position \<in> set (bs_positions state). position_covered (pf_exposures p) position)
    \<and> (\<forall>i \<in> set filled \<union> bl_intent_id ` {st \<in> set states. bl_has_fill_evidence st}.
         \<exists>e \<in> set (pf_exposures p). ex_intent_id e = i \<and> ex_kind e \<noteq> Pending_Entry)
    \<and> (\<forall>e \<in> set (pf_exposures p). exposure_ok intents (pf_observed_at p) (reserved_slot_risk state config) e)
    \<and> distinct (map ex_symbol (pf_exposures p)) \<and> distinct (map ex_intent_id (pf_exposures p))"
proof -
  define t where "t = ac_observed_at (bs_account state)"
  define rr where "rr = reserved_slot_risk state config"
  obtain positions preasons where ps: "positions_by_symbol (bs_positions state) [] [] = (positions, preasons)"
    by (cases "positions_by_symbol (bs_positions state) [] []")
  define start where "start = \<lparr> bd_exposures = [], bd_positions = [], bd_intents = [], bd_fills = [],
      bd_reasons = (if distinct (map si_intent_id intents) then [] else [Duplicate_Intent_Ids])
        @ (if distinct (map bl_intent_id states) then [] else [Duplicate_Projections]) @ preasons \<rparr>"
  define mid where "mid = fold (consume_order config t rr intents positions) (bs_open_orders state) start"
  define final where "final = fold (consume_position config t rr intents filled states) positions mid"
  note def_ = assms [unfolded build_paper_portfolio_def Let_def ps prod.case, folded t_def rr_def start_def,
      folded mid_def, folded final_def]
  have p: "pf_exposures p = bd_exposures final" "pf_observed_at p = t" and reasons: "bd_reasons final = []"
    and missing: "filter (\<lambda>i. i \<notin> set (bd_fills final)) (filled @ map bl_intent_id (filter bl_has_fill_evidence states)) = []"
    and sym: "distinct (map ex_symbol (bd_exposures final))"
    using def_ by (auto split: if_splits)
  have mid: "bd_reasons mid = []"
    by (rule fold_reasons [OF conjunct1 [OF consume_position_keeps] reasons [unfolded final_def]])
  have start: "bd_reasons start = []"
    by (rule fold_reasons [OF conjunct1 [OF consume_order_keeps] mid [unfolded mid_def]])
  then have "preasons = []" by (simp add: start_def split: if_splits)
  then have pos: "positions = bs_positions state" "distinct (map pos_symbol positions)"
    "\<forall>p \<in> set positions. \<not> position_unusable p"
    using positions_by_symbol_clean [of "bs_positions state" "[]" "[]" positions] ps by auto
  have "build_ok intents t rr positions start" by (simp add: build_ok_def start_def)
  note orders = orders_loop [OF mid [unfolded mid_def] this, folded mid_def]
  note covered = positions_loop [OF reasons [unfolded final_def] conjunct1 [OF orders] subset_refl pos(2,3),
      folded final_def]
  have "\<forall>order \<in> set (bs_open_orders state). order_covered (bd_exposures final) order"
    using orders covered covered_mono(1) by blast
  moreover have "\<forall>i \<in> set filled \<union> bl_intent_id ` {st \<in> set states. bl_has_fill_evidence st}. i \<in> set (bd_fills final)"
    using missing by (auto simp: filter_empty_conv)
  ultimately show ?thesis
    using covered sym p pos(1) rr_def unfolding build_ok_def by auto
qed

definition example_build_now :: int where
  "example_build_now = ny_utc (combine (ymd2ord 2026 7 6) (time_of 10 0))"

definition example_build_intent :: stored_intent where
  "example_build_intent = example_stored\<lparr>si_created_at := Some (Aware (example_build_now - minute_us))\<rparr>"

definition example_build_state :: paper_broker_state where
  "example_build_state = \<lparr> bs_account = \<lparr> ac_observed_at = Aware example_build_now, ac_status = ''ACTIVE'',
       ac_trading_blocked = False, ac_equity = Finite 30000, ac_last_equity = Finite 30100,
       ac_buying_power = Finite 20000, ac_fingerprint = ''f'' \<rparr>,
     bs_open_orders = [example_rest_order\<lparr>os_status := ''partially_filled'', os_filled_quantity := Finite 40\<rparr>],
     bs_positions = [\<lparr> pos_symbol = ''ABC'', pos_quantity = Finite 40, pos_market_value = Finite 404 \<rparr>],
     bs_protective_ocos = [] \<rparr>"

definition example_built :: complete_portfolio where
  "example_built = \<lparr> pf_observed_at = Aware example_build_now, pf_account_status = ''ACTIVE'',
     pf_trading_blocked = False, pf_equity = Finite 30000, pf_last_equity = Finite 30100,
     pf_buying_power = Finite 20000,
     pf_exposures = [\<lparr> ex_intent_id = ''i1'', ex_symbol = ''ABC'', ex_kind = Partial_Entry,
       ex_gross = Finite 1004, ex_planned_risk = Finite 75 \<rparr>] \<rparr>"

lemma example_build:
  "build_paper_portfolio example_build_state [example_build_intent] [''i1''] default_paper_risk_config []
     = Inr (Complete example_built)"
  by code_simp

theorem complete_portfolio_hides_nothing_witness:
  "position_covered (pf_exposures example_built)
     \<lparr> pos_symbol = ''ABC'', pos_quantity = Finite 40, pos_market_value = Finite 404 \<rparr>"
  using complete_portfolio_hides_nothing [OF example_build] by (simp add: example_build_state_def)

end
