(* ===== verification/Protective_Orders.thy ===== *)
theory Protective_Orders
  imports Broker_Projection Mutation_Recovery Mutation_Executor
begin

text \<open>
  \<^verbatim>\<open>paper_protective_exit.py\<close> and \<^verbatim>\<open>paper_protective_oco_lifecycle.py\<close>: the protective
  take-profit and stop-loss pair of a filled entry.  The plan is made from the projected entry, the
  position and the protective fills so far; the lifecycle compares it with what the broker holds
  and either plans, leaves alone, cancels for a resize, or refuses.  SHA-256 and the decimal text
  of a price are the parameters \<open>digest\<close> and \<open>num_text\<close>.
\<close>

subsection \<open>Reasons\<close>

datatype protective_reason =
    Entry_Anomaly anomaly
  | Position_Symbol_Differs | Position_Quantity_Differs | Entry_Detail_Incomplete | Entry_Fill_Negative
  | Protective_Fill_Unexplained | Entry_Ledger_Differs | Protective_Prices_Invalid | Position_Missing
  | Position_Not_Whole

definition protective_reason_order :: "protective_reason list" where
  "protective_reason_order =
     [Entry_Anomaly Activity_Order_Id, Entry_Anomaly Activity_Side, Entry_Anomaly Activity_Symbol,
      Entry_Anomaly Activity_Total_Differs_Rest, Entry_Anomaly Activity_Running_Total,
      Entry_Anomaly Activity_Leaves, Entry_Anomaly Activity_Kind, Entry_Anomaly Activity_Average_Price,
      Entry_Anomaly Rest_Filled_Quantity, Entry_Anomaly Rest_Partial_Quantity,
      Entry_Anomaly Rest_Below_Stream, Entry_Anomaly Rest_Average_Differs_Executions,
      Entry_Anomaly Rest_Average_Invalid, Entry_Anomaly Rest_Detail_Incomplete,
      Entry_Anomaly Rest_Terminal_Changed, Entry_Anomaly Rest_Fill_Decreased,
      Entry_Anomaly (Rest_Mismatch F_Client_Order_Id), Entry_Anomaly (Rest_Mismatch F_Extended_Hours),
      Entry_Anomaly (Rest_Mismatch F_Limit_Price), Entry_Anomaly (Rest_Mismatch F_Quantity),
      Entry_Anomaly (Rest_Mismatch F_Side), Entry_Anomaly (Rest_Mismatch F_Symbol),
      Entry_Anomaly (Rest_Mismatch F_Time_In_Force), Entry_Anomaly Rest_Several_Orders,
      Entry_Anomaly Rest_Terminal_Quantity_Changed, Entry_Anomaly Rest_Terminal_Price_Changed,
      Entry_Anomaly Rest_Quantity_Range, Entry_Anomaly Rest_No_Activity, Entry_Anomaly Rest_No_Average,
      Entry_Anomaly Stream_Gap_Recovered, Entry_Anomaly Stream_Average_Differs_Activity,
      Position_Symbol_Differs, Position_Quantity_Differs, Entry_Detail_Incomplete, Entry_Fill_Negative,
      Entry_Anomaly Legacy_Lifecycle, Entry_Anomaly Legacy_Fill, Entry_Anomaly Replacement,
      Protective_Fill_Unexplained, Entry_Ledger_Differs, Protective_Prices_Invalid,
      Entry_Anomaly Several_Terminals, Entry_Anomaly Several_Order_Ids, Entry_Anomaly Fill_Quantity,
      Entry_Anomaly Event_After_Terminal, Entry_Anomaly Stream_Final_Gap, Entry_Anomaly Stream_Gap,
      Entry_Anomaly Stream_No_Execution_Id, Entry_Anomaly Stream_No_Price,
      Entry_Anomaly Stream_No_Quantity, Position_Missing, Position_Not_Whole]"

lemma in_protective_reason_order: "x \<in> set protective_reason_order"
proof (cases x)
  case (Entry_Anomaly a)
  have "a \<in> set anomaly_order" by (rule in_anomaly_order)
  then show ?thesis unfolding Entry_Anomaly anomaly_order_def protective_reason_order_def by auto
qed (simp_all add: protective_reason_order_def)

instantiation protective_reason :: linorder
begin

definition less_eq_protective_reason :: "protective_reason \<Rightarrow> protective_reason \<Rightarrow> bool" where
  "less_eq_protective_reason x y \<longleftrightarrow> list_rank x protective_reason_order \<le> list_rank y protective_reason_order"

definition less_protective_reason :: "protective_reason \<Rightarrow> protective_reason \<Rightarrow> bool" where
  "less_protective_reason x y \<longleftrightarrow> list_rank x protective_reason_order < list_rank y protective_reason_order"

instance
proof
  fix x y z :: protective_reason
  show "x < y \<longleftrightarrow> x \<le> y \<and> \<not> y \<le> x" "x \<le> x" "x \<le> y \<Longrightarrow> y \<le> z \<Longrightarrow> x \<le> z" "x \<le> y \<or> y \<le> x"
    by (auto simp: less_eq_protective_reason_def less_protective_reason_def)
  show "x \<le> y \<Longrightarrow> y \<le> x \<Longrightarrow> x = y"
    using nth_list_rank [OF in_protective_reason_order] by (metis less_eq_protective_reason_def order_antisym)
qed

end

datatype exit_reason =
    Protective protective_reason
  | Position_Unconfirmed
  | Entry_Not_Unique | Position_Duplicated | Oco_Duplicated | Oco_Source_Not_Unique
  | Mutation_History_Missing | Vanished_Oco_Not_Terminal | Source_Unconfirmed
  | Pending_Cancel_Wait | Not_Cancelable
  | History_Identity_Duplicated | History_Not_Matched
  | Leg_Fill_Invalid | Both_Legs_Filled

datatype coverage_reason =
    Protective_Plan_Missing string | Protective_Oco_Not_Unique string | Protective_Oco_Differs string

datatype exit_decision =
    Exit_Plan oco_exit_plan
  | No_Exit_Required string
  | Exit_Blocked "exit_reason list"
  | Resize_Cancel resize_cancel_plan

text \<open>\<^theory_text>\<open>int(Decimal("Infinity"))\<close> raises \<^theory_text>\<open>OverflowError\<close>.\<close>

datatype exit_error = Quantity_Overflow

subsection \<open>Coverage\<close>

definition covering_order_statuses :: "string list" where
  "covering_order_statuses = [''new'', ''accepted'', ''pending_new'', ''partially_filled'']"

definition protective_oco_covers_position :: "oco_exit_plan \<Rightarrow> oco_snapshot \<Rightarrow> paper_position \<Rightarrow> bool" where
  "protective_oco_covers_position plan snapshot position =
     (let take_profit = oco_take_profit snapshot; stop_loss = oco_stop_loss snapshot;
          remaining_take_profit = num_sub (leg_quantity take_profit) (leg_filled_quantity take_profit);
          remaining_stop_loss = num_sub (leg_quantity stop_loss) (leg_filled_quantity stop_loss);
          expected_quantity = num_abs (pos_quantity position);
          position_side_is_valid = (case op_side plan of
              SELL \<Rightarrow> Finite 0 < pos_quantity position | BUY \<Rightarrow> pos_quantity position < Finite 0)
      in is_aware (oco_observed_at snapshot)
         \<and> position_side_is_valid
         \<and> pos_symbol position = op_symbol plan
         \<and> num_eq (num_max (leg_quantity take_profit) (leg_quantity stop_loss)) (Finite (of_int (op_quantity plan)))
         \<and> Finite 0 \<le> leg_filled_quantity take_profit \<and> leg_filled_quantity take_profit \<le> leg_quantity take_profit
         \<and> Finite 0 \<le> leg_filled_quantity stop_loss \<and> leg_filled_quantity stop_loss \<le> leg_quantity stop_loss
         \<and> num_eq remaining_take_profit expected_quantity
         \<and> num_eq remaining_stop_loss expected_quantity
         \<and> leg_broker_order_id take_profit \<noteq> leg_broker_order_id stop_loss
         \<and> leg_client_order_id take_profit = op_client_order_id plan
         \<and> leg_client_order_id stop_loss \<noteq> []
         \<and> leg_symbol take_profit = op_symbol plan \<and> op_symbol plan = leg_symbol stop_loss
         \<and> leg_side take_profit = op_side plan \<and> op_side plan = leg_side stop_loss
         \<and> leg_status take_profit \<in> set covering_order_statuses
         \<and> leg_status stop_loss \<in> set covering_order_statuses
         \<and> opt_num_eq (leg_limit_price take_profit) (Some (op_take_profit_limit plan))
         \<and> leg_stop_price take_profit = None
         \<and> leg_limit_price stop_loss = None
         \<and> opt_num_eq (leg_stop_price stop_loss) (Some (op_stop_price plan))
         \<and> leg_time_in_force take_profit = plan_time_in_force
         \<and> leg_time_in_force stop_loss = plan_time_in_force
         \<and> \<not> leg_extended_hours take_profit
         \<and> \<not> leg_extended_hours stop_loss)"

definition exposure_coverage_reasons ::
    "paper_broker_state \<Rightarrow> stored_oco_plan list \<Rightarrow> portfolio_exposure \<Rightarrow> coverage_reason list" where
  "exposure_coverage_reasons broker_state stored_plans exposure =
     (if ex_kind exposure = Pending_Entry then []
      else
        let plans = filter (\<lambda>p. op_parent_intent_id (sp_plan p) = ex_intent_id exposure) stored_plans
        in if plans = [] then [Protective_Plan_Missing (ex_intent_id exposure)]
           else
             let plan = sp_plan (last plans);
                 protections = filter (\<lambda>s. leg_client_order_id (oco_take_profit s) = op_client_order_id plan)
                   (bs_protective_ocos broker_state);
                 positions = filter (\<lambda>p. pos_symbol p = ex_symbol exposure) (bs_positions broker_state)
             in case (only protections, only positions) of
                  (Some protection, Some position) \<Rightarrow>
                    if protective_oco_covers_position plan protection position then []
                    else [Protective_Oco_Differs (ex_intent_id exposure)]
                | _ \<Rightarrow> [Protective_Oco_Not_Unique (ex_intent_id exposure)])"

definition missing_protective_oco_reasons ::
    "'r portfolio_snapshot \<Rightarrow> paper_broker_state \<Rightarrow> stored_oco_plan list \<Rightarrow> coverage_reason list" where
  "missing_protective_oco_reasons portfolio broker_state stored_plans =
     (case portfolio of
        Incomplete _ \<Rightarrow> []
      | Complete p \<Rightarrow> concat (map (exposure_coverage_reasons broker_state stored_plans) (pf_exposures p)))"

subsection \<open>The plan\<close>

definition protective_client_order_id ::
    "(string \<Rightarrow> string) \<Rightarrow> (pynum \<Rightarrow> string) \<Rightarrow> string \<Rightarrow> string option \<Rightarrow> int \<Rightarrow> pynum \<Rightarrow> pynum \<Rightarrow> string" where
  "protective_client_order_id digest num_text parent_intent_id replacement_source_key quantity take_profit_limit stop_price =
     (let material = (case replacement_source_key of
            None \<Rightarrow> parent_intent_id
          | Some key \<Rightarrow> parent_intent_id @ ''|'' @ key @ ''|'' @ int_text quantity
              @ ''|'' @ num_text take_profit_limit @ ''|'' @ num_text stop_price)
      in ''protect-'' @ take 40 (digest material))"

definition prices_are_valid :: "stored_intent \<Rightarrow> bool" where
  "prices_are_valid intent =
     (case si_side intent of
        BUY \<Rightarrow> Finite 0 < si_stop intent \<and> si_stop intent < si_entry_limit intent
             \<and> si_entry_limit intent < si_target_2r intent
      | SELL \<Rightarrow> Finite 0 < si_target_2r intent \<and> si_target_2r intent < si_entry_limit intent
             \<and> si_entry_limit intent < si_stop intent)"

definition not_whole :: "pynum \<Rightarrow> bool" where
  "not_whole q = (case q of Finite r \<Rightarrow> \<not> is_integral r | NaN \<Rightarrow> True | _ \<Rightarrow> False)"

definition exit_reasons ::
    "stored_intent \<Rightarrow> broker_order_state \<Rightarrow> pynum \<Rightarrow> protective_reason list" where
  "exit_reasons intent order_state confirmed_protective_fill =
     (let filled = bl_cumulative_filled_quantity order_state in
      map Entry_Anomaly (bl_anomaly_reasons order_state)
      @ (if bl_intent_id order_state \<noteq> si_intent_id intent then [Entry_Ledger_Differs] else [])
      @ (if filled < Finite 0 then [Entry_Fill_Negative] else [])
      @ (if \<not> is_finite confirmed_protective_fill \<or> confirmed_protective_fill < Finite 0
            \<or> filled < confirmed_protective_fill \<or> not_whole confirmed_protective_fill
         then [Protective_Fill_Unexplained] else [])
      @ (if Finite 0 < filled \<and> \<not> bl_execution_detail_complete order_state then [Entry_Detail_Incomplete] else []))"

definition position_exit_reasons :: "stored_intent \<Rightarrow> pynum \<Rightarrow> paper_position option \<Rightarrow> protective_reason list" where
  "position_exit_reasons intent expected_position position =
     (case position of
        None \<Rightarrow> [Position_Missing]
      | Some p \<Rightarrow>
          (if pos_symbol p \<noteq> si_symbol intent then [Position_Symbol_Differs] else [])
          @ (if \<not> num_eq (pos_quantity p) expected_position then [Position_Quantity_Differs] else [])
          @ (if not_whole (num_abs (pos_quantity p)) then [Position_Not_Whole] else []))"

definition opposite :: "order_side \<Rightarrow> order_side" where
  "opposite side = (case side of BUY \<Rightarrow> SELL | SELL \<Rightarrow> BUY)"

definition plan_protective_oco_exit ::
    "(string \<Rightarrow> string) \<Rightarrow> (pynum \<Rightarrow> string) \<Rightarrow> stored_intent \<Rightarrow> broker_order_state \<Rightarrow> paper_position option
      \<Rightarrow> pynum \<Rightarrow> string option \<Rightarrow> exit_error + exit_decision" where
  "plan_protective_oco_exit digest num_text intent order_state position confirmed_protective_fill replacement_source_key =
     (let remaining = num_sub (bl_cumulative_filled_quantity order_state) confirmed_protective_fill;
          expected_position = (case si_side intent of BUY \<Rightarrow> remaining | SELL \<Rightarrow> num_neg remaining);
          entry_reasons = exit_reasons intent order_state confirmed_protective_fill
      in if num_eq remaining (Finite 0) \<and> position = None \<and> entry_reasons = []
         then Inr (No_Exit_Required (si_intent_id intent))
         else
           let reasons = entry_reasons @ position_exit_reasons intent expected_position position
                 @ (if \<not> prices_are_valid intent then [Protective_Prices_Invalid] else [])
           in if reasons \<noteq> [] then Inr (Exit_Blocked (map Protective (sorted_set reasons)))
              else case position of
                None \<Rightarrow> Inr (Exit_Blocked [Position_Unconfirmed])
              | Some p \<Rightarrow>
                  (case num_abs (pos_quantity p) of
                     Finite q \<Rightarrow>
                       Inr (Exit_Plan
                         \<lparr> op_client_order_id = protective_client_order_id digest num_text (si_intent_id intent)
                             replacement_source_key \<lfloor>q\<rfloor> (si_target_2r intent) (si_stop intent),
                           op_parent_intent_id = si_intent_id intent,
                           op_symbol = si_symbol intent,
                           op_side = opposite (si_side intent),
                           op_quantity = \<lfloor>q\<rfloor>,
                           op_take_profit_limit = si_target_2r intent,
                           op_stop_price = si_stop intent \<rparr>)
                   | _ \<Rightarrow> Inl Quantity_Overflow))"

subsection \<open>The lifecycle\<close>

definition cancelable_statuses :: "string list" where
  "cancelable_statuses = [''new'', ''accepted'', ''pending_new'', ''partially_filled'']"

definition terminal_statuses :: "string list" where
  "terminal_statuses =
     [''filled'', ''canceled'', ''expired'', ''rejected'', ''done_for_day'', ''stopped'', ''calculated'', ''replaced'']"

text \<open>The part of \<^verbatim>\<open>ReconciliationLedger\<close> the lifecycle reads.\<close>

record reconciliation_ledger =
  rl_intents :: "stored_intent list"
  rl_order_states :: "broker_order_state list"
  rl_oco_plans :: "stored_oco_plan list"
  rl_mutation_intents :: "stored_mutation_intent list"
  rl_mutation_events :: "(int \<times> sha \<times> mutation_event) list"

definition matching_plans :: "stored_oco_plan list \<Rightarrow> oco_snapshot \<Rightarrow> stored_oco_plan list" where
  "matching_plans plans snapshot = filter (\<lambda>p. oco_snapshot_matches_plan snapshot (sp_plan p)) plans"

definition matched_history ::
    "stored_oco_plan list \<Rightarrow> oco_snapshot list \<Rightarrow> (stored_oco_plan \<times> oco_snapshot) list \<times> exit_reason list" where
  "matched_history plans snapshots =
     (let parent_ids = map (\<lambda>s. leg_broker_order_id (oco_take_profit s)) snapshots;
          client_ids = map (\<lambda>s. leg_client_order_id (oco_take_profit s)) snapshots;
          matches = concat (map (\<lambda>s. case only (matching_plans plans s) of
              None \<Rightarrow> [] | Some p \<Rightarrow> [(p, s)]) snapshots);
          reasons = (if distinct parent_ids \<and> distinct client_ids then [] else [History_Identity_Duplicated])
            @ concat (map (\<lambda>s. case only (matching_plans plans s) of
                None \<Rightarrow> [History_Not_Matched] | Some p \<Rightarrow> []) snapshots)
      in (matches, unique_in_order reasons))"

definition latest_matched_plan ::
    "stored_oco_plan list \<Rightarrow> (stored_oco_plan \<times> oco_snapshot) list \<Rightarrow> stored_oco_plan option" where
  "latest_matched_plan plans matched =
     find (\<lambda>p. sp_plan_key p \<in> set (map (sp_plan_key \<circ> fst) matched)) (rev plans)"

definition leg_fill_invalid :: "oco_snapshot \<Rightarrow> bool" where
  "leg_fill_invalid s \<longleftrightarrow>
     (let take_profit = leg_filled_quantity (oco_take_profit s); stop_loss = leg_filled_quantity (oco_stop_loss s)
      in \<not> is_finite take_profit \<or> \<not> is_finite stop_loss
         \<or> take_profit < Finite 0 \<or> stop_loss < Finite 0
         \<or> leg_quantity (oco_take_profit s) < take_profit \<or> leg_quantity (oco_stop_loss s) < stop_loss)"

fun protective_fill_walk :: "oco_snapshot list \<Rightarrow> pynum \<Rightarrow> exit_reason list \<Rightarrow> pynum \<times> exit_reason list" where
  "protective_fill_walk [] running reasons = (running, reasons)"
| "protective_fill_walk (s # ss) running reasons =
     (let take_profit = leg_filled_quantity (oco_take_profit s); stop_loss = leg_filled_quantity (oco_stop_loss s)
      in if leg_fill_invalid s then protective_fill_walk ss running (reasons @ [Leg_Fill_Invalid])
         else if Finite 0 < take_profit \<and> Finite 0 < stop_loss
         then protective_fill_walk ss running (reasons @ [Both_Legs_Filled])
         else protective_fill_walk ss (num_add running (num_add take_profit stop_loss)) reasons)"

definition confirmed_protective_fill :: "oco_snapshot list \<Rightarrow> pynum \<times> exit_reason list" where
  "confirmed_protective_fill snapshots =
     (let (running, reasons) = protective_fill_walk snapshots (Finite 0) [] in (running, unique_in_order reasons))"

definition snapshot_is_terminal :: "oco_snapshot \<Rightarrow> bool" where
  "snapshot_is_terminal s \<longleftrightarrow>
     leg_status (oco_take_profit s) \<in> set terminal_statuses \<and> leg_status (oco_stop_loss s) \<in> set terminal_statuses"

definition prior_protective_mutation_requires_history :: "reconciliation_ledger \<Rightarrow> string list \<Rightarrow> bool" where
  "prior_protective_mutation_requires_history ledger plan_keys =
     list_ex (\<lambda>si.
        let intent = smi_intent si;
            events = filter (\<lambda>(_, key, _). key = smi_key si) (rl_mutation_events ledger)
        in mi_operation intent = Submit_Protective_Oco
           \<and> mi_protective_plan_key intent \<in> Some ` set plan_keys
           \<and> (case events of [] \<Rightarrow> False
              | e # es \<Rightarrow> me_event_type (snd (snd (foldl (\<lambda>best x. if fst x > fst best then x else best) e es)))
                         \<noteq> Recovered_Absent))
       (rl_mutation_intents ledger)"

text \<open>The last part: what to do about the open pair, given what is desired.\<close>

definition resize_or_keep ::
    "string \<Rightarrow> stored_intent \<Rightarrow> stored_oco_plan option \<Rightarrow> oco_snapshot \<Rightarrow> paper_position option \<Rightarrow> exit_decision" where
  "resize_or_keep parent_intent_id intent open_source snapshot position =
     (case open_source of
        None \<Rightarrow> Exit_Blocked [Source_Unconfirmed]
      | Some source \<Rightarrow>
          if (case position of None \<Rightarrow> False
              | Some p \<Rightarrow> protective_oco_covers_position (sp_plan source) snapshot p)
          then No_Exit_Required parent_intent_id
          else
            let statuses = [leg_status (oco_take_profit snapshot), leg_status (oco_stop_loss snapshot)]
            in if ''pending_cancel'' \<in> set statuses then Exit_Blocked [Pending_Cancel_Wait]
               else if \<not> list_all (\<lambda>status. status \<in> set cancelable_statuses) statuses
               then Exit_Blocked [Not_Cancelable]
               else Resize_Cancel
                 \<lparr> rcp_parent_intent_id = parent_intent_id,
                   rcp_source_plan_key = sp_plan_key source,
                   rcp_broker_order_id = leg_broker_order_id (oco_take_profit snapshot),
                   rcp_symbol = si_symbol intent,
                   rcp_observed_at = oco_observed_at snapshot \<rparr>)"

definition plan_current_protective_oco_lifecycle ::
    "(string \<Rightarrow> string) \<Rightarrow> (pynum \<Rightarrow> string) \<Rightarrow> reconciliation_ledger \<Rightarrow> paper_broker_state \<Rightarrow> oco_snapshot list
      \<Rightarrow> string \<Rightarrow> exit_error + exit_decision" where
  "plan_current_protective_oco_lifecycle digest num_text ledger broker_state observed_protective_ocos parent_intent_id =
     (case (only (filter (\<lambda>i. si_intent_id i = parent_intent_id) (rl_intents ledger)),
            only (filter (\<lambda>s. bl_intent_id s = parent_intent_id) (rl_order_states ledger))) of
        (Some intent, Some order_state) \<Rightarrow>
          (let plans = filter (\<lambda>p. op_parent_intent_id (sp_plan p) = parent_intent_id) (rl_oco_plans ledger);
               relevant_history = filter (\<lambda>s. leg_symbol (oco_take_profit s) = si_symbol intent) observed_protective_ocos;
               (matched, reasons) = matched_history plans relevant_history;
               (protective_fill, fill_reasons) = confirmed_protective_fill relevant_history;
               positions = filter (\<lambda>p. pos_symbol p = si_symbol intent) (bs_positions broker_state);
               open_ocos = filter (\<lambda>s. leg_symbol (oco_take_profit s) = si_symbol intent) (bs_protective_ocos broker_state);
               position = (case positions of [] \<Rightarrow> None | p # _ \<Rightarrow> Some p);
               open_oco = (case open_ocos of [] \<Rightarrow> None | s # _ \<Rightarrow> Some s);
               open_source = (case open_oco of None \<Rightarrow> None | Some s \<Rightarrow> only (matching_plans plans s));
               latest_source = latest_matched_plan plans matched
           in if reasons \<noteq> [] then Inr (Exit_Blocked reasons)
              else if fill_reasons \<noteq> [] then Inr (Exit_Blocked fill_reasons)
              else if length positions > 1 then Inr (Exit_Blocked [Position_Duplicated])
              else if length open_ocos > 1 then Inr (Exit_Blocked [Oco_Duplicated])
              else if open_oco \<noteq> None \<and> open_source = None then Inr (Exit_Blocked [Oco_Source_Not_Unique])
              else if open_oco = None \<and> relevant_history = []
                   \<and> prior_protective_mutation_requires_history ledger (map sp_plan_key plans)
              then Inr (Exit_Blocked [Mutation_History_Missing])
              else if open_oco = None \<and> relevant_history \<noteq> []
                   \<and> list_ex (\<lambda>s. \<not> snapshot_is_terminal s) relevant_history
              then Inr (Exit_Blocked [Vanished_Oco_Not_Terminal])
              else
                case plan_protective_oco_exit digest num_text intent order_state position protective_fill
                       (if open_oco \<noteq> None then None else map_option sp_plan_key latest_source) of
                  Inl e \<Rightarrow> Inl e
                | Inr (Exit_Blocked rs) \<Rightarrow> Inr (Exit_Blocked rs)
                | Inr desired \<Rightarrow>
                    (case open_oco of
                       None \<Rightarrow> Inr desired
                     | Some snapshot \<Rightarrow> Inr (resize_or_keep parent_intent_id intent open_source snapshot position)))
      | _ \<Rightarrow> Inr (Exit_Blocked [Entry_Not_Unique]))"

subsection \<open>What a plan is made of\<close>

lemma guard_Nil: "(if b then [x] else []) = [] \<longleftrightarrow> \<not> b"
  by simp

lemma exit_reasons_Nil [guards]:
  assumes "exit_reasons intent st confirmed = []"
  shows "bl_anomaly_reasons st = [] \<and> bl_intent_id st = si_intent_id intent
    \<and> is_finite confirmed \<and> \<not> confirmed < Finite 0 \<and> \<not> bl_cumulative_filled_quantity st < confirmed
    \<and> (Finite 0 < bl_cumulative_filled_quantity st \<longrightarrow> bl_execution_detail_complete st)"
  using assms unfolding exit_reasons_def Let_def append_is_Nil_conv guard_Nil by auto

lemma position_exit_reasons_Nil [guards]:
  assumes "position_exit_reasons intent expected position = []"
  obtains p where "position = Some p" "pos_symbol p = si_symbol intent" "num_eq (pos_quantity p) expected"
    "\<not> not_whole (num_abs (pos_quantity p))"
  using assms unfolding position_exit_reasons_def by (cases position) (auto simp: guard_Nil)

lemma plan_exit_Exit_PlanD [guards]:
  assumes "plan_protective_oco_exit digest num_text intent st position confirmed key = Inr (Exit_Plan pl)"
  obtains p q where "position = Some p" "pos_symbol p = si_symbol intent"
    "num_abs (pos_quantity p) = Finite q" "is_integral q"
    "num_eq (pos_quantity p) (case si_side intent of
        BUY \<Rightarrow> num_sub (bl_cumulative_filled_quantity st) confirmed
      | SELL \<Rightarrow> num_neg (num_sub (bl_cumulative_filled_quantity st) confirmed))"
    "exit_reasons intent st confirmed = []" "prices_are_valid intent"
    "pl = \<lparr> op_client_order_id = protective_client_order_id digest num_text (si_intent_id intent) key \<lfloor>q\<rfloor>
              (si_target_2r intent) (si_stop intent),
            op_parent_intent_id = si_intent_id intent, op_symbol = si_symbol intent,
            op_side = opposite (si_side intent), op_quantity = \<lfloor>q\<rfloor>,
            op_take_profit_limit = si_target_2r intent, op_stop_price = si_stop intent \<rparr>"
proof -
  define expected where "expected = (case si_side intent of
        BUY \<Rightarrow> num_sub (bl_cumulative_filled_quantity st) confirmed
      | SELL \<Rightarrow> num_neg (num_sub (bl_cumulative_filled_quantity st) confirmed))"
  have r: "exit_reasons intent st confirmed = []" "position_exit_reasons intent expected position = []"
    "prices_are_valid intent"
    using assms unfolding plan_protective_oco_exit_def Let_def expected_def [symmetric]
    by (auto split: if_splits)
  from r(2) obtain p where p: "position = Some p" "pos_symbol p = si_symbol intent" "num_eq (pos_quantity p) expected"
    "\<not> not_whole (num_abs (pos_quantity p))"
    by (rule position_exit_reasons_Nil)
  show ?thesis
  proof (cases "num_abs (pos_quantity p)")
    case (Finite q)
    then have "is_integral q" using p(4) by (simp add: not_whole_def)
    then show ?thesis
      using that [OF p(1,2) Finite _ p(3) [unfolded expected_def] r(1,3)] assms p r Finite
      unfolding plan_protective_oco_exit_def Let_def expected_def [symmetric] by (simp split: if_splits)
  qed (use assms p r in \<open>auto simp: plan_protective_oco_exit_def Let_def expected_def [symmetric] split: if_splits\<close>)
qed

lemma planned_quantity:
  assumes "plan_protective_oco_exit digest num_text intent st position confirmed key = Inr (Exit_Plan pl)"
  shows "Finite (of_int (op_quantity pl)) = num_abs (num_sub (bl_cumulative_filled_quantity st) confirmed)"
  using assms
proof (rule plan_exit_Exit_PlanD)
  fix p q
  assume d: "num_abs (pos_quantity p) = Finite q" "is_integral q"
    "num_eq (pos_quantity p) (case si_side intent of
        BUY \<Rightarrow> num_sub (bl_cumulative_filled_quantity st) confirmed
      | SELL \<Rightarrow> num_neg (num_sub (bl_cumulative_filled_quantity st) confirmed))"
    "pl = \<lparr> op_client_order_id = protective_client_order_id digest num_text (si_intent_id intent) key \<lfloor>q\<rfloor>
              (si_target_2r intent) (si_stop intent),
            op_parent_intent_id = si_intent_id intent, op_symbol = si_symbol intent,
            op_side = opposite (si_side intent), op_quantity = \<lfloor>q\<rfloor>,
            op_take_profit_limit = si_target_2r intent, op_stop_price = si_stop intent \<rparr>"
  have neg: "num_abs (num_neg x) = num_abs x" for x by (cases x) auto
  have "num_abs (pos_quantity p) = num_abs (num_sub (bl_cumulative_filled_quantity st) confirmed)"
    using d(3) neg by (auto simp: num_eq_def split: order_side.splits)
  then have "num_abs (num_sub (bl_cumulative_filled_quantity st) confirmed) = Finite q" using d(1) by simp
  moreover have "of_int (op_quantity pl) = q" unfolding d(4) oco_exit_plan.select_convs using d(2) unfolding is_integral_def .
  ultimately show ?thesis by simp
qed

text \<open>A pair that the broker accepts as planned and that has not traded.\<close>

definition fresh_pair :: "oco_exit_plan \<Rightarrow> oco_snapshot \<Rightarrow> bool" where
  "fresh_pair plan s \<longleftrightarrow>
     oco_snapshot_matches_plan s plan \<and> is_aware (oco_observed_at s)
     \<and> (\<forall>leg \<in> {oco_take_profit s, oco_stop_loss s}. leg_status leg \<in> set covering_order_statuses
          \<and> leg_quantity leg = Finite (of_int (op_quantity plan)) \<and> leg_filled_quantity leg = Finite 0)"

lemma expected_position_value:
  assumes "num_eq pq (case side of BUY \<Rightarrow> num_sub a b | SELL \<Rightarrow> num_neg (num_sub a b))" "num_abs pq = Finite q"
    "is_finite b" "\<not> a < b"
  shows "drnd q = q \<and> (0 < q \<longrightarrow> pq = Finite (if side = BUY then q else - q))"
proof -
  obtain c where c: "b = Finite c" using assms(3) by (cases b) auto
  obtain x where x: "pq = Finite x" "q = \<bar>x\<bar>" using assms(2) by (cases pq) auto
  obtain f where f: "a = Finite f"
    using assms(1) x c by (cases a; cases side) (auto simp: num_sub_def num_eq_def)
  have "x = (if side = BUY then drnd (f - c) else - drnd (f - c))"
    using assms(1) x c f by (cases side) simp_all
  moreover have "0 \<le> drnd (f - c)" using assms(4) c f by (intro dec.nonneg) simp
  ultimately show ?thesis using x by (auto split: if_splits)
qed

lemma fresh_pair_covers:
  assumes "fresh_pair plan s" "0 < op_quantity plan" "drnd (of_int (op_quantity plan)) = of_int (op_quantity plan)"
    and "op_take_profit_limit plan \<noteq> NaN" "op_stop_price plan \<noteq> NaN"
    and "pos_symbol p = op_symbol plan"
    and "pos_quantity p = Finite (if op_side plan = SELL then of_int (op_quantity plan) else - of_int (op_quantity plan))"
  shows "protective_oco_covers_position plan s p"
  using assms unfolding fresh_pair_def oco_snapshot_matches_plan_def protective_oco_covers_position_def Let_def
  by (cases "op_side plan") (auto simp: opt_num_eq_def num_eq_def num_max_def plan_extended_hours_def)

lemma lifecycle_cases:
  assumes "plan_current_protective_oco_lifecycle digest num_text ledger state observed parent = Inr d"
  obtains (blocked) rs where "d = Exit_Blocked rs"
  | (desired) intent st position key where "intent \<in> set (rl_intents ledger)" "si_intent_id intent = parent"
      "st \<in> set (rl_order_states ledger)"
      "filter (\<lambda>s. leg_symbol (oco_take_profit s) = si_symbol intent) (bs_protective_ocos state) = []"
      "\<forall>s \<in> set (filter (\<lambda>s. leg_symbol (oco_take_profit s) = si_symbol intent) observed). snapshot_is_terminal s"
      "plan_protective_oco_exit digest num_text intent st position (fst (confirmed_protective_fill
          (filter (\<lambda>s. leg_symbol (oco_take_profit s) = si_symbol intent) observed))) key = Inr d"
  | (opened) intent source s position where "s \<in> set (bs_protective_ocos state)"
      "only (matching_plans (filter (\<lambda>p. op_parent_intent_id (sp_plan p) = parent) (rl_oco_plans ledger)) s) = Some source"
      "d = resize_or_keep parent intent (Some source) s position"
proof -
  define found where "found = only (filter (\<lambda>i. si_intent_id i = parent) (rl_intents ledger))"
  define sts where "sts = only (filter (\<lambda>s. bl_intent_id s = parent) (rl_order_states ledger))"
  note def_ = assms [unfolded plan_current_protective_oco_lifecycle_def Let_def, folded found_def sts_def]
  show ?thesis
  proof (cases "\<exists>intent st. found = Some intent \<and> sts = Some st")
    case False
    then have "d = Exit_Blocked [Entry_Not_Unique]" using def_ by (auto split: option.splits)
    then show ?thesis by (rule blocked)
  next
    case True
    then obtain intent st where is': "found = Some intent" "sts = Some st" by blast
    have mem: "intent \<in> set (rl_intents ledger)" "si_intent_id intent = parent" "st \<in> set (rl_order_states ledger)"
      using is' filter_singleD [of "\<lambda>i. si_intent_id i = parent" "rl_intents ledger" intent]
        filter_singleD [of "\<lambda>s. bl_intent_id s = parent" "rl_order_states ledger" st]
      unfolding found_def sts_def by auto
    define plans where "plans = filter (\<lambda>p. op_parent_intent_id (sp_plan p) = parent) (rl_oco_plans ledger)"
    define hist where "hist = filter (\<lambda>s. leg_symbol (oco_take_profit s) = si_symbol intent) observed"
    define ocos where "ocos = filter (\<lambda>s. leg_symbol (oco_take_profit s) = si_symbol intent) (bs_protective_ocos state)"
    obtain matched reasons where mh: "matched_history plans hist = (matched, reasons)" by (cases "matched_history plans hist")
    obtain fill fill_reasons where cf: "confirmed_protective_fill hist = (fill, fill_reasons)"
      by (cases "confirmed_protective_fill hist")
    note body = def_ [unfolded is' prod.case option.case, folded plans_def hist_def ocos_def, unfolded mh cf prod.case]
    show ?thesis
    proof (cases ocos)
      case Nil
      show ?thesis
      proof (cases "\<exists>rs. d = Exit_Blocked rs")
        case True
        then show ?thesis using blocked by blast
      next
        case False
        have "\<forall>s \<in> set hist. snapshot_is_terminal s"
          using body False Nil by (auto simp: list_ex_iff split: if_splits)
        moreover obtain position key where "plan_protective_oco_exit digest num_text intent st position fill key = Inr d"
          using body False Nil by (auto split: if_splits sum.splits exit_decision.splits)
        ultimately show ?thesis
          using desired [OF mem] Nil cf unfolding ocos_def hist_def by simp
      qed
    next
      case (Cons s rest)
      have s: "s \<in> set (bs_protective_ocos state)" using Cons filter_set [of _ "bs_protective_ocos state"]
        unfolding ocos_def by (metis (no_types, lifting) filter_eq_ConsD in_set_conv_decomp)
      show ?thesis
      proof (cases "\<exists>rs. d = Exit_Blocked rs")
        case True
        then show ?thesis using blocked by blast
      next
        case False
        obtain source where source: "only (matching_plans plans s) = Some source"
          using body False Cons by (cases "only (matching_plans plans s)") (auto simp del: only_Some split: if_splits)
        have "\<exists>position. d = resize_or_keep parent intent (Some source) s position"
          using body False Cons source
          by (auto simp del: only_Some split: if_splits sum.splits exit_decision.splits)
        then show ?thesis using opened [OF s] source unfolding plans_def by blast
      qed
    qed
  qed
qed

subsection \<open>Properties of the protective orders\<close>

text \<open>A planned pair closes exactly what is open: opposite side, the whole position, stop and
  target on the right sides of the entry; and once the broker holds it untraded, the coverage check
  accepts it for that position.\<close>

theorem planned_pair_covers_position:
  assumes "plan_protective_oco_exit digest num_text intent st position confirmed key = Inr (Exit_Plan pl)"
  shows "\<exists>p. position = Some p \<and> op_symbol pl = pos_symbol p
    \<and> Finite (of_int (op_quantity pl)) = num_abs (pos_quantity p)
    \<and> op_side pl = opposite (si_side intent) \<and> op_parent_intent_id pl = si_intent_id intent
    \<and> (case si_side intent of
         BUY \<Rightarrow> op_stop_price pl < si_entry_limit intent \<and> si_entry_limit intent < op_take_profit_limit pl
       | SELL \<Rightarrow> op_take_profit_limit pl < si_entry_limit intent \<and> si_entry_limit intent < op_stop_price pl)
    \<and> (0 < op_quantity pl \<longrightarrow> (\<forall>s. fresh_pair pl s \<longrightarrow> protective_oco_covers_position pl s p))"
proof -
  obtain p q where d: "position = Some p" "pos_symbol p = si_symbol intent"
    "num_abs (pos_quantity p) = Finite q" "is_integral q"
    "num_eq (pos_quantity p) (case si_side intent of
        BUY \<Rightarrow> num_sub (bl_cumulative_filled_quantity st) confirmed
      | SELL \<Rightarrow> num_neg (num_sub (bl_cumulative_filled_quantity st) confirmed))"
    "exit_reasons intent st confirmed = []" "prices_are_valid intent"
    "pl = \<lparr> op_client_order_id = protective_client_order_id digest num_text (si_intent_id intent) key \<lfloor>q\<rfloor>
              (si_target_2r intent) (si_stop intent),
            op_parent_intent_id = si_intent_id intent, op_symbol = si_symbol intent,
            op_side = opposite (si_side intent), op_quantity = \<lfloor>q\<rfloor>,
            op_take_profit_limit = si_target_2r intent, op_stop_price = si_stop intent \<rparr>"
    using assms by (rule plan_exit_Exit_PlanD)
  have q: "of_int \<lfloor>q\<rfloor> = q" using d(4) by (simp add: is_integral_def)
  note e = exit_reasons_Nil [OF d(6)]
  have v: "drnd q = q" "0 < q \<longrightarrow> pos_quantity p = Finite (if si_side intent = BUY then q else - q)"
    using expected_position_value [OF d(5,3)] e by auto
  have prices: "op_take_profit_limit pl \<noteq> NaN" "op_stop_price pl \<noteq> NaN"
    using d(7) unfolding d(8) prices_are_valid_def by (auto split: order_side.splits)
  have covers: "protective_oco_covers_position pl s p" if "0 < op_quantity pl" "fresh_pair pl s" for s
  proof (rule fresh_pair_covers [OF that(2,1) _ prices])
    have "0 < q" using that(1) q unfolding d(8) by (metis of_int_0_less_iff oco_exit_plan.select_convs(5))
    then show "pos_quantity p = Finite (if op_side pl = SELL then of_int (op_quantity pl) else - of_int (op_quantity pl))"
      using v(2) q unfolding d(8) by (cases "si_side intent") (auto simp: opposite_def)
    show "drnd (of_int (op_quantity pl)) = of_int (op_quantity pl)" 
      unfolding d(8) oco_exit_plan.select_convs q by (rule v(1))
    show "pos_symbol p = op_symbol pl" by (simp add: d(2,8))
  qed
  show ?thesis
    using d(1-3,7) q covers by (intro exI [of _ p]) (auto simp: d(8) prices_are_valid_def split: order_side.splits)
qed

definition example_entry_state :: broker_order_state where
  "example_entry_state = \<lparr> bl_intent_id = ''i1'', bl_broker_order_ids = [''b1''], bl_terminal_event_types = [EV_Fill],
     bl_cumulative_filled_quantity = Finite 100, bl_complete_fill = True, bl_terminal = True,
     bl_has_fill_evidence = True, bl_anomaly_reasons = [], bl_execution_detail_complete = True,
     bl_warning_reasons = [], bl_execution_average_price = Some (Finite 10) \<rparr>"

definition example_position :: paper_position where
  "example_position = \<lparr> pos_symbol = ''ABC'', pos_quantity = Finite 60, pos_market_value = Finite 600 \<rparr>"

definition example_exit_plan :: oco_exit_plan where
  "example_exit_plan = \<lparr> op_client_order_id = ''protect-i1'', op_parent_intent_id = ''i1'', op_symbol = ''ABC'',
     op_side = SELL, op_quantity = 60, op_take_profit_limit = Finite 11, op_stop_price = Finite (95 / 10) \<rparr>"

lemma example_exit_planned:
  "plan_protective_oco_exit id (\<lambda>_. ''0'') example_stored example_entry_state (Some example_position) (Finite 40) None
     = Inr (Exit_Plan example_exit_plan)"
  by code_simp

theorem planned_pair_covers_position_witness:
  "Finite (of_int (op_quantity example_exit_plan)) = num_abs (Finite 60)"
  using planned_pair_covers_position [OF example_exit_planned] by (simp add: example_position_def)

text \<open>C21. The lifecycle never doubles a protection: it plans a new pair only when no pair of the symbol
  is open and every earlier one is terminal, for exactly the entry fills not yet closed; and it
  cancels only the one open pair, which a stored plan of the same entry describes.\<close>

theorem lifecycle_never_doubles_protection:
  assumes "plan_current_protective_oco_lifecycle digest num_text ledger state observed parent = Inr d"
  shows "\<exists>intent st.
    (\<forall>pl. d = Exit_Plan pl \<longrightarrow>
       si_intent_id intent = parent \<and> intent \<in> set (rl_intents ledger) \<and> st \<in> set (rl_order_states ledger)
       \<and> (\<forall>s \<in> set (bs_protective_ocos state). leg_symbol (oco_take_profit s) \<noteq> si_symbol intent)
       \<and> (\<forall>s \<in> set observed. leg_symbol (oco_take_profit s) = si_symbol intent \<longrightarrow> snapshot_is_terminal s)
       \<and> (\<exists>fill. Finite (of_int (op_quantity pl)) = num_abs (num_sub (bl_cumulative_filled_quantity st) fill)
            \<and> fill = fst (confirmed_protective_fill
                (filter (\<lambda>s. leg_symbol (oco_take_profit s) = si_symbol intent) observed))))
    \<and> (\<forall>c. d = Resize_Cancel c \<longrightarrow>
       (\<exists>s \<in> set (bs_protective_ocos state). \<exists>p \<in> set (rl_oco_plans ledger).
          rcp_broker_order_id c = leg_broker_order_id (oco_take_profit s) \<and> rcp_source_plan_key c = sp_plan_key p
          \<and> op_parent_intent_id (sp_plan p) = parent \<and> oco_snapshot_matches_plan s (sp_plan p)))"
proof -
  show ?thesis
    using assms
  proof (cases rule: lifecycle_cases)
    case (blocked rs)
    then show ?thesis by simp
  next
    case (desired intent st position key)
    have "\<exists>fill. Finite (of_int (op_quantity pl)) = num_abs (num_sub (bl_cumulative_filled_quantity st) fill)
        \<and> fill = fst (confirmed_protective_fill (filter (\<lambda>s. leg_symbol (oco_take_profit s) = si_symbol intent) observed))"
      if "d = Exit_Plan pl" for pl
      using planned_quantity [OF desired(6) [unfolded that]] by blast
    moreover have "\<forall>c. d \<noteq> Resize_Cancel c"
      using desired(6) by (auto simp: plan_protective_oco_exit_def Let_def split: if_splits option.splits pynum.splits)
    ultimately show ?thesis using desired(1-5) by (intro exI [of _ intent] exI [of _ st]) (auto simp: filter_empty_conv)
  next
    case (opened intent source s position)
    have src: "source \<in> set (rl_oco_plans ledger)" "op_parent_intent_id (sp_plan source) = parent"
      "oco_snapshot_matches_plan s (sp_plan source)"
      using filter_singleD [OF opened(2) [unfolded only_Some matching_plans_def]] by simp_all
    have "d = Resize_Cancel c \<Longrightarrow> rcp_broker_order_id c = leg_broker_order_id (oco_take_profit s)
        \<and> rcp_source_plan_key c = sp_plan_key source" and "\<forall>pl. d \<noteq> Exit_Plan pl" for c
      using opened(3) by (auto simp: resize_or_keep_def Let_def split: if_splits option.splits)
    then show ?thesis using opened(1) src by blast
  qed
qed

definition example_recon_ledger :: reconciliation_ledger where
  "example_recon_ledger = \<lparr> rl_intents = [example_stored], rl_order_states = [example_entry_state],
     rl_oco_plans = [], rl_mutation_intents = [], rl_mutation_events = [] \<rparr>"

definition example_held_state :: paper_broker_state where
  "example_held_state = \<lparr> bs_account = \<lparr> ac_observed_at = Aware 0, ac_status = ''ACTIVE'', ac_trading_blocked = False,
       ac_equity = Finite 30000, ac_last_equity = Finite 30000, ac_buying_power = Finite 29000,
       ac_fingerprint = ''f'' \<rparr>,
     bs_open_orders = [], bs_positions = [example_position\<lparr>pos_quantity := Finite 100\<rparr>],
     bs_protective_ocos = [] \<rparr>"

theorem lifecycle_never_doubles_protection_witness:
  "\<exists>pl. plan_current_protective_oco_lifecycle id (\<lambda>_. ''0'') example_recon_ledger example_held_state [] ''i1''
      = Inr (Exit_Plan pl) \<and> (\<exists>fill. Finite (of_int (op_quantity pl)) = num_abs (num_sub (Finite 100) fill))"
proof -
  define d where "d = plan_current_protective_oco_lifecycle id (\<lambda>_. ''0'') example_recon_ledger example_held_state [] ''i1''"
  have d: "d = Inr (Exit_Plan (example_exit_plan\<lparr>op_quantity := 100\<rparr>))" unfolding d_def by code_simp
  from lifecycle_never_doubles_protection [OF d [unfolded d_def]] obtain st where
    "st \<in> set (rl_order_states example_recon_ledger)" "\<exists>fill. Finite (of_int (op_quantity (example_exit_plan\<lparr>op_quantity := 100\<rparr>)))
       = num_abs (num_sub (bl_cumulative_filled_quantity st) fill)"
    by blast
  then show ?thesis using d unfolding d_def
    by (intro exI [of _ "example_exit_plan\<lparr>op_quantity := 100\<rparr>"]) (simp add: example_recon_ledger_def example_entry_state_def)
qed

end
