(* ===== verification/Recommendation_Store.thy ===== *)
theory Recommendation_Store
  imports Us_Equity_Calendar
begin

text \<open>
  The signal plane's data, \<^verbatim>\<open>trading_agent/models.py\<close>, its table of recommendations,
  \<^verbatim>\<open>trading_agent/store.py\<close>, the risk plan of a signal, \<^verbatim>\<open>trading_agent/risk.py\<close>, and
  the causality rule, \<^verbatim>\<open>trading_agent/causality.py\<close>.  Timestamps are instants
  (\<^theory_text>\<open>astimezone(NEW_YORK)\<close> is \<open>ny\<close>); a price is the rational a finite float denotes and
  every float operation rounds by \<open>frnd\<close>.  The texts that the code only shows are kept as the
  values they are formatted from: the identifier of a recommendation is the triple its text
  joins, notes and rationales are constructors.
\<close>

subsection \<open>Data\<close>

datatype recommendation_state =
    Setup | Active | Invalidated | Causality_Excluded | Stopped | Target_1R | Target_2R | Time_Exit

record bar_input =
  bar_symbol :: symbol
  bar_timestamp :: int
  bar_open :: rat
  bar_high :: rat
  bar_low :: rat
  bar_close :: rat
  bar_volume :: int
  bar_prior_close :: rat
  bar_average_daily_volume :: int
  bar_spread_bps :: rat
  bar_catalyst :: string

record momentum_candidate =
  mc_symbol :: symbol
  mc_timestamp :: int
  mc_price :: rat
  mc_gap_pct :: rat
  mc_change_pct :: rat
  mc_relative_volume :: rat
  mc_cumulative_dollar_volume :: rat
  mc_spread_bps :: rat
  mc_catalyst :: string

text \<open>The figures a strategy's rationale text shows.\<close>

datatype rationale =
    Opening_Range_Break int rat rat
  | Hod_Volume_Break rat rat
  | Vwap_Pullback_Reclaim rat rat
  | Opening_Gap_Hold int rat

record strategy_signal =
  sg_symbol :: symbol
  sg_timestamp :: int
  sg_strategy :: string
  sg_entry :: rat
  sg_stop :: rat
  sg_rationale :: rationale

record trade_plan =
  tp_entry :: rat
  tp_stop :: rat
  tp_target_1r :: rat
  tp_target_2r :: rat
  tp_risk_per_share :: rat

type_synonym recommendation_id = "int \<times> symbol \<times> string"

record recommendation =
  rc_id :: recommendation_id
  rc_symbol :: symbol
  rc_strategy :: string
  rc_created_at :: int
  rc_entry :: rat
  rc_stop :: rat
  rc_target_1r :: rat
  rc_target_2r :: rat
  rc_state :: recommendation_state
  rc_rationale :: rationale

datatype event_note =
    Recommendation_Created | Invalidated_Before_Entry | Entry_Reached | Stop_Reached
  | Target_2R_Reached | Target_1R_Reached | Session_Closed | Closed_At_Last_Bar int
  | Causality_Exclusion_Note

record recommendation_event =
  ev_recommendation_id :: recommendation_id
  ev_occurred_at :: int
  ev_state :: recommendation_state
  ev_price :: "rat option"
  ev_note :: event_note

record recommendation_alert =
  al_recommendation_id :: recommendation_id
  al_queued_at :: int
  al_payload_json :: string
  al_card_markdown :: string

text \<open>What the code raises: \<^theory_text>\<open>sqlite3.IntegrityError\<close>, \<^theory_text>\<open>ZeroDivisionError\<close> and the
  \<^theory_text>\<open>ValueError\<close> of \<^theory_text>\<open>max\<close> over nothing.\<close>

datatype signal_error = Duplicate_Recommendation | Zero_Division | Empty_Range

subsection \<open>The risk plan of a signal\<close>

record risk_config =
  rk_max_spread_bps :: rat
  rk_max_risk_pct :: rat
  rk_target_2r_multiple :: rat

definition default_risk_config :: risk_config where
  "default_risk_config = \<lparr> rk_max_spread_bps = 100, rk_max_risk_pct = frnd (1/20), rk_target_2r_multiple = 2 \<rparr>"

definition build_trade_plan ::
  "rat \<Rightarrow> rat \<Rightarrow> rat \<Rightarrow> risk_config \<Rightarrow> signal_error + trade_plan option" where
  "build_trade_plan entry stop spread_bps config =
     (let risk = frnd (entry - stop)
      in if risk \<le> 0 \<or> spread_bps > rk_max_spread_bps config then Inr None
         else if entry = 0 then Inl Zero_Division
         else if frnd (risk / entry) > rk_max_risk_pct config then Inr None
         else Inr (Some \<lparr> tp_entry = entry, tp_stop = stop, tp_target_1r = frnd (entry + risk),
                tp_target_2r = frnd (entry + frnd (risk * rk_target_2r_multiple config)),
                tp_risk_per_share = risk \<rparr>))"

subsection \<open>The store\<close>

text \<open>
  Rows in the order of insertion, events in the order of their \<^theory_text>\<open>event_id\<close>; a checkpoint is
  the last processed bar of a symbol and its close, which is missing in a migrated table.
\<close>

record paper_store =
  ps_rows :: "recommendation list"
  ps_events :: "recommendation_event list"
  ps_checkpoints :: "symbol \<Rightarrow> (int \<times> rat option) option"
  ps_alerts :: "recommendation_alert list"

definition empty_store :: paper_store where
  "empty_store = \<lparr> ps_rows = [], ps_events = [], ps_checkpoints = (\<lambda>_. None), ps_alerts = [] \<rparr>"

definition set_state ::
  "recommendation_id \<Rightarrow> recommendation_state \<Rightarrow> int \<Rightarrow> rat option \<Rightarrow> event_note \<Rightarrow> paper_store \<Rightarrow> paper_store" where
  "set_state i state occurred_at price note st = st \<lparr>
     ps_rows := map (\<lambda>r. if rc_id r = i then r \<lparr> rc_state := state \<rparr> else r) (ps_rows st),
     ps_events := ps_events st @ [\<lparr> ev_recommendation_id = i, ev_occurred_at = occurred_at,
       ev_state = state, ev_price = price, ev_note = note \<rparr>] \<rparr>"

definition save :: "recommendation \<Rightarrow> paper_store \<Rightarrow> signal_error + paper_store" where
  "save r st =
     (if list_ex (\<lambda>row. rc_id row = rc_id r) (ps_rows st) then Inl Duplicate_Recommendation
      else Inr (set_state (rc_id r) (rc_state r) (rc_created_at r) None Recommendation_Created
        (st \<lparr> ps_rows := ps_rows st @ [r] \<rparr>)))"

text \<open>\<^theory_text>\<open>ORDER BY created_at, symbol\<close>: the text of a New York timestamp sorts by its wall clock.\<close>

definition recommendations :: "paper_store \<Rightarrow> recommendation list" where
  "recommendations st =
     sort_key (\<lambda>r. ny (rc_created_at r)) (sort_key rc_symbol (ps_rows st))"

definition open_states :: "recommendation_state list" where
  "open_states = [Setup, Active, Target_1R]"

definition open_recommendations :: "symbol \<Rightarrow> paper_store \<Rightarrow> recommendation list" where
  "open_recommendations symbol st =
     filter (\<lambda>r. rc_symbol r = symbol \<and> rc_state r \<in> set open_states) (recommendations st)"

definition events :: "recommendation_id \<Rightarrow> paper_store \<Rightarrow> recommendation_event list" where
  "events i st = filter (\<lambda>e. ev_recommendation_id e = i) (ps_events st)"

definition last_processed_bar :: "symbol \<Rightarrow> paper_store \<Rightarrow> int option" where
  "last_processed_bar symbol st = map_option fst (ps_checkpoints st symbol)"

definition last_processed_close :: "symbol \<Rightarrow> paper_store \<Rightarrow> rat option" where
  "last_processed_close symbol st = Option.bind (ps_checkpoints st symbol) snd"

definition set_last_processed_bar :: "symbol \<Rightarrow> int \<Rightarrow> rat \<Rightarrow> paper_store \<Rightarrow> paper_store" where
  "set_last_processed_bar symbol timestamp close st =
     (case last_processed_bar symbol st of
        Some current \<Rightarrow>
          if timestamp \<le> current then st
          else st \<lparr> ps_checkpoints := (ps_checkpoints st)(symbol \<mapsto> (timestamp, Some close)) \<rparr>
      | None \<Rightarrow> st \<lparr> ps_checkpoints := (ps_checkpoints st)(symbol \<mapsto> (timestamp, Some close)) \<rparr>)"

definition queue_alert :: "recommendation_alert \<Rightarrow> paper_store \<Rightarrow> paper_store \<times> bool" where
  "queue_alert alert st =
     (if list_ex (\<lambda>a. al_recommendation_id a = al_recommendation_id alert) (ps_alerts st) then (st, False)
      else (st \<lparr> ps_alerts := ps_alerts st @ [alert] \<rparr>, True))"

subsection \<open>Causality\<close>

definition first_eligible_bar_at :: "int \<Rightarrow> int" where
  "first_eligible_bar_at created_at =
     (let local = ny created_at; minute_start = floor_minute local
      in if local = minute_start then minute_start else minute_start + minute_us)"

definition backdated :: "paper_store \<Rightarrow> recommendation \<Rightarrow> bool" where
  "backdated st r \<longleftrightarrow>
     list_ex (\<lambda>e. ny (ev_occurred_at e) < first_eligible_bar_at (rc_created_at r)) (tl (events (rc_id r) st))"

definition exclude_one :: "int \<Rightarrow> recommendation \<Rightarrow> paper_store \<times> nat \<Rightarrow> paper_store \<times> nat" where
  "exclude_one observed_at r = (\<lambda>(st, excluded).
     if backdated st r
     then (set_state (rc_id r) Causality_Excluded observed_at None Causality_Exclusion_Note st, excluded + 1)
     else (st, excluded))"

definition exclude_backdated_recommendations :: "int \<Rightarrow> paper_store \<Rightarrow> paper_store \<times> nat" where
  "exclude_backdated_recommendations observed_at st =
     fold (exclude_one observed_at)
       (filter (\<lambda>r. rc_state r \<noteq> Causality_Excluded) (recommendations st)) (st, 0)"

end
