(* ===== verification/Momentum_Scanner.thy ===== *)
theory Momentum_Scanner
  imports Recommendation_Store
begin

text \<open>
  \<^verbatim>\<open>trading_agent/scanner.py\<close>, the momentum filter in front of every intraday strategy, and
  \<^verbatim>\<open>trading_agent/strategy_contract.py\<close>, the protocol the strategies implement.  The
  dictionaries of the scanner are functions of (symbol, New York date); the expected volume is
  never below one share, so the only division that can fail is the one by the prior close.
\<close>

type_synonym day_key = "symbol \<times> int"

definition session_key :: "bar_input \<Rightarrow> day_key" where
  "session_key bar = (bar_symbol bar, wall_date (ny (bar_timestamp bar)))"

subsection \<open>The scanner\<close>

record scanner_config =
  sc_min_gap_pct :: rat
  sc_min_change_pct :: rat
  sc_min_relative_volume :: rat
  sc_min_price :: rat
  sc_max_price :: rat
  sc_min_dollar_volume :: rat
  sc_max_spread_bps :: rat

definition default_scanner_config :: scanner_config where
  "default_scanner_config = \<lparr> sc_min_gap_pct = frnd (4/100), sc_min_change_pct = frnd (4/100),
     sc_min_relative_volume = 2, sc_min_price = 1, sc_max_price = 200, sc_min_dollar_volume = 500000,
     sc_max_spread_bps = 100 \<rparr>"

record scanner_state =
  sn_cumulative_volume :: "day_key \<Rightarrow> int option"
  sn_bar_count :: "day_key \<Rightarrow> int option"
  sn_regular_open :: "day_key \<Rightarrow> rat option"

definition new_scanner :: scanner_state where
  "new_scanner = \<lparr> sn_cumulative_volume = (\<lambda>_. None), sn_bar_count = (\<lambda>_. None), sn_regular_open = (\<lambda>_. None) \<rparr>"

definition get_or :: "'v \<Rightarrow> 'v option \<Rightarrow> 'v" where
  "get_or d x = (case x of None \<Rightarrow> d | Some v \<Rightarrow> v)"

definition scanner_observe ::
  "scanner_config \<Rightarrow> bar_input \<Rightarrow> scanner_state \<Rightarrow> scanner_state \<times> (signal_error + momentum_candidate option)" where
  "scanner_observe config bar s0 =
     (let exchange_time = ny (bar_timestamp bar); key = session_key bar;
          s1 = (if floor_minute (wall_time exchange_time) = time_of 9 30
                then s0 \<lparr> sn_regular_open := (sn_regular_open s0)(key \<mapsto> bar_open bar) \<rparr> else s0);
          cumulative = get_or 0 (sn_cumulative_volume s1 key) + bar_volume bar;
          count = get_or 0 (sn_bar_count s1 key) + 1;
          s = s1 \<lparr> sn_cumulative_volume := (sn_cumulative_volume s1)(key \<mapsto> cumulative),
            sn_bar_count := (sn_bar_count s1)(key \<mapsto> count) \<rparr>;
          expected = max 1 (frnd (frnd (of_int (bar_average_daily_volume bar * count)) / 390));
          relative_volume = frnd (frnd (of_int cumulative) / expected)
      in (s,
        if bar_prior_close bar = 0 then Inl Zero_Division
        else let
          gap_pct = frnd (frnd (get_or (bar_open bar) (sn_regular_open s key) / bar_prior_close bar) - 1);
          change_pct = frnd (frnd (bar_close bar / bar_prior_close bar) - 1);
          dollar_volume = frnd (frnd (of_int cumulative) * bar_close bar)
        in if \<not> (gap_pct \<ge> sc_min_gap_pct config \<and> change_pct \<ge> sc_min_change_pct config
              \<and> relative_volume \<ge> sc_min_relative_volume config
              \<and> sc_min_price config \<le> bar_close bar \<and> bar_close bar \<le> sc_max_price config
              \<and> dollar_volume \<ge> sc_min_dollar_volume config
              \<and> bar_spread_bps bar \<le> sc_max_spread_bps config)
           then Inr None
           else Inr (Some \<lparr> mc_symbol = bar_symbol bar, mc_timestamp = bar_timestamp bar,
                  mc_price = bar_close bar, mc_gap_pct = gap_pct, mc_change_pct = change_pct,
                  mc_relative_volume = relative_volume, mc_cumulative_dollar_volume = dollar_volume,
                  mc_spread_bps = bar_spread_bps bar, mc_catalyst = bar_catalyst bar \<rparr>)))"

lemma scanner_observe_ok: "bar_prior_close bar \<noteq> 0 \<Longrightarrow> \<exists>s c. scanner_observe config bar s0 = (s, Inr c)"
  by (simp add: scanner_observe_def Let_def split del: if_split cong: if_cong)
    (metis (no_types, lifting))

lemma scanner_candidate:
  assumes "scanner_observe config bar s0 = (s, Inr (Some c))"
  shows "mc_symbol c = bar_symbol bar \<and> mc_price c = bar_close bar
    \<and> sc_min_gap_pct config \<le> mc_gap_pct c \<and> sc_min_change_pct config \<le> mc_change_pct c
    \<and> sc_min_relative_volume config \<le> mc_relative_volume c
    \<and> sc_min_price config \<le> mc_price c \<and> mc_price c \<le> sc_max_price config
    \<and> sc_min_dollar_volume config \<le> mc_cumulative_dollar_volume c
    \<and> mc_spread_bps c \<le> sc_max_spread_bps config"
  using assms unfolding scanner_observe_def Let_def
  by (auto split: if_splits)

subsection \<open>The strategy protocol\<close>

record 's intraday_strategy =
  is_name :: string
  is_observe :: "bar_input \<Rightarrow> momentum_candidate option \<Rightarrow> 's \<Rightarrow> 's \<times> (signal_error + strategy_signal option)"

text \<open>Times of a bar, as every strategy computes them.\<close>

definition exchange_minute :: "bar_input \<Rightarrow> int" where
  "exchange_minute bar = floor_minute (ny (bar_timestamp bar))"

definition session_open :: "bar_input \<Rightarrow> int" where
  "session_open bar = combine (wall_date (exchange_minute bar)) (time_of 9 30)"

definition session_close :: "bar_input \<Rightarrow> int" where
  "session_close bar = combine (wall_date (exchange_minute bar)) (time_of 16 0)"

definition signal_at :: "bar_input \<Rightarrow> int" where
  "signal_at bar = exchange_minute bar + minute_us"

lemma exchange_minute_date [simp]: "wall_date (exchange_minute bar) = wall_date (ny (bar_timestamp bar))"
  by (simp add: exchange_minute_def)

text \<open>During a session the wall clock names its instant: no offset changes between 02:00 and midnight.\<close>

lemma ny_ny_utc:
  assumes "time_of 9 30 \<le> wall_time w" "wall_time w \<le> time_of 16 0"
  shows "ny (ny_utc w) = w"
proof -
  define d where "d = wall_date w"
  define t where "t = wall_time w"
  have w: "w = combine d t" by (simp add: d_def t_def)
  have t: "34200000000 \<le> t" "t \<le> 57600000000" using assms by (simp_all add: t_def time_of_def)
  have dates: "wall_date (ny_utc w) = d"
    using t unfolding w by (intro wall_date_between [of d 0 _ day_us]) (auto simp: ny_utc_def ny_wall_offset_def Let_def combine_def)
  define a where "a = first_sunday (year_of d) 3 + 7"
  define b where "b = first_sunday (year_of d) 11"
  have le: "(combine a (3 * hour_us) \<le> w \<longleftrightarrow> a \<le> d) \<and> (w < combine b (2 * hour_us) \<longleftrightarrow> d < b)
    \<and> (combine a (7 * hour_us) \<le> w + x \<longleftrightarrow> a \<le> d) \<and> (w + x < combine b (6 * hour_us) \<longleftrightarrow> d < b)"
    if "4 * hour_us \<le> x" "x \<le> 5 * hour_us" for x
    using t that unfolding w combine_def by (auto simp: algebra_simps)
  show ?thesis
    using le [of "4 * hour_us"] le [of "5 * hour_us"] dates
    unfolding ny_def ny_offset_def ny_utc_def ny_wall_offset_def Let_def
    by (auto simp: a_def [symmetric] b_def [symmetric] d_def [symmetric])
qed

text \<open>
  What the engine relies on of a strategy: a signal needs a candidate, is about the bar it was
  shown and is dated one minute after the bar's own minute, inside the session; and after it the
  strategy is spent for that symbol and day.
\<close>

text \<open>The signals a strategy gives on a sequence of bars and candidates.\<close>

fun run_strategy ::
  "'s intraday_strategy \<Rightarrow> (bar_input \<times> momentum_candidate option) list \<Rightarrow> 's \<Rightarrow> strategy_signal list" where
  "run_strategy strategy [] s = []"
| "run_strategy strategy ((bar, c) # rest) s =
     (case is_observe strategy bar c s of
        (s', Inr (Some sg)) \<Rightarrow> sg # run_strategy strategy rest s'
      | (s', _) \<Rightarrow> run_strategy strategy rest s')"

definition signal_day :: "strategy_signal \<Rightarrow> day_key" where
  "signal_day sg = (sg_symbol sg, wall_date (ny (sg_timestamp sg)))"

locale strategy_contract =
  fixes strategy :: "'s intraday_strategy" and spent :: "'s \<Rightarrow> day_key \<Rightarrow> bool"
  assumes signal_spends: "is_observe strategy bar c s = (s', Inr (Some sg)) \<Longrightarrow>
        \<not> spent s (session_key bar) \<and> spent s' (session_key bar)"
    and stays_spent: "spent s key \<Longrightarrow> is_observe strategy bar c s = (s', r) \<Longrightarrow> spent s' key"
    and needs_candidate: "is_observe strategy bar c s = (s', Inr (Some sg)) \<Longrightarrow> c \<noteq> None"
    and signal_fields: "is_observe strategy bar c s = (s', Inr (Some sg)) \<Longrightarrow>
        sg_symbol sg = bar_symbol bar \<and> sg_strategy sg = is_name strategy
        \<and> sg_timestamp sg = ny_utc (signal_at bar)
        \<and> session_open bar \<le> exchange_minute bar \<and> exchange_minute bar < session_close bar"
    and writes_nothing: "is_observe strategy bar c s = (s', Inl err) \<Longrightarrow> err \<noteq> Duplicate_Recommendation"
begin

lemma signal_wall:
  assumes "is_observe strategy bar c s = (s', Inr (Some sg))"
  shows "ny (sg_timestamp sg) = signal_at bar \<and> wall_date (signal_at bar) = wall_date (ny (bar_timestamp bar))
    \<and> ny (bar_timestamp bar) < ny (sg_timestamp sg) \<and> ny (sg_timestamp sg) \<le> session_close bar"
proof -
  define d where "d = wall_date (exchange_minute bar)"
  define w where "w = exchange_minute bar"
  have f: "sg_timestamp sg = ny_utc (signal_at bar)" "combine d (time_of 9 30) \<le> w" "w < combine d (time_of 16 0)"
    using signal_fields [OF assms] by (simp_all add: session_open_def session_close_def d_def w_def del: exchange_minute_date)
  have m: "minute_us dvd w" "minute_us dvd combine d (time_of 16 0)"
    unfolding w_def exchange_minute_def by (rule floor_minute_dvd) (simp add: combine_def time_of_def)
  have le: "w + minute_us \<le> combine d (time_of 16 0)"
  proof -
    obtain j k where "w = minute_us * j" "combine d (time_of 16 0) = minute_us * k"
      using m by (auto elim!: dvdE)
    then show ?thesis using f(3) by simp
  qed
  have wd: "wall_date (w + minute_us) = d"
    using f(2) le by (intro wall_date_between [of d 0 _ day_us]) (auto simp: combine_def time_of_def)
  have "wall_time (w + minute_us) = w + minute_us - combine d 0"
    using combine_wall [of "w + minute_us"] wd by (simp add: combine_def)
  then have "ny (ny_utc (w + minute_us)) = w + minute_us"
    using f(2) le by (intro ny_ny_utc) (auto simp: combine_def time_of_def)
  moreover have "ny (bar_timestamp bar) < w + minute_us"
    using floor_minute_le(2) [of "ny (bar_timestamp bar)"] by (simp add: w_def exchange_minute_def)
  ultimately show ?thesis
    using f(1) wd le by (simp add: signal_at_def w_def d_def session_close_def)
qed

lemma signal_day_of: "is_observe strategy bar c s = (s', Inr (Some sg)) \<Longrightarrow> signal_day sg = session_key bar"
  using signal_wall signal_fields by (simp add: signal_day_def session_key_def)

lemma signals_once:
  "distinct (map signal_day (run_strategy strategy xs s))
    \<and> (\<forall>sg \<in> set (run_strategy strategy xs s). \<not> spent s (signal_day sg))"
proof (induction xs arbitrary: s)
  case (Cons x xs)
  obtain bar c s' r where x [simp]: "x = (bar, c)" "is_observe strategy bar c s = (s', r)"
    by (metis surj_pair)
  have later: "\<not> spent s (signal_day sg)" if "sg \<in> set (run_strategy strategy xs s')" for sg
    using Cons [of s'] that stays_spent x(2) by blast
  show ?case
  proof (cases "\<exists>sg. r = Inr (Some sg)")
    case True
    then obtain sg where sg: "is_observe strategy bar c s = (s', Inr (Some sg))" using x(2) by auto
    then show ?thesis using Cons [of s'] later signal_spends [OF sg] signal_day_of [OF sg]
      by (auto simp: image_iff)
  next
    case False
    then have "run_strategy strategy (x # xs) s = run_strategy strategy xs s'"
      by (cases r) (auto split: option.split)
    then show ?thesis using Cons [of s'] later by simp
  qed
qed simp

end

end
