(* ===== verification/Recommendation_Engine.thy ===== *)
theory Recommendation_Engine
  imports Momentum_Scanner
begin

text \<open>
  \<^verbatim>\<open>trading_agent/engine.py\<close>: the engine that turns bars into recommendations and follows
  them to their end.  Its two private parts, the scanner and the strategy, are lost when the
  process restarts; the store is not.  An operation that raises returns the error and the state
  reached so far.
\<close>

subsection \<open>Following open recommendations\<close>

definition settle :: "bar_input \<Rightarrow> recommendation \<Rightarrow> recommendation_state \<Rightarrow> paper_store \<Rightarrow> paper_store" where
  "settle bar r state st =
     (if state \<notin> {Active, Target_1R} then st
      else if bar_low bar \<le> rc_stop r
      then set_state (rc_id r) Stopped (bar_timestamp bar) (Some (rc_stop r)) Stop_Reached st
      else if bar_high bar \<ge> rc_target_2r r
      then set_state (rc_id r) Target_2R (bar_timestamp bar)
        (Some (max (rc_target_2r r) (bar_open bar))) Target_2R_Reached st
      else if state = Active \<and> bar_high bar \<ge> rc_target_1r r
      then set_state (rc_id r) Target_1R (bar_timestamp bar)
        (Some (max (rc_target_1r r) (bar_open bar))) Target_1R_Reached st
      else st)"

definition update_one :: "bar_input \<Rightarrow> recommendation \<Rightarrow> paper_store \<Rightarrow> paper_store" where
  "update_one bar r st =
     (if ny (bar_timestamp bar) < first_eligible_bar_at (rc_created_at r) then st
      else if rc_state r = Setup
      then if bar_high bar < rc_entry r
           then if bar_low bar \<le> rc_stop r
                then set_state (rc_id r) Invalidated (bar_timestamp bar) (Some (bar_close bar))
                  Invalidated_Before_Entry st
                else st
           else settle bar r Active (set_state (rc_id r) Active (bar_timestamp bar)
                  (Some (max (rc_entry r) (bar_open bar))) Entry_Reached st)
      else settle bar r (rc_state r) st)"

definition update_open_recommendations :: "bar_input \<Rightarrow> paper_store \<Rightarrow> paper_store" where
  "update_open_recommendations bar st = fold (update_one bar) (open_recommendations (bar_symbol bar) st) st"

subsection \<open>The engine\<close>

record 's engine_config =
  ec_scanner :: scanner_config
  ec_strategy :: "'s intraday_strategy"
  ec_risk :: risk_config

record 's engine =
  en_scanner :: scanner_state
  en_strategy :: 's
  en_store :: paper_store

definition new_york_date :: "int \<Rightarrow> int" where
  "new_york_date t = wall_date (ny t)"

definition already_recommended :: "strategy_signal \<Rightarrow> paper_store \<Rightarrow> bool" where
  "already_recommended sg st \<longleftrightarrow>
     list_ex (\<lambda>r. rc_symbol r = sg_symbol sg \<and> rc_strategy r = sg_strategy sg
       \<and> new_york_date (rc_created_at r) = new_york_date (sg_timestamp sg)) (recommendations st)"

definition created_at :: "strategy_signal \<Rightarrow> int option \<Rightarrow> int" where
  "created_at sg available_at =
     (case available_at of
        None \<Rightarrow> sg_timestamp sg
      | Some a \<Rightarrow> if ny (sg_timestamp sg) < ny a then a else sg_timestamp sg)"

text \<open>The part of \<^theory_text>\<open>process\<close> after the strategy has given a signal.\<close>

definition recommend ::
  "risk_config \<Rightarrow> bar_input \<Rightarrow> int option \<Rightarrow> strategy_signal \<Rightarrow> paper_store
     \<Rightarrow> paper_store \<times> (signal_error + recommendation option)" where
  "recommend risk bar available_at sg st =
     (if already_recommended sg st then (st, Inr None)
      else case build_trade_plan (sg_entry sg) (sg_stop sg) (bar_spread_bps bar) risk of
        Inl err \<Rightarrow> (st, Inl err)
      | Inr None \<Rightarrow> (st, Inr None)
      | Inr (Some plan) \<Rightarrow>
          (let created = created_at sg available_at;
               r = \<lparr> rc_id = (created, sg_symbol sg, sg_strategy sg), rc_symbol = sg_symbol sg,
                 rc_strategy = sg_strategy sg, rc_created_at = created, rc_entry = tp_entry plan,
                 rc_stop = tp_stop plan, rc_target_1r = tp_target_1r plan,
                 rc_target_2r = tp_target_2r plan, rc_state = Setup, rc_rationale = sg_rationale sg \<rparr>
           in case save r st of Inl err \<Rightarrow> (st, Inl err) | Inr st' \<Rightarrow> (st', Inr (Some r))))"

definition process ::
  "'s engine_config \<Rightarrow> bar_input \<Rightarrow> int option \<Rightarrow> 's engine
     \<Rightarrow> 's engine \<times> (signal_error + recommendation option)" where
  "process cfg bar available_at e0 =
     (let e1 = e0 \<lparr> en_store := update_open_recommendations bar (en_store e0) \<rparr>;
          (scanner, candidate) = scanner_observe (ec_scanner cfg) bar (en_scanner e1);
          e2 = e1 \<lparr> en_scanner := scanner \<rparr>
      in case candidate of Inl err \<Rightarrow> (e2, Inl err) | Inr c \<Rightarrow>
        (let (strategy, signal) = is_observe (ec_strategy cfg) bar c (en_strategy e2);
             e3 = e2 \<lparr> en_strategy := strategy \<rparr>
         in case signal of Inl err \<Rightarrow> (e3, Inl err)
          | Inr None \<Rightarrow> (e3, Inr None)
          | Inr (Some sg) \<Rightarrow>
              (let (store, r) = recommend (ec_risk cfg) bar available_at sg (en_store e3)
               in (e3 \<lparr> en_store := store \<rparr>, r))))"

definition warmup :: "'s engine_config \<Rightarrow> bar_input \<Rightarrow> 's engine \<Rightarrow> 's engine \<times> (signal_error + unit)" where
  "warmup cfg bar e0 =
     (let (scanner, candidate) = scanner_observe (ec_scanner cfg) bar (en_scanner e0);
          e1 = e0 \<lparr> en_scanner := scanner \<rparr>
      in case candidate of Inl err \<Rightarrow> (e1, Inl err) | Inr _ \<Rightarrow>
        (let (strategy, signal) = is_observe (ec_strategy cfg) bar None (en_strategy e1);
             e2 = e1 \<lparr> en_strategy := strategy \<rparr>
         in case signal of Inl err \<Rightarrow> (e2, Inl err) | Inr _ \<Rightarrow> (e2, Inr ())))"

definition advance :: "'s engine_config \<Rightarrow> bar_input \<Rightarrow> 's engine \<Rightarrow> 's engine \<times> (signal_error + unit)" where
  "advance cfg bar e =
     warmup cfg bar (e \<lparr> en_store := update_open_recommendations bar (en_store e) \<rparr>)"

text \<open>A loop over bars that stops at the first error.\<close>

fun each_bar ::
  "(bar_input \<Rightarrow> 'e \<Rightarrow> 'e \<times> (signal_error + unit)) \<Rightarrow> bar_input list \<Rightarrow> 'e \<Rightarrow> 'e \<times> (signal_error + unit)" where
  "each_bar f [] e = (e, Inr ())"
| "each_bar f (bar # bars) e =
     (case f bar e of (e', Inl err) \<Rightarrow> (e', Inl err) | (e', Inr _) \<Rightarrow> each_bar f bars e')"

definition process_snapshot ::
  "'s engine_config \<Rightarrow> bar_input list \<Rightarrow> 's engine \<Rightarrow> 's engine \<times> (signal_error + recommendation option)" where
  "process_snapshot cfg bars e =
     (if bars = [] then (e, Inr None)
      else case each_bar (warmup cfg) (butlast bars) e of
        (e', Inl err) \<Rightarrow> (e', Inl err)
      | (e', Inr _) \<Rightarrow> process cfg (last bars) None e')"

definition history_bars :: "int option \<Rightarrow> bar_input list \<Rightarrow> bar_input list" where
  "history_bars checkpoint bars =
     (case checkpoint of None \<Rightarrow> [] | Some t \<Rightarrow> filter (\<lambda>bar. bar_timestamp bar \<le> t) bars)"

definition pending_bars :: "int option \<Rightarrow> bar_input list \<Rightarrow> bar_input list" where
  "pending_bars checkpoint bars =
     filter (\<lambda>bar. case checkpoint of None \<Rightarrow> True | Some t \<Rightarrow> bar_timestamp bar > t) bars"

definition checkpoint_after :: "symbol \<Rightarrow> bar_input list \<Rightarrow> 's engine \<Rightarrow> 's engine" where
  "checkpoint_after symbol pending e = e \<lparr> en_store :=
     set_last_processed_bar symbol (bar_timestamp (last pending)) (bar_close (last pending)) (en_store e) \<rparr>"

definition process_forward ::
  "'s engine_config \<Rightarrow> bar_input list \<Rightarrow> int option \<Rightarrow> 's engine
     \<Rightarrow> 's engine \<times> (signal_error + recommendation option)" where
  "process_forward cfg bars available_at e =
     (if bars = [] then (e, Inr None)
      else let symbol = bar_symbol (last bars); checkpoint = last_processed_bar symbol (en_store e);
               pending = pending_bars checkpoint bars
           in case each_bar (warmup cfg) (history_bars checkpoint bars) e of
             (e1, Inl err) \<Rightarrow> (e1, Inl err)
           | (e1, Inr _) \<Rightarrow>
             if pending = [] then (e1, Inr None)
             else case each_bar (advance cfg) (butlast pending) e1 of
               (e2, Inl err) \<Rightarrow> (e2, Inl err)
             | (e2, Inr _) \<Rightarrow>
               (case process cfg (last pending) available_at e2 of
                  (e3, Inl err) \<Rightarrow> (e3, Inl err)
                | (e3, Inr r) \<Rightarrow> (checkpoint_after symbol pending e3, Inr r)))"

definition advance_forward ::
  "'s engine_config \<Rightarrow> bar_input list \<Rightarrow> 's engine \<Rightarrow> 's engine \<times> (signal_error + nat)" where
  "advance_forward cfg bars e =
     (if bars = [] then (e, Inr 0)
      else let symbol = bar_symbol (last bars); checkpoint = last_processed_bar symbol (en_store e);
               pending = pending_bars checkpoint bars
           in case each_bar (warmup cfg) (history_bars checkpoint bars) e of
             (e1, Inl err) \<Rightarrow> (e1, Inl err)
           | (e1, Inr _) \<Rightarrow>
             (case each_bar (advance cfg) pending e1 of
                (e2, Inl err) \<Rightarrow> (e2, Inl err)
              | (e2, Inr _) \<Rightarrow>
                (if pending = [] then e2 else checkpoint_after symbol pending e2, Inr (length pending))))"

definition finalize_day :: "bar_input \<Rightarrow> paper_store \<Rightarrow> paper_store" where
  "finalize_day bar st =
     fold (\<lambda>r. set_state (rc_id r) Time_Exit (bar_timestamp bar) (Some (bar_close bar)) Session_Closed)
       (open_recommendations (bar_symbol bar) st) st"

definition finalize_one :: "int \<Rightarrow> recommendation \<Rightarrow> paper_store \<times> nat \<Rightarrow> paper_store \<times> nat" where
  "finalize_one observed_at r = (\<lambda>(st, finalized).
     if rc_state r \<notin> set open_states then (st, finalized)
     else let session_date = new_york_date (rc_created_at r)
          in case (regular_session_bounds session_date, last_processed_bar (rc_symbol r) st,
                   last_processed_close (rc_symbol r) st) of
               (Some (_, closes), Some checkpoint, Some last_close) \<Rightarrow>
                 if ny observed_at < closes \<or> new_york_date checkpoint \<noteq> session_date then (st, finalized)
                 else (set_state (rc_id r) Time_Exit (ny_utc closes) (Some last_close)
                   (Closed_At_Last_Bar checkpoint) st, finalized + 1)
             | _ \<Rightarrow> (st, finalized))"

definition finalize_due_recommendations :: "int \<Rightarrow> paper_store \<Rightarrow> paper_store \<times> nat" where
  "finalize_due_recommendations observed_at st =
     fold (finalize_one observed_at) (recommendations st) (st, 0)"

end
