(* ===== verification/Recommendation_Invariants.thy ===== *)
theory Recommendation_Invariants
  imports Recommendation_Engine "HOL-Library.Multiset"
begin

text \<open>
  How the signal plane writes its table.  Every operation is a sequence of \<open>set_state\<close> on one
  recommendation after another; \<open>store_ok\<close> says that every history starts with the creation,
  takes only legal steps and ends in the stored state, and every pass over the table keeps it.
\<close>

subsection \<open>Legal histories\<close>

fun legal_change :: "recommendation_state \<Rightarrow> recommendation_state \<Rightarrow> bool" where
  "legal_change Setup s \<longleftrightarrow> s \<in> {Active, Invalidated, Time_Exit, Causality_Excluded}"
| "legal_change Active s \<longleftrightarrow> s \<in> {Target_1R, Stopped, Target_2R, Time_Exit, Causality_Excluded}"
| "legal_change Target_1R s \<longleftrightarrow> s \<in> {Stopped, Target_2R, Time_Exit, Causality_Excluded}"
| "legal_change Causality_Excluded s \<longleftrightarrow> False"
| "legal_change _ s \<longleftrightarrow> s = Causality_Excluded"

definition recorded :: "(int \<Rightarrow> int \<Rightarrow> bool) \<Rightarrow> paper_store \<Rightarrow> recommendation \<Rightarrow> bool" where
  "recorded Q st r \<longleftrightarrow> rc_id r = (rc_created_at r, rc_symbol r, rc_strategy r)
     \<and> (\<exists>e es. events (rc_id r) st = e # es \<and> ev_state e = Setup \<and> ev_occurred_at e = rc_created_at r
          \<and> pairwise_list legal_change (map ev_state (e # es)) \<and> ev_state (last (e # es)) = rc_state r
          \<and> (\<forall>x \<in> set es. Q (rc_created_at r) (ev_occurred_at x)))"

definition store_ok :: "(int \<Rightarrow> int \<Rightarrow> bool) \<Rightarrow> paper_store \<Rightarrow> bool" where
  "store_ok Q st \<longleftrightarrow> distinct (map rc_id (ps_rows st)) \<and> (\<forall>r \<in> set (ps_rows st). recorded Q st r)
     \<and> (\<forall>e \<in> set (ps_events st). ev_recommendation_id e \<in> rc_id ` set (ps_rows st))"

text \<open>No condition on the times, and the condition of causality.\<close>

definition any_time :: "int \<Rightarrow> int \<Rightarrow> bool" where
  "any_time created t = True"

definition eligible :: "int \<Rightarrow> int \<Rightarrow> bool" where
  "eligible created t \<longleftrightarrow> first_eligible_bar_at created \<le> ny t"

lemma store_ok_empty [simp]: "store_ok Q empty_store"
  by (simp add: store_ok_def empty_store_def)

lemma set_state_simps [simp]:
  "ps_checkpoints (set_state i s t p n st) = ps_checkpoints st" "ps_alerts (set_state i s t p n st) = ps_alerts st"
  "map rc_id (ps_rows (set_state i s t p n st)) = map rc_id (ps_rows st)"
  by (auto simp: set_state_def)

lemma ids_set_state [simp]: "rc_id ` set (ps_rows (set_state i s t p n st)) = rc_id ` set (ps_rows st)"
  by (metis image_set set_state_simps(3))

lemma rows_set_state:
  "ps_rows (set_state i s t p n st) = map (\<lambda>r. if rc_id r = i then r \<lparr> rc_state := s \<rparr> else r) (ps_rows st)"
  by (simp add: set_state_def)

lemma events_set_state:
  "events j (set_state i s t p n st) = (if i = j
     then events j st @ [\<lparr> ev_recommendation_id = i, ev_occurred_at = t, ev_state = s, ev_price = p, ev_note = n \<rparr>]
     else events j st)"
  by (simp add: events_def set_state_def)

lemma events_update [simp]:
  "events i (st \<lparr> ps_rows := x \<rparr>) = events i st" "events i (st \<lparr> ps_checkpoints := c \<rparr>) = events i st"
  "events i (st \<lparr> ps_alerts := a \<rparr>) = events i st"
  by (simp_all add: events_def)

lemma pairwise_list_append:
  "pairwise_list P (xs @ [y]) \<longleftrightarrow> pairwise_list P xs \<and> (xs \<noteq> [] \<longrightarrow> P (last xs) y)"
  by (induction P xs rule: pairwise_list.induct) auto

lemma recorded_cong: "events (rc_id r) st = events (rc_id r) st' \<Longrightarrow> recorded Q st r = recorded Q st' r"
  by (simp add: recorded_def)

lemma store_okD:
  assumes "store_ok Q st"
  shows "r \<in> set (ps_rows st) \<Longrightarrow> recorded Q st r"
    and "r \<in> set (ps_rows st) \<Longrightarrow> r' \<in> set (ps_rows st) \<Longrightarrow> rc_id r' = rc_id r \<Longrightarrow> r' = r"
    and "distinct (map rc_id (ps_rows st))"
    and "e \<in> set (ps_events st) \<Longrightarrow> ev_recommendation_id e \<in> rc_id ` set (ps_rows st)"
  using assms by (simp_all add: store_ok_def distinct_map inj_on_def)

lemma store_ok_set_state:
  assumes "store_ok Q st" "r \<in> set (ps_rows st)" "legal_change (rc_state r) s" "Q (rc_created_at r) t"
  shows "store_ok Q (set_state (rc_id r) s t p n st)"
proof -
  have rows: "r' = r" if "r' \<in> set (ps_rows st)" "rc_id r' = rc_id r" for r'
    using store_okD(2) [OF assms(1,2) that] .
  have "recorded Q (set_state (rc_id r) s t p n st) (if rc_id r' = rc_id r then r' \<lparr> rc_state := s \<rparr> else r')"
    if r': "r' \<in> set (ps_rows st)" for r'
  proof (cases "rc_id r' = rc_id r")
    case False
    then have "events (rc_id r') (set_state (rc_id r) s t p n st) = events (rc_id r') st"
      by (simp add: events_set_state)
    then show ?thesis using store_okD(1) [OF assms(1) r'] False by (simp cong: recorded_cong)
  next
    case True
    then have [simp]: "r' = r" using rows r' by simp
    obtain e es where ev: "events (rc_id r) st = e # es" "ev_state e = Setup" "ev_occurred_at e = rc_created_at r"
      "pairwise_list legal_change (map ev_state (e # es))" "ev_state (last (e # es)) = rc_state r"
      "\<forall>x \<in> set es. Q (rc_created_at r) (ev_occurred_at x)" "rc_id r = (rc_created_at r, rc_symbol r, rc_strategy r)"
      using store_okD(1) [OF assms(1,2)] unfolding recorded_def by blast
    define x where "x = \<lparr> ev_recommendation_id = rc_id r, ev_occurred_at = t, ev_state = s, ev_price = p, ev_note = n \<rparr>"
    have "pairwise_list legal_change (map ev_state (e # es) @ [s])"
    proof -
      have "last (map ev_state (e # es)) = rc_state r" using ev(5) by (subst last_map) simp_all
      then show ?thesis using ev(4) assms(3) unfolding pairwise_list_append by simp
    qed
    then have "pairwise_list legal_change (map ev_state (e # es @ [x]))" by (simp add: x_def)
    moreover have "events (rc_id r) (set_state (rc_id r) s t p n st) = e # es @ [x]"
      by (simp add: events_set_state x_def ev(1))
    ultimately show ?thesis using ev(2,3,6,7) assms(4) unfolding recorded_def
      by (intro conjI exI [of _ e] exI [of _ "es @ [x]"]) (auto simp: x_def)
  qed
  then have "\<forall>r' \<in> set (ps_rows (set_state (rc_id r) s t p n st)). recorded Q (set_state (rc_id r) s t p n st) r'"
    unfolding rows_set_state list.set_map by blast
  moreover have "\<forall>e \<in> set (ps_events (set_state (rc_id r) s t p n st)). ev_recommendation_id e \<in> rc_id ` set (ps_rows st)"
    using assms(1,2) by (auto simp: store_ok_def set_state_def)
  ultimately show ?thesis
    using assms(1) unfolding store_ok_def set_state_simps ids_set_state by blast
qed

lemma save_Inr:
  assumes "save r st = Inr st'" "rc_state r = Setup"
  shows "rc_id r \<notin> rc_id ` set (ps_rows st)" "ps_rows st' = ps_rows st @ [r]"
    "st' = set_state (rc_id r) Setup (rc_created_at r) None Recommendation_Created (st \<lparr> ps_rows := ps_rows st @ [r] \<rparr>)"
proof -
  show new: "rc_id r \<notin> rc_id ` set (ps_rows st)"
    and st': "st' = set_state (rc_id r) Setup (rc_created_at r) None Recommendation_Created (st \<lparr> ps_rows := ps_rows st @ [r] \<rparr>)"
    using assms by (auto simp: save_def list_ex_iff split: if_splits)
  show "ps_rows st' = ps_rows st @ [r]"
    using new assms(2) by (auto simp: st' set_state_def image_iff intro!: map_idI)
qed

lemma store_ok_save:
  assumes "store_ok Q st" "save r st = Inr st'" "rc_state r = Setup" "rc_id r = (rc_created_at r, rc_symbol r, rc_strategy r)"
  shows "store_ok Q st'"
proof -
  note new = save_Inr(1) [OF assms(2,3)] and rows = save_Inr(2) [OF assms(2,3)] and st' = save_Inr(3) [OF assms(2,3)]
  have none: "events (rc_id r) st = []"
    using assms(1) new unfolding store_ok_def events_def filter_empty_conv by metis
  have "recorded Q st' x" if "x \<in> set (ps_rows st)" for x
  proof -
    have "rc_id x \<noteq> rc_id r" using new that by (metis image_eqI)
    then have "events (rc_id x) st' = events (rc_id x) st" by (simp add: st' events_set_state)
    then show ?thesis using store_okD(1) [OF assms(1) that] recorded_cong by metis
  qed
  moreover have "recorded Q st' r"
    using assms(3,4) none by (simp add: recorded_def st' events_set_state)
  moreover have "ev_recommendation_id e \<in> rc_id ` set (ps_rows st @ [r])" if "e \<in> set (ps_events st')" for e
    using that store_okD(4) [OF assms(1)] by (auto simp: st' set_state_def)
  ultimately show ?thesis
    using store_okD(3) [OF assms(1)] new unfolding store_ok_def rows by auto
qed

subsection \<open>Changes of one recommendation\<close>

type_synonym change = "recommendation_state \<times> int \<times> rat option \<times> event_note"

fun apply_changes :: "recommendation_id \<Rightarrow> change list \<Rightarrow> paper_store \<Rightarrow> paper_store" where
  "apply_changes i [] st = st"
| "apply_changes i ((s, t, p, n) # cs) st = apply_changes i cs (set_state i s t p n st)"

definition legal_changes :: "(int \<Rightarrow> int \<Rightarrow> bool) \<Rightarrow> recommendation \<Rightarrow> change list \<Rightarrow> bool" where
  "legal_changes Q r cs \<longleftrightarrow> pairwise_list legal_change (rc_state r # map fst cs)
     \<and> (\<forall>(s, t, p, n) \<in> set cs. Q (rc_created_at r) t)"

lemma apply_changes_keeps [simp]:
  "ps_checkpoints (apply_changes i cs st) = ps_checkpoints st" "ps_alerts (apply_changes i cs st) = ps_alerts st"
  by (induction i cs st rule: apply_changes.induct) simp_all

lemma apply_changes_rows:
  "ps_rows (apply_changes i cs st) =
     map (\<lambda>r. if rc_id r = i \<and> cs \<noteq> [] then r \<lparr> rc_state := fst (last cs) \<rparr> else r) (ps_rows st)"
  by (induction i cs st rule: apply_changes.induct) (auto simp: set_state_def)

lemma apply_changes_other:
  "r \<in> set (ps_rows st) \<Longrightarrow> rc_id r \<noteq> i \<Longrightarrow> r \<in> set (ps_rows (apply_changes i cs st))"
  by (auto simp: apply_changes_rows)

lemma store_ok_apply_changes:
  "store_ok Q st \<Longrightarrow> r \<in> set (ps_rows st) \<Longrightarrow> legal_changes Q r cs \<Longrightarrow> store_ok Q (apply_changes (rc_id r) cs st)"
proof (induction cs arbitrary: r st)
  case Nil
  then show ?case by simp
next
  case (Cons c cs)
  obtain s t p n where c [simp]: "c = (s, t, p, n)" by (cases c)
  have "store_ok Q (set_state (rc_id r) s t p n st)"
    using Cons.prems by (intro store_ok_set_state) (auto simp: legal_changes_def)
  moreover have "r \<lparr> rc_state := s \<rparr> \<in> set (ps_rows (set_state (rc_id r) s t p n st))"
    using Cons.prems(2) by (force simp: set_state_def)
  moreover have "legal_changes Q (r \<lparr> rc_state := s \<rparr>) cs"
    using Cons.prems(3) by (cases cs) (auto simp: legal_changes_def)
  ultimately have "store_ok Q (apply_changes (rc_id (r \<lparr> rc_state := s \<rparr>)) cs (set_state (rc_id r) s t p n st))"
    by (rule Cons.IH)
  then show ?case by simp
qed

text \<open>A pass over the table: every row named is changed legally, by its state before the pass.\<close>

lemma store_ok_pass:
  assumes "store_ok Q st" "distinct (map rc_id rs)" "set rs \<subseteq> set (ps_rows st)"
    and "\<And>r st'. r \<in> set rs \<Longrightarrow> \<exists>cs. f r st' = apply_changes (rc_id r) cs st' \<and> legal_changes Q r cs"
  shows "store_ok Q (fold f rs st) \<and> ps_checkpoints (fold f rs st) = ps_checkpoints st
    \<and> ps_alerts (fold f rs st) = ps_alerts st"
  using assms
proof (induction rs arbitrary: st)
  case (Cons r rs)
  obtain cs where cs: "f r st = apply_changes (rc_id r) cs st" "legal_changes Q r cs"
    using Cons.prems(4) [of r st] by auto
  have "store_ok Q (f r st)"
    unfolding cs(1) using Cons.prems(1,3) cs(2) by (intro store_ok_apply_changes) auto
  moreover have "set rs \<subseteq> set (ps_rows (f r st))"
    unfolding cs(1) using Cons.prems(2,3) by (auto intro!: apply_changes_other simp: image_iff)
  ultimately have "store_ok Q (fold f rs (f r st)) \<and> ps_checkpoints (fold f rs (f r st)) = ps_checkpoints (f r st)
    \<and> ps_alerts (fold f rs (f r st)) = ps_alerts (f r st)"
    using Cons.prems(2,4) by (intro Cons.IH) auto
  then show ?case by (simp add: cs(1))
qed simp

lemma pass_rows:
  assumes "distinct (map rc_id (ps_rows st))" "distinct (map rc_id rs)" "set rs \<subseteq> set (ps_rows st)"
    and "\<And>r st'. r \<in> set rs \<Longrightarrow> f r st' = apply_changes (rc_id r) (g r) st'"
  shows "ps_rows (fold f rs st) =
     map (\<lambda>r. if r \<in> set rs \<and> g r \<noteq> [] then r \<lparr> rc_state := fst (last (g r)) \<rparr> else r) (ps_rows st)"
  using assms
proof (induction rs arbitrary: st)
  case (Cons r rs)
  have f: "f r st = apply_changes (rc_id r) (g r) st" using Cons.prems(4) by simp
  have sub: "set rs \<subseteq> set (ps_rows (f r st))"
    unfolding f using Cons.prems(2,3) by (auto intro!: apply_changes_other simp: image_iff)
  have ids: "map rc_id (ps_rows (f r st)) = map rc_id (ps_rows st)"
    by (simp add: f apply_changes_rows)
  have "ps_rows (fold f rs (f r st)) =
     map (\<lambda>r. if r \<in> set rs \<and> g r \<noteq> [] then r \<lparr> rc_state := fst (last (g r)) \<rparr> else r) (ps_rows (f r st))"
    using Cons.prems sub ids by (intro Cons.IH) auto
  moreover have "x = r" if "x \<in> set (ps_rows st)" "rc_id x = rc_id r" for x
    using Cons.prems(1,3) that by (auto simp: distinct_map dest: inj_onD)
  moreover have "r \<lparr> rc_state := s \<rparr> \<notin> set rs" "r \<notin> set rs" for s
    using Cons.prems(2) by (force simp: image_iff)+
  ultimately show ?case unfolding f apply_changes_rows by (simp add: comp_def) (use f in \<open>auto simp: f\<close>)
qed simp

subsection \<open>The effect of every operation on the store\<close>

lemma recommendations_set [simp]: "set (recommendations st) = set (ps_rows st)"
  by (simp add: recommendations_def)

lemma recommendations_distinct: "distinct (map rc_id (recommendations st)) \<longleftrightarrow> distinct (map rc_id (ps_rows st))"
proof -
  have "mset (map rc_id (recommendations st)) = mset (map rc_id (ps_rows st))"
    by (simp add: recommendations_def)
  then show ?thesis by (metis mset_eq_imp_distinct_iff)
qed

lemma open_recommendations_set:
  "set (open_recommendations symbol st) = {r \<in> set (ps_rows st). rc_symbol r = symbol \<and> rc_state r \<in> set open_states}"
  by (auto simp: open_recommendations_def)

lemma filtered_recommendations_distinct:
  "distinct (map rc_id (ps_rows st)) \<Longrightarrow> distinct (map rc_id (filter P (recommendations st)))"
  using recommendations_distinct [of st] by (simp add: distinct_map_filter)

lemma open_recommendations_distinct:
  "distinct (map rc_id (ps_rows st)) \<Longrightarrow> distinct (map rc_id (open_recommendations symbol st))"
  unfolding open_recommendations_def by (rule filtered_recommendations_distinct)

definition settle_changes :: "bar_input \<Rightarrow> recommendation \<Rightarrow> recommendation_state \<Rightarrow> change list" where
  "settle_changes bar r state =
     (if state \<notin> {Active, Target_1R} then []
      else if bar_low bar \<le> rc_stop r then [(Stopped, bar_timestamp bar, Some (rc_stop r), Stop_Reached)]
      else if bar_high bar \<ge> rc_target_2r r
      then [(Target_2R, bar_timestamp bar, Some (max (rc_target_2r r) (bar_open bar)), Target_2R_Reached)]
      else if state = Active \<and> bar_high bar \<ge> rc_target_1r r
      then [(Target_1R, bar_timestamp bar, Some (max (rc_target_1r r) (bar_open bar)), Target_1R_Reached)]
      else [])"

definition reaction :: "bar_input \<Rightarrow> recommendation \<Rightarrow> change list" where
  "reaction bar r =
     (if \<not> eligible (rc_created_at r) (bar_timestamp bar) then []
      else if rc_state r = Setup
      then if bar_high bar < rc_entry r
           then if bar_low bar \<le> rc_stop r
                then [(Invalidated, bar_timestamp bar, Some (bar_close bar), Invalidated_Before_Entry)] else []
           else (Active, bar_timestamp bar, Some (max (rc_entry r) (bar_open bar)), Entry_Reached)
             # settle_changes bar r Active
      else settle_changes bar r (rc_state r))"

lemma update_one_changes: "update_one bar r st = apply_changes (rc_id r) (reaction bar r) st"
  by (auto simp: update_one_def reaction_def settle_def settle_changes_def eligible_def)

lemma reaction_legal: "rc_state r \<in> set open_states \<Longrightarrow> legal_changes eligible r (reaction bar r)"
  by (auto simp: reaction_def settle_changes_def legal_changes_def open_states_def)

lemma legal_changes_any_time: "legal_changes Q r cs \<Longrightarrow> legal_changes any_time r cs"
  by (auto simp: legal_changes_def any_time_def)

definition follow :: "bar_input \<Rightarrow> recommendation \<Rightarrow> recommendation" where
  "follow bar r = (if rc_symbol r = bar_symbol bar \<and> rc_state r \<in> set open_states \<and> reaction bar r \<noteq> []
     then r \<lparr> rc_state := fst (last (reaction bar r)) \<rparr> else r)"

text \<open>Either condition on times is kept by the bars.\<close>

definition bar_condition :: "(int \<Rightarrow> int \<Rightarrow> bool) \<Rightarrow> bool" where
  "bar_condition Q \<longleftrightarrow> (\<forall>c t. eligible c t \<longrightarrow> Q c t)"

lemma bar_condition [simp]: "bar_condition any_time" "bar_condition eligible"
  by (simp_all add: bar_condition_def any_time_def)

lemma update_open_effect:
  assumes "store_ok Q st" "bar_condition Q"
  shows "store_ok Q (update_open_recommendations bar st)"
    and "ps_checkpoints (update_open_recommendations bar st) = ps_checkpoints st"
    and "ps_rows (update_open_recommendations bar st) = map (follow bar) (ps_rows st)"
proof -
  have legal: "legal_changes Q r (reaction bar r)" if "r \<in> set (open_recommendations (bar_symbol bar) st)" for r
    using reaction_legal [of r bar] assms(2) that
    by (auto simp: open_recommendations_set legal_changes_def bar_condition_def)
  note d = store_okD(3) [OF assms(1)]
  have sub: "set (open_recommendations (bar_symbol bar) st) \<subseteq> set (ps_rows st)"
    by (auto simp: open_recommendations_set)
  show "store_ok Q (update_open_recommendations bar st)"
    "ps_checkpoints (update_open_recommendations bar st) = ps_checkpoints st"
    unfolding update_open_recommendations_def
    using store_ok_pass [OF assms(1) open_recommendations_distinct [OF d] sub, of "update_one bar"] legal update_one_changes
    by blast+
  show "ps_rows (update_open_recommendations bar st) = map (follow bar) (ps_rows st)"
    unfolding update_open_recommendations_def
    by (subst pass_rows [OF d open_recommendations_distinct [OF d] sub, where g = "reaction bar"])
      (auto simp: update_one_changes follow_def open_recommendations_set)
qed

end
