(* ===== verification/Opening_Range.thy ===== *)
theory Opening_Range
  imports Momentum_Scanner "HOL-Library.AList"
begin

text \<open>
  \<^verbatim>\<open>trading_agent/strategy.py\<close>: the opening range breakout.  The bars of the first
  minutes of a session are kept per minute (a later bar of the same minute replaces the earlier
  one); once the range is full, the first confirmed close above it is the signal of the day.
\<close>

record orb_config =
  orb_range_minutes :: int
  orb_breakout_buffer_bps :: rat
  orb_volume_multiplier :: rat

definition default_orb_config :: orb_config where
  "default_orb_config = \<lparr> orb_range_minutes = 5, orb_breakout_buffer_bps = 5, orb_volume_multiplier = 3/2 \<rparr>"

record opening_range_state =
  or_bars :: "(int \<times> bar_input) list"
  or_emitted :: bool

type_synonym orb_state = "day_key \<Rightarrow> opening_range_state option"

definition opening_range_breakout_name :: string where
  "opening_range_breakout_name = ''opening_range_breakout''"

text \<open>\<^theory_text>\<open>max(...)\<close>, \<^theory_text>\<open>min(...)\<close> and \<^theory_text>\<open>statistics.fmean(...)\<close> of a list that is not empty.\<close>

definition max_of :: "rat list \<Rightarrow> rat" where
  "max_of xs = fold max (tl xs) (hd xs)"

definition min_of :: "rat list \<Rightarrow> rat" where
  "min_of xs = fold min (tl xs) (hd xs)"

definition fmean :: "int list \<Rightarrow> rat" where
  "fmean xs = frnd (frnd (sum_list (map (\<lambda>v. frnd (of_int v)) xs)) / of_nat (length xs))"

definition buffered :: "rat \<Rightarrow> rat \<Rightarrow> rat" where
  "buffered price bps = frnd (price * frnd (1 + frnd (bps / 10000)))"

definition orb_observe ::
  "orb_config \<Rightarrow> bar_input \<Rightarrow> momentum_candidate option \<Rightarrow> orb_state
     \<Rightarrow> orb_state \<times> (signal_error + strategy_signal option)" where
  "orb_observe config bar candidate ranges0 =
     (let exchange_time = exchange_minute bar; key = session_key bar;
          opened = get_or \<lparr> or_bars = [], or_emitted = False \<rparr> (ranges0 key);
          ranges = ranges0(key \<mapsto> opened);
          range_end = session_open bar + orb_range_minutes config * minute_us
      in if exchange_time < session_open bar \<or> exchange_time \<ge> session_close bar then (ranges, Inr None)
         else if exchange_time < range_end
         then (ranges(key \<mapsto> opened \<lparr> or_bars := AList.update exchange_time bar (or_bars opened) \<rparr>), Inr None)
         else case candidate of None \<Rightarrow> (ranges, Inr None) | Some c \<Rightarrow>
           if or_emitted opened \<or> int (length (or_bars opened)) \<noteq> orb_range_minutes config
             \<or> signal_at bar \<ge> session_close bar
           then (ranges, Inr None)
           else if or_bars opened = [] then (ranges, Inl Empty_Range)
           else let items = map snd (or_bars opened);
                    range_high = max_of (map bar_high items); range_low = min_of (map bar_low items);
                    volume_confirmed =
                      of_int (bar_volume bar) \<ge> frnd (fmean (map bar_volume items) * orb_volume_multiplier config)
                in if bar_close bar \<le> range_high \<or> \<not> volume_confirmed then (ranges, Inr None)
                   else (ranges(key \<mapsto> opened \<lparr> or_emitted := True \<rparr>),
                     Inr (Some \<lparr> sg_symbol = bar_symbol bar, sg_timestamp = ny_utc (signal_at bar),
                       sg_strategy = opening_range_breakout_name,
                       sg_entry = buffered range_high (orb_breakout_buffer_bps config), sg_stop = range_low,
                       sg_rationale = Opening_Range_Break (orb_range_minutes config)
                         (mc_relative_volume c) (mc_gap_pct c) \<rparr>)))"

definition opening_range_breakout :: "orb_config \<Rightarrow> orb_state intraday_strategy" where
  "opening_range_breakout config =
     \<lparr> is_name = opening_range_breakout_name, is_observe = orb_observe config \<rparr>"

definition orb_spent :: "orb_state \<Rightarrow> day_key \<Rightarrow> bool" where
  "orb_spent s key \<longleftrightarrow> (case s key of None \<Rightarrow> False | Some opened \<Rightarrow> or_emitted opened)"

lemma orb_signal:
  assumes "orb_observe config bar candidate s = (s', Inr (Some sg))"
  obtains opened c where "s (session_key bar) = Some opened" "candidate = Some c" "\<not> or_emitted opened"
    "s' = s(session_key bar \<mapsto> opened \<lparr> or_emitted := True \<rparr>)" "or_bars opened \<noteq> []"
    "int (length (or_bars opened)) = orb_range_minutes config"
    "session_open bar + orb_range_minutes config * minute_us \<le> exchange_minute bar"
    "session_open bar \<le> exchange_minute bar" "exchange_minute bar < session_close bar"
    "signal_at bar < session_close bar" "max_of (map (bar_high \<circ> snd) (or_bars opened)) < bar_close bar"
    "sg = \<lparr> sg_symbol = bar_symbol bar, sg_timestamp = ny_utc (signal_at bar),
       sg_strategy = opening_range_breakout_name,
       sg_entry = buffered (max_of (map (bar_high \<circ> snd) (or_bars opened))) (orb_breakout_buffer_bps config),
       sg_stop = min_of (map (bar_low \<circ> snd) (or_bars opened)),
       sg_rationale = Opening_Range_Break (orb_range_minutes config) (mc_relative_volume c) (mc_gap_pct c) \<rparr>"
proof -
  show ?thesis
  proof (cases "s (session_key bar)")
    case None
    then show ?thesis using assms
      by (simp add: orb_observe_def Let_def get_or_def split: if_splits option.splits)
  next
    case (Some opened)
    show ?thesis using assms Some that
      by (simp add: orb_observe_def Let_def get_or_def split: if_splits option.splits)
  qed
qed

lemma orb_other_key:
  "orb_observe config bar candidate s = (s', r) \<Longrightarrow> key \<noteq> session_key bar \<Longrightarrow> s' key = s key"
  by (auto simp: orb_observe_def Let_def split: if_splits option.splits)

lemma orb_stays_emitted:
  "orb_observe config bar candidate s = (s', r) \<Longrightarrow> orb_spent s key \<Longrightarrow> orb_spent s' key"
  by (cases "key = session_key bar")
    (auto simp: orb_observe_def Let_def orb_spent_def get_or_def split: if_splits option.splits)

lemma orb_error:
  "orb_observe config bar c s = (s', Inl err) \<Longrightarrow> err \<noteq> Duplicate_Recommendation"
  by (auto simp: orb_observe_def Let_def split: option.splits if_splits)

interpretation orb: strategy_contract "opening_range_breakout config" orb_spent for config
proof unfold_locales
  fix bar c s s' sg
  assume a: "is_observe (opening_range_breakout config) bar c s = (s', Inr (Some sg))"
  then have "orb_observe config bar c s = (s', Inr (Some sg))" by (simp add: opening_range_breakout_def)
  then show "\<not> orb_spent s (session_key bar) \<and> orb_spent s' (session_key bar)" "c \<noteq> None"
    "sg_symbol sg = bar_symbol bar \<and> sg_strategy sg = is_name (opening_range_breakout config)
        \<and> sg_timestamp sg = ny_utc (signal_at bar)
        \<and> session_open bar \<le> exchange_minute bar \<and> exchange_minute bar < session_close bar"
    by (rule orb_signal; simp add: orb_spent_def opening_range_breakout_def)+
next
  fix s key bar c s' r
  assume "orb_spent s key" "is_observe (opening_range_breakout config) bar c s = (s', r)"
  then show "orb_spent s' key" by (auto simp: opening_range_breakout_def intro: orb_stays_emitted)
next
  fix bar c s s' err
  assume "is_observe (opening_range_breakout config) bar c s = (s', Inl err)"
  then show "err \<noteq> Duplicate_Recommendation" by (auto simp: opening_range_breakout_def dest: orb_error)
qed

end
