(* ===== verification/Hod_Breakout.thy ===== *)
theory Hod_Breakout
  imports Opening_Range
begin

text \<open>
  \<^verbatim>\<open>trading_agent/hod_strategy.py\<close>: the first breakout of a high of day on volume.  Per
  symbol and day a state machine seeks a new high, then a base below it, and judges the first
  breakout of the base once.
\<close>

datatype hod_phase = Seek_Hod | Seek_Base | Hod_Done

record hod_config =
  hc_min_hod_gain_pct :: rat
  hc_breakout_buffer_bps :: rat
  hc_volume_multiplier :: rat
  hc_min_base_bars :: int
  hc_max_base_bars :: int
  hc_max_pullback_pct :: rat

definition default_hod_config :: hod_config where
  "default_hod_config = \<lparr> hc_min_hod_gain_pct = frnd (3/100), hc_breakout_buffer_bps = 5,
     hc_volume_multiplier = 3/2, hc_min_base_bars = 2, hc_max_base_bars = 8, hc_max_pullback_pct = frnd (3/100) \<rparr>"

record hod_state =
  hs_phase :: hod_phase
  hs_hod :: rat
  hs_base_bars :: int
  hs_base_low :: rat
  hs_base_volume :: int

definition new_hod_state :: hod_state where
  "new_hod_state = \<lparr> hs_phase = Seek_Hod, hs_hod = 0, hs_base_bars = 0, hs_base_low = 0, hs_base_volume = 0 \<rparr>"

definition reset_base :: "hod_state \<Rightarrow> hod_state" where
  "reset_base state = state \<lparr> hs_base_bars := 0, hs_base_low := 0, hs_base_volume := 0 \<rparr>"

definition add_base_bar :: "bar_input \<Rightarrow> hod_state \<Rightarrow> hod_state" where
  "add_base_bar bar state = state \<lparr>
     hs_base_bars := hs_base_bars state + 1,
     hs_base_low := (if hs_base_bars state + 1 = 1 then bar_low bar else min (hs_base_low state) (bar_low bar)),
     hs_base_volume := hs_base_volume state + bar_volume bar \<rparr>"

type_synonym hod_states = "day_key \<Rightarrow> hod_state option"

definition first_hod_name :: string where
  "first_hod_name = ''first_hod_volume_breakout''"

text \<open>The outcome of a step on one state: the new state and the value or error returned.\<close>

definition evaluate_first_breakout ::
  "hod_config \<Rightarrow> hod_state \<Rightarrow> bar_input \<Rightarrow> momentum_candidate option \<Rightarrow> rat
     \<Rightarrow> hod_state \<times> (signal_error + strategy_signal option)" where
  "evaluate_first_breakout config state0 bar candidate breakout =
     (let state = state0 \<lparr> hs_phase := Hod_Done \<rparr>
      in if hs_base_bars state = 0 then (state, Inl Zero_Division)
         else let average_base_volume = frnd (of_int (hs_base_volume state) / of_int (hs_base_bars state));
                  confirmed = (bar_close bar \<ge> breakout \<and> bar_close bar > bar_open bar
                    \<and> of_int (bar_volume bar) \<ge> frnd (average_base_volume * hc_volume_multiplier config))
              in case candidate of None \<Rightarrow> (state, Inr None) | Some c \<Rightarrow>
                if \<not> confirmed \<or> signal_at bar \<ge> session_close bar then (state, Inr None)
                else (state, Inr (Some \<lparr> sg_symbol = bar_symbol bar, sg_timestamp = ny_utc (signal_at bar),
                  sg_strategy = first_hod_name,
                  sg_entry = buffered (bar_high bar) (hc_breakout_buffer_bps config),
                  sg_stop = hs_base_low state,
                  sg_rationale = Hod_Volume_Break (hs_hod state) (mc_relative_volume c) \<rparr>)))"

definition observe_base ::
  "hod_config \<Rightarrow> hod_state \<Rightarrow> bar_input \<Rightarrow> momentum_candidate option
     \<Rightarrow> hod_state \<times> (signal_error + strategy_signal option)" where
  "observe_base config state bar candidate =
     (let breakout = buffered (hs_hod state) (hc_breakout_buffer_bps config)
      in if bar_high bar > hs_hod state \<and> hs_base_bars state < hc_min_base_bars config
         then (reset_base (state \<lparr> hs_hod := bar_high bar \<rparr>), Inr None)
         else if bar_high bar \<ge> breakout
         then evaluate_first_breakout config state bar candidate breakout
         else if bar_high bar > hs_hod state
         then (reset_base (state \<lparr> hs_hod := bar_high bar \<rparr>), Inr None)
         else if bar_low bar < frnd (hs_hod state * frnd (1 - hc_max_pullback_pct config))
         then (state \<lparr> hs_phase := Hod_Done \<rparr>, Inr None)
         else let based = add_base_bar bar state
              in (if hs_base_bars based > hc_max_base_bars config
                  then based \<lparr> hs_phase := Hod_Done \<rparr> else based, Inr None))"

definition hod_step ::
  "hod_config \<Rightarrow> hod_state \<Rightarrow> bar_input \<Rightarrow> momentum_candidate option
     \<Rightarrow> hod_state \<times> (signal_error + strategy_signal option)" where
  "hod_step config state bar candidate =
     (case hs_phase state of
        Seek_Hod \<Rightarrow>
          (if bar_high bar \<ge> frnd (bar_prior_close bar * frnd (1 + hc_min_hod_gain_pct config))
           then state \<lparr> hs_hod := bar_high bar, hs_phase := Seek_Base \<rparr> else state, Inr None)
      | Seek_Base \<Rightarrow> observe_base config state bar candidate
      | Hod_Done \<Rightarrow> (state, Inr None))"

definition hod_observe ::
  "hod_config \<Rightarrow> bar_input \<Rightarrow> momentum_candidate option \<Rightarrow> hod_states
     \<Rightarrow> hod_states \<times> (signal_error + strategy_signal option)" where
  "hod_observe config bar candidate states =
     (if exchange_minute bar < session_open bar \<or> exchange_minute bar \<ge> session_close bar \<or> bar_volume bar \<le> 0
      then (states, Inr None)
      else let (state, r) = hod_step config (get_or new_hod_state (states (session_key bar))) bar candidate
           in (states(session_key bar \<mapsto> state), r))"

definition first_hod_volume_breakout :: "hod_config \<Rightarrow> hod_states intraday_strategy" where
  "first_hod_volume_breakout config = \<lparr> is_name = first_hod_name, is_observe = hod_observe config \<rparr>"

definition hod_spent :: "hod_states \<Rightarrow> day_key \<Rightarrow> bool" where
  "hod_spent s key \<longleftrightarrow> (case s key of None \<Rightarrow> False | Some state \<Rightarrow> hs_phase state = Hod_Done)"

lemma hod_step_done: "hs_phase state = Hod_Done \<Longrightarrow> hod_step config state bar c = (state, Inr None)"
  by (simp add: hod_step_def)

lemma hod_step_signal:
  assumes "hod_step config state bar candidate = (state', Inr (Some sg))"
  shows "hs_phase state = Seek_Base \<and> hs_phase state' = Hod_Done \<and> 0 \<noteq> hs_base_bars state
    \<and> (hs_hod state < bar_high bar \<longrightarrow> hc_min_base_bars config \<le> hs_base_bars state)
    \<and> buffered (hs_hod state) (hc_breakout_buffer_bps config) \<le> bar_close bar
    \<and> signal_at bar < session_close bar
    \<and> (\<exists>c. candidate = Some c \<and> sg = \<lparr> sg_symbol = bar_symbol bar, sg_timestamp = ny_utc (signal_at bar),
       sg_strategy = first_hod_name, sg_entry = buffered (bar_high bar) (hc_breakout_buffer_bps config),
       sg_stop = hs_base_low state, sg_rationale = Hod_Volume_Break (hs_hod state) (mc_relative_volume c) \<rparr>)"
  using assms
  by (auto simp: hod_step_def observe_base_def evaluate_first_breakout_def Let_def
      split: hod_phase.splits if_splits option.splits)

lemma hod_observe_key:
  assumes "hod_observe config bar c s = (s', r)"
  shows "s' = s \<and> r = Inr None \<or> (\<exists>state. hod_step config (get_or new_hod_state (s (session_key bar))) bar c = (state, r)
    \<and> s' = s(session_key bar \<mapsto> state) \<and> session_open bar \<le> exchange_minute bar
    \<and> exchange_minute bar < session_close bar \<and> 0 < bar_volume bar)"
  using assms by (auto simp: hod_observe_def Let_def split: if_splits prod.splits)

lemma hod_error:
  "hod_observe config bar c s = (s', Inl err) \<Longrightarrow> err \<noteq> Duplicate_Recommendation"
  by (auto simp: hod_observe_def hod_step_def observe_base_def evaluate_first_breakout_def Let_def split: option.splits if_splits prod.splits hod_phase.splits)

interpretation hod: strategy_contract "first_hod_volume_breakout config" hod_spent for config
proof unfold_locales
  fix bar c s s' sg
  assume a: "is_observe (first_hod_volume_breakout config) bar c s = (s', Inr (Some sg))"
  then obtain state where st: "hod_step config (get_or new_hod_state (s (session_key bar))) bar c = (state, Inr (Some sg))"
    "s' = s(session_key bar \<mapsto> state)" "session_open bar \<le> exchange_minute bar" "exchange_minute bar < session_close bar"
    using hod_observe_key [of config bar c s s' "Inr (Some sg)"] by (auto simp: first_hod_volume_breakout_def)
  note sig = hod_step_signal [OF st(1)]
  show "\<not> hod_spent s (session_key bar) \<and> hod_spent s' (session_key bar)" "c \<noteq> None"
    "sg_symbol sg = bar_symbol bar \<and> sg_strategy sg = is_name (first_hod_volume_breakout config)
        \<and> sg_timestamp sg = ny_utc (signal_at bar)
        \<and> session_open bar \<le> exchange_minute bar \<and> exchange_minute bar < session_close bar"
    using sig st by (auto simp: hod_spent_def get_or_def first_hod_volume_breakout_def split: option.splits)
next
  fix s key bar c s' r
  assume "hod_spent s key" "is_observe (first_hod_volume_breakout config) bar c s = (s', r)"
  then show "hod_spent s' key"
    using hod_observe_key [of config bar c s s' r] hod_step_done
    by (cases "key = session_key bar")
      (auto simp: first_hod_volume_breakout_def hod_spent_def get_or_def split: option.splits)
next
  fix bar c s s' err
  assume "is_observe (first_hod_volume_breakout config) bar c s = (s', Inl err)"
  then show "err \<noteq> Duplicate_Recommendation" by (auto simp: first_hod_volume_breakout_def dest: hod_error)
qed

end
