(* ===== verification/Vwap_Reclaim.thy ===== *)
theory Vwap_Reclaim
  imports Opening_Range
begin

text \<open>
  \<^verbatim>\<open>trading_agent/vwap_strategy.py\<close>: the first pullback to the volume weighted average
  price and its reclaim.  Every accepted bar has volume, so the average never divides by zero.
\<close>

datatype vwap_phase = Seek_Impulse | Seek_Pullback | Seek_Reclaim | Vwap_Done

record vwap_config =
  vc_min_extension_pct :: rat
  vc_touch_tolerance_bps :: rat
  vc_reclaim_buffer_bps :: rat
  vc_volume_multiplier :: rat
  vc_max_reclaim_bars :: int

definition default_vwap_config :: vwap_config where
  "default_vwap_config = \<lparr> vc_min_extension_pct = frnd (1/100), vc_touch_tolerance_bps = 20,
     vc_reclaim_buffer_bps = 5, vc_volume_multiplier = frnd (12/10), vc_max_reclaim_bars = 5 \<rparr>"

record vwap_state =
  vs_cumulative_price_volume :: rat
  vs_cumulative_volume :: int
  vs_phase :: vwap_phase
  vs_pullback_high :: rat
  vs_pullback_low :: rat
  vs_pullback_volume :: int
  vs_pullback_vwap :: rat
  vs_bars_after_pullback :: int

definition new_vwap_state :: vwap_state where
  "new_vwap_state = \<lparr> vs_cumulative_price_volume = 0, vs_cumulative_volume = 0, vs_phase = Seek_Impulse,
     vs_pullback_high = 0, vs_pullback_low = 0, vs_pullback_volume = 0, vs_pullback_vwap = 0,
     vs_bars_after_pullback = 0 \<rparr>"

type_synonym vwap_states = "day_key \<Rightarrow> vwap_state option"

definition first_pullback_name :: string where
  "first_pullback_name = ''first_pullback_vwap_reclaim''"

definition typical_price :: "bar_input \<Rightarrow> rat" where
  "typical_price bar = frnd (frnd (frnd (bar_high bar + bar_low bar) + bar_close bar) / 3)"

text \<open>The reclaim phase, after the running average has taken the bar in.\<close>

definition vwap_reclaim_step ::
  "vwap_config \<Rightarrow> vwap_state \<Rightarrow> rat \<Rightarrow> rat \<Rightarrow> bar_input \<Rightarrow> momentum_candidate option
     \<Rightarrow> vwap_state \<times> strategy_signal option" where
  "vwap_reclaim_step config state0 vwap tolerance bar candidate =
     (let state = state0 \<lparr> vs_bars_after_pullback := vs_bars_after_pullback state0 + 1 \<rparr>
      in if bar_close bar < frnd (vwap * frnd (1 - tolerance))
           \<or> vs_bars_after_pullback state > vc_max_reclaim_bars config
         then (state \<lparr> vs_phase := Vwap_Done \<rparr>, None)
         else let volume_confirmed = of_int (bar_volume bar)
                    \<ge> frnd (frnd (of_int (vs_pullback_volume state)) * vc_volume_multiplier config);
                  reclaimed = (bar_close bar > buffered vwap (vc_reclaim_buffer_bps config)
                    \<and> bar_close bar > bar_open bar \<and> bar_high bar > vs_pullback_high state
                    \<and> vwap \<ge> vs_pullback_vwap state)
              in case candidate of None \<Rightarrow> (state, None) | Some c \<Rightarrow>
                if \<not> volume_confirmed \<or> \<not> reclaimed \<or> signal_at bar \<ge> session_close bar then (state, None)
                else (state \<lparr> vs_phase := Vwap_Done \<rparr>,
                  Some \<lparr> sg_symbol = bar_symbol bar, sg_timestamp = ny_utc (signal_at bar),
                    sg_strategy = first_pullback_name,
                    sg_entry = buffered (bar_high bar) (vc_reclaim_buffer_bps config),
                    sg_stop = vs_pullback_low state,
                    sg_rationale = Vwap_Pullback_Reclaim vwap (mc_relative_volume c) \<rparr>))"

definition vwap_step ::
  "vwap_config \<Rightarrow> vwap_state \<Rightarrow> bar_input \<Rightarrow> momentum_candidate option
     \<Rightarrow> vwap_state \<times> (signal_error + strategy_signal option)" where
  "vwap_step config state0 bar candidate =
     (let state = state0 \<lparr>
            vs_cumulative_price_volume := frnd (vs_cumulative_price_volume state0
              + frnd (typical_price bar * frnd (of_int (bar_volume bar)))),
            vs_cumulative_volume := vs_cumulative_volume state0 + bar_volume bar \<rparr>
      in if vs_cumulative_volume state = 0 then (state, Inl Zero_Division)
         else let vwap = frnd (vs_cumulative_price_volume state / frnd (of_int (vs_cumulative_volume state)));
                  tolerance = frnd (vc_touch_tolerance_bps config / 10000)
              in case vs_phase state of
                Seek_Impulse \<Rightarrow>
                  (if bar_close bar \<ge> frnd (vwap * frnd (1 + vc_min_extension_pct config))
                   then state \<lparr> vs_phase := Seek_Pullback \<rparr> else state, Inr None)
              | Seek_Pullback \<Rightarrow>
                  (if bar_low bar \<le> frnd (vwap * frnd (1 + tolerance))
                      \<and> bar_close bar \<ge> frnd (vwap * frnd (1 - tolerance))
                   then state \<lparr> vs_phase := Seek_Reclaim, vs_pullback_high := bar_high bar,
                     vs_pullback_low := bar_low bar, vs_pullback_volume := bar_volume bar,
                     vs_pullback_vwap := vwap \<rparr>
                   else state, Inr None)
              | Seek_Reclaim \<Rightarrow>
                  (let (state', r) = vwap_reclaim_step config state vwap tolerance bar candidate in (state', Inr r))
              | Vwap_Done \<Rightarrow> (state, Inr None))"

definition vwap_observe ::
  "vwap_config \<Rightarrow> bar_input \<Rightarrow> momentum_candidate option \<Rightarrow> vwap_states
     \<Rightarrow> vwap_states \<times> (signal_error + strategy_signal option)" where
  "vwap_observe config bar candidate states =
     (if exchange_minute bar < session_open bar \<or> exchange_minute bar \<ge> session_close bar \<or> bar_volume bar \<le> 0
      then (states, Inr None)
      else let (state, r) = vwap_step config (get_or new_vwap_state (states (session_key bar))) bar candidate
           in (states(session_key bar \<mapsto> state), r))"

definition first_pullback_vwap_reclaim :: "vwap_config \<Rightarrow> vwap_states intraday_strategy" where
  "first_pullback_vwap_reclaim config = \<lparr> is_name = first_pullback_name, is_observe = vwap_observe config \<rparr>"

definition vwap_spent :: "vwap_states \<Rightarrow> day_key \<Rightarrow> bool" where
  "vwap_spent s key \<longleftrightarrow> (case s key of None \<Rightarrow> False | Some state \<Rightarrow> vs_phase state = Vwap_Done)"

lemma vwap_step_done:
  "vs_phase state = Vwap_Done \<Longrightarrow> vwap_step config state bar c = (state', r) \<Longrightarrow> vs_phase state' = Vwap_Done"
  by (auto simp: vwap_step_def Let_def split: if_splits)

lemma vwap_step_signal:
  assumes "vwap_step config state bar candidate = (state', Inr (Some sg))"
  shows "vs_phase state = Seek_Reclaim \<and> vs_phase state' = Vwap_Done
    \<and> vs_bars_after_pullback state < vc_max_reclaim_bars config
    \<and> vs_pullback_high state < bar_high bar \<and> bar_open bar < bar_close bar
    \<and> signal_at bar < session_close bar
    \<and> (\<exists>c vwap. candidate = Some c \<and> sg = \<lparr> sg_symbol = bar_symbol bar, sg_timestamp = ny_utc (signal_at bar),
       sg_strategy = first_pullback_name, sg_entry = buffered (bar_high bar) (vc_reclaim_buffer_bps config),
       sg_stop = vs_pullback_low state, sg_rationale = Vwap_Pullback_Reclaim vwap (mc_relative_volume c) \<rparr>)"
  using assms
  by (auto simp: vwap_step_def vwap_reclaim_step_def Let_def
      split: vwap_phase.splits if_splits option.splits)

lemma vwap_observe_key:
  assumes "vwap_observe config bar c s = (s', r)"
  shows "s' = s \<and> r = Inr None \<or> (\<exists>state. vwap_step config (get_or new_vwap_state (s (session_key bar))) bar c = (state, r)
    \<and> s' = s(session_key bar \<mapsto> state) \<and> session_open bar \<le> exchange_minute bar
    \<and> exchange_minute bar < session_close bar \<and> 0 < bar_volume bar)"
  using assms by (auto simp: vwap_observe_def Let_def split: if_splits prod.splits)

lemma vwap_error:
  "vwap_observe config bar c s = (s', Inl err) \<Longrightarrow> err \<noteq> Duplicate_Recommendation"
  by (auto simp: vwap_observe_def vwap_step_def vwap_reclaim_step_def Let_def split: option.splits if_splits prod.splits vwap_phase.splits)

interpretation vwap: strategy_contract "first_pullback_vwap_reclaim config" vwap_spent for config
proof unfold_locales
  fix bar c s s' sg
  assume a: "is_observe (first_pullback_vwap_reclaim config) bar c s = (s', Inr (Some sg))"
  then obtain state where st: "vwap_step config (get_or new_vwap_state (s (session_key bar))) bar c = (state, Inr (Some sg))"
    "s' = s(session_key bar \<mapsto> state)" "session_open bar \<le> exchange_minute bar" "exchange_minute bar < session_close bar"
    using vwap_observe_key [of config bar c s s' "Inr (Some sg)"] by (auto simp: first_pullback_vwap_reclaim_def)
  note sig = vwap_step_signal [OF st(1)]
  show "\<not> vwap_spent s (session_key bar) \<and> vwap_spent s' (session_key bar)" "c \<noteq> None"
    "sg_symbol sg = bar_symbol bar \<and> sg_strategy sg = is_name (first_pullback_vwap_reclaim config)
        \<and> sg_timestamp sg = ny_utc (signal_at bar)
        \<and> session_open bar \<le> exchange_minute bar \<and> exchange_minute bar < session_close bar"
    using sig st by (auto simp: vwap_spent_def get_or_def first_pullback_vwap_reclaim_def split: option.splits)
next
  fix s key bar c s' r
  assume "vwap_spent s key" "is_observe (first_pullback_vwap_reclaim config) bar c s = (s', r)"
  then show "vwap_spent s' key"
    using vwap_observe_key [of config bar c s s' r] vwap_step_done
    by (cases "key = session_key bar")
      (auto simp: first_pullback_vwap_reclaim_def vwap_spent_def get_or_def split: option.splits)
next
  fix bar c s s' err
  assume "is_observe (first_pullback_vwap_reclaim config) bar c s = (s', Inl err)"
  then show "err \<noteq> Duplicate_Recommendation" by (auto simp: first_pullback_vwap_reclaim_def dest: vwap_error)
qed

text \<open>The running volume of a day stays positive, so the average is always defined.\<close>

definition volumes_positive :: "vwap_states \<Rightarrow> bool" where
  "volumes_positive s \<longleftrightarrow> (\<forall>key state. s key = Some state \<longrightarrow> 0 < vs_cumulative_volume state)"

lemma volumes_positiveD: "volumes_positive s \<Longrightarrow> s key = Some state \<Longrightarrow> 0 < vs_cumulative_volume state"
  by (simp only: volumes_positive_def)

lemma vwap_never_divides_by_zero:
  assumes "volumes_positive s" "vwap_observe config bar c s = (s', r)"
  shows "volumes_positive s' \<and> r \<noteq> Inl Zero_Division"
proof -
  have "0 < vs_cumulative_volume state' \<and> r' \<noteq> Inl Zero_Division"
    if step: "vwap_step config state bar c = (state', r')" and "0 \<le> vs_cumulative_volume state" "0 < bar_volume bar"
    for state state' r'
    using that by (auto simp: vwap_step_def vwap_reclaim_step_def Let_def split: vwap_phase.splits if_splits option.splits)
  moreover have "0 \<le> vs_cumulative_volume (get_or new_vwap_state (s (session_key bar)))"
    using volumes_positiveD [OF assms(1)]
    by (auto simp: get_or_def new_vwap_state_def less_imp_le split: option.split)
  ultimately show ?thesis
    using vwap_observe_key [OF assms(2)] assms(1)
    by (auto simp: volumes_positive_def simp del: split_paired_All split: if_splits)
qed

end
