(* ===== verification/Gap_Hold.thy ===== *)
theory Gap_Hold
  imports Vwap_Reclaim
begin

text \<open>
  \<^verbatim>\<open>trading_agent/gap_strategy.py\<close>: the opening gap that holds for the first minutes.  The
  day is judged once, by an uninterrupted run of opening bars, and the judgement is kept.
\<close>

datatype gap_phase = Seek_Open | Observe_Opening | Gap_Done

datatype gap_classification = Continuation | Gap_Failure | Neutral | Ineligible

record gap_config =
  gc_opening_minutes :: int
  gc_min_gap_pct :: rat
  gc_min_gap_retention :: rat
  gc_entry_buffer_bps :: rat

definition default_gap_config :: gap_config where
  "default_gap_config = \<lparr> gc_opening_minutes = 5, gc_min_gap_pct = frnd (4/100),
     gc_min_gap_retention = 1/2, gc_entry_buffer_bps = 5 \<rparr>"

record gap_state =
  gs_phase :: gap_phase
  gs_classification :: "gap_classification option"
  gs_bars :: int
  gs_opening_price :: rat
  gs_opening_low :: rat
  gs_prior_close :: rat
  gs_cumulative_price_volume :: rat
  gs_cumulative_volume :: int

definition new_gap_state :: gap_state where
  "new_gap_state = \<lparr> gs_phase = Seek_Open, gs_classification = None, gs_bars = 0, gs_opening_price = 0,
     gs_opening_low = 0, gs_prior_close = 0, gs_cumulative_price_volume = 0, gs_cumulative_volume = 0 \<rparr>"

definition gap_add_bar :: "bar_input \<Rightarrow> gap_state \<Rightarrow> gap_state" where
  "gap_add_bar bar state = state \<lparr>
     gs_bars := gs_bars state + 1,
     gs_opening_low := (if gs_bars state + 1 = 1 then bar_low bar else min (gs_opening_low state) (bar_low bar)),
     gs_cumulative_price_volume := frnd (gs_cumulative_price_volume state
       + frnd (typical_price bar * frnd (of_int (bar_volume bar)))),
     gs_cumulative_volume := gs_cumulative_volume state + bar_volume bar \<rparr>"

type_synonym gap_states = "day_key \<Rightarrow> gap_state option"

definition five_minute_gap_hold_name :: string where
  "five_minute_gap_hold_name = ''five_minute_gap_hold''"

definition classify ::
  "gap_config \<Rightarrow> gap_state \<Rightarrow> bar_input \<Rightarrow> momentum_candidate option
     \<Rightarrow> gap_state \<times> (signal_error + strategy_signal option)" where
  "classify config state0 bar candidate =
     (let state = state0 \<lparr> gs_phase := Gap_Done \<rparr>;
          gap_size = frnd (gs_opening_price state - gs_prior_close state);
          retained_floor = frnd (gs_prior_close state + frnd (gap_size * gc_min_gap_retention config))
      in if gs_opening_low state \<le> gs_prior_close state \<or> bar_close bar < retained_floor
         then (state \<lparr> gs_classification := Some Gap_Failure \<rparr>, Inr None)
         else if gs_cumulative_volume state = 0 then (state, Inl Zero_Division)
         else let session_vwap = frnd (gs_cumulative_price_volume state / frnd (of_int (gs_cumulative_volume state)))
              in case candidate of
                None \<Rightarrow> (state \<lparr> gs_classification := Some Neutral \<rparr>, Inr None)
              | Some c \<Rightarrow>
                if bar_close bar \<le> gs_opening_price state \<or> bar_close bar < session_vwap
                then (state \<lparr> gs_classification := Some Neutral \<rparr>, Inr None)
                else (state \<lparr> gs_classification := Some Continuation \<rparr>,
                  Inr (Some \<lparr> sg_symbol = bar_symbol bar, sg_timestamp = ny_utc (signal_at bar),
                    sg_strategy = five_minute_gap_hold_name,
                    sg_entry = buffered (bar_close bar) (gc_entry_buffer_bps config),
                    sg_stop = retained_floor,
                    sg_rationale = Opening_Gap_Hold (gc_opening_minutes config) (mc_relative_volume c) \<rparr>)))"

definition ineligible :: "gap_state \<Rightarrow> gap_state" where
  "ineligible state = state \<lparr> gs_classification := Some Ineligible, gs_phase := Gap_Done \<rparr>"

definition gap_step ::
  "gap_config \<Rightarrow> gap_state \<Rightarrow> bar_input \<Rightarrow> momentum_candidate option
     \<Rightarrow> gap_state \<times> (signal_error + strategy_signal option)" where
  "gap_step config state bar candidate =
     (case gs_phase state of
        Seek_Open \<Rightarrow>
          if exchange_minute bar \<noteq> session_open bar then (ineligible state, Inr None)
          else if bar_prior_close bar = 0 then (state, Inl Zero_Division)
          else let gap_pct = frnd (frnd (bar_open bar / bar_prior_close bar) - 1)
               in if gap_pct < gc_min_gap_pct config then (ineligible state, Inr None)
                  else let opened = (gap_add_bar bar (state \<lparr> gs_opening_price := bar_open bar,
                             gs_prior_close := bar_prior_close bar \<rparr>)) \<lparr> gs_phase := Observe_Opening \<rparr>
                       in if gs_bars opened < gc_opening_minutes config then (opened, Inr None)
                          else classify config opened bar candidate
      | Observe_Opening \<Rightarrow>
          if exchange_minute bar \<noteq> session_open bar + gs_bars state * minute_us
          then (ineligible state, Inr None)
          else let added = gap_add_bar bar state
               in if gs_bars added < gc_opening_minutes config then (added, Inr None)
                  else classify config added bar candidate
      | Gap_Done \<Rightarrow> (state, Inr None))"

definition gap_observe ::
  "gap_config \<Rightarrow> bar_input \<Rightarrow> momentum_candidate option \<Rightarrow> gap_states
     \<Rightarrow> gap_states \<times> (signal_error + strategy_signal option)" where
  "gap_observe config bar candidate states =
     (if exchange_minute bar < session_open bar \<or> exchange_minute bar \<ge> session_close bar \<or> bar_volume bar \<le> 0
      then (states, Inr None)
      else let (state, r) = gap_step config (get_or new_gap_state (states (session_key bar))) bar candidate
           in (states(session_key bar \<mapsto> state), r))"

definition gap_classification_of :: "symbol \<Rightarrow> int \<Rightarrow> gap_states \<Rightarrow> gap_classification option" where
  "gap_classification_of symbol session_date states =
     (case states (symbol, session_date) of None \<Rightarrow> None | Some state \<Rightarrow> gs_classification state)"

definition five_minute_gap_hold :: "gap_config \<Rightarrow> gap_states intraday_strategy" where
  "five_minute_gap_hold config = \<lparr> is_name = five_minute_gap_hold_name, is_observe = gap_observe config \<rparr>"

definition gap_spent :: "gap_states \<Rightarrow> day_key \<Rightarrow> bool" where
  "gap_spent s key \<longleftrightarrow> (case s key of None \<Rightarrow> False | Some state \<Rightarrow> gs_phase state = Gap_Done)"

lemma gap_step_done: "gs_phase state = Gap_Done \<Longrightarrow> gap_step config state bar c = (state, Inr None)"
  by (simp add: gap_step_def)

lemma classify_signal:
  assumes "classify config state bar candidate = (state', Inr (Some sg))"
  shows "gs_phase state' = Gap_Done \<and> gs_classification state' = Some Continuation
    \<and> gs_prior_close state < gs_opening_low state \<and> gs_opening_price state < bar_close bar
    \<and> sg_stop sg \<le> bar_close bar
    \<and> (\<exists>c stop. candidate = Some c \<and> sg = \<lparr> sg_symbol = bar_symbol bar, sg_timestamp = ny_utc (signal_at bar),
       sg_strategy = five_minute_gap_hold_name, sg_entry = buffered (bar_close bar) (gc_entry_buffer_bps config),
       sg_stop = stop, sg_rationale = Opening_Gap_Hold (gc_opening_minutes config) (mc_relative_volume c) \<rparr>)"
  using assms by (auto simp: classify_def Let_def split: if_splits option.splits)

lemma gap_step_signal:
  assumes "gap_step config state bar candidate = (state', Inr (Some sg))"
  shows "gs_phase state \<noteq> Gap_Done \<and> gs_phase state' = Gap_Done
    \<and> (\<exists>c stop. candidate = Some c \<and> sg = \<lparr> sg_symbol = bar_symbol bar, sg_timestamp = ny_utc (signal_at bar),
       sg_strategy = five_minute_gap_hold_name, sg_entry = buffered (bar_close bar) (gc_entry_buffer_bps config),
       sg_stop = stop, sg_rationale = Opening_Gap_Hold (gc_opening_minutes config) (mc_relative_volume c) \<rparr>)"
  using assms by (auto simp: gap_step_def Let_def split: gap_phase.splits if_splits dest!: classify_signal)

lemma gap_observe_key:
  assumes "gap_observe config bar c s = (s', r)"
  shows "s' = s \<and> r = Inr None \<or> (\<exists>state. gap_step config (get_or new_gap_state (s (session_key bar))) bar c = (state, r)
    \<and> s' = s(session_key bar \<mapsto> state) \<and> session_open bar \<le> exchange_minute bar
    \<and> exchange_minute bar < session_close bar \<and> 0 < bar_volume bar)"
  using assms by (auto simp: gap_observe_def Let_def split: if_splits prod.splits)

lemma gap_error:
  "gap_observe config bar c s = (s', Inl err) \<Longrightarrow> err \<noteq> Duplicate_Recommendation"
  by (auto simp: gap_observe_def gap_step_def classify_def Let_def split: option.splits if_splits prod.splits gap_phase.splits)

interpretation gap: strategy_contract "five_minute_gap_hold config" gap_spent for config
proof unfold_locales
  fix bar c s s' sg
  assume a: "is_observe (five_minute_gap_hold config) bar c s = (s', Inr (Some sg))"
  then obtain state where st: "gap_step config (get_or new_gap_state (s (session_key bar))) bar c = (state, Inr (Some sg))"
    "s' = s(session_key bar \<mapsto> state)" "session_open bar \<le> exchange_minute bar" "exchange_minute bar < session_close bar"
    using gap_observe_key [of config bar c s s' "Inr (Some sg)"] by (auto simp: five_minute_gap_hold_def)
  note sig = gap_step_signal [OF st(1)]
  show "\<not> gap_spent s (session_key bar) \<and> gap_spent s' (session_key bar)" "c \<noteq> None"
    "sg_symbol sg = bar_symbol bar \<and> sg_strategy sg = is_name (five_minute_gap_hold config)
        \<and> sg_timestamp sg = ny_utc (signal_at bar)
        \<and> session_open bar \<le> exchange_minute bar \<and> exchange_minute bar < session_close bar"
    using sig st by (auto simp: gap_spent_def get_or_def five_minute_gap_hold_def split: option.splits)
next
  fix s key bar c s' r
  assume "gap_spent s key" "is_observe (five_minute_gap_hold config) bar c s = (s', r)"
  then show "gap_spent s' key"
    using gap_observe_key [of config bar c s s' r] gap_step_done
    by (cases "key = session_key bar")
      (auto simp: five_minute_gap_hold_def gap_spent_def get_or_def split: option.splits)
next
  fix bar c s s' err
  assume "is_observe (five_minute_gap_hold config) bar c s = (s', Inl err)"
  then show "err \<noteq> Duplicate_Recommendation" by (auto simp: five_minute_gap_hold_def dest: gap_error)
qed

end
