(* ===== verification/Recommendation_Lifecycle.thy ===== *)
theory Recommendation_Lifecycle
  imports Recommendation_Invariants Hod_Breakout Gap_Hold
begin

text \<open>
  What the signal plane guarantees, over any sequence of its operations and restarts: legal
  histories, causality, independent recommendations, one recommendation per symbol, strategy and
  day, and a restarted run that ends where an uninterrupted one does.
\<close>

subsection \<open>Steps of the signal plane\<close>

text \<open>
  A step starts from any scanner and strategy state: a restart loses both.  \<open>T\<close> restricts
  when a processed bar may have become available.
\<close>

inductive live_step ::
  "'s engine_config \<Rightarrow> (bar_input \<Rightarrow> int option \<Rightarrow> bool) \<Rightarrow> paper_store \<Rightarrow> paper_store \<Rightarrow> bool"
  for cfg :: "'s engine_config" and T :: "bar_input \<Rightarrow> int option \<Rightarrow> bool" where
  Process: "T bar available_at \<Longrightarrow> process cfg bar available_at e = (e', r) \<Longrightarrow> live_step cfg T (en_store e) (en_store e')"
| Snapshot: "(\<And>bar. T bar None) \<Longrightarrow> process_snapshot cfg bars e = (e', r) \<Longrightarrow> live_step cfg T (en_store e) (en_store e')"
| Forward: "(\<And>bar. bar \<in> set bars \<Longrightarrow> T bar available_at) \<Longrightarrow> process_forward cfg bars available_at e = (e', r)
    \<Longrightarrow> live_step cfg T (en_store e) (en_store e')"
| Advance: "advance_forward cfg bars e = (e', n) \<Longrightarrow> live_step cfg T (en_store e) (en_store e')"

inductive close_step :: "paper_store \<Rightarrow> paper_store \<Rightarrow> bool" where
  Finalize_Day: "close_step st (finalize_day bar st)"
| Finalize_Due: "finalize_due_recommendations observed_at st = (st', n) \<Longrightarrow> close_step st st'"
| Exclude: "exclude_backdated_recommendations observed_at st = (st', n) \<Longrightarrow> close_step st st'"
| Queue_Alert: "queue_alert alert st = (st', queued) \<Longrightarrow> close_step st st'"

text \<open>A property of stores that the bars keep is kept by every live step.\<close>

lemma warmup_store [simp]: "en_store (fst (warmup cfg bar e)) = en_store e"
  by (simp add: warmup_def Let_def split: prod.split sum.split)

lemma advance_store [simp]: "en_store (fst (advance cfg bar e)) = update_open_recommendations bar (en_store e)"
  by (simp add: advance_def)

lemma each_bar_warmup [simp]: "en_store (fst (each_bar (warmup cfg) bars e)) = en_store e"
proof (induction bars arbitrary: e)
  case (Cons bar bars)
  obtain e' r where w: "warmup cfg bar e = (e', r)" by fastforce
  then have "en_store e' = en_store e" using warmup_store [of cfg bar e] by simp
  then show ?case using Cons [of e'] by (simp add: w split: sum.split)
qed simp

lemma each_bar_advance:
  "\<exists>done. (\<exists>rest. bars = done @ rest) \<and> en_store (fst (each_bar (advance cfg) bars e)) =
      fold update_open_recommendations done (en_store e)
    \<and> (snd (each_bar (advance cfg) bars e) = Inr () \<longrightarrow> done = bars)"
proof (induction bars arbitrary: e)
  case (Cons bar bars)
  obtain e' r where a: "advance cfg bar e = (e', r)" by fastforce
  then have st: "en_store e' = update_open_recommendations bar (en_store e)"
    using advance_store [of cfg bar e] by simp
  show ?case
  proof (cases r)
    case (Inl err)
    show ?thesis by (rule exI [of _ "[bar]"]) (simp add: a Inl st)
  next
    case (Inr u)
    obtain seen rest where "bars = seen @ rest"
      "en_store (fst (each_bar (advance cfg) bars e')) = fold update_open_recommendations seen (en_store e')"
      "snd (each_bar (advance cfg) bars e') = Inr () \<longrightarrow> seen = bars"
      using Cons by blast
    then show ?thesis by (intro exI [of _ "bar # seen"]) (simp add: a Inr st)
  qed
qed simp

lemma scanner_error: "scanner_observe config bar s = (s', Inl err) \<Longrightarrow> err = Zero_Division"
  by (auto simp: scanner_observe_def Let_def split: if_splits)

lemma process_store:
  assumes "process cfg bar available_at e = (e', r)"
  shows "en_store e' = update_open_recommendations bar (en_store e)
      \<and> (r = Inr None \<or> r = Inl Zero_Division
        \<or> (\<exists>c s s' err. is_observe (ec_strategy cfg) bar c s = (s', Inl err) \<and> r = Inl err))
    \<or> (\<exists>c s s' sg. is_observe (ec_strategy cfg) bar c s = (s', Inr (Some sg))
        \<and> recommend (ec_risk cfg) bar available_at sg (update_open_recommendations bar (en_store e)) = (en_store e', r))"
proof -
  obtain sn cand where sc: "scanner_observe (ec_scanner cfg) bar (en_scanner e) = (sn, cand)" by fastforce
  show ?thesis
  proof (cases cand)
    case (Inl err)
    then show ?thesis using assms sc scanner_error by (auto simp: process_def Let_def)
  next
    case (Inr c)
    obtain s' sig where ob: "is_observe (ec_strategy cfg) bar c (en_strategy e) = (s', sig)" by fastforce
    consider err where "sig = Inl err" | "sig = Inr None" | sg where "sig = Inr (Some sg)"
      by (cases sig) auto
    then show ?thesis
    proof cases
      case 3
      obtain st2 r2 where "recommend (ec_risk cfg) bar available_at sg (update_open_recommendations bar (en_store e)) = (st2, r2)"
        by fastforce
      then have "recommend (ec_risk cfg) bar available_at sg (update_open_recommendations bar (en_store e)) = (en_store e', r)"
        using assms sc Inr ob 3 by (auto simp: process_def Let_def)
      then show ?thesis using ob 3 by blast
    qed (use assms sc Inr ob in \<open>auto simp: process_def Let_def\<close>)
  qed
qed

text \<open>The row that a signal and a time of availability would create.\<close>

definition fresh_recommendation :: "strategy_signal \<Rightarrow> int option \<Rightarrow> recommendation \<Rightarrow> bool" where
  "fresh_recommendation sg available_at r \<longleftrightarrow>
     rc_created_at r = created_at sg available_at \<and> rc_symbol r = sg_symbol sg \<and> rc_strategy r = sg_strategy sg
     \<and> rc_id r = (rc_created_at r, rc_symbol r, rc_strategy r) \<and> rc_state r = Setup"

lemma recommend_cases:
  assumes "recommend risk bar available_at sg st = (st', r)"
  obtains (unchanged) "st' = st" "r = Inr None \<or> r = Inl Zero_Division"
  | (saved) x where "\<not> already_recommended sg st" "fresh_recommendation sg available_at x" "save x st = Inr st'" "r = Inr (Some x)"
  | (refused) x where "\<not> already_recommended sg st" "fresh_recommendation sg available_at x"
      "save x st = Inl Duplicate_Recommendation" "st' = st" "r = Inl Duplicate_Recommendation"
proof -
  have plan_error: "err = Zero_Division" if "build_trade_plan a b c d = Inl err" for a b c d err
    using that by (auto simp: build_trade_plan_def Let_def split: if_splits)
  have save_error: "err = Duplicate_Recommendation" if "save x y = Inl err" for x y err
    using that by (auto simp: save_def split: if_splits)
  show ?thesis
  proof (cases "already_recommended sg st")
    case True
    then have "st' = st" "r = Inr None" using assms by (simp_all add: recommend_def)
    then show ?thesis using unchanged by blast
  next
    case new: False
    show ?thesis
    proof (cases "build_trade_plan (sg_entry sg) (sg_stop sg) (bar_spread_bps bar) risk")
      case (Inl err)
      then show ?thesis using assms unchanged new plan_error [OF Inl] by (simp add: recommend_def)
    next
      case (Inr plan)
      show ?thesis
      proof (cases plan)
        case None
        then show ?thesis using assms unchanged new Inr by (simp add: recommend_def)
      next
        case (Some pl)
        define x where "x = \<lparr> rc_id = (created_at sg available_at, sg_symbol sg, sg_strategy sg), rc_symbol = sg_symbol sg,
                 rc_strategy = sg_strategy sg, rc_created_at = created_at sg available_at, rc_entry = tp_entry pl,
                 rc_stop = tp_stop pl, rc_target_1r = tp_target_1r pl,
                 rc_target_2r = tp_target_2r pl, rc_state = Setup, rc_rationale = sg_rationale sg \<rparr>"
        have fresh: "fresh_recommendation sg available_at x" by (simp add: x_def fresh_recommendation_def)
        have run: "(st', r) = (case save x st of Inl err \<Rightarrow> (st, Inl err) | Inr st' \<Rightarrow> (st', Inr (Some x)))"
          using assms new Inr Some by (simp add: recommend_def Let_def x_def [symmetric] cong: sum.case_cong)
        show ?thesis
        proof (cases "save x st")
          case (Inl err)
          then show ?thesis using run refused [OF new fresh] save_error [OF Inl] by simp
        next
          case (Inr st2)
          then show ?thesis using run saved [OF new fresh] by simp
        qed
      qed
    qed
  qed
qed

text \<open>Any property kept by the bars and by saving a fresh row is kept by every live step.\<close>

lemma live_step_keeps:
  assumes "live_step cfg T st st'" "P st"
    and bars: "\<And>bar st. P st \<Longrightarrow> P (update_open_recommendations bar st)"
    and checkpoints: "\<And>symbol t c st. P st \<Longrightarrow> P (set_last_processed_bar symbol t c st)"
    and saves: "\<And>bar available_at c s s' sg x st st'. P st \<Longrightarrow> T bar available_at
        \<Longrightarrow> is_observe (ec_strategy cfg) bar c s = (s', Inr (Some sg)) \<Longrightarrow> \<not> already_recommended sg st
        \<Longrightarrow> fresh_recommendation sg available_at x \<Longrightarrow> save x st = Inr st' \<Longrightarrow> P st'"
  shows "P st'"
proof -
  have process: "P (en_store e')" if "P (en_store e)" "T bar available_at" "process cfg bar available_at e = (e', r)"
    for bar available_at e e' r
    using process_store [OF that(3)] bars [OF that(1), of bar] that(2)
    by (auto elim!: recommend_cases intro: saves)
  have "P (fold update_open_recommendations bs st)" if "P st" for bs st
    using that by (induction bs arbitrary: st) (auto intro: bars)
  then have advance: "P (en_store (fst (each_bar (advance cfg) bs e)))" if "P (en_store e)" for bs e
    using each_bar_advance [of bs cfg e] that by metis
  show ?thesis using assms(1,2)
  proof (induction rule: live_step.induct)
    case (Process bar available_at e e' r)
    then show ?case using process by blast
  next
    case (Snapshot bars e e' r)
    obtain e1 r1 where w: "each_bar (warmup cfg) (butlast bars) e = (e1, r1)" by fastforce
    then have e1: "P (en_store e1)" using each_bar_warmup [of cfg "butlast bars" e] Snapshot.prems by simp
    obtain e2 r2 where p: "process cfg (last bars) None e1 = (e2, r2)" by fastforce
    have "P (en_store e2)" using process [OF e1 _ p] Snapshot.hyps(1) by blast
    then show ?case using Snapshot.hyps(2) Snapshot.prems e1
      by (auto simp: process_snapshot_def w p split: if_splits sum.splits)
  next
    case (Forward bars available_at e e' r)
    define pending where "pending = pending_bars (last_processed_bar (bar_symbol (last bars)) (en_store e)) bars"
    define old where "old = history_bars (last_processed_bar (bar_symbol (last bars)) (en_store e)) bars"
    obtain e1 r1 where w: "each_bar (warmup cfg) old e = (e1, r1)" by fastforce
    then have e1: "en_store e1 = en_store e" using each_bar_warmup [of cfg old e] by simp
    obtain e2 r2 where a: "each_bar (advance cfg) (butlast pending) e1 = (e2, r2)" by fastforce
    then have e2: "P (en_store e2)" using advance [of e1 "butlast pending"] e1 Forward.prems by simp
    have sub: "pending \<noteq> [] \<Longrightarrow> last pending \<in> set bars"
      by (metis (no_types, lifting) filter_is_subset last_in_set pending_bars_def pending_def subsetD)
    obtain e3 r3 where p: "process cfg (last pending) available_at e2 = (e3, r3)" by fastforce
    have e3: "pending \<noteq> [] \<Longrightarrow> P (en_store e3)" using process [OF e2 _ p] Forward.hyps(1) sub by blast
    show ?case using Forward.hyps(2) Forward.prems e1 e2 e3 checkpoints
      by (auto simp: process_forward_def Let_def pending_def [symmetric] old_def [symmetric] w a p checkpoint_after_def
          split: if_splits sum.splits)
  next
    case (Advance bars e e' n)
    define pending where "pending = pending_bars (last_processed_bar (bar_symbol (last bars)) (en_store e)) bars"
    define old where "old = history_bars (last_processed_bar (bar_symbol (last bars)) (en_store e)) bars"
    obtain e1 r1 where w: "each_bar (warmup cfg) old e = (e1, r1)" by fastforce
    then have e1: "en_store e1 = en_store e" using each_bar_warmup [of cfg old e] by simp
    obtain e2 r2 where a: "each_bar (advance cfg) pending e1 = (e2, r2)" by fastforce
    then have e2: "P (en_store e2)" using advance [of e1 pending] e1 Advance.prems by simp
    show ?case using Advance.hyps Advance.prems e1 e2 checkpoints
      by (auto simp: advance_forward_def Let_def pending_def [symmetric] old_def [symmetric] w a checkpoint_after_def
          split: if_splits sum.splits)
  qed
qed

subsection \<open>Histories\<close>

lemma counted_fold:
  "(\<And>r st n. fst (f r (st, n)) = g r st) \<Longrightarrow> fst (fold f rs (st, n)) = fold g rs st"
proof (induction rs arbitrary: st n)
  case (Cons r rs)
  obtain st' n' where "f r (st, n) = (st', n')" by fastforce
  then show ?case using Cons.IH [of st' n'] Cons.prems Cons.prems [of r st n] by simp
qed simp

lemma store_ok_cong:
  assumes "ps_rows st' = ps_rows st" "ps_events st' = ps_events st"
  shows "store_ok Q st' = store_ok Q st"
  unfolding store_ok_def recorded_def events_def by (simp only: assms)

lemma close_step_ok:
  assumes "close_step st st'" "store_ok any_time st"
  shows "store_ok any_time st'"
  using assms
proof (cases rule: close_step.cases)
  note d = store_okD(3) [OF assms(2)]
  have pass: "store_ok any_time (fold f rs st)"
    if "set rs \<subseteq> set (ps_rows st)" "distinct (map rc_id rs)"
      "\<And>r st'. r \<in> set rs \<Longrightarrow> \<exists>cs. f r st' = apply_changes (rc_id r) cs st' \<and> legal_changes any_time r cs" for f rs
    using store_ok_pass [OF assms(2) that(2,1,3)] by blast
  have one: "legal_changes any_time r [(s, t, p, n)]" if "legal_change (rc_state r) s" for r s t p n
    using that by (simp add: legal_changes_def any_time_def)
  {
    case (Finalize_Day bar)
    show ?thesis unfolding Finalize_Day finalize_day_def
    proof (intro pass open_recommendations_distinct [OF d])
      fix r st' assume r: "r \<in> set (open_recommendations (bar_symbol bar) st)"
      show "\<exists>cs. set_state (rc_id r) Time_Exit (bar_timestamp bar) (Some (bar_close bar)) Session_Closed st'
          = apply_changes (rc_id r) cs st' \<and> legal_changes any_time r cs"
        by (rule exI [of _ "[(Time_Exit, bar_timestamp bar, Some (bar_close bar), Session_Closed)]"])
          (use r in \<open>auto simp: open_recommendations_set open_states_def intro!: one\<close>)
    qed (auto simp: open_recommendations_set)
  next
    case (Finalize_Due observed_at n)
    define g where "g r st = fst (finalize_one observed_at r (st, 0))" for r st
    have fg: "fst (finalize_one observed_at r (x, k)) = g r x" for r x k
      by (simp add: g_def finalize_one_def Let_def split: option.split prod.split)
    have "st' = fold g (recommendations st) st"
      using Finalize_Due counted_fold [of "finalize_one observed_at" g, OF fg]
      by (metis finalize_due_recommendations_def fst_conv)
    moreover have "\<exists>cs. g r x = apply_changes (rc_id r) cs x \<and> legal_changes any_time r cs" for r x
    proof (cases "g r x = x")
      case True
      then show ?thesis by (intro exI [of _ "[]"]) (simp add: legal_changes_def)
    next
      case False
      then obtain t p k where "g r x = set_state (rc_id r) Time_Exit t p k x" "rc_state r \<in> set open_states"
        by (auto simp: g_def finalize_one_def Let_def split: if_splits option.splits)
      then show ?thesis by (intro exI [of _ "[(Time_Exit, t, p, k)]"]) (auto simp: open_states_def intro!: one)
    qed
    ultimately show ?thesis using recommendations_distinct d by (auto intro!: pass)
  next
    case (Exclude observed_at n)
    define g where "g r st = fst (exclude_one observed_at r (st, 0))" for r st
    have fg: "fst (exclude_one observed_at r (x, k)) = g r x" for r x k
      by (simp add: g_def exclude_one_def)
    have "st' = fold g (filter (\<lambda>r. rc_state r \<noteq> Causality_Excluded) (recommendations st)) st"
      using Exclude counted_fold [of "exclude_one observed_at" g, OF fg]
      by (metis exclude_backdated_recommendations_def fst_conv)
    moreover have "\<exists>cs. g r x = apply_changes (rc_id r) cs x \<and> legal_changes any_time r cs"
      if "rc_state r \<noteq> Causality_Excluded" for r x
    proof (cases "g r x = x")
      case True
      then show ?thesis by (intro exI [of _ "[]"]) (simp add: legal_changes_def)
    next
      case False
      then have "g r x = set_state (rc_id r) Causality_Excluded observed_at None Causality_Exclusion_Note x"
        by (auto simp: g_def exclude_one_def split: if_splits)
      then show ?thesis using that
        by (intro exI [of _ "[(Causality_Excluded, observed_at, None, Causality_Exclusion_Note)]"])
          (cases "rc_state r"; auto intro!: one)
    qed
    ultimately show ?thesis using filtered_recommendations_distinct [OF d] by (auto intro!: pass)
  next
    case (Queue_Alert alert queued)
    then have "ps_rows st' = ps_rows st" "ps_events st' = ps_events st"
      by (auto simp: queue_alert_def split: if_splits)
    then show ?thesis using assms(2) store_ok_cong by blast
  }
qed

lemma store_ok_checkpoint: "store_ok Q (set_last_processed_bar symbol t c st) = store_ok Q st"
  by (rule store_ok_cong) (simp_all add: set_last_processed_bar_def split: option.split)

lemma live_step_ok:
  assumes "live_step cfg T st st'" "store_ok Q st" "bar_condition Q"
  shows "store_ok Q st'"
  using assms(1,2)
proof (rule live_step_keeps)
  show "store_ok Q (update_open_recommendations bar st)" if "store_ok Q st" for bar st
    using update_open_effect(1) [OF that assms(3)] .
qed (auto simp: store_ok_checkpoint fresh_recommendation_def intro: store_ok_save)

lemma run_store_ok:
  assumes "(\<lambda>a b. live_step cfg T a b \<or> close_step a b)\<^sup>*\<^sup>* empty_store st"
  shows "store_ok any_time st"
  using assms
proof (induction rule: rtranclp_induct)
  case (step y z)
  then show ?case using live_step_ok [of cfg T y z any_time] close_step_ok by auto
qed simp

text \<open>C11. Every recommendation has a legal history: whatever bars are processed, whenever the engine
  restarts and however days are closed or records excluded, its events begin with its creation, each
  next state is one the lifecycle allows (a finished recommendation never reopens), and the last
  event is its stored state.\<close>

theorem recommendation_history_is_legal:
  assumes "(\<lambda>a b. live_step cfg T a b \<or> close_step a b)\<^sup>*\<^sup>* empty_store st" "r \<in> set (ps_rows st)"
  shows "\<exists>e es. events (rc_id r) st = e # es \<and> ev_state e = Setup \<and> ev_occurred_at e = rc_created_at r
    \<and> pairwise_list legal_change (map ev_state (e # es)) \<and> ev_state (last (e # es)) = rc_state r"
proof -
  have "recorded any_time st r" using run_store_ok [OF assms(1)] store_okD(1) assms(2) by blast
  then show ?thesis unfolding recorded_def by blast
qed

text \<open>C10. No bar is used before it could be seen: as long as bars alone drive the engine, no
  recommendation has an event before the first full minute after its creation, so the causality
  audit of the table finds nothing to exclude.\<close>

theorem bars_are_causal:
  assumes "(live_step cfg T)\<^sup>*\<^sup>* empty_store st"
  shows "exclude_backdated_recommendations observed_at st = (st, 0)"
proof -
  have ok: "store_ok eligible st" using assms
    by (induction rule: rtranclp_induct) (auto intro: live_step_ok)
  have "\<not> backdated st r" if r: "r \<in> set (ps_rows st)" for r
  proof -
    obtain e es where "events (rc_id r) st = e # es" "\<forall>x \<in> set es. eligible (rc_created_at r) (ev_occurred_at x)"
      using store_okD(1) [OF ok r] unfolding recorded_def by blast
    then show ?thesis by (auto simp: backdated_def eligible_def list_ex_iff not_less)
  qed
  then have "fold (exclude_one observed_at) rs (st, 0) = (st, 0)" if "set rs \<subseteq> set (ps_rows st)" for rs
    using that by (induction rs) (auto simp: exclude_one_def)
  then show ?thesis by (auto simp: exclude_backdated_recommendations_def)
qed

subsection \<open>One bar, one recommendation\<close>

text \<open>The lifecycle of one recommendation under one bar, the stop judged before the targets.\<close>

definition held_outcome :: "bar_input \<Rightarrow> recommendation \<Rightarrow> recommendation_state \<Rightarrow> recommendation_state" where
  "held_outcome bar r s =
     (if bar_low bar \<le> rc_stop r then Stopped
      else if rc_target_2r r \<le> bar_high bar then Target_2R
      else if s = Active \<and> rc_target_1r r \<le> bar_high bar then Target_1R else s)"

definition next_state :: "bar_input \<Rightarrow> recommendation \<Rightarrow> recommendation_state" where
  "next_state bar r =
     (if rc_symbol r \<noteq> bar_symbol bar \<or> ny (bar_timestamp bar) < first_eligible_bar_at (rc_created_at r)
      then rc_state r
      else case rc_state r of
        Setup \<Rightarrow> if rc_entry r \<le> bar_high bar then held_outcome bar r Active
                 else if bar_low bar \<le> rc_stop r then Invalidated else Setup
      | Active \<Rightarrow> held_outcome bar r Active
      | Target_1R \<Rightarrow> held_outcome bar r Target_1R
      | s \<Rightarrow> s)"

lemma follow_next_state: "follow bar r = r \<lparr> rc_state := next_state bar r \<rparr>"
proof -
  have "r = r \<lparr> rc_state := rc_state r \<rparr>" by simp
  then show ?thesis
    by (cases "rc_state r")
      (auto simp: follow_def next_state_def held_outcome_def reaction_def settle_changes_def open_states_def eligible_def)
qed

lemma update_open_checkpoints [simp]:
  "ps_checkpoints (update_open_recommendations bar st) = ps_checkpoints st"
proof -
  have "ps_checkpoints (fold (update_one bar) rs st) = ps_checkpoints st" for rs
    by (induction rs arbitrary: st) (simp_all add: update_one_changes)
  then show ?thesis by (simp add: update_open_recommendations_def)
qed

lemma fold_update_open_checkpoints [simp]:
  "ps_checkpoints (fold update_open_recommendations bars st) = ps_checkpoints st"
  by (induction bars arbitrary: st) simp_all

lemma fold_update_open_rows:
  assumes "store_ok any_time st"
  shows "ps_rows (fold update_open_recommendations bars st) = map (fold follow bars) (ps_rows st)"
  using assms
proof (induction bars arbitrary: st)
  case (Cons bar bars)
  show ?case using Cons.IH [of "update_open_recommendations bar st"] update_open_effect [OF Cons.prems, of bar]
    by (simp add: comp_def)
qed (simp add: id_def)

text \<open>What an advance that returns has done to the store.\<close>

lemma advance_forward_store:
  assumes "advance_forward cfg bars e = (e', Inr n)"
  defines "pending \<equiv> pending_bars (last_processed_bar (bar_symbol (last bars)) (en_store e)) bars"
  shows "n = length pending \<and> en_store e' = (if pending = [] then en_store e
    else set_last_processed_bar (bar_symbol (last bars)) (bar_timestamp (last pending)) (bar_close (last pending))
      (fold update_open_recommendations pending (en_store e)))"
proof (cases "bars = []")
  case True
  then show ?thesis using assms by (simp add: advance_forward_def pending_bars_def)
next
  case False
  define old where "old = history_bars (last_processed_bar (bar_symbol (last bars)) (en_store e)) bars"
  obtain e1 r1 where w: "each_bar (warmup cfg) old e = (e1, r1)" by fastforce
  then have e1: "en_store e1 = en_store e" using each_bar_warmup [of cfg old e] by simp
  obtain e2 r2 where a: "each_bar (advance cfg) pending e1 = (e2, r2)" by fastforce
  have "r2 = Inr () \<longrightarrow> en_store e2 = fold update_open_recommendations pending (en_store e1)"
    using each_bar_advance [of pending cfg e1] a by auto
  then show ?thesis using assms(1) False e1
    by (auto simp: advance_forward_def Let_def pending_def [symmetric] old_def [symmetric] w a checkpoint_after_def
        split: if_splits sum.splits)
qed

text \<open>C14. Recommendations do not influence each other: advancing over bars moves every row of the table
  by its own lifecycle, bar after bar, and leaves every other column as it was.\<close>

theorem recommendations_evolve_alone:
  assumes "store_ok any_time (en_store e)" "advance_forward cfg bars e = (e', Inr n)"
  shows "ps_rows (en_store e') = map (fold (\<lambda>bar r. r \<lparr> rc_state := next_state bar r \<rparr>)
    (pending_bars (last_processed_bar (bar_symbol (last bars)) (en_store e)) bars)) (ps_rows (en_store e))"
proof -
  have "ps_rows (set_last_processed_bar symbol t c st) = ps_rows st" for symbol t c st
    by (simp add: set_last_processed_bar_def split: option.split)
  moreover have "(\<lambda>bar r. r \<lparr> rc_state := next_state bar r \<rparr>) = follow"
    by (intro ext) (simp add: follow_next_state)
  ultimately show ?thesis
    using advance_forward_store [OF assms(2)] fold_update_open_rows [OF assms(1)]
    by (simp add: id_def)
qed

subsection \<open>Restarts\<close>

lemma last_processed_cong: "ps_checkpoints st = ps_checkpoints st' \<Longrightarrow> last_processed_bar s st = last_processed_bar s st'"
  by (simp add: last_processed_bar_def)

lemma sorted_last_ge:
  "sorted_wrt (<) (map f xs) \<Longrightarrow> x \<in> set xs \<Longrightarrow> (f x :: int) \<le> f (last xs)"
  by (induction xs) (auto simp: less_imp_le)

lemma pending_split:
  fixes c :: "int option"
  assumes "sorted_wrt (<) (map bar_timestamp (xs @ ys))"
  defines "p \<equiv> pending_bars c xs"
  shows "pending_bars (if p = [] then c else Some (bar_timestamp (last p))) (xs @ ys)
      = (if p = [] then pending_bars c ys else ys)
    \<and> (p \<noteq> [] \<longrightarrow> pending_bars c ys = ys)"
proof (cases "p = []")
  case False
  then obtain x where x: "x \<in> set p" by (cases p) auto
  have sub: "set p \<subseteq> set xs" by (auto simp: p_def pending_bars_def)
  have "sorted_wrt (<) (map bar_timestamp p)"
    unfolding p_def pending_bars_def using assms(1) by (simp add: sorted_wrt_map sorted_wrt_append sorted_wrt_filter)
  have last_p: "last p \<in> set xs" using False sub by auto
  have top: "bar_timestamp b \<le> bar_timestamp (last p)" if "b \<in> set xs" for b
  proof (cases "b \<in> set p")
    case True
    then show ?thesis using \<open>sorted_wrt (<) (map bar_timestamp p)\<close> by (rule sorted_last_ge [rotated])
  next
    case out: False
    then have "\<exists>t. c = Some t \<and> bar_timestamp b \<le> t" using that
      by (auto simp: p_def pending_bars_def split: option.splits)
    moreover have "last p \<in> set p" using False by simp
    ultimately show ?thesis by (auto simp: p_def pending_bars_def)
  qed
  moreover have "bar_timestamp (last p) < bar_timestamp y" if "y \<in> set ys" for y
    using assms(1) last_p that by (auto simp: sorted_wrt_append)
  moreover have "case c of None \<Rightarrow> True | Some t \<Rightarrow> bar_timestamp y > t" if "y \<in> set ys" for y
  proof -
    have "last p \<in> set (pending_bars c xs)" using False unfolding p_def by simp
    then have "case c of None \<Rightarrow> True | Some t \<Rightarrow> bar_timestamp (last p) > t"
      unfolding pending_bars_def by simp
    then show ?thesis using calculation(2) [OF that] by (auto split: option.splits)
  qed
  ultimately show ?thesis using False
    by (auto simp: pending_bars_def filter_empty_conv not_less intro!: filter_True)
qed (simp add: pending_bars_def p_def)

lemma set_last_processed_newer:
  assumes "case last_processed_bar symbol st of None \<Rightarrow> True | Some t' \<Rightarrow> t' < t"
  shows "set_last_processed_bar symbol t c st = st \<lparr> ps_checkpoints := (ps_checkpoints st)(symbol \<mapsto> (t, Some c)) \<rparr>"
  using assms by (auto simp: set_last_processed_bar_def split: option.splits)

lemma set_state_checkpoints:
  "set_state i s t p n (st \<lparr> ps_checkpoints := k \<rparr>) = (set_state i s t p n st) \<lparr> ps_checkpoints := k \<rparr>"
  by (simp add: set_state_def)

lemma update_open_new_checkpoints:
  "update_open_recommendations bar (st \<lparr> ps_checkpoints := k \<rparr>) = (update_open_recommendations bar st) \<lparr> ps_checkpoints := k \<rparr>"
proof -
  have "apply_changes i cs (st \<lparr> ps_checkpoints := k \<rparr>) = (apply_changes i cs st) \<lparr> ps_checkpoints := k \<rparr>" for i cs st
    by (induction i cs st rule: apply_changes.induct) (simp_all add: set_state_checkpoints)
  then have "fold (update_one bar) rs (st \<lparr> ps_checkpoints := k \<rparr>) = (fold (update_one bar) rs st) \<lparr> ps_checkpoints := k \<rparr>" for rs st
    by (induction rs arbitrary: st) (simp_all add: update_one_changes)
  then show ?thesis
    by (simp add: update_open_recommendations_def open_recommendations_def recommendations_def)
qed

lemma fold_update_open_new_checkpoints:
  "fold update_open_recommendations bars (st \<lparr> ps_checkpoints := k \<rparr>)
     = (fold update_open_recommendations bars st) \<lparr> ps_checkpoints := k \<rparr>"
  by (induction bars arbitrary: st) (simp_all add: update_open_new_checkpoints)

lemma pending_append: "pending_bars c (xs @ ys) = pending_bars c xs @ pending_bars c ys"
  by (simp add: pending_bars_def)

lemma last_pending:
  assumes "pending_bars c bars \<noteq> []"
  shows "last (pending_bars c bars) \<in> set bars"
    and "case c of None \<Rightarrow> True | Some t \<Rightarrow> t < bar_timestamp (last (pending_bars c bars))"
proof -
  have "last (pending_bars c bars) \<in> set (pending_bars c bars)" using assms by simp
  then show "last (pending_bars c bars) \<in> set bars"
    "case c of None \<Rightarrow> True | Some t \<Rightarrow> t < bar_timestamp (last (pending_bars c bars))"
    unfolding pending_bars_def by auto
qed

lemma advance_continues:
  fixes c :: "int option"
  assumes "sorted_wrt (<) (map bar_timestamp (xs @ ys))"
  defines "p \<equiv> pending_bars c xs"
  assumes "last_processed_bar symbol st = c" "p \<noteq> []" "pending_bars c ys = ys"
    and "st1 = set_last_processed_bar symbol (bar_timestamp (last p)) (bar_close (last p)) (fold update_open_recommendations p st)"
  shows "last_processed_bar symbol st1 = Some (bar_timestamp (last p))"
    and "ys \<noteq> [] \<Longrightarrow> set_last_processed_bar symbol (bar_timestamp (last ys)) (bar_close (last ys)) (fold update_open_recommendations ys st1)
      = set_last_processed_bar symbol (bar_timestamp (last ys)) (bar_close (last ys)) (fold update_open_recommendations (p @ ys) st)"
proof -
  have newer: "case c of None \<Rightarrow> True | Some t \<Rightarrow> t < bar_timestamp (last p)"
    using last_pending(2) assms(4) unfolding p_def .
  have new1: "st1 = fold update_open_recommendations p st
      \<lparr> ps_checkpoints := (ps_checkpoints st)(symbol \<mapsto> (bar_timestamp (last p), Some (bar_close (last p)))) \<rparr>"
    using assms(3,6) newer by (simp add: set_last_processed_newer last_processed_bar_def)
  then show "last_processed_bar symbol st1 = Some (bar_timestamp (last p))"
    by (simp add: last_processed_bar_def)
  assume ys: "ys \<noteq> []"
  have "last p \<in> set xs" using last_pending(1) assms(4) unfolding p_def .
  then have later: "bar_timestamp (last p) < bar_timestamp (last ys)"
    using assms(1) ys by (auto simp: sorted_wrt_append)
  then have "case c of None \<Rightarrow> True | Some t \<Rightarrow> t < bar_timestamp (last ys)"
    using newer by (auto split: option.splits)
  then show "set_last_processed_bar symbol (bar_timestamp (last ys)) (bar_close (last ys)) (fold update_open_recommendations ys st1)
      = set_last_processed_bar symbol (bar_timestamp (last ys)) (bar_close (last ys)) (fold update_open_recommendations (p @ ys) st)"
    using later assms(3) by (simp add: new1 set_last_processed_newer last_processed_bar_def fold_update_open_new_checkpoints)
qed

text \<open>C12. A restart is invisible in the store: bars of one symbol in the order of time, advanced in two
  runs with a new scanner and strategy in between, the second run being handed all bars again, end in
  the same store as one uninterrupted run, and no bar is counted twice.\<close>

theorem restart_is_invisible:
  assumes bars: "sorted_wrt (<) (map bar_timestamp (xs @ ys))" "xs \<noteq> []" "\<And>b. b \<in> set (xs @ ys) \<Longrightarrow> bar_symbol b = symbol"
    and first: "advance_forward cfg xs e = (e1, Inr n)"
    and again: "advance_forward cfg (xs @ ys) e2 = (e3, Inr m)" "en_store e2 = en_store e1"
    and whole: "advance_forward cfg (xs @ ys) e = (e4, Inr k)"
  shows "en_store e3 = en_store e4 \<and> n + m = k"
proof -
  define c where "c = last_processed_bar symbol (en_store e)"
  define p where "p = pending_bars c xs"
  have sym: "bar_symbol (last xs) = symbol" "bar_symbol (last (xs @ ys)) = symbol"
    using bars(2,3) by (auto simp: last_append)
  have st1: "n = length p \<and> en_store e1 = (if p = [] then en_store e else
      set_last_processed_bar symbol (bar_timestamp (last p)) (bar_close (last p)) (fold update_open_recommendations p (en_store e)))"
    using advance_forward_store [OF first] unfolding sym c_def [symmetric] p_def [symmetric] .
  have st4: "k = length (p @ pending_bars c ys) \<and> en_store e4 = (if p @ pending_bars c ys = [] then en_store e else
      set_last_processed_bar symbol (bar_timestamp (last (p @ pending_bars c ys))) (bar_close (last (p @ pending_bars c ys)))
        (fold update_open_recommendations (p @ pending_bars c ys) (en_store e)))"
    using advance_forward_store [OF whole] unfolding sym c_def [symmetric] pending_append p_def [symmetric] .
  note split = pending_split [OF bars(1), of c, folded p_def]
  show ?thesis
  proof (cases "p = []")
    case True
    then have same: "en_store e2 = en_store e" using st1 again(2) by simp
    have "m = length (p @ pending_bars c ys) \<and> en_store e3 = en_store e4"
      using advance_forward_store [OF again(1)] st4
      unfolding sym same c_def [symmetric] pending_append p_def [symmetric] by simp
    then show ?thesis using st1 st4 True by simp
  next
    case False
    have all_ys: "pending_bars c ys = ys" using split False by simp
    have e1: "en_store e1 = set_last_processed_bar symbol (bar_timestamp (last p)) (bar_close (last p))
        (fold update_open_recommendations p (en_store e))"
      using st1 False by simp
    note next_run = advance_continues [OF bars(1), where c = c and symbol = symbol and st = "en_store e",
        folded p_def, OF c_def [symmetric] False all_ys e1]
    have "m = length ys \<and> en_store e3 = (if ys = [] then en_store e1 else
        set_last_processed_bar symbol (bar_timestamp (last ys)) (bar_close (last ys)) (fold update_open_recommendations ys (en_store e1)))"
      using advance_forward_store [OF again(1)] split False unfolding sym again(2) next_run(1) by simp
    then show ?thesis using st1 st4 all_ys next_run(2) False by (cases "ys = []") simp_all
  qed
qed

subsection \<open>One recommendation per day\<close>

text \<open>The bar was available on its own New York day, as in a live run.\<close>

definition timely :: "bar_input \<Rightarrow> int option \<Rightarrow> bool" where
  "timely bar available_at =
     (case available_at of None \<Rightarrow> True | Some t \<Rightarrow> new_york_date t = new_york_date (bar_timestamp bar))"

definition recommendation_day :: "recommendation \<Rightarrow> symbol \<times> string \<times> int" where
  "recommendation_day r = (rc_symbol r, rc_strategy r, new_york_date (rc_created_at r))"

definition days_of :: "paper_store \<Rightarrow> (symbol \<times> string \<times> int) list" where
  "days_of st = map recommendation_day (ps_rows st)"

lemma days_of_set_state [simp]: "days_of (set_state i s t p n st) = days_of st"
  by (simp add: days_of_def rows_set_state recommendation_day_def)

lemma days_of_same [simp]:
  "days_of (st \<lparr> ps_checkpoints := k \<rparr>) = days_of st" "days_of (st \<lparr> ps_alerts := a \<rparr>) = days_of st"
  by (simp_all add: days_of_def)

lemma days_of_fold: "(\<And>r st. days_of (f r st) = days_of st) \<Longrightarrow> days_of (fold f rs st) = days_of st"
  by (induction rs arbitrary: st) simp_all

lemma days_of_changes [simp]: "days_of (apply_changes i cs st) = days_of st"
  by (induction i cs st rule: apply_changes.induct) simp_all

lemma days_of_update_open [simp]: "days_of (update_open_recommendations bar st) = days_of st"
  unfolding update_open_recommendations_def by (rule days_of_fold) (simp add: update_one_changes)

lemma days_of_checkpoint [simp]: "days_of (set_last_processed_bar symbol t c st) = days_of st"
  by (simp add: set_last_processed_bar_def split: option.split)

lemma days_of_close: "close_step st st' \<Longrightarrow> days_of st' = days_of st"
proof (induction rule: close_step.induct)
  case (Finalize_Day st bar)
  show ?case unfolding finalize_day_def by (rule days_of_fold) simp
next
  case (Finalize_Due observed_at st st' n)
  have "days_of (fst (fold (finalize_one observed_at) rs (x, k))) = days_of x" for rs x k
  proof (induction rs arbitrary: x k)
    case (Cons r rs)
    obtain x' k' where f: "finalize_one observed_at r (x, k) = (x', k')" by fastforce
    then have "days_of x' = days_of x"
      by (auto simp: finalize_one_def Let_def split: if_splits option.splits)
    then show ?case using Cons [of x' k'] by (simp add: f)
  qed simp
  then show ?case using Finalize_Due by (metis finalize_due_recommendations_def fst_conv)
next
  case (Exclude observed_at st st' n)
  have "days_of (fst (fold (exclude_one observed_at) rs (x, k))) = days_of x" for rs x k
  proof (induction rs arbitrary: x k)
    case (Cons r rs)
    obtain x' k' where f: "exclude_one observed_at r (x, k) = (x', k')" by fastforce
    then have "days_of x' = days_of x" by (auto simp: exclude_one_def split: if_splits)
    then show ?case using Cons [of x' k'] by (simp add: f)
  qed simp
  then show ?case using Exclude by (metis exclude_backdated_recommendations_def fst_conv)
qed (auto simp: queue_alert_def split: if_splits)

text \<open>A recommendation is created on the day of its signal, which is the day of its bar.\<close>

lemma created_on_signal_day:
  assumes "strategy_contract strategy spent" "is_observe strategy bar c s = (s', Inr (Some sg))" "timely bar available_at"
  shows "new_york_date (created_at sg available_at) = new_york_date (sg_timestamp sg)"
  using strategy_contract.signal_wall [OF assms(1,2)] assms(3)
  by (auto simp: created_at_def timely_def new_york_date_def split: option.splits)

lemma already_recommended_days:
  "already_recommended sg st \<longleftrightarrow> (sg_symbol sg, sg_strategy sg, new_york_date (sg_timestamp sg)) \<in> set (days_of st)"
  by (auto simp: already_recommended_def list_ex_iff days_of_def recommendation_day_def image_iff) metis

definition one_per_day :: "paper_store \<Rightarrow> bool" where
  "one_per_day st \<longleftrightarrow> store_ok any_time st \<and> distinct (days_of st)"

lemma one_per_day_saves:
  assumes "strategy_contract strategy spent" "one_per_day st" "timely bar available_at"
    and "is_observe strategy bar c s = (s', Inr (Some sg))" "\<not> already_recommended sg st"
    and "fresh_recommendation sg available_at x" "save x st = Inr st'"
  shows "one_per_day st'"
proof -
  note f = assms(6) [unfolded fresh_recommendation_def]
  have "recommendation_day x = (sg_symbol sg, sg_strategy sg, new_york_date (sg_timestamp sg))"
    using f created_on_signal_day [OF assms(1,4,3)] by (simp add: recommendation_day_def)
  moreover have "days_of st' = days_of st @ [recommendation_day x]"
    using save_Inr(2) [OF assms(7)] f by (simp add: days_of_def)
  ultimately show ?thesis
    using assms(2,5) f store_ok_save [OF _ assms(7)] unfolding one_per_day_def already_recommended_days by auto
qed

lemma one_per_day_live:
  assumes "strategy_contract (ec_strategy cfg) spent" "live_step cfg timely x y" "one_per_day x"
  shows "one_per_day y"
  using assms(2,3)
proof (rule live_step_keeps)
  show "one_per_day (update_open_recommendations bar st)" if "one_per_day st" for bar st
    using that update_open_effect(1) by (auto simp: one_per_day_def)
next
  show "one_per_day (set_last_processed_bar symbol t c st)" if "one_per_day st" for symbol t c st
    using that by (simp add: one_per_day_def store_ok_checkpoint)
qed (rule one_per_day_saves [OF assms(1)])

lemma fresh_key_is_new:
  assumes "strategy_contract strategy spent" "store_ok any_time st" "timely bar available_at"
    and "is_observe strategy bar c s = (s', Inr (Some sg))" "\<not> already_recommended sg st"
    and "fresh_recommendation sg available_at x"
  shows "save x st \<noteq> Inl Duplicate_Recommendation"
proof
  assume "save x st = Inl Duplicate_Recommendation"
  then obtain row where row: "row \<in> set (ps_rows st)" "rc_id row = rc_id x"
    by (auto simp: save_def list_ex_iff split: if_splits)
  note f = assms(6) [unfolded fresh_recommendation_def]
  have "rc_id row = (rc_created_at row, rc_symbol row, rc_strategy row)"
    using store_okD(1) [OF assms(2) row(1)] unfolding recorded_def by blast
  then have "recommendation_day row = (sg_symbol sg, sg_strategy sg, new_york_date (sg_timestamp sg))"
    using row(2) f created_on_signal_day [OF assms(1,4,3)] by (simp add: recommendation_day_def)
  then show False using assms(5) row(1)
    unfolding already_recommended_days days_of_def by (metis image_eqI image_set)
qed

lemma process_meets_no_duplicate:
  assumes "strategy_contract (ec_strategy cfg) spent" "one_per_day (en_store e)" "timely bar available_at"
  shows "snd (process cfg bar available_at e) \<noteq> Inl Duplicate_Recommendation"
proof
  assume dup: "snd (process cfg bar available_at e) = Inl Duplicate_Recommendation"
  obtain e' r where pr: "process cfg bar available_at e = (e', r)" by fastforce
  have ok: "store_ok any_time (update_open_recommendations bar (en_store e))"
    using assms(2) update_open_effect(1) by (auto simp: one_per_day_def)
  show False using process_store [OF pr]
  proof (elim disjE exE conjE)
    fix c s s' sg
    assume ob: "is_observe (ec_strategy cfg) bar c s = (s', Inr (Some sg))"
      and re: "recommend (ec_risk cfg) bar available_at sg (update_open_recommendations bar (en_store e)) = (en_store e', r)"
    show False using re
      by (cases rule: recommend_cases) (use dup pr fresh_key_is_new [OF assms(1) ok assms(3) ob] in auto)
  qed (use dup pr strategy_contract.writes_nothing [OF assms(1)] in auto)
qed

text \<open>C13. At most one recommendation per symbol, strategy and New York day: with a strategy that keeps
  its contract and bars that arrive on their day, no sequence of operations and restarts creates a
  second one, and creating the first never meets a duplicate key.\<close>

theorem one_recommendation_per_day:
  assumes contract: "strategy_contract (ec_strategy cfg) spent"
    and run: "(\<lambda>a b. live_step cfg timely a b \<or> close_step a b)\<^sup>*\<^sup>* empty_store st"
  shows "distinct (map (\<lambda>r. (rc_symbol r, rc_strategy r, new_york_date (rc_created_at r))) (ps_rows st))
    \<and> (timely bar available_at \<and> en_store e = st
        \<longrightarrow> snd (process cfg bar available_at e) \<noteq> Inl Duplicate_Recommendation)"
proof -
  have "one_per_day st" using run
  proof (induction rule: rtranclp_induct)
    case base
    show ?case by (simp add: one_per_day_def days_of_def empty_store_def store_ok_def)
  next
    case (step y z)
    then show ?case using one_per_day_live [OF contract] close_step_ok days_of_close by (auto simp: one_per_day_def)
  qed
  then show ?thesis using process_meets_no_duplicate [OF contract]
    by (auto simp: one_per_day_def days_of_def recommendation_day_def [abs_def])
qed

text \<open>C15. Each of the four strategies gives at most one signal per symbol and day, whatever bars and
  candidates it is shown and in whatever order.\<close>

theorem strategies_signal_once:
  "distinct (map signal_day (run_strategy (opening_range_breakout orb_config) xs (\<lambda>_. None)))
    \<and> distinct (map signal_day (run_strategy (first_hod_volume_breakout hod_config) xs (\<lambda>_. None)))
    \<and> distinct (map signal_day (run_strategy (first_pullback_vwap_reclaim vwap_config) xs (\<lambda>_. None)))
    \<and> distinct (map signal_day (run_strategy (five_minute_gap_hold gap_config) xs (\<lambda>_. None)))"
  using orb.signals_once hod.signals_once vwap.signals_once gap.signals_once by blast

subsection \<open>A concrete day\<close>

text \<open>A two minute opening range, a breakout at 09:32 and the bar that triggers the entry.\<close>

definition example_bar :: "int \<Rightarrow> rat \<Rightarrow> rat \<Rightarrow> rat \<Rightarrow> int \<Rightarrow> bar_input" where
  "example_bar minute high low close volume = \<lparr> bar_symbol = ''ABC'',
     bar_timestamp = ny_utc (combine (ymd2ord 2026 3 2) (time_of 9 minute)), bar_open = low, bar_high = high,
     bar_low = low, bar_close = close, bar_volume = volume, bar_prior_close = 8,
     bar_average_daily_volume = 390, bar_spread_bps = 4, bar_catalyst = [] \<rparr>"

definition example_config :: "orb_state engine_config" where
  "example_config = \<lparr>
     ec_scanner = \<lparr> sc_min_gap_pct = 0, sc_min_change_pct = 0, sc_min_relative_volume = 2, sc_min_price = 1,
       sc_max_price = 200, sc_min_dollar_volume = 1000, sc_max_spread_bps = 100 \<rparr>,
     ec_strategy = opening_range_breakout \<lparr> orb_range_minutes = 2, orb_breakout_buffer_bps = 0, orb_volume_multiplier = 3/2 \<rparr>,
     ec_risk = \<lparr> rk_max_spread_bps = 100, rk_max_risk_pct = 1/4, rk_target_2r_multiple = 2 \<rparr> \<rparr>"

text \<open>The engine at 09:32, and the two bars that follow.\<close>

definition example_engine :: "orb_state engine" where
  "example_engine = (let key = (''ABC'', ymd2ord 2026 3 2) in
     \<lparr> en_scanner = \<lparr> sn_cumulative_volume = [key \<mapsto> 2000], sn_bar_count = [key \<mapsto> 2], sn_regular_open = [key \<mapsto> 15] \<rparr>,
       en_strategy = [key \<mapsto> \<lparr> or_bars = [(combine (ymd2ord 2026 3 2) (time_of 9 30), example_bar 30 16 15 16 1000),
         (combine (ymd2ord 2026 3 2) (time_of 9 31), example_bar 31 16 15 15 1000)], or_emitted = False \<rparr>],
       en_store = empty_store \<rparr>)"

definition example_breakout :: bar_input where
  "example_breakout = example_bar 32 17 16 17 4000"

definition example_next :: bar_input where
  "example_next = example_bar 33 18 16 17 3000"

definition fresh_engine :: "paper_store \<Rightarrow> orb_state engine" where
  "fresh_engine st = \<lparr> en_scanner = new_scanner, en_strategy = (\<lambda>_. None), en_store = st \<rparr>"

definition example_recommendation :: recommendation where
  "example_recommendation = (let t = ny_utc (combine (ymd2ord 2026 3 2) (time_of 9 33)) in
     \<lparr> rc_id = (t, ''ABC'', ''opening_range_breakout''), rc_symbol = ''ABC'',
       rc_strategy = ''opening_range_breakout'', rc_created_at = t, rc_entry = 16, rc_stop = 15, rc_target_1r = 17,
       rc_target_2r = 18, rc_state = Setup, rc_rationale = Opening_Range_Break 2 2000 (7/8) \<rparr>)"

definition example_store :: paper_store where
  "example_store = \<lparr> ps_rows = [example_recommendation], ps_events = [\<lparr> ev_recommendation_id = rc_id example_recommendation,
     ev_occurred_at = rc_created_at example_recommendation, ev_state = Setup, ev_price = None,
     ev_note = Recommendation_Created \<rparr>], ps_checkpoints = (\<lambda>_. None), ps_alerts = [] \<rparr>"

lemma process_checkpoints:
  assumes "process cfg bar available_at e = (e', r)"
  shows "ps_checkpoints (en_store e') = ps_checkpoints (en_store e)"
proof -
  have "ps_checkpoints st' = ps_checkpoints st" if "recommend risk bar a sg st = (st', r)" for risk a sg st st' r
    using that by (cases rule: recommend_cases) (auto simp: fresh_recommendation_def dest!: save_Inr(3))
  then show ?thesis using process_store [OF assms] by (auto dest: sym)
qed

lemma example_process: "\<exists>e r. process example_config example_breakout None example_engine = (e, r) \<and> en_store e = example_store"
proof -
  obtain e r where p: "process example_config example_breakout None example_engine = (e, r)" by fastforce
  have "ps_checkpoints (en_store e) = (\<lambda>_. None)"
    using process_checkpoints [OF p] by (simp add: example_engine_def Let_def empty_store_def)
  moreover have "ps_rows (en_store (fst (process example_config example_breakout None example_engine))) = ps_rows example_store"
    "ps_events (en_store (fst (process example_config example_breakout None example_engine))) = ps_events example_store"
    "ps_alerts (en_store (fst (process example_config example_breakout None example_engine))) = ps_alerts example_store"
    by code_simp+
  ultimately have "en_store e = example_store"
    by (intro paper_store.equality) (simp_all add: p example_store_def)
  then show ?thesis using p by blast
qed

lemma example_live: "T example_breakout None \<Longrightarrow> live_step example_config T empty_store example_store"
  using example_process Process [of T example_breakout None example_config example_engine]
  by (auto simp: example_engine_def Let_def)

definition example_day :: "orb_state engine" where
  "example_day = fst (advance_forward example_config [example_next] (fresh_engine example_store))"

lemma example_advance:
  "snd (advance_forward example_config [example_next] (fresh_engine example_store)) = Inr 1"
  "ps_rows (en_store example_day) = [example_recommendation \<lparr> rc_state := Target_2R \<rparr>]"
  by code_simp+

lemma example_advance_run:
  "advance_forward example_config [example_next] (fresh_engine example_store) = (example_day, Inr 1)"
  using example_advance(1) by (simp add: example_day_def prod_eq_iff)

lemma example_second: "live_step example_config T example_store (en_store example_day)"
  using Advance [OF example_advance_run] by (simp add: fresh_engine_def)

lemma example_day_run: "T example_breakout None \<Longrightarrow> (live_step example_config T)\<^sup>*\<^sup>* empty_store (en_store example_day)"
  by (meson example_live example_second converse_rtranclp_into_rtranclp r_into_rtranclp)

lemma example_run_close:
  "T example_breakout None \<Longrightarrow> (\<lambda>a b. live_step example_config T a b \<or> close_step a b)\<^sup>*\<^sup>* empty_store (en_store example_day)"
  using rtranclp_mono [of "live_step example_config T" "\<lambda>a b. live_step example_config T a b \<or> close_step a b"] example_day_run
  by blast

lemma example_store_ok: "store_ok any_time example_store"
  using live_step_ok [OF example_live [of "\<lambda>_ _. True"]] by simp

theorem recommendation_history_is_legal_witness:
  "\<exists>e es. events (rc_id example_recommendation) (en_store example_day) = e # es \<and> ev_state e = Setup
    \<and> ev_occurred_at e = rc_created_at example_recommendation
    \<and> pairwise_list legal_change (map ev_state (e # es)) \<and> ev_state (last (e # es)) = Target_2R"
  using recommendation_history_is_legal [OF example_run_close [of "\<lambda>_ _. True"],
      of "example_recommendation \<lparr> rc_state := Target_2R \<rparr>"]
  by (simp add: example_advance)

theorem bars_are_causal_witness:
  "exclude_backdated_recommendations 0 (en_store example_day) = (en_store example_day, 0)
    \<and> ps_rows (en_store example_day) \<noteq> []"
  using bars_are_causal [OF example_day_run [of "\<lambda>_ _. True"], of 0] by (simp add: example_advance)

theorem recommendations_evolve_alone_witness:
  "map (fold (\<lambda>bar r. r \<lparr> rc_state := next_state bar r \<rparr>) [example_next]) [example_recommendation]
     = [example_recommendation \<lparr> rc_state := Target_2R \<rparr>]"
proof -
  have "pending_bars (last_processed_bar (bar_symbol (last [example_next])) example_store) [example_next] = [example_next]"
    by (simp add: pending_bars_def last_processed_bar_def example_store_def)
  then show ?thesis
    using recommendations_evolve_alone [OF _ example_advance_run] example_store_ok
    by (simp add: fresh_engine_def example_advance example_store_def)
qed

definition example_later :: bar_input where
  "example_later = example_bar 34 17 16 17 3000"

lemma example_restart_runs:
  "snd (advance_forward example_config ([example_next] @ [example_later]) (fresh_engine (en_store example_day))) = Inr 1"
  "snd (advance_forward example_config ([example_next] @ [example_later]) (fresh_engine example_store)) = Inr 2"
  by code_simp+

theorem restart_is_invisible_witness:
  "en_store (fst (advance_forward example_config ([example_next] @ [example_later]) (fresh_engine (en_store example_day))))
     = en_store (fst (advance_forward example_config ([example_next] @ [example_later]) (fresh_engine example_store)))"
proof -
  have sorted: "sorted_wrt (<) (map bar_timestamp ([example_next] @ [example_later]))" by code_simp
  have sym: "bar_symbol b = ''ABC''" if "b \<in> set ([example_next] @ [example_later])" for b
    using that by (auto simp: example_next_def example_later_def example_bar_def)
  obtain e3 where e3: "advance_forward example_config ([example_next] @ [example_later]) (fresh_engine (en_store example_day)) = (e3, Inr 1)"
    using example_restart_runs(1) by (metis prod.collapse)
  obtain e4 where e4: "advance_forward example_config ([example_next] @ [example_later]) (fresh_engine example_store) = (e4, Inr 2)"
    using example_restart_runs(2) by (metis prod.collapse)
  have "en_store (fresh_engine (en_store example_day)) = en_store example_day" by (simp add: fresh_engine_def)
  from restart_is_invisible [OF sorted _ sym example_advance_run e3 this e4]
  show ?thesis unfolding e3 e4 fst_conv by blast
qed

theorem one_recommendation_per_day_witness:
  "distinct (map (\<lambda>r. (rc_symbol r, rc_strategy r, new_york_date (rc_created_at r))) (ps_rows (en_store example_day)))
    \<and> snd (process example_config example_next None (fresh_engine (en_store example_day))) \<noteq> Inl Duplicate_Recommendation"
proof -
  have "strategy_contract (ec_strategy example_config) orb_spent"
    unfolding example_config_def using orb.strategy_contract_axioms by simp
  moreover have "timely example_breakout None" "timely example_next None" by (simp_all add: timely_def)
  ultimately show ?thesis
    using one_recommendation_per_day [OF _ example_run_close, of orb_spent example_next None "fresh_engine (en_store example_day)"]
    by (simp add: fresh_engine_def)
qed

end
