(* ===== verification/Kr_Price_Grid.thy ===== *)
theory Kr_Price_Grid
  imports Numeric
begin

text \<open>
  \<^verbatim>\<open>trading_agent/kr_price_grid.py\<close>: the tick size of a Korean ordinary equity price and the
  rounding of a price onto the grid.  A price is a \<^verbatim>\<open>Decimal\<close>; its remainder is exact, and
  raises when the integer quotient has more than 28 digits.
\<close>

datatype kr_price_error = Invalid_Kr_Equity_Price | Division_Impossible

definition kr_equity_tick_size :: "pynum \<Rightarrow> kr_price_error + rat" where
  "kr_equity_tick_size price =
     (if \<not> is_finite price \<or> \<not> Finite 0 < price then Inl Invalid_Kr_Equity_Price
      else if price < Finite 2000 then Inr 1
      else if price < Finite 5000 then Inr 5
      else if price < Finite 20000 then Inr 10
      else if price < Finite 50000 then Inr 50
      else if price < Finite 200000 then Inr 100
      else if price < Finite 500000 then Inr 500
      else Inr 1000)"

definition is_valid_kr_equity_price :: "pynum \<Rightarrow> kr_price_error + bool" where
  "is_valid_kr_equity_price price =
     (case kr_equity_tick_size price of Inl e \<Rightarrow> Inl e | Inr tick \<Rightarrow>
        if rv price / tick \<ge> 10 ^ 28 then Inl Division_Impossible
        else Inr (is_integral (rv price / tick)))"

definition round_kr_equity_price_down :: "pynum \<Rightarrow> kr_price_error + pynum" where
  "round_kr_equity_price_down price =
     (case kr_equity_tick_size price of Inl e \<Rightarrow> Inl e | Inr tick \<Rightarrow>
        let rounded = drnd (of_int \<lfloor>drnd (rv price / tick)\<rfloor> * tick)
        in if rounded \<le> 0 then Inl Invalid_Kr_Equity_Price else Inr (Finite rounded))"

definition round_kr_equity_price_up :: "pynum \<Rightarrow> kr_price_error + pynum" where
  "round_kr_equity_price_up price =
     (case kr_equity_tick_size price of Inl e \<Rightarrow> Inl e | Inr tick \<Rightarrow>
        Inr (Finite (drnd (of_int \<lceil>drnd (rv price / tick)\<rceil> * tick))))"

subsection \<open>The bands of the grid\<close>

text \<open>Every band starts and ends at a multiple of its own tick, and ends at one of the next.\<close>

definition kr_bands :: "(int \<times> int \<times> int) list" where
  "kr_bands = [(0, 2000, 1), (2000, 5000, 5), (5000, 20000, 10), (20000, 50000, 50),
     (50000, 200000, 100), (200000, 500000, 500)]"

lemma kr_band_cases:
  assumes "0 < p"
  obtains (band) lo hi t where "(lo, hi, t) \<in> set kr_bands" "of_int lo \<le> p" "p < of_int hi"
      "kr_equity_tick_size (Finite p) = Inr (of_int t)"
  | (top) "500000 \<le> p" "kr_equity_tick_size (Finite p) = Inr 1000"
proof -
  consider "p < 2000" | "2000 \<le> p" "p < 5000" | "5000 \<le> p" "p < 20000" | "20000 \<le> p" "p < 50000"
    | "50000 \<le> p" "p < 200000" | "200000 \<le> p" "p < 500000" | "500000 \<le> p" by linarith
  then show ?thesis
  proof cases
    case 1 then show ?thesis using assms by (intro band [of 0 2000 1]) (simp_all add: kr_bands_def kr_equity_tick_size_def)
  next
    case 2 then show ?thesis using assms by (intro band [of 2000 5000 5]) (simp_all add: kr_bands_def kr_equity_tick_size_def)
  next
    case 3 then show ?thesis using assms by (intro band [of 5000 20000 10]) (simp_all add: kr_bands_def kr_equity_tick_size_def)
  next
    case 4 then show ?thesis using assms by (intro band [of 20000 50000 50]) (simp_all add: kr_bands_def kr_equity_tick_size_def)
  next
    case 5 then show ?thesis using assms by (intro band [of 50000 200000 100]) (simp_all add: kr_bands_def kr_equity_tick_size_def)
  next
    case 6 then show ?thesis using assms by (intro band [of 200000 500000 500]) (simp_all add: kr_bands_def kr_equity_tick_size_def)
  next
    case 7 then show ?thesis using assms by (intro top) (simp_all add: kr_equity_tick_size_def)
  qed
qed

text \<open>A multiple of a band's tick inside the band, its end included, is a multiple of its own tick.\<close>

lemma kr_band_multiple:
  assumes "(lo, hi, t) \<in> set kr_bands" "lo \<le> k" "k \<le> hi" "0 < k" "t dvd k"
  shows "\<exists>t'. kr_equity_tick_size (Finite (of_int k)) = Inr (of_int t') \<and> 0 < t' \<and> t' dvd k"
proof (cases "k = hi")
  case True
  then show ?thesis using assms(1)
    by (auto simp: kr_bands_def kr_equity_tick_size_def intro!: exI [of _ "5::int"] exI [of _ "10::int"]
        exI [of _ "50::int"] exI [of _ "100::int"] exI [of _ "500::int"] exI [of _ "1000::int"])
next
  case False
  then have "kr_equity_tick_size (Finite (of_int k)) = Inr (of_int t)" "0 < t"
    using assms by (auto simp: kr_bands_def kr_equity_tick_size_def)
  then show ?thesis using assms(5) by blast
qed

lemma kr_multiple_valid:
  assumes "kr_equity_tick_size (Finite (of_int k)) = Inr (of_int t)" "0 < t" "t dvd k" "k < 10 ^ 28"
  shows "is_valid_kr_equity_price (Finite (of_int k)) = Inr True"
proof -
  obtain n where k: "k = t * n" using assms(3) by (rule dvdE)
  have "of_int k / of_int t = (of_int n :: rat)" using assms(2) by (simp add: k)
  moreover have "n < 10 ^ 28"
  proof -
    have "n \<le> 0 \<or> n \<le> t * n" using assms(2) by (auto simp: mult_le_cancel_right1)
    then show ?thesis using assms(4) k by auto
  qed
  ultimately show ?thesis
    using assms(1) by (simp add: is_valid_kr_equity_price_def is_integral_def not_le)
qed

definition kr_ticks :: "int list" where
  "kr_ticks = [1, 5, 10, 50, 100, 500, 1000]"

text \<open>Dividing a price of at most 27 digits by a tick is exact.\<close>

lemma kr_tick_exact:
  assumes "p = of_int m / 10 ^ k" "\<bar>m\<bar> < 10 ^ 27" "t \<in> set kr_ticks"
  shows "drnd (p / of_int t) = p / of_int t"
proof -
  have "p / of_int t = of_int m / 10 ^ k \<or> p / of_int t = of_int (2 * m) / 10 ^ (k + 1)
    \<or> p / of_int t = of_int m / 10 ^ (k + 1) \<or> p / of_int t = of_int (2 * m) / 10 ^ (k + 2)
    \<or> p / of_int t = of_int m / 10 ^ (k + 2) \<or> p / of_int t = of_int (2 * m) / 10 ^ (k + 3)
    \<or> p / of_int t = of_int m / 10 ^ (k + 3)"
    using assms(1,3) by (auto simp: kr_ticks_def power_add)
  moreover have "\<bar>m\<bar> < 10 ^ 28" "\<bar>2 * m\<bar> < 10 ^ 28" using assms(2) by simp_all
  ultimately show ?thesis using drnd_exact by blast
qed

lemma kr_band_dvd: "(lo, hi, t) \<in> set kr_bands \<Longrightarrow> t dvd lo \<and> t dvd hi \<and> t \<in> set kr_ticks \<and> 0 \<le> lo \<and> (lo = 0 \<longrightarrow> t = 1)"
  by (auto simp: kr_bands_def kr_ticks_def)

lemma kr_ticks_pos: "t \<in> set kr_ticks \<Longrightarrow> 0 < t"
  by (auto simp: kr_ticks_def)

text \<open>The whole grid at once: the tick of a price divides the two neighbours and is the gap between them.\<close>

lemma kr_neighbours:
  assumes "0 < p"
  obtains t where "t \<in> set kr_ticks" "kr_equity_tick_size (Finite p) = Inr (of_int t)"
    "1 \<le> p \<Longrightarrow> 0 < \<lfloor>p / of_int t\<rfloor> * t"
    "1 \<le> p \<Longrightarrow> \<lfloor>p / of_int t\<rfloor> * t < 10 ^ 28 \<Longrightarrow> is_valid_kr_equity_price (Finite (of_int (\<lfloor>p / of_int t\<rfloor> * t))) = Inr True"
    "\<lceil>p / of_int t\<rceil> * t < 10 ^ 28 \<Longrightarrow> is_valid_kr_equity_price (Finite (of_int (\<lceil>p / of_int t\<rceil> * t))) = Inr True"
  using assms
proof (cases rule: kr_band_cases)
  case (band lo hi t)
  note b = kr_band_dvd [OF band(1)]
  then have t: "0 < t" using kr_ticks_pos by blast
  obtain l h where lh: "lo = t * l" "hi = t * h" using b by (auto elim!: dvdE)
  have fl: "l \<le> \<lfloor>p / of_int t\<rfloor>" using band(2) t by (simp add: lh le_floor_iff pos_le_divide_eq mult.commute)
  have ce: "\<lceil>p / of_int t\<rceil> \<le> h" using band(3) t
    by (simp add: lh ceiling_le_iff pos_divide_le_eq mult.commute less_imp_le)
  have fc: "\<lfloor>p / of_int t\<rfloor> \<le> \<lceil>p / of_int t\<rceil>" by (simp add: floor_le_ceiling)
  have pos_c: "0 < \<lceil>p / of_int t\<rceil>" using assms t by (simp add: less_ceiling_iff)
  have pos_f: "0 < \<lfloor>p / of_int t\<rfloor>" if "1 \<le> p"
  proof (cases "lo = 0")
    case True
    then show ?thesis using b that by (simp add: zero_less_floor)
  next
    case False
    then have "0 < l" using b t by (auto simp: lh zero_le_mult_iff)
    then show ?thesis using fl by linarith
  qed
  have valid: "is_valid_kr_equity_price (Finite (of_int (n * t))) = Inr True"
    if "l \<le> n" "n \<le> h" "0 < n" "n * t < 10 ^ 28" for n
  proof -
    have "lo \<le> n * t" "n * t \<le> hi" "0 < n * t" using that t by (simp_all add: lh mult.commute [of n])
    then obtain t' where "kr_equity_tick_size (Finite (of_int (n * t))) = Inr (of_int t')" "0 < t'" "t' dvd n * t"
      using kr_band_multiple [OF band(1), of "n * t"] by auto
    then show ?thesis using that(4) by (rule kr_multiple_valid)
  qed
  have f: "1 \<le> p \<Longrightarrow> 0 < \<lfloor>p / of_int t\<rfloor> * t" using pos_f t by simp
  show ?thesis
    by (rule that [OF _ band(4) f])
      (use b valid [of "\<lfloor>p / of_int t\<rfloor>"] valid [of "\<lceil>p / of_int t\<rceil>"] pos_f pos_c fl ce fc in linarith | use b in blast)+
next
  case top
  have fl: "500 \<le> \<lfloor>p / 1000\<rfloor>" using top by (simp add: le_floor_iff)
  have fc: "\<lfloor>p / 1000\<rfloor> \<le> \<lceil>p / 1000\<rceil>" by (simp add: floor_le_ceiling)
  have valid: "is_valid_kr_equity_price (Finite (of_int (n * 1000))) = Inr True" if "500 \<le> n" "n * 1000 < 10 ^ 28" for n
    using that by (intro kr_multiple_valid [where t = 1000]) (auto simp: kr_equity_tick_size_def)
  show ?thesis
    using that [of 1000] top fl fc valid [of "\<lfloor>p / 1000\<rfloor>"] valid [of "\<lceil>p / 1000\<rceil>"] by (auto simp: kr_ticks_def)
qed

lemma kr_rounding_facts:
  assumes "0 < m" "m < 10 ^ 27" "p = of_int m / 10 ^ k"
  shows "\<exists>tick u. kr_equity_tick_size (Finite p) = Inr tick
    \<and> round_kr_equity_price_up (Finite p) = Inr (Finite u) \<and> p \<le> u \<and> u < p + tick
    \<and> is_valid_kr_equity_price (Finite u) = Inr True
    \<and> (if p < 1 then round_kr_equity_price_down (Finite p) = Inl Invalid_Kr_Equity_Price
       else \<exists>d. round_kr_equity_price_down (Finite p) = Inr (Finite d) \<and> d \<le> p \<and> p < d + tick
              \<and> is_valid_kr_equity_price (Finite d) = Inr True)"
proof -
  have p: "0 < p" using assms by simp
  have big: "p < 10 ^ 27"
  proof -
    have "of_int m < (10 ^ 27 :: rat)" using assms(2) by (metis of_int_less_iff of_int_numeral of_int_power)
    moreover have "p \<le> of_int m" using assms(1,3) by (simp add: divide_le_eq mult_le_cancel_left1)
    ultimately show ?thesis by linarith
  qed
  obtain t where t: "t \<in> set kr_ticks" "kr_equity_tick_size (Finite p) = Inr (of_int t)"
    "1 \<le> p \<Longrightarrow> 0 < \<lfloor>p / of_int t\<rfloor> * t"
    "1 \<le> p \<Longrightarrow> \<lfloor>p / of_int t\<rfloor> * t < 10 ^ 28 \<Longrightarrow> is_valid_kr_equity_price (Finite (of_int (\<lfloor>p / of_int t\<rfloor> * t))) = Inr True"
    "\<lceil>p / of_int t\<rceil> * t < 10 ^ 28 \<Longrightarrow> is_valid_kr_equity_price (Finite (of_int (\<lceil>p / of_int t\<rceil> * t))) = Inr True"
    using kr_neighbours [OF p] by metis
  have tp: "0 < t" "t \<le> 1000" using t(1) by (auto simp: kr_ticks_def)
  have q: "drnd (p / of_int t) = p / of_int t"
    using kr_tick_exact [OF assms(3) _ t(1)] assms(1,2) by simp
  define d where "d = \<lfloor>p / of_int t\<rfloor> * t"
  define u where "u = \<lceil>p / of_int t\<rceil> * t"
  have b: "of_int d \<le> p" "p < of_int d + of_int t" "p \<le> of_int u" "of_int u < p + of_int t"
  proof -
    have undo: "p / of_int t * of_int t = p" and tr: "(0::rat) < of_int t" using tp(1) by simp_all
    have "of_int \<lfloor>p / of_int t\<rfloor> * of_int t \<le> p / of_int t * of_int t"
      "p / of_int t * of_int t < (of_int \<lfloor>p / of_int t\<rfloor> + 1) * of_int t"
      "p / of_int t * of_int t \<le> of_int \<lceil>p / of_int t\<rceil> * of_int t"
      "of_int \<lceil>p / of_int t\<rceil> * of_int t < (p / of_int t + 1) * of_int t"
      using tr by (intro mult_right_mono mult_strict_right_mono; linarith)+
    then show "of_int d \<le> p" "p < of_int d + of_int t" "p \<le> of_int u" "of_int u < p + of_int t"
      unfolding undo d_def u_def of_int_mult distrib_right by (simp_all add: undo)
  qed
  have small: "0 \<le> d" "d < 10 ^ 28" "0 \<le> u" "u < 10 ^ 28"
  proof -
    show "0 \<le> d" using p tp by (simp add: d_def)
    have tr: "(of_int t :: rat) \<le> 1000" using tp(2) by simp
    have "(of_int d :: rat) < 10 ^ 28" "(of_int u :: rat) < 10 ^ 28" using b big tr by simp_all
    then show "d < 10 ^ 28" "u < 10 ^ 28" by (metis of_int_less_iff of_int_numeral of_int_power)+
    have "(0::rat) < of_int u" using b(3) p by linarith
    then show "0 \<le> u" by simp
  qed
  have up: "round_kr_equity_price_up (Finite p) = Inr (Finite (of_int u))"
    using t(2) small(3,4) by (simp add: round_kr_equity_price_up_def q u_def flip: of_int_mult)
  have down: "round_kr_equity_price_down (Finite p) = (if d \<le> 0 then Inl Invalid_Kr_Equity_Price else Inr (Finite (of_int d)))"
    using t(2) small(1,2) by (simp add: round_kr_equity_price_down_def q d_def Let_def flip: of_int_mult)
  note t = t [folded d_def u_def]
  have "if p < 1 then round_kr_equity_price_down (Finite p) = Inl Invalid_Kr_Equity_Price
       else \<exists>d. round_kr_equity_price_down (Finite p) = Inr (Finite d) \<and> d \<le> p \<and> p < d + of_int t
              \<and> is_valid_kr_equity_price (Finite d) = Inr True"
  proof (cases "p < 1")
    case True
    then have "(of_int d :: rat) < 1" using b(1) by linarith
    then have "d \<le> 0" by simp
    then show ?thesis using down True by simp
  next
    case False
    then have "round_kr_equity_price_down (Finite p) = Inr (Finite (of_int d))" using down t(3) by simp
    then show ?thesis using False b(1,2) t(4) small(2) by auto
  qed
  then show ?thesis using t(2,5) b(3,4) small(4) up by blast
qed

text \<open>Rounding a Korean price of at most 27 digits lands on the grid: up to the nearest grid price not
  below it, down to the nearest not above it, both less than one tick away; only a price below one
  won cannot be rounded down, and then the code raises.\<close>

theorem kr_rounding_is_on_grid:
  assumes "0 < m" "m < 10 ^ 27" "p = of_int m / 10 ^ k"
  shows "\<exists>tick u. kr_equity_tick_size (Finite p) = Inr tick
    \<and> round_kr_equity_price_up (Finite p) = Inr (Finite u) \<and> p \<le> u \<and> u < p + tick
    \<and> is_valid_kr_equity_price (Finite u) = Inr True
    \<and> (if p < 1 then round_kr_equity_price_down (Finite p) = Inl Invalid_Kr_Equity_Price
       else \<exists>d. round_kr_equity_price_down (Finite p) = Inr (Finite d) \<and> d \<le> p \<and> p < d + tick
              \<and> is_valid_kr_equity_price (Finite d) = Inr True)"
  by (rule kr_rounding_facts [OF assms])

lemma example_rounded:
  "round_kr_equity_price_up (Finite (of_int 200105 / 10 ^ 1)) = Inr (Finite 20050)"
  "round_kr_equity_price_down (Finite (of_int 200105 / 10 ^ 1)) = Inr (Finite 20000)"
  by code_simp+

theorem kr_rounding_is_on_grid_witness:
  "is_valid_kr_equity_price (Finite 20050) = Inr True \<and> is_valid_kr_equity_price (Finite 20000) = Inr True"
  using kr_rounding_is_on_grid [of 200105 "of_int 200105 / 10 ^ 1" 1] unfolding example_rounded by auto

end
