(* ===== verification/Kr_Market_Models.thy ===== *)
theory Kr_Market_Models
  imports Kr_Price_Grid Clock
begin

text \<open>
  The evidence a Korean virtual trade rests on: \<^verbatim>\<open>trading_agent/kr_social_signal_models.py\<close>,
  \<^verbatim>\<open>kr_autonomous_market_models.py\<close>, \<^verbatim>\<open>kr_intraday_market_gate.py\<close>, the
  completed minute bar of \<^verbatim>\<open>kr_theme_day_setup_progress.py\<close> and the evidence reference of
  \<^verbatim>\<open>signal_contract_models.py\<close>.  Each model is a record with the predicate its
  validators compute.  The models demand aware datetimes, so their instants are integers.  Content
  digests are parameters.  Of free text \<open>casefold\<close> lowers the ASCII letters.
\<close>

subsection \<open>Text\<close>

definition casefold_char :: "char \<Rightarrow> char" where
  "casefold_char c = (let n = of_char c :: nat in if 65 \<le> n \<and> n \<le> 90 then char_of (n + 32) else c)"

definition casefold :: "string \<Rightarrow> string" where
  "casefold s = map casefold_char s"

definition blank :: "string \<Rightarrow> bool" where
  "blank s \<longleftrightarrow> list_all py_space s"

text \<open>\<^theory_text>\<open>" ".join(s.split())\<close>: the words of \<open>s\<close> with one space between.\<close>

fun squeeze :: "string \<Rightarrow> string" where
  "squeeze (c # d # s) = (if py_space c \<and> py_space d then squeeze (d # s)
     else (if py_space c then CHR '' '' else c) # squeeze (d # s))"
| "squeeze [c] = (if py_space c then [] else [c])"
| "squeeze [] = []"

definition normal_words :: "string \<Rightarrow> string" where
  "normal_words s = squeeze (strip s)"

definition sorted_shas :: "string list \<Rightarrow> bool" where
  "sorted_shas xs \<longleftrightarrow> xs = sorted_set xs \<and> list_all hex64 xs"

definition is_kr_instrument_symbol_v2 :: "string \<Rightarrow> bool" where
  "is_kr_instrument_symbol_v2 s \<longleftrightarrow>
     length s = 6 \<and> list_all (\<lambda>c. c \<in> set ''0123456789ABCDEFGHIJKLMNOPQRSTUVWXYZ'') s"

definition positive :: "pynum \<Rightarrow> bool" where
  "positive x \<longleftrightarrow> is_finite x \<and> Finite 0 < x"

definition nonnegative_finite :: "pynum \<Rightarrow> bool" where
  "nonnegative_finite x \<longleftrightarrow> is_finite x \<and> Finite 0 \<le> x"

subsection \<open>Evidence references\<close>

record evidence_ref =
  er_namespace :: string
  er_record_id :: string
  er_observed_at :: int

definition canonical_id :: "evidence_ref \<Rightarrow> string" where
  "canonical_id e = er_namespace e @ '':'' @ er_record_id e"

definition canonical_text :: "string \<Rightarrow> nat \<Rightarrow> bool" where
  "canonical_text s limit \<longleftrightarrow> s \<noteq> [] \<and> s = strip s \<and> length s \<le> limit
     \<and> CHR 0x0D \<notin> set s \<and> CHR 0x0A \<notin> set s \<and> CHR 0x09 \<notin> set s"

text \<open>\<^theory_text>\<open>^[a-z0-9][a-z0-9_./-]{0,127}$\<close>, without two dots or two slashes in a row.\<close>

definition valid_evidence_ref :: "evidence_ref \<Rightarrow> bool" where
  "valid_evidence_ref e \<longleftrightarrow>
     (case er_namespace e of
        [] \<Rightarrow> False
      | c # cs \<Rightarrow> c \<in> set ''abcdefghijklmnopqrstuvwxyz0123456789''
          \<and> length cs \<le> 127 \<and> list_all (\<lambda>d. d \<in> set ''abcdefghijklmnopqrstuvwxyz0123456789_./-'') cs)
     \<and> pairwise_list (\<lambda>a b. \<not> (a = CHR ''.'' \<and> b = CHR ''.'') \<and> \<not> (a = CHR ''/'' \<and> b = CHR ''/'')) (er_namespace e)
     \<and> canonical_text (er_record_id e) 512"

subsection \<open>Completed minute bars\<close>

record kr_bar =
  kb_symbol :: symbol
  kb_start_at :: int
  kb_end_at :: int
  kb_observed_at :: int
  kb_open :: pynum
  kb_high :: pynum
  kb_low :: pynum
  kb_close :: pynum
  kb_volume :: int
  kb_trading_value :: pynum
  kb_evidence :: evidence_ref

abbreviation kb_evidence_id :: "kr_bar \<Rightarrow> string" where
  "kb_evidence_id bar \<equiv> canonical_id (kb_evidence bar)"

definition valid_kr_bar :: "kr_bar \<Rightarrow> bool" where
  "valid_kr_bar bar \<longleftrightarrow>
     (let average = (if kb_volume bar > 0 then num_div (kb_trading_value bar) (Finite (of_int (kb_volume bar))) else Finite 0);
          local_start = kst (kb_start_at bar); local_end = kst (kb_end_at bar)
      in valid_evidence_ref (kb_evidence bar)
       \<and> is_kr_instrument_symbol_v2 (kb_symbol bar)
       \<and> kb_end_at bar - kb_start_at bar = minute_us
       \<and> kb_end_at bar \<le> kb_observed_at bar
       \<and> floor_minute local_start = local_start
       \<and> wall_date local_start = wall_date local_end
       \<and> time_of 9 0 \<le> wall_time local_start
       \<and> wall_time local_end \<le> time_of 15 30
       \<and> list_all positive [kb_open bar, kb_high bar, kb_low bar, kb_close bar]
       \<and> kb_low bar \<le> min (kb_open bar) (kb_close bar)
       \<and> max (kb_open bar) (kb_close bar) \<le> kb_high bar
       \<and> 0 < kb_volume bar
       \<and> positive (kb_trading_value bar)
       \<and> kb_low bar \<le> average \<and> average \<le> kb_high bar
       \<and> er_observed_at (kb_evidence bar) = kb_observed_at bar)"

subsection \<open>The market gate\<close>

datatype kr_session_state = Session_Open | Session_Closed | Session_Unknown
datatype kr_vi_state = Vi_Clear | Vi_Static_Active | Vi_Dynamic_Active | Vi_Unknown
datatype kr_trading_mode = Mode_Continuous | Mode_Call_Auction | Mode_Unknown
datatype kr_halt_state = Halt_Clear | Halt_Halted | Halt_Unknown
datatype kr_designation_state =
  Designation_Clear | Designation_Caution | Designation_Warning | Designation_Danger | Designation_Unknown

datatype kr_gate_reason =
    FUTURE_EVIDENCE | STALE_EVIDENCE | SESSION_CLOSED | SESSION_UNKNOWN | VI_ACTIVE | VI_UNKNOWN
  | CALL_AUCTION | TRADING_MODE_UNKNOWN | HALTED | HALT_UNKNOWN | DESIGNATED | DESIGNATION_UNKNOWN
  | UPPER_LIMIT | NEAR_UPPER_LIMIT | LOWER_LIMIT | QUOTE_MISSING | CROSSED_QUOTE

record kr_snapshot =
  ks_symbol :: symbol
  ks_observed_at :: int
  ks_previous_close :: pynum
  ks_last_price :: pynum
  ks_bid_price :: "pynum option"
  ks_ask_price :: "pynum option"
  ks_lower_limit_price :: pynum
  ks_upper_limit_price :: pynum
  ks_session_state :: kr_session_state
  ks_vi_state :: kr_vi_state
  ks_trading_mode :: kr_trading_mode
  ks_halt_state :: kr_halt_state
  ks_designation_state :: kr_designation_state
  ks_evidence_refs :: "evidence_ref list"

definition option_list :: "'a option \<Rightarrow> 'a list" where
  "option_list x = (case x of None \<Rightarrow> [] | Some y \<Rightarrow> [y])"

definition valid_kr_snapshot :: "kr_snapshot \<Rightarrow> bool" where
  "valid_kr_snapshot s \<longleftrightarrow>
     (let prices = [ks_previous_close s, ks_last_price s, ks_lower_limit_price s, ks_upper_limit_price s];
          quotes = option_list (ks_bid_price s) @ option_list (ks_ask_price s);
          ids = map canonical_id (ks_evidence_refs s)
      in list_all valid_evidence_ref (ks_evidence_refs s)
       \<and> is_kr_instrument_symbol_v2 (ks_symbol s)
       \<and> list_all positive (prices @ quotes)
       \<and> ks_lower_limit_price s < ks_previous_close s \<and> ks_previous_close s < ks_upper_limit_price s
       \<and> ks_evidence_refs s \<noteq> []
       \<and> ids = sorted_set ids
       \<and> list_all (\<lambda>e. er_observed_at e \<le> ks_observed_at s) (ks_evidence_refs s))"

definition session_state_reasons :: "kr_session_state \<Rightarrow> kr_gate_reason list" where
  "session_state_reasons s = (case s of Session_Open \<Rightarrow> [] | Session_Closed \<Rightarrow> [SESSION_CLOSED]
     | Session_Unknown \<Rightarrow> [SESSION_UNKNOWN])"

definition vi_reasons :: "kr_vi_state \<Rightarrow> kr_gate_reason list" where
  "vi_reasons s = (case s of Vi_Clear \<Rightarrow> [] | Vi_Static_Active \<Rightarrow> [VI_ACTIVE] | Vi_Dynamic_Active \<Rightarrow> [VI_ACTIVE]
     | Vi_Unknown \<Rightarrow> [VI_UNKNOWN])"

definition mode_reasons :: "kr_trading_mode \<Rightarrow> kr_gate_reason list" where
  "mode_reasons s = (case s of Mode_Continuous \<Rightarrow> [] | Mode_Call_Auction \<Rightarrow> [CALL_AUCTION]
     | Mode_Unknown \<Rightarrow> [TRADING_MODE_UNKNOWN])"

definition halt_reasons :: "kr_halt_state \<Rightarrow> kr_gate_reason list" where
  "halt_reasons s = (case s of Halt_Clear \<Rightarrow> [] | Halt_Halted \<Rightarrow> [HALTED] | Halt_Unknown \<Rightarrow> [HALT_UNKNOWN])"

definition designation_reasons :: "kr_designation_state \<Rightarrow> kr_gate_reason list" where
  "designation_reasons s = (case s of Designation_Clear \<Rightarrow> [] | Designation_Unknown \<Rightarrow> [DESIGNATION_UNKNOWN]
     | _ \<Rightarrow> [DESIGNATED])"

definition price_reasons :: "kr_snapshot \<Rightarrow> kr_gate_reason list" where
  "price_reasons s =
     (if ks_upper_limit_price s \<le> ks_last_price s then [UPPER_LIMIT]
      else if ks_last_price s \<le> ks_lower_limit_price s then [LOWER_LIMIT]
      else if Finite (27/100) \<le> num_sub (num_div (ks_last_price s) (ks_previous_close s)) (Finite 1)
      then [NEAR_UPPER_LIMIT] else [])
     @ (case (ks_bid_price s, ks_ask_price s) of
          (Some bid, Some ask) \<Rightarrow> if ask < bid then [CROSSED_QUOTE] else []
        | _ \<Rightarrow> [QUOTE_MISSING])"

text \<open>The reasons; no reason is the status eligible.  An invalid snapshot or a naive time raises.\<close>

definition assess_kr_shadow_entry :: "kr_snapshot \<Rightarrow> pydt \<Rightarrow> kr_gate_reason list option" where
  "assess_kr_shadow_entry s evaluated_at =
     (if \<not> valid_kr_snapshot s \<or> \<not> is_aware evaluated_at then None
      else let age = instant evaluated_at - ks_observed_at s
        in Some ((if age < 0 then [FUTURE_EVIDENCE] else if 5 * second_us < age then [STALE_EVIDENCE] else [])
          @ session_state_reasons (ks_session_state s) @ vi_reasons (ks_vi_state s)
          @ mode_reasons (ks_trading_mode s) @ halt_reasons (ks_halt_state s)
          @ designation_reasons (ks_designation_state s) @ price_reasons s))"

end
