(* ===== verification/Kr_Trade_Models.thy ===== *)
theory Kr_Trade_Models
  imports Kr_Market_Models
begin

text \<open>
  The artifacts of a Korean virtual trade and their validators:
  \<^verbatim>\<open>trading_agent/kr_social_signal_models.py\<close>,
  \<^verbatim>\<open>kr_autonomous_market_models.py\<close> and
  \<^verbatim>\<open>kr_autonomous_trade_models.py\<close>.  Every artifact carries the digest of its own
  canonical JSON; the digests are the fields of \<open>kr_hashes\<close>, functions of the artifact without
  its identity.
\<close>

subsection \<open>The artifacts\<close>

datatype verification_state = Unverified_Social | Multi_Source_Corroborated

record kr_signal =
  sg_signal_id :: sha
  sg_task_id :: sha
  sg_symbol :: symbol
  sg_theme :: string
  sg_claim_summary :: string
  sg_evidence_ids :: "sha list"
  sg_source_payload_sha256s :: "sha list"
  sg_repost_cluster_ids :: "sha list"
  sg_independent_source_cluster_ids :: "sha list"
  sg_post_count :: int
  sg_repost_cluster_count :: int
  sg_independent_source_count :: int
  sg_verification_state :: verification_state
  sg_earliest_published_at :: "int option"
  sg_first_observed_at :: int
  sg_normalized_at :: int

record kr_corroboration =
  mc_corroboration_id :: sha
  mc_task_id :: sha
  mc_social_signal_id :: sha
  mc_symbol :: symbol
  mc_session_date :: int
  mc_calendar_snapshot_id :: sha
  mc_social_first_observed_at :: int
  mc_market_response_at :: int
  mc_observed_at :: int
  mc_valid_until :: int
  mc_latest_bar :: kr_bar
  mc_snapshot :: kr_snapshot
  mc_spread_bps :: pynum
  mc_trading_value :: pynum
  mc_receipt_count :: int
  mc_receipt_sha256s :: "sha list"
  mc_evidence_count :: int
  mc_evidence_ids :: "string list"

datatype setup_kind = Momentum_Reclaim | Breakout_Continuation

record kr_thesis =
  th_thesis_id :: sha
  th_task_id :: sha
  th_symbol :: symbol
  th_theme :: string
  th_hypothesis :: string
  th_counterevidence :: "string list"
  th_setup_kind :: setup_kind
  th_social_signal_id :: sha
  th_market_corroboration_id :: sha
  th_evidence_refs :: "string list"
  th_submitted_at :: int

record kr_exposure =
  ex_symbol :: symbol
  ex_theme :: string

record kr_request =
  rq_thesis :: kr_thesis
  rq_signal :: kr_signal
  rq_market :: kr_corroboration
  rq_evaluated_at :: int
  rq_next_wake_at :: int
  rq_exposures :: "kr_exposure list"
  rq_previous_event_id :: "sha option"

text \<open>What is left of a request whose evidence does not validate.\<close>

record kr_context =
  cx_thesis :: kr_thesis
  cx_evaluated_at :: int
  cx_next_wake_at :: int
  cx_previous_event_id :: "sha option"

record kr_proposal =
  pp_proposal_id :: sha
  pp_timestamp :: int
  pp_entry :: pynum
  pp_stop :: pynum
  pp_targets :: "pynum \<times> pynum"
  pp_quantity :: int
  pp_rationale :: string
  pp_counterevidence :: "string list"
  pp_verification_state :: verification_state
  pp_valid_until :: int

datatype critic_status = Critic_Approved | Critic_More_Research | Critic_Rejected

datatype critic_reason =
    Approved_Reason | Task_Lineage | Social_Lineage | Market_Lineage | Evidence_Lineage | Noncausal_Publication
  | Cluster_Count | Current_Market | Invalid_Levels | Duplicate_Exposure | Contradictory_Evidence

datatype no_trade_reason =
  Duplicate_Symbol | Duplicate_Theme | Stale_Market | Missing_Spread | Invalid_Stop | Zero_Quantity

record critic_verdict =
  cv_verdict_id :: sha
  cv_proposal_id :: "sha option"
  cv_thesis_id :: sha
  cv_status :: critic_status
  cv_reason_codes :: "critic_reason list"

record kr_recommendation =
  kr_event_id :: sha
  kr_plan_id :: sha
  kr_previous_event_id :: "sha option"
  kr_timestamp :: int
  kr_task_id :: sha
  kr_thesis_id :: sha
  kr_proposal_id :: sha
  kr_social_signal_id :: sha
  kr_market_corroboration_id :: sha
  kr_evidence_refs :: "string list"
  kr_symbol :: symbol
  kr_theme :: string
  kr_entry :: pynum
  kr_stop :: pynum
  kr_targets :: "pynum \<times> pynum"
  kr_quantity :: int
  kr_rationale :: string
  kr_counterevidence :: "string list"
  kr_verification_state :: verification_state
  kr_critic_verdict_id :: sha
  kr_critic_verdict :: critic_verdict
  kr_valid_until :: int

record kr_no_trade =
  nt_event_id :: sha
  nt_plan_id :: sha
  nt_previous_event_id :: "sha option"
  nt_timestamp :: int
  nt_task_id :: sha
  nt_thesis_id :: sha
  nt_symbol :: symbol
  nt_theme :: string
  nt_reason_codes :: "no_trade_reason list"
  nt_next_wake_at :: int

record kr_rejected =
  rj_event_id :: sha
  rj_plan_id :: sha
  rj_previous_event_id :: "sha option"
  rj_timestamp :: int
  rj_task_id :: sha
  rj_thesis_id :: sha
  rj_symbol :: symbol
  rj_theme :: string
  rj_reason_codes :: "critic_reason list"
  rj_critic_verdict_id :: sha
  rj_next_wake_at :: int

datatype kr_trade_event = Recommend kr_recommendation | No_Trade kr_no_trade | Rejected kr_rejected

text \<open>The SHA-256 digests of canonical JSON, of the values they are taken over.\<close>

record kr_hashes =
  kh_signal :: "kr_signal \<Rightarrow> sha"
  kh_market :: "kr_corroboration \<Rightarrow> sha"
  kh_thesis :: "kr_thesis \<Rightarrow> sha"
  kh_proposal :: "kr_proposal \<Rightarrow> sha"
  kh_verdict :: "critic_verdict \<Rightarrow> sha"
  kh_recommendation :: "kr_recommendation \<Rightarrow> sha"
  kh_no_trade :: "kr_no_trade \<Rightarrow> sha"
  kh_rejected :: "kr_rejected \<Rightarrow> sha"
  kh_plan_request :: "kr_request \<Rightarrow> sha"
  kh_plan_context :: "kr_context \<Rightarrow> sha"

subsection \<open>Their validators\<close>

definition text_within :: "nat \<Rightarrow> nat \<Rightarrow> string \<Rightarrow> bool" where
  "text_within lo hi s \<longleftrightarrow> lo \<le> length s \<and> length s \<le> hi"

definition optional_sha :: "sha option \<Rightarrow> bool" where
  "optional_sha x \<longleftrightarrow> (case x of None \<Rightarrow> True | Some s \<Rightarrow> hex64 s)"

definition valid_signal :: "kr_hashes \<Rightarrow> kr_signal \<Rightarrow> bool" where
  "valid_signal H s \<longleftrightarrow>
     list_all hex64 [sg_signal_id s, sg_task_id s]
     \<and> text_within 1 160 (sg_theme s) \<and> text_within 8 1000 (sg_claim_summary s)
     \<and> list_all (\<lambda>n. 1 \<le> n \<and> n \<le> 64) [sg_post_count s, sg_repost_cluster_count s, sg_independent_source_count s]
     \<and> is_kr_instrument_symbol_v2 (sg_symbol s) \<and> \<not> blank (sg_theme s) \<and> \<not> blank (sg_claim_summary s)
     \<and> list_all sorted_shas [sg_evidence_ids s, sg_source_payload_sha256s s, sg_repost_cluster_ids s,
         sg_independent_source_cluster_ids s]
     \<and> int (length (sg_evidence_ids s)) = sg_post_count s
     \<and> int (length (sg_source_payload_sha256s s)) = sg_post_count s
     \<and> int (length (sg_repost_cluster_ids s)) = sg_repost_cluster_count s
     \<and> int (length (sg_independent_source_cluster_ids s)) = sg_independent_source_count s
     \<and> sg_verification_state s = (if 2 \<le> sg_independent_source_count s then Multi_Source_Corroborated else Unverified_Social)
     \<and> (case sg_earliest_published_at s of None \<Rightarrow> True | Some t \<Rightarrow> t \<le> sg_first_observed_at s)
     \<and> sg_first_observed_at s \<le> sg_normalized_at s
     \<and> sg_signal_id s = kh_signal H (s \<lparr> sg_signal_id := [] \<rparr>)"

text \<open>\<^theory_text>\<open>(ask - bid) / ((bid + ask) / 2) * 10000\<close>\<close>

definition spread_of :: "pynum \<Rightarrow> pynum \<Rightarrow> pynum" where
  "spread_of bid ask = num_mul (num_div (num_sub ask bid) (num_div (num_add bid ask) (Finite 2))) (Finite 10000)"

definition valid_corroboration :: "kr_hashes \<Rightarrow> kr_corroboration \<Rightarrow> bool" where
  "valid_corroboration H m \<longleftrightarrow>
     (let s = mc_snapshot m; bar = mc_latest_bar m;
          evidence = sort (map canonical_id (ks_evidence_refs s) @ [kb_evidence_id bar]);
          receipts = sorted_set (map er_record_id (ks_evidence_refs s)
            @ [takeWhile (\<lambda>c. c \<noteq> CHR '':'') (er_record_id (kb_evidence bar))])
      in valid_kr_bar bar \<and> valid_kr_snapshot s
       \<and> list_all hex64 [mc_corroboration_id m, mc_task_id m, mc_social_signal_id m, mc_calendar_snapshot_id m]
       \<and> mc_symbol m = kb_symbol bar \<and> mc_symbol m = ks_symbol s
       \<and> list_all (\<lambda>t. wall_date (kst t) = mc_session_date m)
           [mc_market_response_at m, mc_observed_at m, kb_start_at bar, ks_observed_at s]
       \<and> mc_social_first_observed_at m \<le> mc_market_response_at m \<and> mc_market_response_at m \<le> mc_observed_at m
       \<and> mc_observed_at m < mc_valid_until m
       \<and> mc_market_response_at m = max (kb_observed_at bar) (ks_observed_at s)
       \<and> kb_end_at bar = kst_utc (floor_minute (kst (mc_observed_at m)))
       \<and> kb_end_at bar \<le> mc_observed_at m
       \<and> mc_valid_until m = ks_observed_at s + 5 * second_us
       \<and> (case (ks_bid_price s, ks_ask_price s) of
            (Some bid, Some ask) \<Rightarrow> bid \<le> ask \<and> nonnegative_finite (mc_spread_bps m)
              \<and> num_eq (mc_spread_bps m) (spread_of bid ask)
          | _ \<Rightarrow> False)
       \<and> nonnegative_finite (mc_trading_value m) \<and> num_eq (mc_trading_value m) (kb_trading_value bar)
       \<and> mc_receipt_sha256s m = receipts \<and> mc_receipt_count m = int (length (mc_receipt_sha256s m))
       \<and> mc_receipt_count m = 3
       \<and> mc_evidence_ids m = evidence \<and> mc_evidence_count m = int (length (mc_evidence_ids m))
       \<and> mc_evidence_count m = 3
       \<and> list_all hex64 (mc_receipt_sha256s m)
       \<and> mc_corroboration_id m = kh_market H (m \<lparr> mc_corroboration_id := [] \<rparr>))"

definition valid_thesis :: "kr_hashes \<Rightarrow> kr_thesis \<Rightarrow> bool" where
  "valid_thesis H t \<longleftrightarrow>
     list_all hex64 [th_thesis_id t, th_task_id t, th_social_signal_id t, th_market_corroboration_id t]
     \<and> text_within 1 160 (th_theme t) \<and> text_within 8 1000 (th_hypothesis t)
     \<and> 1 \<le> length (th_counterevidence t) \<and> length (th_counterevidence t) \<le> 16
     \<and> 1 \<le> length (th_evidence_refs t) \<and> length (th_evidence_refs t) \<le> 128
     \<and> \<not> blank (th_theme t) \<and> \<not> blank (th_hypothesis t) \<and> \<not> list_ex blank (th_counterevidence t)
     \<and> th_evidence_refs t = sorted_set (th_evidence_refs t)
     \<and> th_thesis_id t = kh_thesis H (t \<lparr> th_thesis_id := [] \<rparr>)"

definition valid_request :: "kr_hashes \<Rightarrow> kr_request \<Rightarrow> bool" where
  "valid_request H q \<longleftrightarrow> valid_thesis H (rq_thesis q) \<and> valid_signal H (rq_signal q)
     \<and> valid_corroboration H (rq_market q) \<and> list_all (\<lambda>x. text_within 1 160 (ex_theme x)) (rq_exposures q)
     \<and> optional_sha (rq_previous_event_id q) \<and> rq_evaluated_at q < rq_next_wake_at q"

definition valid_context :: "kr_hashes \<Rightarrow> kr_context \<Rightarrow> bool" where
  "valid_context H c \<longleftrightarrow> valid_thesis H (cx_thesis c) \<and> optional_sha (cx_previous_event_id c)
     \<and> cx_evaluated_at c < cx_next_wake_at c"

definition on_grid :: "pynum \<Rightarrow> bool" where
  "on_grid p \<longleftrightarrow> is_valid_kr_equity_price p = Inr True"

definition levels_ordered :: "pynum \<Rightarrow> pynum \<Rightarrow> pynum \<times> pynum \<Rightarrow> bool" where
  "levels_ordered stop entry targets \<longleftrightarrow> stop < entry \<and> entry < fst targets \<and> fst targets < snd targets"

definition valid_levels :: "pynum \<Rightarrow> pynum \<Rightarrow> pynum \<times> pynum \<Rightarrow> bool" where
  "valid_levels stop entry targets \<longleftrightarrow>
     list_all on_grid [entry, stop, fst targets, snd targets] \<and> levels_ordered stop entry targets"

definition valid_proposal :: "kr_hashes \<Rightarrow> kr_proposal \<Rightarrow> bool" where
  "valid_proposal H p \<longleftrightarrow> hex64 (pp_proposal_id p) \<and> 0 < pp_quantity p
     \<and> valid_levels (pp_stop p) (pp_entry p) (pp_targets p)
     \<and> pp_proposal_id p = kh_proposal H (p \<lparr> pp_proposal_id := [] \<rparr>)"

definition valid_verdict :: "kr_hashes \<Rightarrow> critic_verdict \<Rightarrow> bool" where
  "valid_verdict H v \<longleftrightarrow> list_all hex64 [cv_verdict_id v, cv_thesis_id v] \<and> optional_sha (cv_proposal_id v)
     \<and> (case cv_status v of Critic_Approved \<Rightarrow> cv_reason_codes v = [Approved_Reason]
        | _ \<Rightarrow> Approved_Reason \<notin> set (cv_reason_codes v))
     \<and> cv_reason_codes v \<noteq> [] \<and> cv_verdict_id v = kh_verdict H (v \<lparr> cv_verdict_id := [] \<rparr>)"

definition proposal_of :: "kr_recommendation \<Rightarrow> kr_proposal" where
  "proposal_of r = \<lparr> pp_proposal_id = [], pp_timestamp = kr_timestamp r, pp_entry = kr_entry r,
     pp_stop = kr_stop r, pp_targets = kr_targets r, pp_quantity = kr_quantity r, pp_rationale = kr_rationale r,
     pp_counterevidence = kr_counterevidence r, pp_verification_state = kr_verification_state r,
     pp_valid_until = kr_valid_until r \<rparr>"

definition valid_recommendation :: "kr_hashes \<Rightarrow> kr_recommendation \<Rightarrow> bool" where
  "valid_recommendation H r \<longleftrightarrow>
     list_all hex64 [kr_event_id r, kr_plan_id r, kr_task_id r, kr_thesis_id r, kr_proposal_id r,
       kr_social_signal_id r, kr_market_corroboration_id r, kr_critic_verdict_id r]
     \<and> optional_sha (kr_previous_event_id r)
     \<and> 1 \<le> length (kr_evidence_refs r) \<and> length (kr_evidence_refs r) \<le> 128 \<and> 0 < kr_quantity r
     \<and> valid_verdict H (kr_critic_verdict r)
     \<and> valid_levels (kr_stop r) (kr_entry r) (kr_targets r)
     \<and> kr_evidence_refs r = sorted_set (kr_evidence_refs r)
     \<and> kr_critic_verdict_id r = cv_verdict_id (kr_critic_verdict r)
     \<and> cv_status (kr_critic_verdict r) = Critic_Approved
     \<and> cv_thesis_id (kr_critic_verdict r) = kr_thesis_id r
     \<and> cv_proposal_id (kr_critic_verdict r) = Some (kr_proposal_id r)
     \<and> kr_proposal_id r = kh_proposal H (proposal_of r)
     \<and> kr_event_id r = kh_recommendation H (r \<lparr> kr_event_id := [] \<rparr>)"

definition valid_no_trade :: "kr_hashes \<Rightarrow> kr_no_trade \<Rightarrow> bool" where
  "valid_no_trade H e \<longleftrightarrow>
     list_all hex64 [nt_event_id e, nt_plan_id e, nt_task_id e, nt_thesis_id e]
     \<and> optional_sha (nt_previous_event_id e) \<and> nt_reason_codes e \<noteq> []
     \<and> nt_timestamp e < nt_next_wake_at e \<and> nt_event_id e = kh_no_trade H (e \<lparr> nt_event_id := [] \<rparr>)"

definition valid_rejected :: "kr_hashes \<Rightarrow> kr_rejected \<Rightarrow> bool" where
  "valid_rejected H e \<longleftrightarrow>
     list_all hex64 [rj_event_id e, rj_plan_id e, rj_task_id e, rj_thesis_id e, rj_critic_verdict_id e]
     \<and> optional_sha (rj_previous_event_id e) \<and> rj_reason_codes e \<noteq> []
     \<and> rj_timestamp e < rj_next_wake_at e \<and> rj_event_id e = kh_rejected H (e \<lparr> rj_event_id := [] \<rparr>)"

fun valid_trade_event :: "kr_hashes \<Rightarrow> kr_trade_event \<Rightarrow> bool" where
  "valid_trade_event H (Recommend r) = valid_recommendation H r"
| "valid_trade_event H (No_Trade e) = valid_no_trade H e"
| "valid_trade_event H (Rejected e) = valid_rejected H e"

lemma recommendation_levels:
  assumes "valid_recommendation H r"
  shows "levels_ordered (kr_stop r) (kr_entry r) (kr_targets r)"
    "list_all on_grid [kr_entry r, kr_stop r, fst (kr_targets r), snd (kr_targets r)]"
  using assms unfolding valid_recommendation_def valid_levels_def by blast+

subsection \<open>Sample digests\<close>

definition sample_trade_hashes :: kr_hashes where
  "sample_trade_hashes = \<lparr> kh_signal = (\<lambda>_. hex_id 7), kh_market = (\<lambda>_. hex_id 8), kh_thesis = (\<lambda>_. hex_id 5),
     kh_proposal = (\<lambda>_. hex_id 2), kh_verdict = (\<lambda>_. hex_id 6), kh_recommendation = (\<lambda>_. hex_id 3),
     kh_no_trade = (\<lambda>_. hex_id 9), kh_rejected = (\<lambda>_. hex_id 10), kh_plan_request = (\<lambda>_. hex_id 11),
     kh_plan_context = (\<lambda>_. hex_id 12) \<rparr>"

definition sample_kr_open :: int where
  "sample_kr_open = kst_utc (combine 739800 (time_of 9 0))"

end
