(* ===== verification/Kr_Trade_Planner.thy ===== *)
theory Kr_Trade_Planner
  imports Kr_Trade_Models
begin

text \<open>
  From evidence to a virtual recommendation: \<^verbatim>\<open>trading_agent/kr_autonomous_trade_proposal.py\<close>,
  \<^verbatim>\<open>kr_autonomous_trade_boundary.py\<close> and \<^verbatim>\<open>kr_autonomous_trade_planner.py\<close>.
  A request whose evidence does not validate is answered from its thesis alone; a valid one is
  checked, sized, criticised and answered by a recommendation, a reasoned no-trade or a rejection.
\<close>

datatype kr_trade_error = Invalid_Trade | Trade_Validation | Trade_Price kr_price_error

definition priced :: "kr_price_error + 'a \<Rightarrow> kr_trade_error + 'a" where
  "priced x = map_sum Trade_Price id x"

subsection \<open>Proposals\<close>

definition same_symbol :: "kr_request \<Rightarrow> bool" where
  "same_symbol q \<longleftrightarrow> list_ex (\<lambda>x. ex_symbol x = th_symbol (rq_thesis q)) (rq_exposures q)"

definition same_theme :: "kr_request \<Rightarrow> bool" where
  "same_theme q \<longleftrightarrow> list_ex (\<lambda>x. casefold (ex_theme x) = casefold (th_theme (rq_thesis q))) (rq_exposures q)"

definition has_missing_kr_trade_spread :: "kr_request \<Rightarrow> bool" where
  "has_missing_kr_trade_spread q \<longleftrightarrow>
     (let s = mc_snapshot (rq_market q)
      in ks_bid_price s = None \<or> ks_ask_price s = None \<or> mc_spread_bps (rq_market q) < Finite 0)"

definition precritic_no_trade_reasons :: "kr_request \<Rightarrow> no_trade_reason list" where
  "precritic_no_trade_reasons q =
     (if same_symbol q then [Duplicate_Symbol] else [])
     @ (if same_theme q then [Duplicate_Theme] else [])
     @ (if mc_valid_until (rq_market q) \<le> rq_evaluated_at q then [Stale_Market] else [])
     @ (if has_missing_kr_trade_spread q then [Missing_Spread] else [])"

definition budgets :: "verification_state \<Rightarrow> pynum \<times> pynum" where
  "budgets s = (case s of Multi_Source_Corroborated \<Rightarrow> (Finite 25000, Finite 1000000)
     | Unverified_Social \<Rightarrow> (Finite 5000, Finite 300000))"

definition proposed_quantity :: "pynum \<times> pynum \<Rightarrow> pynum \<Rightarrow> pynum \<Rightarrow> int" where
  "proposed_quantity b risk entry = \<lfloor>rv (num_min (num_div (fst b) risk) (num_div (snd b) entry))\<rfloor>"

definition identified_proposal :: "kr_hashes \<Rightarrow> kr_proposal \<Rightarrow> kr_trade_error + kr_proposal" where
  "identified_proposal H draft =
     (let p = draft \<lparr> pp_proposal_id := kh_proposal H draft \<rparr>
      in if valid_proposal H p then Inr p else Inl Trade_Validation)"

definition propose_kr_autonomous_trade ::
  "kr_hashes \<Rightarrow> kr_request \<Rightarrow> kr_trade_error + (kr_proposal option \<times> no_trade_reason option)" where
  "propose_kr_autonomous_trade H q =
     (case ks_ask_price (mc_snapshot (rq_market q)) of
        None \<Rightarrow> Inr (None, Some Missing_Spread)
      | Some ask \<Rightarrow>
          if \<not> is_finite ask \<or> ask \<le> Finite 0 then Inr (None, Some Missing_Spread)
          else case priced (round_kr_equity_price_up ask) of Inl e \<Rightarrow> Inl e | Inr entry \<Rightarrow>
            case priced (round_kr_equity_price_down (kb_low (mc_latest_bar (rq_market q)))) of Inl e \<Rightarrow> Inl e | Inr stop \<Rightarrow>
            if entry \<le> stop then Inr (None, Some Invalid_Stop)
            else let risk = num_sub entry stop;
                     quantity = proposed_quantity (budgets (sg_verification_state (rq_signal q))) risk entry
              in if quantity \<le> 0 then Inr (None, Some Zero_Quantity)
                 else case priced (round_kr_equity_price_up (num_add entry risk)) of Inl e \<Rightarrow> Inl e | Inr target1 \<Rightarrow>
                   case priced (round_kr_equity_price_up (num_add entry (num_mul risk (Finite 2)))) of Inl e \<Rightarrow> Inl e | Inr target2 \<Rightarrow>
                   map_sum id (\<lambda>p. (Some p, None)) (identified_proposal H
                     \<lparr> pp_proposal_id = [], pp_timestamp = rq_evaluated_at q, pp_entry = entry, pp_stop = stop,
                       pp_targets = (target1, target2), pp_quantity = quantity,
                       pp_rationale = th_hypothesis (rq_thesis q),
                       pp_counterevidence = th_counterevidence (rq_thesis q),
                       pp_verification_state = sg_verification_state (rq_signal q),
                       pp_valid_until = mc_valid_until (rq_market q) \<rparr>))"

subsection \<open>The critic\<close>

definition critic_reasons :: "kr_request \<Rightarrow> kr_proposal option \<Rightarrow> critic_reason list" where
  "critic_reasons q proposal =
     (let t = rq_thesis q; s = rq_signal q; m = rq_market q
      in (if th_task_id t \<noteq> sg_task_id s \<or> mc_task_id m \<noteq> sg_task_id s then [Task_Lineage] else [])
       @ (if th_social_signal_id t \<noteq> sg_signal_id s \<or> mc_social_signal_id m \<noteq> sg_signal_id s
             \<or> th_symbol t \<noteq> sg_symbol s \<or> th_theme t \<noteq> sg_theme s then [Social_Lineage] else [])
       @ (if th_market_corroboration_id t \<noteq> mc_corroboration_id m \<or> th_symbol t \<noteq> mc_symbol m then [Market_Lineage] else [])
       @ (if th_evidence_refs t \<noteq> sorted_set (sg_evidence_ids s @ mc_evidence_ids m) then [Evidence_Lineage] else [])
       @ (case sg_earliest_published_at s of
            None \<Rightarrow> [Noncausal_Publication]
          | Some p \<Rightarrow> if mc_market_response_at m \<le> p then [Noncausal_Publication] else [])
       @ (if sg_independent_source_count s \<noteq> int (length (sg_independent_source_cluster_ids s)) then [Cluster_Count] else [])
       @ (if mc_valid_until m \<le> rq_evaluated_at q \<or> mc_spread_bps m < Finite 0 then [Current_Market] else [])
       @ (if proposal = None then [Invalid_Levels] else [])
       @ (if list_ex (\<lambda>x. ex_symbol x = th_symbol t \<or> casefold (ex_theme x) = casefold (th_theme t)) (rq_exposures q)
          then [Duplicate_Exposure] else [])
       @ (if list_ex (\<lambda>x. normal_words (casefold x) = normal_words (casefold (th_hypothesis t))) (th_counterevidence t)
          then [Contradictory_Evidence] else []))"

definition rejection_reasons :: "critic_reason list" where
  "rejection_reasons = [Task_Lineage, Social_Lineage, Market_Lineage, Evidence_Lineage, Noncausal_Publication,
     Cluster_Count, Contradictory_Evidence]"

definition identified_verdict :: "kr_hashes \<Rightarrow> critic_verdict \<Rightarrow> kr_trade_error + critic_verdict" where
  "identified_verdict H draft =
     (let v = draft \<lparr> cv_verdict_id := kh_verdict H draft \<rparr>
      in if valid_verdict H v then Inr v else Inl Trade_Validation)"

definition critic :: "kr_hashes \<Rightarrow> kr_request \<Rightarrow> kr_proposal option \<Rightarrow> kr_trade_error + critic_verdict" where
  "critic H q proposal =
     (let reasons = critic_reasons q proposal;
          status = (if list_ex (\<lambda>r. r \<in> set rejection_reasons) reasons then Critic_Rejected
            else if reasons \<noteq> [] then Critic_More_Research else Critic_Approved)
      in identified_verdict H \<lparr> cv_verdict_id = [], cv_proposal_id = map_option pp_proposal_id proposal,
           cv_thesis_id = th_thesis_id (rq_thesis q), cv_status = status,
           cv_reason_codes = (if status = Critic_Approved then [Approved_Reason] else reasons) \<rparr>)"

definition build_kr_integrity_verdict :: "kr_hashes \<Rightarrow> kr_thesis \<Rightarrow> kr_trade_error + critic_verdict" where
  "build_kr_integrity_verdict H t =
     identified_verdict H \<lparr> cv_verdict_id = [], cv_proposal_id = None, cv_thesis_id = th_thesis_id t,
       cv_status = Critic_Rejected, cv_reason_codes = [Evidence_Lineage] \<rparr>"

subsection \<open>Events\<close>

text \<open>The part of a request that outlives invalid evidence.\<close>

definition context_of :: "kr_request \<Rightarrow> kr_context" where
  "context_of q = \<lparr> cx_thesis = rq_thesis q, cx_evaluated_at = rq_evaluated_at q,
     cx_next_wake_at = rq_next_wake_at q, cx_previous_event_id = rq_previous_event_id q \<rparr>"

definition chosen_plan_id :: "sha option \<Rightarrow> sha \<Rightarrow> sha" where
  "chosen_plan_id given own = (case given of None \<Rightarrow> own | Some p \<Rightarrow> if p = [] then own else p)"

definition trade_event :: "kr_hashes \<Rightarrow> kr_trade_event \<Rightarrow> kr_trade_error + kr_trade_event" where
  "trade_event H draft =
     (let e = (case draft of
            Recommend r \<Rightarrow> Recommend (r \<lparr> kr_event_id := kh_recommendation H r \<rparr>)
          | No_Trade n \<Rightarrow> No_Trade (n \<lparr> nt_event_id := kh_no_trade H n \<rparr>)
          | Rejected j \<Rightarrow> Rejected (j \<lparr> rj_event_id := kh_rejected H j \<rparr>))
      in if valid_trade_event H e then Inr e else Inl Trade_Validation)"

definition trade_recommendation ::
  "kr_hashes \<Rightarrow> kr_request \<Rightarrow> kr_proposal \<Rightarrow> critic_verdict \<Rightarrow> sha \<Rightarrow> kr_trade_error + kr_trade_event" where
  "trade_recommendation H q p v plan = trade_event H (Recommend
     \<lparr> kr_event_id = [], kr_plan_id = plan, kr_previous_event_id = rq_previous_event_id q,
       kr_timestamp = rq_evaluated_at q, kr_task_id = th_task_id (rq_thesis q),
       kr_thesis_id = th_thesis_id (rq_thesis q), kr_proposal_id = pp_proposal_id p,
       kr_social_signal_id = sg_signal_id (rq_signal q),
       kr_market_corroboration_id = mc_corroboration_id (rq_market q),
       kr_evidence_refs = th_evidence_refs (rq_thesis q), kr_symbol = th_symbol (rq_thesis q),
       kr_theme = th_theme (rq_thesis q), kr_entry = pp_entry p, kr_stop = pp_stop p, kr_targets = pp_targets p,
       kr_quantity = pp_quantity p, kr_rationale = pp_rationale p, kr_counterevidence = pp_counterevidence p,
       kr_verification_state = pp_verification_state p, kr_critic_verdict_id = cv_verdict_id v,
       kr_critic_verdict = v, kr_valid_until = pp_valid_until p \<rparr>)"

definition no_trade :: "kr_hashes \<Rightarrow> kr_context \<Rightarrow> no_trade_reason list \<Rightarrow> sha \<Rightarrow> kr_trade_error + kr_trade_event" where
  "no_trade H c reasons plan = trade_event H (No_Trade
     \<lparr> nt_event_id = [], nt_plan_id = plan, nt_previous_event_id = cx_previous_event_id c,
       nt_timestamp = cx_evaluated_at c, nt_task_id = th_task_id (cx_thesis c),
       nt_thesis_id = th_thesis_id (cx_thesis c), nt_symbol = th_symbol (cx_thesis c),
       nt_theme = th_theme (cx_thesis c), nt_reason_codes = reasons, nt_next_wake_at = cx_next_wake_at c \<rparr>)"

definition rejected :: "kr_hashes \<Rightarrow> kr_context \<Rightarrow> critic_verdict \<Rightarrow> sha \<Rightarrow> kr_trade_error + kr_trade_event" where
  "rejected H c v plan = trade_event H (Rejected
     \<lparr> rj_event_id = [], rj_plan_id = plan, rj_previous_event_id = cx_previous_event_id c,
       rj_timestamp = cx_evaluated_at c, rj_task_id = th_task_id (cx_thesis c),
       rj_thesis_id = th_thesis_id (cx_thesis c), rj_symbol = th_symbol (cx_thesis c),
       rj_theme = th_theme (cx_thesis c), rj_reason_codes = cv_reason_codes v,
       rj_critic_verdict_id = cv_verdict_id v, rj_next_wake_at = cx_next_wake_at c \<rparr>)"

subsection \<open>Planning\<close>

definition finalize_kr_autonomous_trade ::
  "kr_hashes \<Rightarrow> kr_request \<Rightarrow> kr_proposal \<Rightarrow> sha option \<Rightarrow> kr_trade_error + kr_trade_event" where
  "finalize_kr_autonomous_trade H q p given =
     (if \<not> valid_request H q then Inl Invalid_Trade
      else case propose_kr_autonomous_trade H q of Inl e \<Rightarrow> Inl e | Inr (expected, _) \<Rightarrow>
        if expected \<noteq> Some p then Inl Invalid_Trade
        else let plan = chosen_plan_id given (kh_plan_request H q)
          in case critic H q (Some p) of Inl e \<Rightarrow> Inl e | Inr v \<Rightarrow>
            (case cv_status v of
               Critic_Approved \<Rightarrow> trade_recommendation H q p v plan
             | Critic_More_Research \<Rightarrow> no_trade H (context_of q) [Invalid_Stop]
                 (if plan = [] then kh_plan_request H q else plan)
             | Critic_Rejected \<Rightarrow> rejected H (context_of q) v (if plan = [] then kh_plan_request H q else plan)))"

definition no_trade_kr_autonomous_trade ::
  "kr_hashes \<Rightarrow> kr_request \<Rightarrow> no_trade_reason list \<Rightarrow> sha option \<Rightarrow> kr_trade_error + kr_trade_event" where
  "no_trade_kr_autonomous_trade H q reasons given =
     no_trade H (context_of q) reasons (chosen_plan_id given (kh_plan_request H q))"

definition criticize_kr_autonomous_trade :: "kr_hashes \<Rightarrow> kr_request \<Rightarrow> kr_trade_error + critic_verdict" where
  "criticize_kr_autonomous_trade H q =
     (if \<not> valid_request H q
      then if \<not> valid_context H (context_of q) then Inl Invalid_Trade else build_kr_integrity_verdict H (rq_thesis q)
      else case propose_kr_autonomous_trade H q of Inl e \<Rightarrow> Inl e | Inr (p, _) \<Rightarrow> critic H q p)"

definition plan_kr_autonomous_trade :: "kr_hashes \<Rightarrow> kr_request \<Rightarrow> kr_trade_error + kr_trade_event" where
  "plan_kr_autonomous_trade H q =
     (if \<not> valid_request H q
      then let c = context_of q; plan = kh_plan_context H c
        in if \<not> valid_context H c then Inl Invalid_Trade
           else if has_missing_kr_trade_spread q then no_trade H c [Missing_Spread] plan
           else case build_kr_integrity_verdict H (cx_thesis c) of Inl e \<Rightarrow> Inl e | Inr v \<Rightarrow> rejected H c v plan
      else case precritic_no_trade_reasons q of
        r # rs \<Rightarrow> no_trade H (context_of q) (r # rs) (kh_plan_request H q)
      | [] \<Rightarrow>
          (case propose_kr_autonomous_trade H q of
             Inl e \<Rightarrow> Inl e
           | Inr (None, failure) \<Rightarrow> no_trade H (context_of q)
               [case failure of None \<Rightarrow> Invalid_Stop | Some f \<Rightarrow> f] (kh_plan_request H q)
           | Inr (Some p, _) \<Rightarrow> finalize_kr_autonomous_trade H q p None))"

subsection \<open>What a recommendation rests on\<close>

lemma trade_event_kind:
  "trade_event H (No_Trade n) \<noteq> Inr (Recommend r)" "trade_event H (Rejected j) \<noteq> Inr (Recommend r)"
  by (auto simp: trade_event_def Let_def)

lemma trade_event_recommends:
  assumes "trade_event H (Recommend d) = Inr (Recommend r)"
  shows "valid_recommendation H r" "r = d \<lparr> kr_event_id := kh_recommendation H d \<rparr>"
  using assms by (auto simp: trade_event_def Let_def split: if_splits)

lemma critic_approves:
  assumes "critic H q p = Inr v" "cv_status v = Critic_Approved"
  shows "critic_reasons q p = []"
  using assms by (auto simp: critic_def identified_verdict_def Let_def split: if_splits)

lemma planned_from_proposal:
  assumes "plan_kr_autonomous_trade H q = Inr (Recommend r)"
  obtains p f v plan where "valid_request H q" "precritic_no_trade_reasons q = []"
    "propose_kr_autonomous_trade H q = Inr (Some p, f)" "critic_reasons q (Some p) = []"
    "trade_recommendation H q p v plan = Inr (Recommend r)"
  using assms trade_event_kind critic_approves
  unfolding plan_kr_autonomous_trade_def finalize_kr_autonomous_trade_def no_trade_def rejected_def
  by (auto simp: Let_def split: if_splits list.splits sum.splits option.splits critic_status.splits prod.splits)

lemma proposed:
  assumes "propose_kr_autonomous_trade H q = Inr (Some p, f)"
  shows "valid_proposal H p" "pp_stop p < pp_entry p" "pp_timestamp p = rq_evaluated_at q"
    "pp_quantity p = proposed_quantity (budgets (sg_verification_state (rq_signal q))) (num_sub (pp_entry p) (pp_stop p)) (pp_entry p)"
    "pp_verification_state p = sg_verification_state (rq_signal q)" "pp_valid_until p = mc_valid_until (rq_market q)"
    "\<exists>ask. ks_ask_price (mc_snapshot (rq_market q)) = Some ask \<and> round_kr_equity_price_up ask = Inr (pp_entry p)"
    "round_kr_equity_price_down (kb_low (mc_latest_bar (rq_market q))) = Inr (pp_stop p)"
  using assms unfolding propose_kr_autonomous_trade_def priced_def identified_proposal_def
  by (auto simp: Let_def map_sum_def valid_proposal_def valid_levels_def levels_ordered_def
      split: option.splits if_splits sum.splits)

text \<open>A grid price is a positive whole number of won.\<close>

lemma grid_price_whole:
  assumes "on_grid p"
  obtains k where "p = Finite (of_int k)" "0 < k"
proof (cases p)
  case (Finite x)
  have tick: "kr_equity_tick_size p = Inr t \<Longrightarrow> \<exists>n::int. t = of_int n" for t
    by (auto simp: kr_equity_tick_size_def split: if_splits intro: exI [of _ "1::int"] exI [of _ "5::int"]
        exI [of _ "10::int"] exI [of _ "50::int"] exI [of _ "100::int"] exI [of _ "500::int"] exI [of _ "1000::int"])
  obtain t where t: "kr_equity_tick_size p = Inr t" "is_integral (x / t)" "0 < x"
    using assms Finite by (auto simp: on_grid_def is_valid_kr_equity_price_def kr_equity_tick_size_def split: sum.splits if_splits)
  then obtain n where n: "t = of_int n" using tick by blast
  have "0 < t" using t(1) by (auto simp: kr_equity_tick_size_def split: if_splits)
  moreover obtain m where "x / t = of_int m" using t(2) by (metis is_integral_def of_int_floor_cancel)
  ultimately have x: "x = of_int (m * n)" using n by (simp add: field_simps)
  then have "0 < m * n" using t(3) by (metis of_int_0_less_iff)
  then show thesis using that x Finite by blast
qed (use assms in \<open>auto simp: on_grid_def is_valid_kr_equity_price_def kr_equity_tick_size_def\<close>)

text \<open>A whole quantity bought with a rounded quotient of whole numbers stays within the budget exactly.\<close>

lemma whole_quotient_exact:
  assumes "0 < n" "0 < b" "b < 10 ^ 27" "0 \<le> q" "q \<le> \<lfloor>drnd (of_int b / of_int n)\<rfloor>"
  shows "q * n \<le> (b::int)"
proof -
  have "of_int n * of_int q \<le> of_int b * (1 + deps)"
    using dec.floor_quotient_within [of "of_int n" "of_int b" q] assms by simp
  also have "\<dots> < of_int b + 1"
  proof -
    have "of_int b < (10 ^ 27 :: rat)" using assms(3) by (metis of_int_less_iff of_int_numeral of_int_power)
    then show ?thesis by (simp add: deps_def field_simps)
  qed
  finally have "of_int (n * q) < (of_int (b + 1) :: rat)" by simp
  then show ?thesis unfolding of_int_less_iff by (simp add: mult.commute)
qed

lemma proposed_quantity_bounds:
  assumes "on_grid entry" "on_grid stop" "stop < entry" "0 < n" "n = proposed_quantity b (num_sub entry stop) entry"
    "b = (Finite (of_int risk), Finite (of_int notional))" "0 < risk" "0 < notional" "notional \<le> 1000000" "risk \<le> 1000000"
  shows "\<exists>e s. entry = Finite (of_int e) \<and> stop = Finite (of_int s) \<and> s < e
    \<and> n * (e - s) \<le> risk \<and> n * e \<le> notional"
proof -
  obtain e where e: "entry = Finite (of_int e)" "0 < e" using grid_price_whole [OF assms(1)] .
  obtain s where st: "stop = Finite (of_int s)" "0 < s" using grid_price_whole [OF assms(2)] .
  have lt: "s < e" using assms(3) by (simp add: e st)
  have q: "n \<le> \<lfloor>drnd (of_int notional / of_int e)\<rfloor>" "n \<le> \<lfloor>rv (num_div (Finite (of_int risk)) (num_sub entry stop))\<rfloor>"
  proof -
    have "0 < drnd (of_int e - of_int s)" using dec.r_pos lt by simp
    then show "n \<le> \<lfloor>drnd (of_int notional / of_int e)\<rfloor>" "n \<le> \<lfloor>rv (num_div (Finite (of_int risk)) (num_sub entry stop))\<rfloor>"
      using assms(5,6) e st by (auto simp: proposed_quantity_def num_min_def floor_mono not_less)
  qed
  have notional: "n * e \<le> notional" using whole_quotient_exact [OF e(2) assms(8) _ _ q(1)] assms(4,9) by simp
  then have "e \<le> 1000000" using assms(4,9) e(2) by (metis less_le_not_le mult_le_cancel_right1 nle_le order_trans zero_less_one int_one_le_iff_zero_less)
  then have "drnd (of_int (e - s)) = of_int (e - s)" using lt st(2) by (intro drnd_of_int) simp
  then have "num_sub entry stop = Finite (of_int (e - s))" by (simp add: e st)
  then have "n * (e - s) \<le> risk"
    using whole_quotient_exact [of "e - s" risk n] q(2) lt assms(4,7,10) by simp
  then show ?thesis using e st lt notional by blast
qed

lemma recommended_times:
  assumes "plan_kr_autonomous_trade H q = Inr (Recommend r)"
  shows "valid_recommendation H r" "kr_timestamp r = rq_evaluated_at q" "kr_valid_until r = mc_valid_until (rq_market q)"
    "kr_symbol r = th_symbol (rq_thesis q)"
    "mc_valid_until (rq_market q) \<le> mc_observed_at (rq_market q) + 5 * second_us"
proof -
  obtain p f v plan where v: "valid_request H q" and p: "propose_kr_autonomous_trade H q = Inr (Some p, f)"
    and r: "trade_recommendation H q p v plan = Inr (Recommend r)"
    using planned_from_proposal [OF assms] .
  note made = trade_event_recommends [OF r [unfolded trade_recommendation_def]]
  show "valid_recommendation H r" by (rule made(1))
  show "kr_timestamp r = rq_evaluated_at q" "kr_valid_until r = mc_valid_until (rq_market q)"
    "kr_symbol r = th_symbol (rq_thesis q)"
    using made(2) proposed(6) [OF p] by simp_all
  show "mc_valid_until (rq_market q) \<le> mc_observed_at (rq_market q) + 5 * second_us"
    using v by (auto simp: valid_request_def valid_corroboration_def Let_def)
qed

text \<open>The won a recommendation may lose and the won it may tie up.\<close>

definition budget_of :: "verification_state \<Rightarrow> int \<times> int" where
  "budget_of s = (case s of Multi_Source_Corroborated \<Rightarrow> (25000, 1000000) | Unverified_Social \<Rightarrow> (5000, 300000))"

text \<open>C22.  A recommendation is only made within its budget and on causal, fresh, matching evidence.  Its
  prices are whole won on the price grid; the whole loss down to its stop is at most 25,000 won when
  several independent sources corroborate it and 5,000 otherwise, and its notional at most 1,000,000
  or 300,000; no open position has its symbol or its theme; the market evidence has not expired and
  responded only after the first publication; and it cites exactly the evidence of its signal and of
  its market corroboration.\<close>

theorem recommendation_is_bounded:
  assumes "plan_kr_autonomous_trade H q = Inr (Recommend r)"
  shows "valid_recommendation H r
    \<and> (\<exists>e s. kr_entry r = Finite (of_int e) \<and> kr_stop r = Finite (of_int s) \<and> s < e
         \<and> kr_quantity r * (e - s) \<le> fst (budget_of (kr_verification_state r))
         \<and> kr_quantity r * e \<le> snd (budget_of (kr_verification_state r)))
    \<and> kr_verification_state r = (if 2 \<le> length (sg_independent_source_cluster_ids (rq_signal q))
         then Multi_Source_Corroborated else Unverified_Social)
    \<and> (\<forall>x \<in> set (rq_exposures q). ex_symbol x \<noteq> kr_symbol r \<and> casefold (ex_theme x) \<noteq> casefold (kr_theme r))
    \<and> kr_timestamp r < kr_valid_until r
    \<and> (\<exists>t. sg_earliest_published_at (rq_signal q) = Some t \<and> t < mc_market_response_at (rq_market q))
    \<and> set (kr_evidence_refs r) = set (sg_evidence_ids (rq_signal q)) \<union> set (mc_evidence_ids (rq_market q))"
proof -
  obtain p f v plan where v: "valid_request H q" "precritic_no_trade_reasons q = []"
    and p: "propose_kr_autonomous_trade H q = Inr (Some p, f)" and c: "critic_reasons q (Some p) = []"
    and r: "trade_recommendation H q p v plan = Inr (Recommend r)"
    using planned_from_proposal [OF assms] .
  note pr = proposed [OF p]
  note made = trade_event_recommends [OF r [unfolded trade_recommendation_def]]
  have "on_grid (pp_entry p)" "on_grid (pp_stop p)" "0 < pp_quantity p"
    using pr(1) by (auto simp: valid_proposal_def valid_levels_def)
  then have bounds: "\<exists>e s. pp_entry p = Finite (of_int e) \<and> pp_stop p = Finite (of_int s) \<and> s < e
     \<and> pp_quantity p * (e - s) \<le> fst (budget_of (pp_verification_state p))
     \<and> pp_quantity p * e \<le> snd (budget_of (pp_verification_state p))"
    using proposed_quantity_bounds [OF _ _ pr(2) _ pr(4)] pr(5)
    by (cases "pp_verification_state p") (simp_all add: budgets_def budget_of_def)
  have sources: "sg_verification_state (rq_signal q) = (if 2 \<le> length (sg_independent_source_cluster_ids (rq_signal q))
         then Multi_Source_Corroborated else Unverified_Social)"
    using v(1) by (auto simp: valid_request_def valid_signal_def)
  have exposures: "\<forall>x \<in> set (rq_exposures q). ex_symbol x \<noteq> th_symbol (rq_thesis q) \<and> casefold (ex_theme x) \<noteq> casefold (th_theme (rq_thesis q))"
    and fresh: "rq_evaluated_at q < mc_valid_until (rq_market q)"
    using v(2) by (auto simp: precritic_no_trade_reasons_def same_symbol_def same_theme_def list_ex_iff split: if_splits)
  have causal: "\<exists>t. sg_earliest_published_at (rq_signal q) = Some t \<and> t < mc_market_response_at (rq_market q)"
    and refs: "th_evidence_refs (rq_thesis q) = sorted_set (sg_evidence_ids (rq_signal q) @ mc_evidence_ids (rq_market q))"
    using c by (auto simp: critic_reasons_def Let_def split: if_splits option.splits)
  show ?thesis using made bounds sources exposures fresh causal refs pr(3,5,6) by simp
qed

subsection \<open>The planner answers\<close>






















subsection \<open>A concrete request\<close>

text \<open>Two sources about one stock, its last bar, and the quote a moment later; the prices are arguments.\<close>

definition sample_signal :: kr_signal where
  "sample_signal = \<lparr> sg_signal_id = hex_id 7, sg_task_id = hex_id 4, sg_symbol = ''005930'', sg_theme = ''Memory'',
     sg_claim_summary = ''orders rise'', sg_evidence_ids = [hex_id 1, hex_id 2],
     sg_source_payload_sha256s = [hex_id 1, hex_id 2], sg_repost_cluster_ids = [hex_id 3, hex_id 4],
     sg_independent_source_cluster_ids = [hex_id 5, hex_id 6], sg_post_count = 2, sg_repost_cluster_count = 2,
     sg_independent_source_count = 2, sg_verification_state = Multi_Source_Corroborated,
     sg_earliest_published_at = Some (sample_kr_open + 10 * second_us),
     sg_first_observed_at = sample_kr_open + 20 * second_us, sg_normalized_at = sample_kr_open + 30 * second_us \<rparr>"

definition sample_evidence :: "string \<Rightarrow> string \<Rightarrow> int \<Rightarrow> evidence_ref" where
  "sample_evidence n i t = \<lparr> er_namespace = n, er_record_id = i, er_observed_at = t \<rparr>"

definition sample_latest_bar :: "rat \<Rightarrow> rat \<Rightarrow> kr_bar" where
  "sample_latest_bar low high = \<lparr> kb_symbol = ''005930'', kb_start_at = sample_kr_open,
     kb_end_at = sample_kr_open + minute_us, kb_observed_at = sample_kr_open + minute_us + second_us,
     kb_open = Finite low, kb_high = Finite high, kb_low = Finite low, kb_close = Finite high,
     kb_volume = 10, kb_trading_value = Finite (10 * low),
     kb_evidence = sample_evidence ''kr/bar'' (hex_id 15 @ '':0'') (sample_kr_open + minute_us + second_us) \<rparr>"

definition sample_snapshot :: "rat \<Rightarrow> rat \<Rightarrow> kr_snapshot" where
  "sample_snapshot bid ask = (let t = sample_kr_open + minute_us + 2 * second_us in
     \<lparr> ks_symbol = ''005930'', ks_observed_at = t, ks_previous_close = Finite bid, ks_last_price = Finite ask,
       ks_bid_price = Some (Finite bid), ks_ask_price = Some (Finite ask), ks_lower_limit_price = Finite (bid / 2),
       ks_upper_limit_price = Finite (bid * 2), ks_session_state = Session_Open, ks_vi_state = Vi_Clear,
       ks_trading_mode = Mode_Continuous, ks_halt_state = Halt_Clear, ks_designation_state = Designation_Clear,
       ks_evidence_refs = [sample_evidence ''kr/quote'' (hex_id 13) t, sample_evidence ''kr/quote'' (hex_id 14) t] \<rparr>)"

definition sample_market :: "rat \<Rightarrow> rat \<Rightarrow> rat \<Rightarrow> rat \<Rightarrow> kr_corroboration" where
  "sample_market bid ask spread low = (let t = sample_kr_open + minute_us + 2 * second_us in
     \<lparr> mc_corroboration_id = hex_id 8, mc_task_id = hex_id 4, mc_social_signal_id = hex_id 7,
       mc_symbol = ''005930'', mc_session_date = wall_date (kst sample_kr_open), mc_calendar_snapshot_id = hex_id 9,
       mc_social_first_observed_at = sample_kr_open + 20 * second_us, mc_market_response_at = t,
       mc_observed_at = t, mc_valid_until = t + 5 * second_us, mc_latest_bar = sample_latest_bar low ask,
       mc_snapshot = sample_snapshot bid ask, mc_spread_bps = Finite spread,
       mc_trading_value = Finite (10 * low), mc_receipt_count = 3,
       mc_receipt_sha256s = [hex_id 13, hex_id 14, hex_id 15], mc_evidence_count = 3,
       mc_evidence_ids = [''kr/bar:'' @ hex_id 15 @ '':0'', ''kr/quote:'' @ hex_id 13, ''kr/quote:'' @ hex_id 14] \<rparr>)"

definition sample_request :: "rat \<Rightarrow> rat \<Rightarrow> rat \<Rightarrow> rat \<Rightarrow> kr_request" where
  "sample_request bid ask spread low = \<lparr>
     rq_thesis = \<lparr> th_thesis_id = hex_id 5, th_task_id = hex_id 4, th_symbol = ''005930'', th_theme = ''Memory'',
       th_hypothesis = ''orders lift price'', th_counterevidence = [''a cyclical top''],
       th_setup_kind = Momentum_Reclaim, th_social_signal_id = hex_id 7, th_market_corroboration_id = hex_id 8,
       th_evidence_refs = [hex_id 1, hex_id 2] @ mc_evidence_ids (sample_market bid ask spread low),
       th_submitted_at = sample_kr_open + minute_us \<rparr>,
     rq_signal = sample_signal, rq_market = sample_market bid ask spread low,
     rq_evaluated_at = sample_kr_open + minute_us + 3 * second_us,
     rq_next_wake_at = sample_kr_open + 2 * minute_us,
     rq_exposures = [\<lparr> ex_symbol = ''000660'', ex_theme = ''shipping'' \<rparr>], rq_previous_event_id = None \<rparr>"

definition inner_request :: kr_request where
  "inner_request = sample_request 9990 9995 (5003752814610958218663997998 / 10 ^ 27) 9905"

definition border_request :: kr_request where
  "border_request = sample_request 1999 2000 (5001250312578144536134033508 / 10 ^ 27) 1999"

lemma sample_request_valid: "valid_request sample_trade_hashes inner_request"
  by code_simp

text \<open>A recommendation of 100 shares at 10,000 won with the stop at 9,900.\<close>

definition sample_proposal :: kr_proposal where
  "sample_proposal = \<lparr> pp_proposal_id = hex_id 2, pp_timestamp = sample_kr_open + minute_us + 3 * second_us,
     pp_entry = Finite 10000, pp_stop = Finite 9900, pp_targets = (Finite 10100, Finite 10200),
     pp_quantity = 100, pp_rationale = ''orders lift price'', pp_counterevidence = [''a cyclical top''],
     pp_verification_state = Multi_Source_Corroborated,
     pp_valid_until = sample_kr_open + minute_us + 7 * second_us \<rparr>"

lemma sample_request_proposes:
  "precritic_no_trade_reasons inner_request = []"
  "propose_kr_autonomous_trade sample_trade_hashes inner_request = Inr (Some sample_proposal, None)"
  by code_simp+

definition recommended :: "kr_trade_error + kr_trade_event \<Rightarrow> kr_recommendation option" where
  "recommended x = (case x of Inr (Recommend r) \<Rightarrow> Some r | _ \<Rightarrow> None)"

lemma sample_request_recommends:
  "(case critic sample_trade_hashes inner_request (Some sample_proposal) of
      Inl e \<Rightarrow> None
    | Inr v \<Rightarrow> if cv_status v = Critic_Approved then map_option kr_quantity
        (recommended (trade_recommendation sample_trade_hashes inner_request sample_proposal v (hex_id 11)))
      else None) = Some 100"
  by code_simp

lemma inner_request_recommends:
  "\<exists>r. plan_kr_autonomous_trade sample_trade_hashes inner_request = Inr (Recommend r) \<and> kr_quantity r = 100"
proof -
  have plan: "kh_plan_request sample_trade_hashes inner_request = hex_id 11"
    by (simp add: sample_trade_hashes_def)
  show ?thesis
    using sample_request_recommends sample_request_valid sample_request_proposes plan
    by (auto simp: plan_kr_autonomous_trade_def finalize_kr_autonomous_trade_def recommended_def chosen_plan_id_def
        split: sum.splits if_splits kr_trade_event.splits)
qed

theorem recommendation_is_bounded_witness:
  "\<exists>r. plan_kr_autonomous_trade sample_trade_hashes inner_request = Inr (Recommend r)
     \<and> valid_recommendation sample_trade_hashes r \<and> kr_quantity r = 100"
  using inner_request_recommends recommendation_is_bounded [of sample_trade_hashes inner_request] by blast




text \<open>
  On the border of two price bands the two targets can round to the same price: at an ask of 2,000
  won and a last low of 1,999 both targets are 2,005, the proposal does not validate, and the
  planner raises instead of answering.
\<close>

lemma border_request_valid: "valid_request sample_trade_hashes border_request"
  by code_simp

lemma border_request_raises:
  "precritic_no_trade_reasons border_request = []"
  "propose_kr_autonomous_trade sample_trade_hashes border_request = Inl Trade_Validation"
  by code_simp+

lemma band_border_raises:
  "valid_request sample_trade_hashes border_request
   \<and> plan_kr_autonomous_trade sample_trade_hashes border_request = Inl Trade_Validation"
  using border_request_valid border_request_raises by (simp add: plan_kr_autonomous_trade_def)

end
