(* ===== verification/Kr_Virtual_Position.thy ===== *)
theory Kr_Virtual_Position
  imports Kr_Trade_Models
begin

text \<open>
  The virtual position of a Korean recommendation: \<^verbatim>\<open>trading_agent/kr_virtual_position_models.py\<close>,
  \<^verbatim>\<open>kr_virtual_position_engine.py\<close> and the append and reads of
  \<^verbatim>\<open>kr_virtual_position_store.py\<close>.  A position is a chain of
  events, each naming the one before it by a content hash.  Instants of validated models are
  integers (their awareness is checked by the models); \<open>now\<close> and the time an event is written
  keep their awareness.  The content hashes are a parameter.
\<close>

subsection \<open>Events\<close>

datatype position_state = ARMED | ACTIVE | STOPPED | TARGETED | EXPIRED | CENSORED

datatype position_reason =
    Armed_Reason | Entry_Reason | Stop_First | Target_Reason | Entry_Expired | Session_Close
  | Bar_Gap | Divergent_Replay

record position_transition =
  pt_state :: position_state
  pt_reason :: position_reason
  pt_attempted :: "int option"
  pt_accepted :: "int option"
  pt_fill_price :: "pynum option"
  pt_fill_time :: "int option"
  pt_exit_price :: "pynum option"
  pt_exit_time :: "int option"
  pt_evidence_refs :: "string list"

record position_event =
  pe_event_id :: sha
  pe_position_id :: sha
  pe_recommendation_id :: sha
  pe_task_id :: sha
  pe_symbol :: symbol
  pe_theme :: string
  pe_sequence :: int
  pe_previous_event_id :: "sha option"
  pe_state :: position_state
  pe_reason :: position_reason
  pe_attempted :: "int option"
  pe_accepted :: "int option"
  pe_entry :: pynum
  pe_stop :: pynum
  pe_targets :: "pynum \<times> pynum"
  pe_quantity :: int
  pe_fill_price :: "pynum option"
  pe_fill_time :: "int option"
  pe_exit_price :: "pynum option"
  pe_exit_time :: "int option"
  pe_occurred_at :: pydt
  pe_evidence_refs :: "string list"

text \<open>The SHA-256 digests of canonical JSON, of the values they are taken over.\<close>

record position_hashes =
  kh_trade :: kr_hashes
  kh_position :: "sha \<Rightarrow> sha \<Rightarrow> sha"
  kh_event :: "position_event \<Rightarrow> sha"

datatype kr_position_error = Invalid_Kr_Virtual_Position | Validation_Error | Invalid_Position_Store

subsection \<open>Validation\<close>

definition terminal_state :: "position_state \<Rightarrow> bool" where
  "terminal_state s \<longleftrightarrow> s \<in> {STOPPED, TARGETED, EXPIRED, CENSORED}"

definition valid_state_shape :: "position_event \<Rightarrow> bool" where
  "valid_state_shape e =
     (let filled = ((case pe_fill_price e of None \<Rightarrow> False | Some p \<Rightarrow> num_eq p (pe_entry e)) \<and> pe_fill_time e \<noteq> None);
          exited = (pe_exit_time e \<noteq> None); reason = pe_reason e;
          exit_is = (\<lambda>p. case pe_exit_price e of None \<Rightarrow> False | Some x \<Rightarrow> num_eq x p)
      in case pe_state e of
           ARMED \<Rightarrow> reason = Armed_Reason \<and> \<not> filled \<and> \<not> exited
         | ACTIVE \<Rightarrow> reason = Entry_Reason \<and> filled \<and> \<not> exited
         | STOPPED \<Rightarrow> reason = Stop_First \<and> filled \<and> exited \<and> exit_is (pe_stop e)
         | TARGETED \<Rightarrow> reason = Target_Reason \<and> filled \<and> exited \<and> exit_is (fst (pe_targets e))
         | EXPIRED \<Rightarrow> (reason = Entry_Expired \<and> \<not> filled \<and> \<not> exited)
             \<or> (reason = Session_Close \<and> filled \<and> exited \<and> pe_exit_price e \<noteq> None)
         | CENSORED \<Rightarrow> reason \<in> {Bar_Gap, Divergent_Replay} \<and> \<not> exited)"

definition valid_position_event :: "position_hashes \<Rightarrow> position_event \<Rightarrow> bool" where
  "valid_position_event H e \<longleftrightarrow>
     list_all hex64 [pe_event_id e, pe_position_id e, pe_recommendation_id e, pe_task_id e]
     \<and> 1 \<le> pe_sequence e
     \<and> (case pe_previous_event_id e of None \<Rightarrow> True | Some i \<Rightarrow> hex64 i)
     \<and> 0 < pe_quantity e
     \<and> 1 \<le> length (pe_evidence_refs e) \<and> length (pe_evidence_refs e) \<le> 512
     \<and> is_aware (pe_occurred_at e)
     \<and> levels_ordered (pe_stop e) (pe_entry e) (pe_targets e)
     \<and> pe_evidence_refs e = sorted_set (pe_evidence_refs e)
     \<and> pe_event_id e = kh_event H (e \<lparr> pe_event_id := [] \<rparr>)
     \<and> valid_state_shape e"

definition virtual_position_id :: "position_hashes \<Rightarrow> kr_recommendation \<Rightarrow> sha" where
  "virtual_position_id H r = kh_position H (kr_event_id r) (kr_task_id r)"

definition lineage_ok :: "position_hashes \<Rightarrow> kr_recommendation \<Rightarrow> position_event \<Rightarrow> bool" where
  "lineage_ok H r e \<longleftrightarrow> pe_position_id e = virtual_position_id H r
     \<and> pe_recommendation_id e = kr_event_id r \<and> pe_task_id e = kr_task_id r"

subsection \<open>The engine\<close>

definition position_event_of ::
  "position_hashes \<Rightarrow> kr_recommendation \<Rightarrow> position_event option \<Rightarrow> position_transition \<Rightarrow> pydt
     \<Rightarrow> kr_position_error + position_event" where
  "position_event_of H r previous t now =
     (let draft = \<lparr> pe_event_id = [], pe_position_id = virtual_position_id H r,
            pe_recommendation_id = kr_event_id r, pe_task_id = kr_task_id r, pe_symbol = kr_symbol r,
            pe_theme = kr_theme r,
            pe_sequence = (case previous of None \<Rightarrow> 1 | Some p \<Rightarrow> pe_sequence p + 1),
            pe_previous_event_id = map_option pe_event_id previous,
            pe_state = pt_state t, pe_reason = pt_reason t, pe_attempted = pt_attempted t,
            pe_accepted = pt_accepted t, pe_entry = kr_entry r, pe_stop = kr_stop r,
            pe_targets = kr_targets r, pe_quantity = kr_quantity r, pe_fill_price = pt_fill_price t,
            pe_fill_time = pt_fill_time t, pe_exit_price = pt_exit_price t, pe_exit_time = pt_exit_time t,
            pe_occurred_at = now, pe_evidence_refs = pt_evidence_refs t \<rparr>;
          e = draft \<lparr> pe_event_id := kh_event H draft \<rparr>
      in if valid_position_event H e then Inr e else Inl Validation_Error)"

definition copy_transition :: "position_event \<Rightarrow> position_state \<Rightarrow> position_reason \<Rightarrow> position_transition" where
  "copy_transition e state reason = \<lparr> pt_state = state, pt_reason = reason, pt_attempted = pe_attempted e,
     pt_accepted = pe_accepted e, pt_fill_price = pe_fill_price e, pt_fill_time = pe_fill_time e,
     pt_exit_price = None, pt_exit_time = None, pt_evidence_refs = pe_evidence_refs e \<rparr>"

definition censored ::
  "position_hashes \<Rightarrow> kr_recommendation \<Rightarrow> position_event \<Rightarrow> int \<Rightarrow> position_reason \<Rightarrow> pydt \<Rightarrow> kr_position_error + position_event" where
  "censored H r previous attempted reason now =
     position_event_of H r (Some previous) ((copy_transition previous CENSORED reason) \<lparr> pt_attempted := Some attempted \<rparr>) now"

definition arm_kr_virtual_position ::
  "position_hashes \<Rightarrow> kr_recommendation \<Rightarrow> pydt \<Rightarrow> kr_position_error + position_event" where
  "arm_kr_virtual_position H r now =
     (if \<not> valid_recommendation (kh_trade H) r then Inl Validation_Error
      else position_event_of H r None \<lparr> pt_state = ARMED, pt_reason = Armed_Reason, pt_attempted = None,
        pt_accepted = None, pt_fill_price = None, pt_fill_time = None, pt_exit_price = None,
        pt_exit_time = None, pt_evidence_refs = kr_evidence_refs r \<rparr> now)"

definition reason_of :: "position_state \<Rightarrow> position_reason" where
  "reason_of s = (case s of ARMED \<Rightarrow> Armed_Reason | ACTIVE \<Rightarrow> Entry_Reason | STOPPED \<Rightarrow> Stop_First
     | TARGETED \<Rightarrow> Target_Reason | EXPIRED \<Rightarrow> Entry_Expired | CENSORED \<Rightarrow> Bar_Gap)"

definition bar_transition ::
  "position_event \<Rightarrow> kr_bar \<Rightarrow> string list \<Rightarrow> position_state \<Rightarrow> position_transition" where
  "bar_transition previous bar evidence state =
     (let fill_price = (if pe_fill_price previous = None \<and> state \<in> {ACTIVE, STOPPED, TARGETED}
            then Some (pe_entry previous) else pe_fill_price previous);
          fill_time = (if pe_fill_time previous = None \<and> fill_price \<noteq> None
            then Some (kb_end_at bar) else pe_fill_time previous);
          exit_price = (if state = STOPPED then Some (pe_stop previous)
            else if state = TARGETED then Some (fst (pe_targets previous)) else None)
      in \<lparr> pt_state = state, pt_reason = reason_of state, pt_attempted = Some (kb_end_at bar),
           pt_accepted = Some (kb_end_at bar), pt_fill_price = fill_price, pt_fill_time = fill_time,
           pt_exit_price = exit_price,
           pt_exit_time = (if exit_price \<noteq> None then Some (kb_end_at bar) else None),
           pt_evidence_refs = evidence \<rparr>)"

definition session_close_time :: int where
  "session_close_time = time_of 15 30"

definition apply_bar :: "kr_recommendation \<Rightarrow> position_event \<Rightarrow> kr_bar \<Rightarrow> position_transition" where
  "apply_bar r previous bar =
     (let evidence = sorted_set (pe_evidence_refs previous @ [kb_evidence_id bar]);
          move = bar_transition previous bar evidence
      in if pe_state previous = ARMED
         then if kr_entry r \<le> kb_high bar \<and> kb_low bar \<le> kr_entry r
              then if kb_low bar \<le> kr_stop r then move STOPPED
                   else if fst (kr_targets r) \<le> kb_high bar then move TARGETED
                   else move ACTIVE
              else if kr_valid_until r \<le> kb_end_at bar then move EXPIRED
              else move ARMED
         else if kb_low bar \<le> kr_stop r then move STOPPED
         else if fst (kr_targets r) \<le> kb_high bar then move TARGETED
         else if wall_time (kst (kb_end_at bar)) = session_close_time
         then \<lparr> pt_state = EXPIRED, pt_reason = Session_Close, pt_attempted = Some (kb_end_at bar),
                pt_accepted = Some (kb_end_at bar), pt_fill_price = pe_fill_price previous,
                pt_fill_time = pe_fill_time previous, pt_exit_price = Some (kb_close bar),
                pt_exit_time = Some (kb_end_at bar), pt_evidence_refs = evidence \<rparr>
         else move ACTIVE)"

definition completed_bars :: "kr_recommendation \<Rightarrow> kr_bar list \<Rightarrow> pydt \<Rightarrow> bool" where
  "completed_bars r bars now \<longleftrightarrow>
     list_all valid_kr_bar bars
     \<and> is_aware now \<and> kr_timestamp r \<le> instant now
     \<and> list_all (\<lambda>bar. kb_end_at bar \<le> instant now \<and> kb_observed_at bar \<le> instant now
          \<and> wall_date (kst (kb_end_at bar)) = wall_date (kst (kr_timestamp r))) bars
     \<and> pairwise_list (\<lambda>left right. kb_end_at left \<le> kb_start_at right) bars"

definition after_close_or_empty ::
  "position_hashes \<Rightarrow> kr_recommendation \<Rightarrow> position_event \<Rightarrow> pydt \<Rightarrow> kr_position_error + position_event list" where
  "after_close_or_empty H r previous now =
     (let close = kst_utc (combine (wall_date (kst (kr_timestamp r))) session_close_time)
      in if pe_state previous \<noteq> ACTIVE \<or> instant now < close then Inr []
         else map_sum id (\<lambda>e. [e]) (censored H r previous close Bar_Gap now))"

fun apply_bars ::
  "position_hashes \<Rightarrow> kr_recommendation \<Rightarrow> position_event \<Rightarrow> kr_bar list \<Rightarrow> pydt \<Rightarrow> kr_position_error + position_event list" where
  "apply_bars H r current [] now = Inr []"
| "apply_bars H r current (bar # bars) now =
     (case position_event_of H r (Some current) (apply_bar r current bar) now of
        Inl e \<Rightarrow> Inl e
      | Inr e \<Rightarrow> if terminal_state (pe_state e) then Inr [e]
                else map_sum id (\<lambda>es. e # es) (apply_bars H r e bars now))"

definition first_start :: "kr_recommendation \<Rightarrow> int" where
  "first_start r = kst_utc (floor_minute (kst (kr_timestamp r)) + minute_us)"

definition replayed_bars :: "position_event \<Rightarrow> kr_bar list \<Rightarrow> kr_bar list" where
  "replayed_bars e bars = (case pe_accepted e of None \<Rightarrow> [] | Some cursor \<Rightarrow> filter (\<lambda>bar. kb_end_at bar \<le> cursor) bars)"

definition fresh_bars :: "position_event \<Rightarrow> kr_bar list \<Rightarrow> kr_bar list" where
  "fresh_bars e bars = (case pe_accepted e of None \<Rightarrow> bars | Some cursor \<Rightarrow> filter (\<lambda>bar. cursor < kb_end_at bar) bars)"

definition replay_is_exact :: "position_event \<Rightarrow> kr_bar list \<Rightarrow> bool" where
  "replay_is_exact e bars = list_all (\<lambda>bar. kb_evidence_id bar \<in> set (pe_evidence_refs e)) bars"

fun bars_continue :: "symbol \<Rightarrow> int \<Rightarrow> int \<Rightarrow> kr_bar list \<Rightarrow> bool" where
  "bars_continue symbol date expected [] = True"
| "bars_continue symbol date expected (bar # bars) =
     (kb_symbol bar = symbol \<and> kb_start_at bar = expected \<and> wall_date (kst (kb_start_at bar)) = date
      \<and> bars_continue symbol date (expected + minute_us) bars)"

definition bars_are_continuous :: "kr_recommendation \<Rightarrow> position_event \<Rightarrow> kr_bar list \<Rightarrow> bool" where
  "bars_are_continuous r e bars =
     bars_continue (kr_symbol r) (wall_date (kst (kr_timestamp r)))
       (case pe_accepted e of Some cursor \<Rightarrow> cursor | None \<Rightarrow> first_start r) bars"

definition advance_kr_virtual_position ::
  "position_hashes \<Rightarrow> kr_recommendation \<Rightarrow> position_event \<Rightarrow> kr_bar list \<Rightarrow> pydt
     \<Rightarrow> kr_position_error + position_event list" where
  "advance_kr_virtual_position H r previous bars now =
     (if \<not> valid_recommendation (kh_trade H) r \<or> \<not> valid_position_event H previous then Inl Validation_Error
      else if \<not> lineage_ok H r previous \<or> \<not> completed_bars r bars now then Inl Invalid_Kr_Virtual_Position
      else if terminal_state (pe_state previous) then Inr []
      else let usable = filter (\<lambda>bar. first_start r \<le> kb_start_at bar) bars;
               replayed = replayed_bars previous usable; fresh = fresh_bars previous usable
           in if replayed \<noteq> [] \<and> \<not> replay_is_exact previous replayed
              then map_sum id (\<lambda>e. [e]) (censored H r previous (kb_end_at (last bars)) Divergent_Replay now)
              else if fresh = []
              then if pe_state previous = ARMED \<and> kr_valid_until r \<le> instant now
                   then map_sum id (\<lambda>e. [e])
                     (position_event_of H r (Some previous) (copy_transition previous EXPIRED Entry_Expired) now)
                   else after_close_or_empty H r previous now
              else if \<not> bars_are_continuous r previous fresh
              then map_sum id (\<lambda>e. [e]) (censored H r previous (kb_end_at (last fresh)) Bar_Gap now)
              else case apply_bars H r previous fresh now of
                Inl e \<Rightarrow> Inl e
              | Inr es \<Rightarrow>
                  (let current = last (previous # es)
                   in if terminal_state (pe_state current) then Inr es
                      else map_sum id (\<lambda>close. es @ close) (after_close_or_empty H r current now)))"

subsection \<open>The store\<close>

text \<open>Rows in the order of their \<^theory_text>\<open>rowid\<close>.\<close>

definition position_rows :: "sha \<Rightarrow> position_event list \<Rightarrow> position_event list" where
  "position_rows i store = filter (\<lambda>e. pe_position_id e = i) store"

definition position_tail :: "sha \<Rightarrow> position_event list \<Rightarrow> position_event option" where
  "position_tail i store =
     (let rows = position_rows i store
      in find (\<lambda>e. pe_sequence e = max_or_zero (map pe_sequence rows)) rows)"

definition position_append ::
  "position_hashes \<Rightarrow> position_event \<Rightarrow> position_event list \<Rightarrow> kr_position_error + (position_event list \<times> bool)" where
  "position_append H e store =
     (if \<not> valid_position_event H e then Inl Invalid_Position_Store
      else case find (\<lambda>x. pe_event_id x = pe_event_id e) store of
        Some existing \<Rightarrow> if existing = e then Inr (store, False) else Inl Invalid_Position_Store
      | None \<Rightarrow>
          (let tail = position_tail (pe_position_id e) store
           in if pe_previous_event_id e \<noteq> map_option pe_event_id tail
                \<or> pe_sequence e \<noteq> (case tail of None \<Rightarrow> 1 | Some t \<Rightarrow> pe_sequence t + 1)
              then Inl Invalid_Position_Store
              else Inr (store @ [e], True)))"

fun chains_ok :: "(sha \<Rightarrow> (int \<times> sha) option) \<Rightarrow> position_event list \<Rightarrow> bool" where
  "chains_ok tails [] = True"
| "chains_ok tails (e # es) =
     (pe_previous_event_id e = map_option snd (tails (pe_position_id e))
      \<and> pe_sequence e = (case tails (pe_position_id e) of None \<Rightarrow> 1 | Some (n, _) \<Rightarrow> n + 1)
      \<and> chains_ok (tails(pe_position_id e \<mapsto> (pe_sequence e, pe_event_id e))) es)"

definition validate_virtual_position_chains :: "position_event list \<Rightarrow> bool" where
  "validate_virtual_position_chains es = chains_ok (\<lambda>_. None) es"

definition latest_positions :: "position_event list \<Rightarrow> position_event list" where
  "latest_positions store =
     map (\<lambda>i. last (position_rows i store)) (rev (remdups (rev (map pe_position_id store))))"

definition open_positions :: "sha option \<Rightarrow> position_event list \<Rightarrow> position_event list" where
  "open_positions task_id store =
     filter (\<lambda>e. \<not> terminal_state (pe_state e) \<and> (case task_id of None \<Rightarrow> True | Some t \<Rightarrow> pe_task_id e = t))
       (latest_positions store)"

end
