(* ===== verification/Kr_Position_History.thy ===== *)
theory Kr_Position_History
  imports Kr_Virtual_Position
begin

text \<open>
  The histories of virtual positions: every sequence of \<^theory_text>\<open>arm\<close> and
  \<^theory_text>\<open>advance\<close> calls, whatever the bars and the times, is a chain of valid events in which
  nothing follows a terminal event, and the store takes any such chain and gives it back.
\<close>

subsection \<open>Building an event\<close>

definition transition_of :: "position_event \<Rightarrow> position_transition" where
  "transition_of e = \<lparr> pt_state = pe_state e, pt_reason = pe_reason e, pt_attempted = pe_attempted e,
     pt_accepted = pe_accepted e, pt_fill_price = pe_fill_price e, pt_fill_time = pe_fill_time e,
     pt_exit_price = pe_exit_price e, pt_exit_time = pe_exit_time e, pt_evidence_refs = pe_evidence_refs e \<rparr>"

text \<open>The terms of a position, copied from its recommendation into every event.\<close>

definition terms_of :: "position_hashes \<Rightarrow> kr_recommendation \<Rightarrow> position_event \<Rightarrow> bool" where
  "terms_of H r e \<longleftrightarrow> lineage_ok H r e \<and> pe_symbol e = kr_symbol r \<and> pe_theme e = kr_theme r
     \<and> pe_entry e = kr_entry r \<and> pe_stop e = kr_stop r \<and> pe_targets e = kr_targets r
     \<and> pe_quantity e = kr_quantity r"

lemma position_event_ofD:
  assumes "position_event_of H r previous t now = Inr e"
  shows "valid_position_event H e" "terms_of H r e" "transition_of e = t" "pe_occurred_at e = now"
    "pe_sequence e = (case previous of None \<Rightarrow> 1 | Some p \<Rightarrow> pe_sequence p + 1)"
    "pe_previous_event_id e = map_option pe_event_id previous"
  using assms unfolding position_event_of_def Let_def
  by (auto simp: terms_of_def lineage_ok_def transition_of_def split: if_splits)

lemma transition_ofD:
  assumes "transition_of e = t"
  shows "pe_state e = pt_state t" "pe_reason e = pt_reason t" "pe_attempted e = pt_attempted t"
    "pe_accepted e = pt_accepted t" "pe_fill_price e = pt_fill_price t" "pe_fill_time e = pt_fill_time t"
    "pe_exit_price e = pt_exit_price t" "pe_exit_time e = pt_exit_time t" "pe_evidence_refs e = pt_evidence_refs t"
  using assms by (auto simp: transition_of_def)

lemma terms_ofD:
  assumes "terms_of H r e"
  shows "lineage_ok H r e" "pe_entry e = kr_entry r" "pe_stop e = kr_stop r" "pe_targets e = kr_targets r"
    "pe_position_id e = virtual_position_id H r"
  using assms by (auto simp: terms_of_def lineage_ok_def)

subsection \<open>Legal histories\<close>

definition opens_position :: "kr_recommendation \<Rightarrow> position_event \<Rightarrow> bool" where
  "opens_position r e \<longleftrightarrow> pe_state e = ARMED \<and> pe_sequence e = 1 \<and> pe_previous_event_id e = None
     \<and> pe_accepted e = None \<and> pe_fill_price e = None \<and> pe_fill_time e = None
     \<and> pe_evidence_refs e = kr_evidence_refs r"

text \<open>
  What may follow: nothing after a terminal event; the next sequence number and the link to the
  previous event; evidence only added; the cursor of accepted bars never moved back; and once
  filled, the same fill until the end and no return to waiting.
\<close>

definition follows :: "position_event \<Rightarrow> position_event \<Rightarrow> bool" where
  "follows e e' \<longleftrightarrow> \<not> terminal_state (pe_state e) \<and> pe_sequence e' = pe_sequence e + 1
     \<and> pe_previous_event_id e' = Some (pe_event_id e)
     \<and> set (pe_evidence_refs e) \<subseteq> set (pe_evidence_refs e')
     \<and> (case pe_accepted e of None \<Rightarrow> True | Some c \<Rightarrow>
          (case pe_accepted e' of None \<Rightarrow> False | Some c' \<Rightarrow> c \<le> c'))
     \<and> (pe_state e = ACTIVE \<longrightarrow> pe_state e' \<noteq> ARMED \<and> pe_reason e' \<noteq> Entry_Expired
          \<and> pe_fill_price e' = pe_fill_price e \<and> pe_fill_time e' = pe_fill_time e)
     \<and> (pe_state e = ARMED \<longrightarrow> pe_reason e' \<noteq> Session_Close)"

definition legal_position_history :: "position_hashes \<Rightarrow> kr_recommendation \<Rightarrow> position_event list \<Rightarrow> bool" where
  "legal_position_history H r es \<longleftrightarrow> es \<noteq> [] \<and> list_all (\<lambda>e. valid_position_event H e \<and> terms_of H r e) es
     \<and> opens_position r (hd es) \<and> pairwise_list follows es"

inductive position_run :: "position_hashes \<Rightarrow> kr_recommendation \<Rightarrow> position_event list \<Rightarrow> bool"
  for H r where
  armed: "arm_kr_virtual_position H r now = Inr e \<Longrightarrow> position_run H r [e]"
| advanced: "position_run H r es \<Longrightarrow> advance_kr_virtual_position H r (last es) bars now = Inr new
     \<Longrightarrow> position_run H r (es @ new)"

lemma pairwise_append:
  "pairwise_list P (xs @ ys) \<longleftrightarrow> pairwise_list P xs \<and> pairwise_list P ys
     \<and> (xs \<noteq> [] \<longrightarrow> ys \<noteq> [] \<longrightarrow> P (last xs) (hd ys))"
proof (cases ys)
  case Nil then show ?thesis by simp
next
  case (Cons y ys')
  then show ?thesis by (induction P xs rule: pairwise_list.induct) auto
qed

text \<open>What a bar does to a live event.\<close>

lemma valid_active:
  assumes "valid_position_event H e" "pe_state e = ACTIVE"
  shows "pe_fill_price e = Some (pe_entry e)" "pe_fill_time e \<noteq> None" "pe_exit_time e = None"
  using assms
  by (auto simp: valid_position_event_def valid_state_shape_def num_eq_def Let_def split: option.splits)

lemma live_states: "\<not> terminal_state s \<longleftrightarrow> s = ARMED \<or> s = ACTIVE"
  by (cases s) (auto simp: terminal_state_def)

lemma apply_bar_follows:
  assumes "valid_position_event H e" "\<not> terminal_state (pe_state e)"
    "position_event_of H r (Some e) (apply_bar r e bar) now = Inr e'"
    "case pe_accepted e of None \<Rightarrow> True | Some c \<Rightarrow> c < kb_end_at bar"
  shows "follows e e' \<and> pe_accepted e' = Some (kb_end_at bar)"
  using assms(1,2,4) position_event_ofD [OF assms(3)] transition_ofD [OF position_event_ofD(3) [OF assms(3)]]
    valid_active [OF assms(1)]
  by (auto simp: follows_def live_states apply_bar_def bar_transition_def Let_def reason_of_def
      split: option.splits if_splits)

text \<open>A batch of bars in order, the first of them after the cursor.\<close>

lemma apply_bars_follow:
  assumes "apply_bars H r e bars now = Inr es" "valid_position_event H e" "\<not> terminal_state (pe_state e)"
    "case pe_accepted e of None \<Rightarrow> True | Some c \<Rightarrow> list_all (\<lambda>b. c < kb_end_at b) bars"
    "sorted_wrt (<) (map kb_end_at bars)"
  shows "list_all (\<lambda>x. valid_position_event H x \<and> terms_of H r x) es \<and> pairwise_list follows (e # es)"
  using assms
proof (induction bars arbitrary: e es)
  case Nil then show ?case by simp
next
  case (Cons bar bars)
  from Cons.prems(1) obtain e' where
    e': "position_event_of H r (Some e) (apply_bar r e bar) now = Inr e'"
    by (auto split: sum.splits)
  have f: "follows e e' \<and> pe_accepted e' = Some (kb_end_at bar)"
    using apply_bar_follows [OF Cons.prems(2,3) e'] Cons.prems(4) by (auto split: option.splits)
  note v = position_event_ofD(1,2) [OF e']
  show ?case
  proof (cases "terminal_state (pe_state e')")
    case True
    then show ?thesis using Cons.prems(1) e' f v by auto
  next
    case False
    with Cons.prems(1) e' obtain rest where rest: "apply_bars H r e' bars now = Inr rest" "es = e' # rest"
      by (cases "apply_bars H r e' bars now") auto
    show ?thesis
      using Cons.IH [OF rest(1) v(1) False] Cons.prems(5) f v
      by (auto simp: rest(2) list_all_iff)
  qed
qed

lemma copied_follows:
  assumes "position_event_of H r (Some e) ((copy_transition e s reason) \<lparr> pt_attempted := a \<rparr>) now = Inr e'"
    "\<not> terminal_state (pe_state e)" "terminal_state s" "reason \<noteq> Session_Close"
    "pe_state e = ACTIVE \<longrightarrow> reason \<noteq> Entry_Expired"
  shows "follows e e'"
  using assms(2-) position_event_ofD [OF assms(1)] transition_ofD [OF position_event_ofD(3) [OF assms(1)]]
  by (auto simp: follows_def copy_transition_def terminal_state_def split: option.splits)

lemma copied_plain: "copy_transition e s reason = (copy_transition e s reason) \<lparr> pt_attempted := pe_attempted e \<rparr>"
  by (simp add: copy_transition_def)

text \<open>Completed bars end in increasing order.\<close>

lemma sorted_ends:
  assumes "pairwise_list (\<lambda>left right. kb_end_at left \<le> kb_start_at right) bars" "list_all valid_kr_bar bars"
  shows "sorted_wrt (<) (map kb_end_at bars)"
  using assms
proof (induction bars)
  case Nil then show ?case by simp
next
  case (Cons b bars)
  show ?case
  proof (cases bars)
    case Nil then show ?thesis by simp
  next
    case (Cons c cs)
    have srt: "sorted_wrt (<) (map kb_end_at bars)" using Cons.IH Cons.prems Cons by simp
    have "kb_end_at b < kb_end_at c" using Cons.prems Cons by (auto simp: valid_kr_bar_def Let_def)
    then show ?thesis using srt Cons by auto
  qed
qed

lemma sorted_wrt_filter_map:
  "sorted_wrt (<) (map f xs) \<Longrightarrow> sorted_wrt (<) (map f (filter P xs))"
  by (induction xs) auto

text \<open>The events a call appends, and the one it appends after the close.\<close>

definition extends_position :: "position_hashes \<Rightarrow> kr_recommendation \<Rightarrow> position_event \<Rightarrow> position_event list \<Rightarrow> bool" where
  "extends_position H r e es \<longleftrightarrow>
     list_all (\<lambda>x. valid_position_event H x \<and> terms_of H r x) es \<and> pairwise_list follows (e # es)"

lemma extends_Nil [simp]: "extends_position H r e []"
  by (simp add: extends_position_def)

lemma extends_append:
  assumes "extends_position H r e es" "extends_position H r (last (e # es)) fs"
  shows "extends_position H r e (es @ fs)"
  using assms pairwise_append [of follows "e # es" fs]
  by (cases fs) (auto simp: extends_position_def)

lemma copied_extends:
  assumes "map_sum id (\<lambda>e. [e])
      (position_event_of H r (Some e) ((copy_transition e s reason) \<lparr> pt_attempted := a \<rparr>) now) = Inr es"
    "\<not> terminal_state (pe_state e)" "terminal_state s" "reason \<noteq> Session_Close"
    "pe_state e = ACTIVE \<longrightarrow> reason \<noteq> Entry_Expired"
  shows "extends_position H r e es"
proof -
  obtain e' where e': "es = [e']"
    "position_event_of H r (Some e) ((copy_transition e s reason) \<lparr> pt_attempted := a \<rparr>) now = Inr e'"
    using assms(1) by (auto simp: map_sum_def split: sum.splits)
  show ?thesis
    using copied_follows [OF e'(2) assms(2-)] position_event_ofD(1,2) [OF e'(2)]
    by (simp add: extends_position_def e'(1))
qed

lemma censored_extends:
  assumes "map_sum id (\<lambda>e. [e]) (censored H r e a reason now) = Inr es"
    "\<not> terminal_state (pe_state e)" "reason \<noteq> Session_Close" "reason \<noteq> Entry_Expired"
  shows "extends_position H r e es"
  using assms by (intro copied_extends [of H r e "Some a" CENSORED reason now])
    (auto simp: censored_def terminal_state_def)

lemma after_close_extends:
  assumes "after_close_or_empty H r e now = Inr es"
  shows "extends_position H r e es"
proof (cases "pe_state e = ACTIVE")
  case True
  then have "\<not> terminal_state (pe_state e)" by (simp add: terminal_state_def)
  then show ?thesis
    using assms censored_extends [of H r e _ Bar_Gap now es]
    by (auto simp: after_close_or_empty_def Let_def split: if_splits)
next
  case False
  then show ?thesis using assms by (simp add: after_close_or_empty_def Let_def)
qed

lemma apply_bars_extend:
  assumes "apply_bars H r e (fresh_bars e bars) now = Inr es" "valid_position_event H e"
    "\<not> terminal_state (pe_state e)" "sorted_wrt (<) (map kb_end_at bars)"
  shows "extends_position H r e es"
proof -
  have "sorted_wrt (<) (map kb_end_at (fresh_bars e bars))"
    using assms(4) by (simp add: fresh_bars_def sorted_wrt_filter_map split: option.splits)
  moreover have "case pe_accepted e of None \<Rightarrow> True | Some c \<Rightarrow> list_all (\<lambda>b. c < kb_end_at b) (fresh_bars e bars)"
    by (auto simp: fresh_bars_def list_all_iff split: option.splits)
  ultimately show ?thesis
    using apply_bars_follow [OF assms(1-3)] by (simp add: extends_position_def)
qed

text \<open>One call extends a chain.\<close>

lemma advance_extends:
  assumes adv: "advance_kr_virtual_position H r e bars now = Inr es"
  shows "extends_position H r e es"
proof (cases "terminal_state (pe_state e)")
  case True
  then show ?thesis using adv by (simp add: advance_kr_virtual_position_def split: if_splits)
next
  case live: False
  define usable where "usable = filter (\<lambda>bar. first_start r \<le> kb_start_at bar) bars"
  have valid: "valid_position_event H e" "completed_bars r bars now"
    using adv by (auto simp: advance_kr_virtual_position_def split: if_splits)
  then have srt: "sorted_wrt (<) (map kb_end_at usable)"
    by (auto simp: completed_bars_def usable_def intro!: sorted_wrt_filter_map sorted_ends)
  consider (diverged) "map_sum id (\<lambda>e. [e]) (censored H r e (kb_end_at (last bars)) Divergent_Replay now) = Inr es"
    | (expired) "pe_state e = ARMED" "map_sum id (\<lambda>e. [e])
        (position_event_of H r (Some e) (copy_transition e EXPIRED Entry_Expired) now) = Inr es"
    | (quiet) "after_close_or_empty H r e now = Inr es"
    | (gap) "map_sum id (\<lambda>e. [e]) (censored H r e (kb_end_at (last (fresh_bars e usable))) Bar_Gap now) = Inr es"
    | (walked) es1 where "apply_bars H r e (fresh_bars e usable) now = Inr es1"
        "es = es1 \<or> (\<exists>close. es = es1 @ close \<and> after_close_or_empty H r (last (e # es1)) now = Inr close)"
    using adv live unfolding advance_kr_virtual_position_def
    by (auto simp: Let_def usable_def [symmetric] map_sum_def split: if_splits sum.splits)
  then show ?thesis
  proof cases
    case diverged then show ?thesis using live by (intro censored_extends) auto
  next
    case expired
    show ?thesis
      using expired(2) live by (intro copied_extends [of H r e "pe_attempted e" EXPIRED Entry_Expired now])
        (auto simp: copied_plain [symmetric] terminal_state_def expired(1))
  next
    case quiet then show ?thesis by (rule after_close_extends)
  next
    case gap then show ?thesis using live by (intro censored_extends) auto
  next
    case walked
    have "extends_position H r e es1" by (rule apply_bars_extend [OF walked(1) valid(1) live srt])
    with walked(2) show ?thesis using extends_append after_close_extends by blast
  qed
qed

text \<open>C25.  Every history of a Korean virtual position, through any sequence of calls with any bars
  at any times, is legal: it opens with an armed event holding the recommendation's evidence,
  every event passes the event model and carries the recommendation's terms, each names its
  predecessor and takes the next sequence number, nothing follows a terminal event, evidence is
  only added, the cursor of accepted bars never moves back, and a filled position keeps its fill
  and never waits for its entry again.\<close>

theorem position_history_is_legal:
  assumes "position_run H r es"
  shows "legal_position_history H r es"
  using assms
proof (induction)
  case (armed now e)
  then show ?case
    using position_event_ofD [of H r None] transition_ofD [OF position_event_ofD(3) [of H r None]]
    by (auto simp: legal_position_history_def opens_position_def arm_kr_virtual_position_def split: if_splits)
next
  case (advanced es bars now new)
  from advance_extends [OF advanced.hyps(2)] advanced.IH show ?case
    using pairwise_append [of follows es new]
    by (cases new) (auto simp: legal_position_history_def extends_position_def)
qed

subsection \<open>The store\<close>

abbreviation note_tail :: "(sha \<Rightarrow> (int \<times> sha) option) \<Rightarrow> position_event \<Rightarrow> sha \<Rightarrow> (int \<times> sha) option" where
  "note_tail tails e \<equiv> tails(pe_position_id e \<mapsto> (pe_sequence e, pe_event_id e))"

lemma chains_ok_append:
  "chains_ok tails (xs @ ys) \<longleftrightarrow> chains_ok tails xs \<and> chains_ok (foldl note_tail tails xs) ys"
  by (induction xs arbitrary: tails) auto

lemma position_rows_append [simp]:
  "position_rows i (xs @ ys) = position_rows i xs @ position_rows i ys"
  by (simp add: position_rows_def)

lemma position_rows_one [simp]: "position_rows i [e] = (if pe_position_id e = i then [e] else [])"
  by (simp add: position_rows_def)

lemma noted_tail:
  "foldl note_tail (\<lambda>_. None) store i =
     (if position_rows i store = [] then None
      else Some (pe_sequence (last (position_rows i store)), pe_event_id (last (position_rows i store))))"
  by (induction store rule: rev_induct) (auto simp: position_rows_def)

text \<open>The rows of a position are numbered from one, so the row with the greatest sequence is the last.\<close>

lemma rows_numbered:
  assumes "validate_virtual_position_chains store"
  shows "map pe_sequence (position_rows i store) = map (\<lambda>n. int n + 1) [0..<length (position_rows i store)]"
  using assms
proof (induction store rule: rev_induct)
  case Nil then show ?case by (simp add: position_rows_def)
next
  case (snoc e store)
  then have chain: "chains_ok (\<lambda>_. None) store" "chains_ok (foldl note_tail (\<lambda>_. None) store) [e]"
    by (simp_all add: validate_virtual_position_chains_def chains_ok_append)
  show ?case
  proof (cases "pe_position_id e = i")
    case True
    have rows: "map pe_sequence (position_rows i store) = map (\<lambda>n. int n + 1) [0..<length (position_rows i store)]"
      using snoc.IH chain by (simp add: validate_virtual_position_chains_def)
    have "pe_sequence e = int (length (position_rows i store)) + 1"
    proof (cases "position_rows i store = []")
      case True2: True
      then show ?thesis using chain(2) True by (simp add: noted_tail)
    next
      case False
      then have "pe_sequence (last (position_rows i store)) = int (length (position_rows i store))"
        using rows by (metis (no_types, lifting) last_map map_is_Nil_conv last_upt length_greater_0_conv
            of_nat_Suc Suc_pred' upt_eq_Nil_conv semiring_1_class.of_nat_simps(2) add.commute)
      then show ?thesis using chain(2) True False by (simp add: noted_tail)
    qed
    then show ?thesis using rows True by simp
  next
    case False
    then show ?thesis using snoc.IH chain by (simp add: validate_virtual_position_chains_def)
  qed
qed

lemma position_tail_last:
  assumes "validate_virtual_position_chains store"
  shows "position_tail i store =
    (if position_rows i store = [] then None else Some (last (position_rows i store)))"
proof (cases "position_rows i store = []")
  case True then show ?thesis by (simp add: position_tail_def)
next
  case False
  define rows where "rows = position_rows i store"
  have ne: "rows \<noteq> []" using False by (simp add: rows_def)
  have num: "pe_sequence (rows ! k) = int k + 1" if "k < length rows" for k
    using rows_numbered [OF assms, of i] that unfolding rows_def [symmetric]
    by (metis (no_types, lifting) length_map length_upt nth_map nth_upt add_0 minus_nat.diff_0)
  have last_num: "pe_sequence (last rows) = int (length rows)"
    using ne num [of "length rows - 1"] by (cases rows rule: rev_cases) auto
  have "max_or_zero (map pe_sequence rows) = int (length rows)"
  proof (rule antisym)
    show "max_or_zero (map pe_sequence rows) \<le> int (length rows)"
      using max_or_zero_in [of "map pe_sequence rows"] ne num by (auto simp: in_set_conv_nth)
    show "int (length rows) \<le> max_or_zero (map pe_sequence rows)"
      using ne last_num by (metis last_in_set max_or_zero_ge image_eqI list.set_map)
  qed
  moreover have "find (\<lambda>e. pe_sequence e = int (length rows)) rows = Some (last rows)"
  proof -
    have "\<exists>k<length rows. pe_sequence (rows ! k) = int (length rows) \<and> Some (last rows) = Some (rows ! k)
        \<and> (\<forall>j<k. pe_sequence (rows ! j) \<noteq> int (length rows))"
      using ne num last_num by (intro exI [of _ "length rows - 1"]) (auto simp: last_conv_nth)
    then show ?thesis by (metis (mono_tags, lifting) find_Some_iff)
  qed
  ultimately show ?thesis using False by (simp add: position_tail_def rows_def)
qed

text \<open>An accepted event is the next one of its chain, so the chains stay readable.\<close>

lemma append_accepted:
  assumes "validate_virtual_position_chains store" "position_append H e store = Inr (store', True)"
  shows "store' = store @ [e]" "validate_virtual_position_chains store'"
  using assms
  by (auto simp: position_append_def position_tail_last validate_virtual_position_chains_def chains_ok_append
      noted_tail Let_def split: if_splits option.splits)

lemma legal_prefix:
  assumes "legal_position_history H r (es @ e # rest)"
  shows "valid_position_event H e" "pe_position_id e = virtual_position_id H r"
    "pe_sequence e = (if es = [] then 1 else pe_sequence (last es) + 1)"
    "pe_previous_event_id e = (if es = [] then None else Some (pe_event_id (last es)))"
  using assms pairwise_append [of follows es "e # rest"]
  by (auto simp: legal_position_history_def opens_position_def follows_def terms_of_def lineage_ok_def)

text \<open>C26.  The store takes the events of a history in order, in between any events of other
  positions: with the history so far as the rows of its position and no digest collision, the
  next event of the history is inserted, the position then reads back as the longer history, the
  chains of the whole file still validate, and giving the same event again changes nothing.\<close>

theorem stored_history_reads_back:
  assumes run: "position_run H r (es @ e # rest)"
    and rows: "position_rows (virtual_position_id H r) store = es"
    and chains: "validate_virtual_position_chains store"
    and fresh: "pe_event_id e \<notin> pe_event_id ` set store"
  shows "position_append H e store = Inr (store @ [e], True)
    \<and> position_rows (virtual_position_id H r) (store @ [e]) = es @ [e]
    \<and> validate_virtual_position_chains (store @ [e])
    \<and> position_append H e (store @ [e]) = Inr (store @ [e], False)"
proof -
  note legal = legal_prefix [OF position_history_is_legal [OF run]]
  have none: "find (\<lambda>x. pe_event_id x = pe_event_id e) store = None"
    using fresh by (auto simp: find_None_iff image_iff)
  have appended: "position_append H e store = Inr (store @ [e], True)"
    using none legal rows position_tail_last [OF chains]
    by (auto simp: position_append_def Let_def)
  have "find (\<lambda>x. pe_event_id x = pe_event_id e) (store @ [e]) = Some e"
    using none by (induction store) auto
  then have "position_append H e (store @ [e]) = Inr (store @ [e], False)"
    using legal(1) by (simp add: position_append_def)
  then show ?thesis using appended append_accepted(2) [OF chains appended] rows legal(2) by simp
qed

subsection \<open>A concrete history\<close>

definition sample_kr_hashes :: position_hashes where
  "sample_kr_hashes = \<lparr> kh_trade = sample_trade_hashes, kh_position = (\<lambda>_ _. hex_id 1),
     kh_event = (\<lambda>e. hex_id (nat (pe_sequence e))) \<rparr>"

definition sample_kr_recommendation :: kr_recommendation where
  "sample_kr_recommendation = \<lparr> kr_event_id = hex_id 3, kr_plan_id = hex_id 11, kr_previous_event_id = None,
     kr_timestamp = sample_kr_open + 30000000, kr_task_id = hex_id 4, kr_thesis_id = hex_id 5,
     kr_proposal_id = hex_id 2, kr_social_signal_id = hex_id 7, kr_market_corroboration_id = hex_id 8,
     kr_evidence_refs = [''note''], kr_symbol = ''005930'', kr_theme = ''semi'', kr_entry = Finite 10000,
     kr_stop = Finite 9900, kr_targets = (Finite 10100, Finite 10200), kr_quantity = 3,
     kr_rationale = ''momentum'', kr_counterevidence = [''thin book''], kr_verification_state = Unverified_Social,
     kr_critic_verdict_id = hex_id 6,
     kr_critic_verdict = \<lparr> cv_verdict_id = hex_id 6, cv_proposal_id = Some (hex_id 2),
       cv_thesis_id = hex_id 5, cv_status = Critic_Approved, cv_reason_codes = [Approved_Reason] \<rparr>,
     kr_valid_until = sample_kr_open + 30 * minute_us \<rparr>"

text \<open>The bar of the \<open>n\<close>th minute after the open, with its low and high.\<close>

definition sample_kr_bar :: "nat \<Rightarrow> rat \<Rightarrow> rat \<Rightarrow> kr_bar" where
  "sample_kr_bar n low high = \<lparr> kb_symbol = ''005930'', kb_start_at = sample_kr_open + int n * minute_us,
     kb_end_at = sample_kr_open + (int n + 1) * minute_us, kb_observed_at = sample_kr_open + (int n + 1) * minute_us,
     kb_open = Finite low, kb_high = Finite high, kb_low = Finite low, kb_close = Finite high,
     kb_volume = 10, kb_trading_value = Finite (10 * low), kb_evidence = \<lparr> er_namespace = ''kr/bar'', er_record_id = [char_of (n + 48)],
       er_observed_at = sample_kr_open + (int n + 1) * minute_us \<rparr> \<rparr>"

text \<open>Two bars: the first fills the position, the second falls through the stop.\<close>

definition sample_kr_bars :: "kr_bar list" where
  "sample_kr_bars = [sample_kr_bar 1 9990 10010, sample_kr_bar 2 9890 10100]"

definition sample_kr_armed :: position_event where
  "sample_kr_armed = projr (arm_kr_virtual_position sample_kr_hashes sample_kr_recommendation
     (Aware (kr_timestamp sample_kr_recommendation)))"

definition sample_kr_events :: "position_event list" where
  "sample_kr_events = projr (advance_kr_virtual_position sample_kr_hashes sample_kr_recommendation
     sample_kr_armed sample_kr_bars (Aware (sample_kr_open + 4 * minute_us)))"

lemma sample_kr_arms:
  "arm_kr_virtual_position sample_kr_hashes sample_kr_recommendation (Aware (kr_timestamp sample_kr_recommendation))
     = Inr sample_kr_armed"
  by code_simp

lemma sample_kr_advances:
  "advance_kr_virtual_position sample_kr_hashes sample_kr_recommendation sample_kr_armed sample_kr_bars
     (Aware (sample_kr_open + 4 * minute_us)) = Inr sample_kr_events
   \<and> map pe_state sample_kr_events = [ACTIVE, STOPPED]
   \<and> map pe_event_id (sample_kr_armed # sample_kr_events) = [hex_id 1, hex_id 2, hex_id 3]"
  by code_simp

lemma sample_kr_run:
  "position_run sample_kr_hashes sample_kr_recommendation (sample_kr_armed # sample_kr_events)"
  using position_run.advanced [OF position_run.armed [OF sample_kr_arms], of sample_kr_bars
      "Aware (sample_kr_open + 4 * minute_us)" sample_kr_events] sample_kr_advances by simp

theorem position_history_is_legal_witness:
  "legal_position_history sample_kr_hashes sample_kr_recommendation (sample_kr_armed # sample_kr_events)
   \<and> map pe_state (sample_kr_armed # sample_kr_events) = [ARMED, ACTIVE, STOPPED]"
  using position_history_is_legal [OF sample_kr_run] sample_kr_advances
  by (simp add: legal_position_history_def opens_position_def)

theorem stored_history_reads_back_witness:
  "position_append sample_kr_hashes (hd sample_kr_events) [sample_kr_armed]
     = Inr ([sample_kr_armed, hd sample_kr_events], True)
   \<and> validate_virtual_position_chains [sample_kr_armed, hd sample_kr_events]"
proof -
  obtain a b where events: "sample_kr_events = [a, b]"
    using sample_kr_advances by (cases sample_kr_events; cases "tl sample_kr_events") auto
  have run: "position_run sample_kr_hashes sample_kr_recommendation ([sample_kr_armed] @ a # [b])"
    using sample_kr_run by (simp add: events)
  have armed: "pe_position_id sample_kr_armed = virtual_position_id sample_kr_hashes sample_kr_recommendation
    \<and> pe_sequence sample_kr_armed = 1 \<and> pe_previous_event_id sample_kr_armed = None"
    by code_simp
  then have "position_rows (virtual_position_id sample_kr_hashes sample_kr_recommendation) [sample_kr_armed] = [sample_kr_armed]"
    "validate_virtual_position_chains [sample_kr_armed]"
    by (simp_all add: validate_virtual_position_chains_def)
  moreover have "pe_event_id a \<notin> pe_event_id ` set [sample_kr_armed]"
    using sample_kr_advances by (simp add: events hex_id_def)
  ultimately show ?thesis
    using stored_history_reads_back [OF run, of "[sample_kr_armed]"] by (simp add: events)
qed

end
