(* ===== verification/Kr_Position_Polling.thy ===== *)
theory Kr_Position_Polling
  imports Kr_Position_History
begin

text \<open>
  The outcome of a virtual position as a function of the bars alone, and the proof that polling
  for it, in whatever batches the bars arrive, computes that function and never raises.
\<close>

subsection \<open>The outcome of a stream of bars\<close>

type_synonym position_summary =
  "position_state \<times> pynum option \<times> int option \<times> pynum option \<times> int option"


definition touches :: "kr_recommendation \<Rightarrow> kr_bar \<Rightarrow> bool" where
  "touches r b \<longleftrightarrow> kr_entry r \<le> kb_high b \<and> kb_low b \<le> kr_entry r"

definition falls :: "kr_recommendation \<Rightarrow> kr_bar \<Rightarrow> bool" where
  "falls r b \<longleftrightarrow> kb_low b \<le> kr_stop r"

definition reaches :: "kr_recommendation \<Rightarrow> kr_bar \<Rightarrow> bool" where
  "reaches r b \<longleftrightarrow> fst (kr_targets r) \<le> kb_high b"

definition ends_session :: "kr_bar \<Rightarrow> bool" where
  "ends_session b \<longleftrightarrow> wall_time (kst (kb_end_at b)) = session_close_time"

text \<open>
  The first bar that touches the entry before the recommendation lapses fills it; the first bar
  from there on that falls to the stop or reaches the first target decides it, the stop when both
  happen in one bar; a later bar that ends the session sells at its close.
\<close>

definition position_outcome :: "kr_recommendation \<Rightarrow> kr_bar list \<Rightarrow> position_summary" where
  "position_outcome r bs =
     (case dropWhile (\<lambda>b. \<not> touches r b \<and> kb_end_at b < kr_valid_until r) bs of
        [] \<Rightarrow> (ARMED, None, None, None, None)
      | b # rest \<Rightarrow>
          if \<not> touches r b then (EXPIRED, None, None, None, None)
          else (let fill = Some (kb_end_at b);
                    sold = (\<lambda>state c price. (state, Some (kr_entry r), fill, Some price, Some (kb_end_at c)))
                in if falls r b then sold STOPPED b (kr_stop r)
                   else if reaches r b then sold TARGETED b (fst (kr_targets r))
                   else case dropWhile (\<lambda>c. \<not> falls r c \<and> \<not> reaches r c \<and> \<not> ends_session c) rest of
                     [] \<Rightarrow> (ACTIVE, Some (kr_entry r), fill, None, None)
                   | c # _ \<Rightarrow> if falls r c then sold STOPPED c (kr_stop r)
                       else if reaches r c then sold TARGETED c (fst (kr_targets r))
                       else sold EXPIRED c (kb_close c)))"






lemma position_outcome_Nil [simp]: "position_outcome r [] = (ARMED, None, None, None, None)"
  by (simp add: position_outcome_def)



subsection \<open>Streams and the chain that tracks them\<close>



definition evidence_of :: "kr_recommendation \<Rightarrow> kr_bar list \<Rightarrow> string set" where
  "evidence_of r bs = set (kr_evidence_refs r) \<union> kb_evidence_id ` set bs"



lemma sorted_set_idem [simp]: "sorted_set (sorted_set xs) = sorted_set xs"
  by (rule sorted_set_cong) simp






lemma evidence_of_finite [simp]: "finite (evidence_of r bs)"
  by (simp add: evidence_of_def)












subsection \<open>Polling\<close>











end
