(* ===== verification/Performance_Metrics.thy ===== *)
theory Performance_Metrics
  imports Recommendation_Store
begin

text \<open>
  The performance of finished recommendations, \<^verbatim>\<open>trading_agent/metrics.py\<close>.  Every float
  operation rounds by \<open>frnd\<close>; the built-in \<^theory_text>\<open>sum\<close> of Python 3.12 compensates its
  rounding errors (Neumaier).  \<^theory_text>\<open>random.Random(seed).choice\<close> is a parameter: the draw
  number \<open>k\<close> from \<open>n\<close> values.
\<close>

subsection \<open>Helpers\<close>

text \<open>A tuple built from a function that can raise.\<close>

fun collect :: "('a \<Rightarrow> 'e + 'b) \<Rightarrow> 'a list \<Rightarrow> 'e + 'b list" where
  "collect f [] = Inr []"
| "collect f (x # xs) = (case f x of Inl e \<Rightarrow> Inl e | Inr y \<Rightarrow> map_sum id ((#) y) (collect f xs))"

lemma collect_Inr: "collect f xs = Inr ys \<longleftrightarrow> length ys = length xs \<and> (\<forall>i < length xs. f (xs ! i) = Inr (ys ! i))"
proof (induction xs arbitrary: ys)
  case (Cons x xs)
  show ?case
  proof (cases ys)
    case Nil then show ?thesis by (cases "f x"; cases "collect f xs") auto
  next
    case (Cons y ys')
    then show ?thesis using Cons.IH [of ys']
      by (cases "f x"; cases "collect f xs") (auto simp: All_less_Suc2)
  qed
qed auto

fun compensated_sum :: "rat \<Rightarrow> rat \<Rightarrow> rat list \<Rightarrow> rat" where
  "compensated_sum f c [] = frnd (f + c)"
| "compensated_sum f c (x # xs) =
     (let t = frnd (f + x);
          lost = if \<bar>x\<bar> \<le> \<bar>f\<bar> then frnd (frnd (f - t) + x) else frnd (frnd (x - t) + f)
      in compensated_sum t (frnd (c + lost)) xs)"

definition float_sum :: "rat list \<Rightarrow> rat" where
  "float_sum xs = (case xs of [] \<Rightarrow> 0 | x # xs \<Rightarrow> compensated_sum x 0 xs)"

text \<open>\<^theory_text>\<open>round(x, 12)\<close>\<close>

definition round_12 :: "rat \<Rightarrow> rat" where
  "round_12 x = frnd (of_int (round_half_even (x * 10 ^ 12)) / 10 ^ 12)"

definition float_div :: "rat \<Rightarrow> rat \<Rightarrow> signal_error + rat" where
  "float_div x y = (if y = 0 then Inl Zero_Division else Inr (frnd (x / y)))"

subsection \<open>Trades\<close>

record paper_trade =
  td_recommendation_id :: recommendation_id
  td_symbol :: symbol
  td_strategy :: string
  td_entry_at :: int
  td_exit_at :: int
  td_entry :: rat
  td_exit :: rat
  td_gross_return :: rat
  td_exit_state :: recommendation_state
  td_uses_close_fallback :: bool

record metrics_config =
  mg_side_cost_bps :: int
  mg_bootstrap_samples :: int
  mg_random_seed :: int

record performance_metrics =
  pm_side_cost_bps :: int
  pm_trade_count :: int
  pm_win_count :: int
  pm_win_rate :: "rat option"
  pm_average_return :: "rat option"
  pm_profit_factor :: "rat option"
  pm_cumulative_return :: "rat option"
  pm_max_drawdown :: "rat option"
  pm_fallback_exit_count :: int
  pm_fallback_exit_rate :: "rat option"
  pm_mean_ci_low :: "rat option"
  pm_mean_ci_high :: "rat option"

definition terminal_trade_states :: "recommendation_state list" where
  "terminal_trade_states = [Stopped, Target_2R, Time_Exit]"

text \<open>The active event of a recommendation and the event that ended its trade, with its price.\<close>

definition trade_events :: "recommendation_event list \<Rightarrow> (recommendation_event \<times> recommendation_event \<times> rat) option" where
  "trade_events es =
     (case find (\<lambda>e. ev_state e = Active) es of
        None \<Rightarrow> None
      | Some active \<Rightarrow>
          (case find (\<lambda>e. ev_occurred_at active \<le> ev_occurred_at e \<and> ev_state e \<in> set terminal_trade_states
              \<and> ev_price e \<noteq> None) es of
             None \<Rightarrow> None
           | Some terminal \<Rightarrow> map_option (\<lambda>price. (active, terminal, price)) (ev_price terminal)))"

definition closed_at_last_bar :: "event_note \<Rightarrow> bool" where
  "closed_at_last_bar note = (case note of Closed_At_Last_Bar _ \<Rightarrow> True | _ \<Rightarrow> False)"

definition trade_of :: "recommendation \<Rightarrow> recommendation_event \<times> recommendation_event \<times> rat \<Rightarrow> signal_error + paper_trade" where
  "trade_of r = (\<lambda>(active, terminal, price).
     let entry = (case ev_price active of None \<Rightarrow> rc_entry r | Some p \<Rightarrow> p)
     in map_sum id (\<lambda>quotient. \<lparr> td_recommendation_id = rc_id r, td_symbol = rc_symbol r, td_strategy = rc_strategy r,
          td_entry_at = ev_occurred_at active, td_exit_at = ev_occurred_at terminal, td_entry = entry, td_exit = price,
          td_gross_return = round_12 (frnd (quotient - 1)), td_exit_state = ev_state terminal,
          td_uses_close_fallback = closed_at_last_bar (ev_note terminal) \<rparr>) (float_div price entry))"

definition extract_one :: "paper_store \<Rightarrow> recommendation \<Rightarrow> signal_error + paper_trade list \<Rightarrow> signal_error + paper_trade list" where
  "extract_one st r trades =
     (case trades of
        Inl e \<Rightarrow> Inl e
      | Inr ts \<Rightarrow>
          if rc_id r \<in> td_recommendation_id ` set ts then Inr ts
          else case trade_events (events (rc_id r) st) of
            None \<Rightarrow> Inr ts
          | Some found \<Rightarrow> map_sum id (\<lambda>t. ts @ [t]) (trade_of r found))"

definition extract_store :: "paper_store \<Rightarrow> signal_error + paper_trade list \<Rightarrow> signal_error + paper_trade list" where
  "extract_store st trades =
     fold (extract_one st) (filter (\<lambda>r. rc_state r \<noteq> Causality_Excluded) (recommendations st)) trades"

text \<open>The identifiers sort by their text.\<close>

definition extract_paper_trades :: "(recommendation_id \<Rightarrow> string) \<Rightarrow> paper_store list \<Rightarrow> signal_error + paper_trade list" where
  "extract_paper_trades text stores =
     map_sum id (\<lambda>ts. sort_key td_exit_at (sort_key (\<lambda>t. text (td_recommendation_id t)) ts)) (fold extract_store stores (Inr []))"

subsection \<open>Metrics\<close>

definition net_return :: "int \<Rightarrow> paper_trade \<Rightarrow> signal_error + rat" where
  "net_return side_cost_bps t =
     (let cost_rate = frnd (of_int side_cost_bps / 10000)
      in map_sum id (\<lambda>q. frnd (q - 1))
           (float_div (frnd (td_exit t * frnd (1 - cost_rate))) (frnd (td_entry t * frnd (1 + cost_rate)))))"

text \<open>The returns of a day together, the days in the order of their first trade.\<close>

fun add_to_day :: "int \<Rightarrow> rat \<Rightarrow> (int \<times> rat list) list \<Rightarrow> (int \<times> rat list) list" where
  "add_to_day day value [] = [(day, [value])]"
| "add_to_day day value ((d, vs) # rest) =
     (if d = day then (d, vs @ [value]) # rest else (d, vs) # add_to_day day value rest)"

definition day_return_blocks :: "paper_trade list \<Rightarrow> rat list \<Rightarrow> rat list list" where
  "day_return_blocks trades returns =
     map snd (fold (\<lambda>(t, v). add_to_day (wall_date (ny (td_exit_at t))) v) (zip trades returns) [])"

type_synonym draws = "int \<Rightarrow> nat \<Rightarrow> nat \<Rightarrow> nat"

definition bootstrap_mean :: "draws \<Rightarrow> int \<Rightarrow> rat list list \<Rightarrow> nat \<Rightarrow> signal_error + rat" where
  "bootstrap_mean draw seed blocks s =
     (let n = length blocks; sample = concat (map (\<lambda>j. blocks ! draw seed (s * n + j) n) [0..<n])
      in float_div (float_sum sample) (of_nat (length sample)))"

definition percentile_index :: "nat \<Rightarrow> rat \<Rightarrow> nat" where
  "percentile_index n share = nat \<lfloor>frnd (of_nat (n - 1) * frnd share)\<rfloor>"

definition day_block_bootstrap_interval ::
  "draws \<Rightarrow> rat list list \<Rightarrow> int \<Rightarrow> int \<Rightarrow> signal_error + rat option \<times> rat option" where
  "day_block_bootstrap_interval draw blocks samples seed =
     (if length blocks < 2 \<or> samples \<le> 0 then Inr (None, None)
      else map_sum id (\<lambda>means. let ordered = sort means
          in (Some (ordered ! percentile_index (length ordered) (25 / 1000)),
              Some (ordered ! percentile_index (length ordered) (975 / 1000))))
        (collect (bootstrap_mean draw seed blocks) [0..<nat samples]))"

definition equity_step :: "rat \<Rightarrow> rat \<times> rat \<times> rat \<Rightarrow> rat \<times> rat \<times> rat" where
  "equity_step value = (\<lambda>(equity, peak, drawdown).
     let equity = frnd (equity * frnd (1 + value)); peak = max peak equity
     in (equity, peak, min drawdown (frnd (frnd (equity / peak) - 1))))"

definition equity_walk :: "rat list \<Rightarrow> rat \<times> rat \<times> rat" where
  "equity_walk returns = fold equity_step returns (1, 1, 0)"

definition profit_factor :: "rat list \<Rightarrow> signal_error + rat option" where
  "profit_factor returns =
     (let wins = filter (\<lambda>v. 0 < v) returns; losses = filter (\<lambda>v. v < 0) returns
      in if losses = [] then Inr None else map_sum id Some (float_div (float_sum wins) \<bar>float_sum losses\<bar>))"

definition no_performance :: "int \<Rightarrow> performance_metrics" where
  "no_performance side_cost_bps = \<lparr> pm_side_cost_bps = side_cost_bps, pm_trade_count = 0, pm_win_count = 0,
     pm_win_rate = None, pm_average_return = None, pm_profit_factor = None, pm_cumulative_return = None,
     pm_max_drawdown = None, pm_fallback_exit_count = 0, pm_fallback_exit_rate = None, pm_mean_ci_low = None,
     pm_mean_ci_high = None \<rparr>"

definition performance_of ::
  "metrics_config \<Rightarrow> paper_trade list \<Rightarrow> rat list \<Rightarrow> rat option \<times> rat option \<Rightarrow> rat option \<Rightarrow> performance_metrics" where
  "performance_of config trades returns interval factor =
     (case equity_walk returns of (equity, _, drawdown) \<Rightarrow>
      let wins = length (filter (\<lambda>v. 0 < v) returns); n = length trades;
          fallbacks = length (filter td_uses_close_fallback trades)
      in \<lparr> pm_side_cost_bps = mg_side_cost_bps config, pm_trade_count = int n, pm_win_count = int wins,
           pm_win_rate = Some (frnd (of_nat wins / of_nat n)),
           pm_average_return = Some (frnd (float_sum returns / of_nat n)), pm_profit_factor = factor,
           pm_cumulative_return = Some (frnd (equity - 1)), pm_max_drawdown = Some drawdown,
           pm_fallback_exit_count = int fallbacks, pm_fallback_exit_rate = Some (frnd (of_nat fallbacks / of_nat n)),
           pm_mean_ci_low = fst interval, pm_mean_ci_high = snd interval \<rparr>)"

definition summarize_performance :: "draws \<Rightarrow> paper_trade list \<Rightarrow> metrics_config \<Rightarrow> signal_error + performance_metrics" where
  "summarize_performance draw trades config =
     (if trades = [] then Inr (no_performance (mg_side_cost_bps config))
      else case collect (net_return (mg_side_cost_bps config)) trades of
        Inl e \<Rightarrow> Inl e
      | Inr returns \<Rightarrow>
          (case day_block_bootstrap_interval draw (day_return_blocks trades returns) (mg_bootstrap_samples config)
              (mg_random_seed config) of
             Inl e \<Rightarrow> Inl e
           | Inr interval \<Rightarrow> map_sum id (performance_of config trades returns interval) (profit_factor returns)))"


subsection \<open>Bounds\<close>

lemmas frnd_mono = flt.r_mono

lemma frnd_units [simp]: "frnd 1 = 1" "frnd (- 1) = - 1" "frnd 0 = 0"
  by code_simp+

lemma frnd_fraction: "k \<le> n \<Longrightarrow> 0 \<le> frnd (of_nat k / of_nat n) \<and> frnd (of_nat k / of_nat n) \<le> 1"
  using frnd_mono [of 0 "of_nat k / of_nat n"] frnd_mono [of "of_nat k / of_nat n" 1]
  by (auto simp: divide_le_eq)

lemma net_return_ge:
  assumes "net_return bps t = Inr v" "0 < td_entry t" "0 \<le> td_exit t" "0 \<le> bps" "bps \<le> 10000"
  shows "- 1 \<le> v"
proof -
  define c where "c = frnd (of_int bps / 10000)"
  have c: "0 \<le> c" "c \<le> 1"
    using frnd_mono [of 0 "of_int bps / 10000"] frnd_mono [of "of_int bps / 10000" 1] assms(4,5) by (simp_all add: c_def)
  define a where "a = frnd (td_exit t * frnd (1 - c))"
  define b where "b = frnd (td_entry t * frnd (1 + c))"
  have ab: "0 \<le> a" "0 \<le> b"
    using frnd_mono [of 0 "1 - c"] frnd_mono [of 0 "1 + c"] c assms(2,3)
      frnd_mono [of 0 "td_exit t * frnd (1 - c)"] frnd_mono [of 0 "td_entry t * frnd (1 + c)"]
    by (simp_all add: a_def b_def)
  have "v = frnd (frnd (a / b) - 1)"
    using assms(1) by (auto simp: net_return_def Let_def a_def b_def c_def float_div_def split: if_splits)
  moreover have "0 \<le> frnd (a / b)" using frnd_mono [of 0 "a / b"] ab by simp
  ultimately show ?thesis using frnd_mono [of "- 1" "frnd (a / b) - 1"] by simp
qed

definition walk_ok :: "rat \<times> rat \<times> rat \<Rightarrow> bool" where
  "walk_ok = (\<lambda>(equity, peak, drawdown). 0 \<le> equity \<and> frnd equity = equity \<and> 1 \<le> peak \<and> equity \<le> peak
     \<and> - 1 \<le> drawdown \<and> drawdown \<le> 0 \<and> drawdown \<le> frnd (frnd (equity / peak) - 1))"

lemma walk_step: "walk_ok w \<Longrightarrow> - 1 \<le> v \<Longrightarrow> walk_ok (equity_step v w)"
proof -
  assume w: "walk_ok w" and v: "- 1 \<le> v"
  obtain equity peak drawdown where split: "w = (equity, peak, drawdown)" by (cases w)
  define e where "e = frnd (equity * frnd (1 + v))"
  define p where "p = max peak e"
  have e: "0 \<le> e" using w v frnd_mono [of 0 "1 + v"] frnd_mono [of 0 "equity * frnd (1 + v)"]
    by (simp add: walk_ok_def split e_def)
  have p: "1 \<le> p" "e \<le> p" using w by (auto simp: walk_ok_def split p_def)
  have "0 \<le> e / p" "e / p \<le> 1" using e p by (simp_all add: divide_le_eq)
  then have q: "0 \<le> frnd (e / p)" "frnd (e / p) \<le> 1" using frnd_mono [of 0 "e / p"] frnd_mono [of "e / p" 1] by simp_all
  then have "- 1 \<le> frnd (frnd (e / p) - 1)" using frnd_mono [of "- 1" "frnd (e / p) - 1"] by simp
  then show ?thesis using w e p
    by (auto simp: walk_ok_def split equity_step_def Let_def min_def simp flip: e_def p_def) (simp add: e_def)
qed

lemma walk_bounds: "\<forall>v \<in> set returns. - 1 \<le> v \<Longrightarrow> walk_ok w \<Longrightarrow> walk_ok (fold equity_step returns w)"
  by (induction returns arbitrary: w) (simp_all add: walk_step)

lemma percentile_index_less:
  assumes "0 \<le> frnd share" "frnd share * (1 + feps) \<le> 1" "0 < n"
  shows "percentile_index n share < n"
proof -
  define x where "x = of_nat (n - 1) * frnd share"
  have "frnd x \<le> x * (1 + feps)" by (rule flt.upper_bound) (use assms in \<open>simp add: x_def\<close>)
  also have "\<dots> = of_nat (n - 1) * (frnd share * (1 + feps))" by (simp add: x_def)
  also have "\<dots> \<le> of_nat (n - 1)" using assms(2) mult_left_mono [of _ 1 "of_nat (n - 1) :: rat"] by simp
  finally have "\<lfloor>frnd x\<rfloor> \<le> int (n - 1)" using floor_mono [of "frnd x" "of_nat (n - 1)"] by simp
  then show ?thesis using assms(3) unfolding percentile_index_def x_def [symmetric] by linarith
qed

lemma percentile_index_mono: "a \<le> b \<Longrightarrow> percentile_index n a \<le> percentile_index n b"
  unfolding percentile_index_def by (intro nat_mono floor_mono frnd_mono mult_left_mono) simp_all

lemma bootstrap_ordered:
  assumes "day_block_bootstrap_interval draw blocks samples seed = Inr (low, high)"
  shows "(low = None) = (high = None) \<and> (\<forall>a b. low = Some a \<longrightarrow> high = Some b \<longrightarrow> a \<le> b)"
proof (cases "length blocks < 2 \<or> samples \<le> 0")
  case True then show ?thesis using assms by (auto simp: day_block_bootstrap_interval_def)
next
  case False
  then obtain means where means: "collect (bootstrap_mean draw seed blocks) [0..<nat samples] = Inr means"
      "low = Some (sort means ! percentile_index (length means) (25 / 1000))"
      "high = Some (sort means ! percentile_index (length means) (975 / 1000))"
    using assms by (auto simp: day_block_bootstrap_interval_def Let_def map_sum_def split: sum.splits)
  then have "0 < length means" using False by (simp add: collect_Inr)
  have "percentile_index (length means) (25 / 1000) \<le> percentile_index (length means) (975 / 1000)"
    by (rule percentile_index_mono) simp
  moreover have "percentile_index (length means) (975 / 1000) < length means"
    using \<open>0 < length means\<close> by (intro percentile_index_less) (code_simp, code_simp, simp)
  ultimately show ?thesis using means by (auto intro!: sorted_nth_mono)
qed


subsection \<open>Guarantees\<close>

lemma profit_factor_None: "profit_factor returns = Inr None \<longleftrightarrow> (\<forall>v \<in> set returns. 0 \<le> v)"
proof -
  have "profit_factor returns = Inr None \<longleftrightarrow> filter (\<lambda>v. v < 0) returns = []"
    by (auto simp: profit_factor_def Let_def map_sum_def split: sum.splits)
  then show ?thesis by (auto simp: filter_empty_conv not_less)
qed

lemma summarizedD:
  assumes "summarize_performance draw trades config = Inr m" "trades \<noteq> []"
  obtains returns interval factor where "collect (net_return (mg_side_cost_bps config)) trades = Inr returns"
    "day_block_bootstrap_interval draw (day_return_blocks trades returns) (mg_bootstrap_samples config)
       (mg_random_seed config) = Inr interval"
    "profit_factor returns = Inr factor" "m = performance_of config trades returns interval factor"
  using assms by (auto simp: summarize_performance_def map_sum_def split: sum.splits)

text \<open>C36.  The figures of a performance summary keep their ranges although every operation rounds:
  for trades entered at a positive price, left at a price that is not negative and charged at most
  their whole value, the shares of winning and of fallback exits lie between 0 and 1, the drawdown
  between a total loss and none and never above the cumulative return, the bootstrap gives both ends
  of the interval in order or neither, and the profit factor is missing exactly when no trade lost.\<close>

theorem performance_keeps_its_ranges:
  assumes "summarize_performance draw trades config = Inr m" "trades \<noteq> []"
    and "\<forall>t \<in> set trades. 0 < td_entry t \<and> 0 \<le> td_exit t" "0 \<le> mg_side_cost_bps config" "mg_side_cost_bps config \<le> 10000"
  shows "pm_trade_count m = int (length trades) \<and> 0 \<le> pm_win_count m \<and> pm_win_count m \<le> pm_trade_count m
    \<and> (\<exists>w. pm_win_rate m = Some w \<and> 0 \<le> w \<and> w \<le> 1)
    \<and> (\<exists>f. pm_fallback_exit_rate m = Some f \<and> 0 \<le> f \<and> f \<le> 1)
    \<and> (\<exists>d c. pm_max_drawdown m = Some d \<and> pm_cumulative_return m = Some c \<and> - 1 \<le> d \<and> d \<le> 0 \<and> d \<le> c)
    \<and> (pm_mean_ci_low m = None) = (pm_mean_ci_high m = None)
    \<and> (\<forall>low high. pm_mean_ci_low m = Some low \<longrightarrow> pm_mean_ci_high m = Some high \<longrightarrow> low \<le> high)
    \<and> (pm_profit_factor m = None \<longleftrightarrow> (\<forall>t \<in> set trades. \<exists>v \<ge> 0. net_return (mg_side_cost_bps config) t = Inr v))"
proof -
  obtain returns interval factor where m: "collect (net_return (mg_side_cost_bps config)) trades = Inr returns"
    "day_block_bootstrap_interval draw (day_return_blocks trades returns) (mg_bootstrap_samples config)
       (mg_random_seed config) = Inr interval"
    "profit_factor returns = Inr factor" "m = performance_of config trades returns interval factor"
    using assms(1,2) by (rule summarizedD)
  note nth = m(1) [unfolded collect_Inr]
  have ge: "\<forall>v \<in> set returns. - 1 \<le> v"
  proof
    fix v assume "v \<in> set returns"
    then obtain i where "i < length trades" "net_return (mg_side_cost_bps config) (trades ! i) = Inr v"
      using nth by (auto simp: in_set_conv_nth)
    then show "- 1 \<le> v" using assms(3-5) net_return_ge by (metis nth_mem)
  qed
  obtain equity peak drawdown where walk: "equity_walk returns = (equity, peak, drawdown)" by (cases "equity_walk returns")
  have ok: "walk_ok (equity, peak, drawdown)"
    using walk_bounds [OF ge, of "(1, 1, 0)"] walk by (simp add: equity_walk_def walk_ok_def)
  have "frnd (equity / peak) \<le> equity"
    using ok mult_left_mono [of 1 peak equity] frnd_mono [of "equity / peak" equity]
    by (auto simp: walk_ok_def divide_le_eq)
  then have dc: "drawdown \<le> frnd (equity - 1)"
    using ok frnd_mono [of "frnd (equity / peak) - 1" "equity - 1"] by (auto simp: walk_ok_def)
  have counts: "length (filter (\<lambda>v. 0 < v) returns) \<le> length trades" "length (filter td_uses_close_fallback trades) \<le> length trades"
    using nth length_filter_le [of _ returns] length_filter_le by metis+
  have factor: "pm_profit_factor m = None \<longleftrightarrow> (\<forall>v \<in> set returns. 0 \<le> v)"
    using m(3) profit_factor_None [of returns] by (auto simp: m(4) performance_of_def Let_def walk)
  have "(\<forall>v \<in> set returns. 0 \<le> v) \<longleftrightarrow> (\<forall>t \<in> set trades. \<exists>v \<ge> 0. net_return (mg_side_cost_bps config) t = Inr v)"
    using nth by (auto simp: all_set_conv_all_nth)
  moreover have "(fst interval = None) = (snd interval = None)
      \<and> (\<forall>a b. fst interval = Some a \<longrightarrow> snd interval = Some b \<longrightarrow> a \<le> b)"
    using bootstrap_ordered [of draw "day_return_blocks trades returns" _ _ "fst interval" "snd interval"] m(2) by simp
  ultimately show ?thesis using factor ok dc frnd_fraction [OF counts(1)] frnd_fraction [OF counts(2)] counts
    by (auto simp: m(4) performance_of_def Let_def walk walk_ok_def)
qed


subsection \<open>A sample\<close>

definition sample_trade :: "nat \<Rightarrow> rat \<Rightarrow> rat \<Rightarrow> paper_trade" where
  "sample_trade day entry price = \<lparr> td_recommendation_id = (int day, ''AAA'', ''orb''), td_symbol = ''AAA'', td_strategy = ''orb'',
     td_entry_at = combine (739803 + int day) (time_of 14 0), td_exit_at = combine (739803 + int day) (time_of 15 0),
     td_entry = entry, td_exit = price, td_gross_return = 0, td_exit_state = Time_Exit, td_uses_close_fallback = False \<rparr>"

definition sample_trades :: "paper_trade list" where
  "sample_trades = [sample_trade 0 8 10, sample_trade 1 8 7]"

definition sample_metrics :: metrics_config where
  "sample_metrics = \<lparr> mg_side_cost_bps = 0, mg_bootstrap_samples = 3, mg_random_seed = 1 \<rparr>"

definition sample_draw :: draws where
  "sample_draw seed k n = (k * k) mod n"

lemma sample_summary:
  "map_sum id pm_win_count (summarize_performance sample_draw sample_trades sample_metrics) = Inr 1"
  by code_simp

theorem performance_keeps_its_ranges_witness:
  "\<exists>m. summarize_performance sample_draw sample_trades sample_metrics = Inr m \<and> pm_trade_count m = 2
     \<and> (\<exists>w. pm_win_rate m = Some w \<and> 0 \<le> w \<and> w \<le> 1)"
proof -
  obtain m where m: "summarize_performance sample_draw sample_trades sample_metrics = Inr m"
    using sample_summary by (auto simp: map_sum_def split: sum.splits)
  then show ?thesis
    using performance_keeps_its_ranges [OF m]
    by (simp add: sample_trades_def sample_trade_def sample_metrics_def)
qed

end
