(* ===== verification/Trade_Extraction.thy ===== *)
theory Trade_Extraction
  imports Performance_Metrics Recommendation_Lifecycle
begin

text \<open>
  What \<^verbatim>\<open>metrics.py\<close> extracts from the table the engine writes: the trades of a run are its
  finished recommendations.
\<close>

subsection \<open>Legal histories\<close>

text \<open>A history that does not end in an exclusion is finished by its last event only, and becomes
  active at most once.\<close>

lemma finished_last:
  assumes "pairwise_list legal_change ss" "last ss \<noteq> Causality_Excluded" "i < length ss" "ss ! i \<in> set terminal_trade_states"
  shows "i = length ss - 1"
proof (rule ccontr)
  assume "i \<noteq> length ss - 1"
  then have next_i: "Suc i < length ss" using assms(3) by simp
  have "legal_change (ss ! i) (ss ! Suc i)" using assms(1) next_i by (rule pairwise_nthD)
  then have x: "ss ! Suc i = Causality_Excluded" using assms(4) by (auto simp: terminal_trade_states_def)
  show False
  proof (cases "Suc (Suc i) < length ss")
    case True
    with assms(1) have "legal_change (ss ! Suc i) (ss ! Suc (Suc i))" by (rule pairwise_nthD)
    then show False using x by simp
  next
    case False
    then have "length ss - 1 = Suc i" using next_i by simp
    then have "last ss = ss ! Suc i" using next_i last_conv_nth [of ss] by (cases ss) auto
    then show False using x assms(2) by simp
  qed
qed

lemma active_once:
  assumes "pairwise_list legal_change ss" "ss ! 0 = Setup" "i < length ss" "ss ! i = Active"
  shows "i = 1"
proof (cases i)
  case 0 then show ?thesis using assms(2,4) by simp
next
  case (Suc k)
  have "legal_change (ss ! k) Active" using pairwise_nthD [OF assms(1), of k] assms(3,4) Suc by simp
  then have "ss ! k = Setup" by (cases "ss ! k") auto
  moreover have "k = 0"
  proof (cases k)
    case (Suc j)
    then have "legal_change (ss ! j) Setup"
      using pairwise_nthD [OF assms(1), of j] assms(3) \<open>i = Suc k\<close> \<open>ss ! k = Setup\<close> by simp
    then show ?thesis by (cases "ss ! j") auto
  qed simp
  ultimately show ?thesis using Suc by simp
qed

text \<open>The trade of a legal history runs from its activation to its last event.\<close>

definition finished_trade :: "recommendation_event list \<Rightarrow> (recommendation_event \<times> recommendation_event \<times> rat) option" where
  "finished_trade es =
     (case (find (\<lambda>e. ev_state e = Active) es, ev_price (last es)) of
        (Some active, Some price) \<Rightarrow>
          if ev_state (last es) \<in> set terminal_trade_states \<and> ev_occurred_at active \<le> ev_occurred_at (last es)
          then Some (active, last es, price) else None
      | _ \<Rightarrow> None)"

lemma finished_tradeD:
  assumes "finished_trade es = Some f"
  shows "\<exists>a p. f = (a, last es, p) \<and> a \<in> set es \<and> ev_state a = Active \<and> ev_price (last es) = Some p
    \<and> ev_state (last es) \<in> set terminal_trade_states \<and> ev_occurred_at a \<le> ev_occurred_at (last es)"
  using assms by (auto simp: finished_trade_def find_Some_iff in_set_conv_nth split: option.splits if_splits)

lemma find_active:
  assumes "pairwise_list legal_change (map ev_state es)" "ev_state (hd es) = Setup" "a \<in> set es" "ev_state a = Active"
  shows "find (\<lambda>e. ev_state e = Active) es = Some a"
proof -
  have first: "map ev_state es ! 0 = Setup" using assms(2,3) by (cases es) auto
  have one: "i = 1" if "i < length es" "ev_state (es ! i) = Active" for i
    using active_once [OF assms(1) first, of i] that by simp
  obtain i where "i < length es" "es ! i = a" using assms(3) by (auto simp: in_set_conv_nth)
  moreover from this have "ev_state (es ! j) \<noteq> Active" if "j < i" for j
    using one [of i] one [of j] assms(4) that by auto
  ultimately show ?thesis using assms(4) by (auto simp: find_Some_iff)
qed

lemma trade_events_finished:
  assumes "pairwise_list legal_change (map ev_state es)" "es \<noteq> []" "ev_state (last es) \<noteq> Causality_Excluded"
  shows "trade_events es = finished_trade es"
proof (cases "find (\<lambda>e. ev_state e = Active) es")
  case None then show ?thesis by (simp add: trade_events_def finished_trade_def)
next
  case (Some a)
  define P :: "recommendation_event \<Rightarrow> bool" where "P e \<longleftrightarrow> ev_occurred_at a \<le> ev_occurred_at e \<and> ev_state e \<in> set terminal_trade_states \<and> ev_price e \<noteq> None" for e
  have only_last: "e = last es" if e: "e \<in> set es" "P e" for e
  proof -
    obtain i where i: "i < length es" "es ! i = e" using e(1) by (auto simp: in_set_conv_nth)
    then have "i = length (map ev_state es) - 1"
      using finished_last [OF assms(1), of i] assms(2,3) e(2) by (simp add: last_map P_def)
    then show ?thesis using i assms(2) by (simp add: last_conv_nth)
  qed
  have found: "find P es = (if P (last es) then Some (last es) else None)"
  proof (cases "find P es")
    case None
    then show ?thesis using assms(2) by (auto simp: find_None_iff)
  next
    case (Some e)
    then have "e \<in> set es" "P e" by (metis find_Some_iff nth_mem)+
    then show ?thesis using Some only_last by auto
  qed
  have "trade_events es = (case find P es of None \<Rightarrow> None | Some l \<Rightarrow> map_option (\<lambda>p. (a, l, p)) (ev_price l))"
    by (simp add: trade_events_def Some P_def [abs_def])
  then show ?thesis by (auto simp: found finished_trade_def Some P_def split: option.splits)
qed

subsection \<open>Extraction\<close>

lemma extract_one_Inl [simp]: "fold (extract_one st) rs (Inl e) = Inl e"
  by (induction rs) (simp_all add: extract_one_def)

lemma trade_of_fields:
  "trade_of r (a, l, p) = Inr t \<Longrightarrow> td_recommendation_id t = rc_id r \<and> td_symbol t = rc_symbol r \<and> td_strategy t = rc_strategy r
     \<and> td_entry_at t = ev_occurred_at a \<and> td_exit_at t = ev_occurred_at l \<and> td_exit t = p \<and> td_exit_state t = ev_state l"
  by (auto simp: trade_of_def Let_def map_sum_def split: sum.splits)

lemma extracted:
  assumes "distinct (map rc_id rs)" "rc_id ` set rs \<inter> td_recommendation_id ` set ts0 = {}"
    "fold (extract_one st) rs (Inr ts0) = Inr ts" "distinct (map td_recommendation_id ts0)"
  shows "distinct (map td_recommendation_id ts)
    \<and> set ts = set ts0 \<union> {t. \<exists>r \<in> set rs. \<exists>found. trade_events (events (rc_id r) st) = Some found \<and> trade_of r found = Inr t}
    \<and> (\<forall>r \<in> set rs. \<forall>found. trade_events (events (rc_id r) st) = Some found \<longrightarrow> (\<exists>t. trade_of r found = Inr t))"
  using assms
proof (induction rs arbitrary: ts0)
  case (Cons r rs)
  have fresh: "rc_id r \<notin> td_recommendation_id ` set ts0" using Cons.prems(2) by auto
  show ?case
  proof (cases "trade_events (events (rc_id r) st)")
    case None
    then have "extract_one st r (Inr ts0) = Inr ts0" using fresh by (auto simp: extract_one_def)
    then show ?thesis using Cons.IH [of ts0] Cons.prems None by auto
  next
    case (Some found)
    obtain a l p where split: "found = (a, l, p)" by (cases found)
    have step: "extract_one st r (Inr ts0) = map_sum id (\<lambda>t. ts0 @ [t]) (trade_of r found)"
      using fresh Some by (auto simp: extract_one_def)
    obtain t where t: "trade_of r found = Inr t"
      using Cons.prems(3) by (cases "trade_of r found") (auto simp: step)
    then have "extract_one st r (Inr ts0) = Inr (ts0 @ [t])" by (simp add: step)
    moreover have "td_recommendation_id t = rc_id r" using t trade_of_fields split by blast
    ultimately show ?thesis using Cons.IH [of "ts0 @ [t]"] Cons.prems Some t fresh
      by (auto simp: image_iff simp del: split_paired_Ex split_paired_All)
  qed
qed simp

text \<open>The rows the extraction looks at, and the trades it makes of them.\<close>

definition traded_rows :: "paper_store \<Rightarrow> recommendation list" where
  "traded_rows st = filter (\<lambda>r. rc_state r \<noteq> Causality_Excluded) (recommendations st)"

lemma extracted_store:
  assumes "extract_paper_trades text [st] = Inr ts" "distinct (map rc_id (traded_rows st))"
  shows "distinct (map td_recommendation_id ts)
    \<and> set ts = {t. \<exists>r \<in> set (traded_rows st). \<exists>found. trade_events (events (rc_id r) st) = Some found \<and> trade_of r found = Inr t}
    \<and> (\<forall>r \<in> set (traded_rows st). \<forall>found. trade_events (events (rc_id r) st) = Some found \<longrightarrow> (\<exists>t. trade_of r found = Inr t))"
proof -
  obtain us where us: "fold (extract_one st) (traded_rows st) (Inr []) = Inr us"
      "ts = sort_key td_exit_at (sort_key (\<lambda>t. text (td_recommendation_id t)) us)"
    using assms(1) by (auto simp: extract_paper_trades_def extract_store_def traded_rows_def map_sum_def split: sum.splits)
  have "mset ts = mset us" by (simp add: us(2))
  then have "set ts = set us" "distinct (map td_recommendation_id ts) = distinct (map td_recommendation_id us)"
    by (metis mset_eq_setD, metis mset_eq_imp_distinct_iff mset_map)
  then show ?thesis using extracted [OF assms(2) _ us(1)] by simp
qed

text \<open>C35.  The trades of a run are its finished recommendations: whatever bars were processed and
  however often the engine restarted, the extraction yields at most one trade per recommendation; a
  trade belongs to a recommendation that ended in a stop, its second target or the end of the day,
  it was opened by the activation and closed by the last event of that recommendation, at the price
  of that event; and every such recommendation whose last event has a price and is no earlier than
  its activation has its trade.\<close>

theorem trades_are_finished_recommendations:
  assumes "(\<lambda>a b. live_step cfg T a b \<or> close_step a b)\<^sup>*\<^sup>* empty_store st" "extract_paper_trades text [st] = Inr ts"
  shows "distinct (map td_recommendation_id ts)
    \<and> (\<forall>t \<in> set ts. \<exists>r \<in> set (ps_rows st). td_recommendation_id t = rc_id r \<and> rc_state r \<in> set terminal_trade_states
         \<and> td_exit_state t = rc_state r \<and> ev_price (last (events (rc_id r) st)) = Some (td_exit t)
         \<and> ev_occurred_at (last (events (rc_id r) st)) = td_exit_at t \<and> td_entry_at t \<le> td_exit_at t
         \<and> (\<exists>a \<in> set (events (rc_id r) st). ev_state a = Active \<and> ev_occurred_at a = td_entry_at t))
    \<and> (\<forall>r \<in> set (ps_rows st). \<forall>a \<in> set (events (rc_id r) st). ev_state a = Active
         \<and> rc_state r \<in> set terminal_trade_states \<and> ev_price (last (events (rc_id r) st)) \<noteq> None
         \<and> ev_occurred_at a \<le> ev_occurred_at (last (events (rc_id r) st))
         \<longrightarrow> rc_id r \<in> td_recommendation_id ` set ts)"
proof -
  have ok: "store_ok any_time st" using run_store_ok [OF assms(1)] .
  have "distinct (map rc_id (traded_rows st))"
    unfolding traded_rows_def using ok by (intro filtered_recommendations_distinct) (simp add: store_ok_def)
  note ex = extracted_store [OF assms(2) this]
  have legal: "events (rc_id r) st \<noteq> [] \<and> pairwise_list legal_change (map ev_state (events (rc_id r) st))
      \<and> ev_state (hd (events (rc_id r) st)) = Setup \<and> ev_state (last (events (rc_id r) st)) = rc_state r" if "r \<in> set (ps_rows st)" for r
    using store_okD(1) [OF ok that] by (auto simp: recorded_def)
  have found: "trade_events (events (rc_id r) st) = finished_trade (events (rc_id r) st)" if "r \<in> set (traded_rows st)" for r
    using that legal [of r] by (intro trade_events_finished) (auto simp: traded_rows_def)
  have closed: "\<exists>r \<in> set (ps_rows st). td_recommendation_id t = rc_id r \<and> rc_state r \<in> set terminal_trade_states
         \<and> td_exit_state t = rc_state r \<and> ev_price (last (events (rc_id r) st)) = Some (td_exit t)
         \<and> ev_occurred_at (last (events (rc_id r) st)) = td_exit_at t \<and> td_entry_at t \<le> td_exit_at t
         \<and> (\<exists>a \<in> set (events (rc_id r) st). ev_state a = Active \<and> ev_occurred_at a = td_entry_at t)" if "t \<in> set ts" for t
  proof -
    from that obtain r where r: "r \<in> set (traded_rows st)" "\<exists>f. trade_events (events (rc_id r) st) = Some f \<and> trade_of r f = Inr t"
      using ex by blast
    then obtain f where f: "finished_trade (events (rc_id r) st) = Some f" "trade_of r f = Inr t" using found by auto
    have row: "r \<in> set (ps_rows st)" using r(1) by (simp add: traded_rows_def)
    show ?thesis
      using finished_tradeD [OF f(1)] trade_of_fields f(2) legal [OF row] by (intro bexI [OF _ row]) auto
  qed
  have forth: "rc_id r \<in> td_recommendation_id ` set ts"
    if r: "r \<in> set (ps_rows st)" "a \<in> set (events (rc_id r) st)" "ev_state a = Active" "rc_state r \<in> set terminal_trade_states"
      "ev_price (last (events (rc_id r) st)) \<noteq> None" "ev_occurred_at a \<le> ev_occurred_at (last (events (rc_id r) st))" for r a
  proof -
    have rr: "r \<in> set (traded_rows st)" using r(1,4) by (auto simp: traded_rows_def terminal_trade_states_def)
    have "find (\<lambda>e. ev_state e = Active) (events (rc_id r) st) = Some a"
      using legal [OF r(1)] r(2,3) by (intro find_active) auto
    then obtain f where "trade_events (events (rc_id r) st) = Some f"
      using found [OF rr] legal [OF r(1)] r(4-6) by (auto simp: finished_trade_def)
    then obtain t where "t \<in> set ts" "td_recommendation_id t = rc_id r"
      using ex rr trade_of_fields by (cases f) blast
    then show ?thesis by force
  qed
  show ?thesis using ex closed forth by blast
qed


lemma example_extracted:
  "map_sum id (map td_exit) (extract_paper_trades (\<lambda>(_, s, _). s) [en_store example_day]) = Inr [18]"
  by code_simp

theorem trades_are_finished_recommendations_witness:
  "\<exists>t. extract_paper_trades (\<lambda>(_, s, _). s) [en_store example_day] = Inr [t] \<and> td_exit_state t = Target_2R \<and> td_exit t = 18"
proof -
  obtain t where t: "extract_paper_trades (\<lambda>(_, s, _). s) [en_store example_day] = Inr [t]" "td_exit t = 18"
    using example_extracted by (auto simp: map_sum_def split: sum.splits)
  have "td_exit_state t = Target_2R"
    using trades_are_finished_recommendations [OF example_run_close [of "\<lambda>_ _. True"] t(1)] by (simp add: example_advance)
  then show ?thesis using t by simp
qed

end
