(* ===== verification/Adaptive_Evaluation.thy ===== *)
theory Adaptive_Evaluation
  imports Performance_Metrics
begin

text \<open>
  The daily evaluation of a strategy: \<^verbatim>\<open>trading_agent/adaptive_evaluation.py\<close>, its segments
  (\<^verbatim>\<open>adaptive_segmentation.py\<close>) and their data (\<^verbatim>\<open>adaptive_evaluation_models.py\<close>,
  \<^verbatim>\<open>trade_cohort_models.py\<close>).  A bucket is its text.
\<close>

subsection \<open>Data\<close>

datatype adaptive_action = COLLECTING | SHADOW_CONTINUE | EARLY_STOP | DIAGNOSE | COMPARISON_READY | SUSPEND | PROMOTION_REVIEW

datatype cohort_dimension = PRICE | OPENING_GAP | VOLUME_TO_ADV | DOLLAR_VOLUME

fun dimension_text :: "cohort_dimension \<Rightarrow> string" where
  "dimension_text PRICE = ''price''"
| "dimension_text OPENING_GAP = ''opening_gap''"
| "dimension_text VOLUME_TO_ADV = ''volume_to_adv''"
| "dimension_text DOLLAR_VOLUME = ''dollar_volume''"

datatype feature_status = Features_Complete | Features_Censored

record feature_assignment =
  fa_recommendation_id :: recommendation_id
  fa_status :: feature_status
  fa_price_bucket :: "string option"
  fa_gap_bucket :: "string option"
  fa_volume_to_adv_bucket :: "string option"
  fa_dollar_volume_bucket :: "string option"

record evaluated_session =
  ed_session_date :: int
  ed_trades :: "paper_trade list"
  ed_regime :: "string option"
  ed_features :: "feature_assignment list"

record evaluation_context =
  ct_as_of :: int
  ct_strategy_version :: string
  ct_evaluator_version :: string
  ct_external_promotion_blockers :: "string list"

record window_evidence =
  we_required_sessions :: int
  we_observed_sessions :: int
  we_complete :: bool
  we_metrics :: performance_metrics

text \<open>The evidence of a regime or a cohort, the session count of a regime apart.\<close>

record segment_evidence =
  sv_trade_count :: int
  sv_average_return :: "rat option"
  sv_profit_factor :: "rat option"
  sv_mean_ci_low :: "rat option"
  sv_mean_ci_high :: "rat option"

record segmentation_evidence =
  sn_regime_coverage :: rat
  sn_regimes :: "(string \<times> int \<times> segment_evidence) list"
  sn_feature_coverage :: rat
  sn_gap_feature_coverage :: rat
  sn_cohorts :: "(cohort_dimension \<times> string \<times> segment_evidence) list"

record adaptive_evaluation =
  av_as_of :: int
  av_strategy_version :: string
  av_evaluator_version :: string
  av_action :: adaptive_action
  av_reasons :: "string list"
  av_windows :: "window_evidence list"
  av_segmentation :: segmentation_evidence
  av_proof_blockers :: "string list"

subsection \<open>Segments\<close>

definition bootstrap_samples :: int where "bootstrap_samples = 2000"
definition bootstrap_seed :: int where "bootstrap_seed = 20260715"

definition segment_of :: "performance_metrics \<Rightarrow> segment_evidence" where
  "segment_of m = \<lparr> sv_trade_count = pm_trade_count m, sv_average_return = pm_average_return m,
     sv_profit_factor = pm_profit_factor m, sv_mean_ci_low = pm_mean_ci_low m, sv_mean_ci_high = pm_mean_ci_high m \<rparr>"

definition segment_metrics :: "draws \<Rightarrow> paper_trade list \<Rightarrow> signal_error + segment_evidence" where
  "segment_metrics draw trades = map_sum id segment_of (summarize_performance draw trades
     \<lparr> mg_side_cost_bps = 20, mg_bootstrap_samples = bootstrap_samples, mg_random_seed = bootstrap_seed \<rparr>)"

definition session_trades :: "evaluated_session list \<Rightarrow> paper_trade list" where
  "session_trades sessions = concat (map ed_trades sessions)"

definition regime_evidence :: "draws \<Rightarrow> evaluated_session list \<Rightarrow> signal_error + (string \<times> int \<times> segment_evidence) list" where
  "regime_evidence draw sessions =
     collect (\<lambda>label. let selected = filter (\<lambda>s. ed_regime s = Some label) sessions
         in map_sum id (\<lambda>m. (label, int (length selected), m)) (segment_metrics draw (session_trades selected)))
       (sorted_set (List.map_filter ed_regime sessions))"

text \<open>The complete assignments, one for each recommendation: a later one replaces an earlier.\<close>

definition assigned_features :: "evaluated_session list \<Rightarrow> feature_assignment list" where
  "assigned_features sessions =
     dict_values fa_recommendation_id (filter (\<lambda>a. fa_status a = Features_Complete) (concat (map ed_features sessions)))"

definition assignment_of :: "feature_assignment list \<Rightarrow> recommendation_id \<Rightarrow> feature_assignment option" where
  "assignment_of assigned i = find (\<lambda>a. fa_recommendation_id a = i) assigned"

definition trade_by_id :: "paper_trade list \<Rightarrow> recommendation_id \<Rightarrow> paper_trade option" where
  "trade_by_id trades i = find (\<lambda>t. td_recommendation_id t = i) (rev trades)"

definition buckets :: "feature_assignment \<Rightarrow> (cohort_dimension \<times> string) list" where
  "buckets a = List.map_filter (\<lambda>(d, b). map_option (\<lambda>text. (d, text)) b)
     [(PRICE, fa_price_bucket a), (OPENING_GAP, fa_gap_bucket a), (VOLUME_TO_ADV, fa_volume_to_adv_bucket a),
      (DOLLAR_VOLUME, fa_dollar_volume_bucket a)]"

definition grouped :: "paper_trade list \<Rightarrow> feature_assignment list \<Rightarrow> ((cohort_dimension \<times> string) \<times> paper_trade) list" where
  "grouped trades assigned = concat (map (\<lambda>a. case trade_by_id trades (fa_recommendation_id a) of
       None \<Rightarrow> [] | Some t \<Rightarrow> map (\<lambda>k. (k, t)) (buckets a)) assigned)"

text \<open>\<^theory_text>\<open>sorted(grouped, key=lambda item: (item[0].value, item[1]))\<close>\<close>

definition cohort_keys :: "((cohort_dimension \<times> string) \<times> paper_trade) list \<Rightarrow> (cohort_dimension \<times> string) list" where
  "cohort_keys groups = sort_key (\<lambda>(d, _). dimension_text d) (sort_key snd (unique_in_order (map fst groups)))"

definition cohort_evidence ::
  "draws \<Rightarrow> paper_trade list \<Rightarrow> feature_assignment list \<Rightarrow> signal_error + (cohort_dimension \<times> string \<times> segment_evidence) list" where
  "cohort_evidence draw trades assigned =
     (let groups = grouped trades assigned
      in collect (\<lambda>key. map_sum id (\<lambda>m. (fst key, snd key, m))
           (segment_metrics draw (map snd (filter (\<lambda>(k, _). k = key) groups)))) (cohort_keys groups))"

definition share :: "nat \<Rightarrow> nat \<Rightarrow> rat" where
  "share k n = (if n = 0 then 0 else frnd (of_nat k / of_nat n))"

definition evaluate_segmentations :: "draws \<Rightarrow> evaluated_session list \<Rightarrow> signal_error + segmentation_evidence" where
  "evaluate_segmentations draw sessions =
     (let trades = session_trades sessions; assigned = assigned_features sessions;
          with_features = List.map_filter (\<lambda>t. assignment_of assigned (td_recommendation_id t)) trades
      in case regime_evidence draw sessions of
           Inl e \<Rightarrow> Inl e
         | Inr regimes \<Rightarrow> map_sum id (\<lambda>cohorts.
             \<lparr> sn_regime_coverage = share (length (filter (\<lambda>s. ed_regime s \<noteq> None) sessions)) (length sessions),
               sn_regimes = regimes,
               sn_feature_coverage = share (length with_features) (length trades),
               sn_gap_feature_coverage = share (length (filter (\<lambda>a. fa_gap_bucket a \<noteq> None) with_features)) (length trades),
               sn_cohorts = cohorts \<rparr>) (cohort_evidence draw trades assigned))"

subsection \<open>Windows\<close>

definition evaluation_windows :: "nat list" where
  "evaluation_windows = [5, 10, 20, 60]"

text \<open>\<^theory_text>\<open>xs[-n:]\<close> for positive \<open>n\<close>\<close>

definition last_n :: "nat \<Rightarrow> 'a list \<Rightarrow> 'a list" where
  "last_n n xs = drop (length xs - n) xs"

definition evaluation_window :: "draws \<Rightarrow> evaluated_session list \<Rightarrow> nat \<Rightarrow> signal_error + window_evidence" where
  "evaluation_window draw sessions required =
     (let selected = last_n required sessions
      in map_sum id (\<lambda>m. \<lparr> we_required_sessions = int required, we_observed_sessions = int (length selected),
             we_complete = (required \<le> length sessions), we_metrics = m \<rparr>)
           (summarize_performance draw (session_trades selected)
              \<lparr> mg_side_cost_bps = 20, mg_bootstrap_samples = bootstrap_samples,
                mg_random_seed = bootstrap_seed + int required \<rparr>))"

text \<open>Comparisons of an optional figure with a bound.\<close>

definition below :: "rat option \<Rightarrow> rat \<Rightarrow> bool" where
  "below x b = (case x of None \<Rightarrow> False | Some v \<Rightarrow> v < b)"

definition not_below :: "rat option \<Rightarrow> rat \<Rightarrow> bool" where
  "not_below x b = (case x of None \<Rightarrow> False | Some v \<Rightarrow> b \<le> v)"

definition above :: "rat option \<Rightarrow> rat \<Rightarrow> bool" where
  "above x b = (case x of None \<Rightarrow> False | Some v \<Rightarrow> b < v)"

definition clear_failure :: "window_evidence \<Rightarrow> bool" where
  "clear_failure w \<longleftrightarrow> we_complete w \<and> 10 \<le> pm_trade_count (we_metrics w)
     \<and> below (pm_profit_factor (we_metrics w)) (3/4) \<and> below (pm_average_return (we_metrics w)) 0
     \<and> below (pm_mean_ci_high (we_metrics w)) 0"

definition weak_edge :: "window_evidence \<Rightarrow> bool" where
  "weak_edge w \<longleftrightarrow> we_complete w \<and> 15 \<le> pm_trade_count (we_metrics w)
     \<and> (\<not> not_below (pm_profit_factor (we_metrics w)) 1 \<or> \<not> above (pm_average_return (we_metrics w)) 0)"

definition positive_edge :: "window_evidence \<Rightarrow> int \<Rightarrow> bool" where
  "positive_edge w minimum_trades \<longleftrightarrow> we_complete w \<and> minimum_trades \<le> pm_trade_count (we_metrics w)
     \<and> not_below (pm_profit_factor (we_metrics w)) (frnd (115/100)) \<and> above (pm_average_return (we_metrics w)) 0
     \<and> not_below (pm_mean_ci_low (we_metrics w)) 0"

subsection \<open>Blockers and action\<close>

definition unstable :: "segment_evidence \<Rightarrow> bool" where
  "unstable s \<longleftrightarrow> 10 \<le> sv_trade_count s
     \<and> (\<not> not_below (sv_profit_factor s) (frnd (8/10)) \<or> \<not> above (sv_average_return s) 0)"

definition cohort_blockers :: "(cohort_dimension \<times> string \<times> segment_evidence) list \<Rightarrow> string list" where
  "cohort_blockers cohorts = map (\<lambda>(d, b, _). ''cohort_instability:'' @ dimension_text d @ '':'' @ b)
     (filter (\<lambda>(_, _, s). unstable s) cohorts)"

definition proof_blockers :: "window_evidence \<Rightarrow> segmentation_evidence \<Rightarrow> string list" where
  "proof_blockers sixty seg =
     (if we_complete sixty then [] else [''minimum_forward_days:'' @ int_text (we_observed_sessions sixty) @ ''/60''])
     @ (if pm_trade_count (we_metrics sixty) < 100
        then [''minimum_completed_trades:'' @ int_text (pm_trade_count (we_metrics sixty)) @ ''/100''] else [])
     @ (if not_below (pm_profit_factor (we_metrics sixty)) (frnd (115/100)) then [] else [''rolling_60_pf_below_1.15''])
     @ (if above (pm_average_return (we_metrics sixty)) 0 then [] else [''rolling_60_average_nonpositive''])
     @ (if not_below (pm_mean_ci_low (we_metrics sixty)) 0 then [] else [''rolling_60_ci_lower_below_zero''])
     @ (if sn_regime_coverage seg < frnd (8/10) then [''regime_coverage_below_80pct''] else [])
     @ (if length (sn_regimes seg) < 2 then [''regime_diversity_below_2''] else [])
     @ (if sn_feature_coverage seg < frnd (8/10) then [''trade_feature_coverage_below_80pct''] else [])
     @ (if sn_gap_feature_coverage seg < frnd (8/10) then [''gap_feature_coverage_below_80pct''] else [])
     @ map (\<lambda>(label, _, _). ''regime_instability:'' @ label) (filter (\<lambda>(_, _, s). unstable s) (sn_regimes seg))
     @ cohort_blockers (sn_cohorts seg)"

definition evaluation_action ::
  "nat \<Rightarrow> window_evidence \<Rightarrow> window_evidence \<Rightarrow> window_evidence \<Rightarrow> string list \<Rightarrow> adaptive_action \<times> string list" where
  "evaluation_action sessions five ten twenty research_blockers =
     (if clear_failure five
      then if 20 \<le> sessions then (SUSPEND, [''five_day_clear_degradation'']) else (EARLY_STOP, [''five_day_clear_failure''])
      else if weak_edge ten then (DIAGNOSE, [''ten_day_edge_weak''])
      else if research_blockers = [] then (PROMOTION_REVIEW, [''sixty_day_proof_ready''])
      else if positive_edge twenty 30 then (COMPARISON_READY, [''twenty_day_shadow_edge''])
      else if we_complete five then (SHADOW_CONTINUE, [''five_day_hard_stop_not_triggered''])
      else (COLLECTING, [''minimum_five_day_observation_pending'']))"

definition evaluate_strategy :: "draws \<Rightarrow> evaluated_session list \<Rightarrow> evaluation_context \<Rightarrow> signal_error + adaptive_evaluation" where
  "evaluate_strategy draw sessions context =
     (let ordered = sort_key ed_session_date sessions
      in case collect (evaluation_window draw ordered) evaluation_windows of
           Inl e \<Rightarrow> Inl e
         | Inr windows \<Rightarrow>
             (case evaluate_segmentations draw (last_n 60 ordered) of
                Inl e \<Rightarrow> Inl e
              | Inr seg \<Rightarrow>
                  (let research_blockers = proof_blockers (windows ! 3) seg;
                       (action, reasons) = evaluation_action (length ordered) (windows ! 0) (windows ! 1) (windows ! 2) research_blockers
                   in Inr \<lparr> av_as_of = ct_as_of context, av_strategy_version = ct_strategy_version context,
                        av_evaluator_version = ct_evaluator_version context, av_action = action, av_reasons = reasons,
                        av_windows = windows, av_segmentation = seg,
                        av_proof_blockers = unique_in_order (research_blockers @ ct_external_promotion_blockers context) \<rparr>)))"

subsection \<open>Guarantees\<close>

lemma evaluatedD:
  assumes "evaluate_strategy draw sessions context = Inr e"
  obtains five ten twenty sixty seg where "av_windows e = [five, ten, twenty, sixty]"
    "evaluation_window draw (sort_key ed_session_date sessions) 5 = Inr five"
    "evaluation_window draw (sort_key ed_session_date sessions) 10 = Inr ten"
    "evaluation_window draw (sort_key ed_session_date sessions) 20 = Inr twenty"
    "evaluation_window draw (sort_key ed_session_date sessions) 60 = Inr sixty"
    "evaluate_segmentations draw (last_n 60 (sort_key ed_session_date sessions)) = Inr seg" "av_segmentation e = seg"
    "evaluation_action (length sessions) five ten twenty (proof_blockers sixty seg) = (av_action e, av_reasons e)"
proof -
  let ?ordered = "sort_key ed_session_date sessions"
  obtain windows seg where w: "collect (evaluation_window draw ?ordered) evaluation_windows = Inr windows"
      "evaluate_segmentations draw (last_n 60 ?ordered) = Inr seg"
      "e = (let research_blockers = proof_blockers (windows ! 3) seg;
                 (action, reasons) = evaluation_action (length ?ordered) (windows ! 0) (windows ! 1) (windows ! 2) research_blockers
             in \<lparr> av_as_of = ct_as_of context, av_strategy_version = ct_strategy_version context,
                  av_evaluator_version = ct_evaluator_version context, av_action = action, av_reasons = reasons,
                  av_windows = windows, av_segmentation = seg,
                  av_proof_blockers = unique_in_order (research_blockers @ ct_external_promotion_blockers context) \<rparr>)"
    using assms by (auto simp: evaluate_strategy_def Let_def split: sum.splits prod.splits)
  have "length windows = 4" "\<forall>i < 4. evaluation_window draw ?ordered (evaluation_windows ! i) = Inr (windows ! i)"
    using w(1) unfolding collect_Inr by (simp_all add: evaluation_windows_def)
  then have each: "evaluation_window draw ?ordered (evaluation_windows ! i) = Inr (windows ! i)" if "i < 4" for i
    using that by blast
  have four: "windows = [windows ! 0, windows ! 1, windows ! 2, windows ! 3]"
    using \<open>length windows = 4\<close> by (simp add: list_eq_iff_nth_eq less_Suc_eq numeral_eq_Suc)
  show thesis
    by (rule that [of "windows ! 0" "windows ! 1" "windows ! 2" "windows ! 3" seg])
      (use w(2,3) four each [of 0] each [of 1] each [of 2] each [of 3] in
        \<open>auto simp: Let_def evaluation_windows_def numeral_2_eq_2 numeral_3_eq_3 split: prod.splits\<close>)
qed

text \<open>What a window reads: the performance of the last sessions.\<close>

lemma windowD:
  assumes "evaluation_window draw ordered n = Inr w"
  shows "summarize_performance draw (session_trades (last_n n ordered)) \<lparr> mg_side_cost_bps = 20,
      mg_bootstrap_samples = bootstrap_samples, mg_random_seed = bootstrap_seed + int n \<rparr> = Inr (we_metrics w)"
    "we_complete w \<longleftrightarrow> n \<le> length ordered"
  using assms by (auto simp: evaluation_window_def Let_def map_sum_def split: sum.splits)

lemma proof_blockers_Nil:
  "proof_blockers w seg = [] \<longleftrightarrow> we_complete w \<and> 100 \<le> pm_trade_count (we_metrics w)
     \<and> not_below (pm_profit_factor (we_metrics w)) (frnd (115/100)) \<and> above (pm_average_return (we_metrics w)) 0
     \<and> not_below (pm_mean_ci_low (we_metrics w)) 0 \<and> frnd (8/10) \<le> sn_regime_coverage seg \<and> 2 \<le> length (sn_regimes seg)
     \<and> frnd (8/10) \<le> sn_feature_coverage seg \<and> frnd (8/10) \<le> sn_gap_feature_coverage seg
     \<and> (\<forall>(_, _, s) \<in> set (sn_regimes seg). \<not> unstable s) \<and> (\<forall>(_, _, s) \<in> set (sn_cohorts seg). \<not> unstable s)"
  by (auto simp: proof_blockers_def cohort_blockers_def filter_empty_conv not_less split: if_splits)

definition clearly_failing :: "performance_metrics \<Rightarrow> bool" where
  "clearly_failing m \<longleftrightarrow> 10 \<le> pm_trade_count m \<and> below (pm_profit_factor m) (3/4) \<and> below (pm_average_return m) 0
     \<and> below (pm_mean_ci_high m) 0"

definition proven :: "performance_metrics \<Rightarrow> segmentation_evidence \<Rightarrow> bool" where
  "proven m seg \<longleftrightarrow> 100 \<le> pm_trade_count m \<and> not_below (pm_profit_factor m) (frnd (115/100))
     \<and> above (pm_average_return m) 0 \<and> not_below (pm_mean_ci_low m) 0 \<and> 2 \<le> length (sn_regimes seg)
     \<and> list_all (\<lambda>c. frnd (8/10) \<le> c) [sn_regime_coverage seg, sn_feature_coverage seg, sn_gap_feature_coverage seg]
     \<and> (\<forall>(_, _, s) \<in> set (sn_regimes seg). \<not> unstable s) \<and> (\<forall>(_, _, s) \<in> set (sn_cohorts seg). \<not> unstable s)"

abbreviation recent_performance :: "draws \<Rightarrow> evaluated_session list \<Rightarrow> nat \<Rightarrow> signal_error + performance_metrics" where
  "recent_performance draw sessions n \<equiv> summarize_performance draw (session_trades (last_n n (sort_key ed_session_date sessions)))
     \<lparr> mg_side_cost_bps = 20, mg_bootstrap_samples = bootstrap_samples, mg_random_seed = bootstrap_seed + int n \<rparr>"

lemma stopped_on_failure:
  assumes "evaluate_strategy draw sessions context = Inr e" "av_action e \<in> {EARLY_STOP, SUSPEND}"
  shows "5 \<le> length sessions \<and> (av_action e = SUSPEND \<longleftrightarrow> 20 \<le> length sessions)
    \<and> (\<exists>m. recent_performance draw sessions 5 = Inr m \<and> clearly_failing m)"
proof -
  obtain five ten twenty sixty where w: "evaluation_window draw (sort_key ed_session_date sessions) 5 = Inr five"
    "evaluation_action (length sessions) five ten twenty (proof_blockers sixty (av_segmentation e)) = (av_action e, av_reasons e)"
    using assms(1) by (rule evaluatedD) auto
  have fail: "clear_failure five \<longleftrightarrow> 5 \<le> length sessions \<and> clearly_failing (we_metrics five)"
    using windowD(2) [OF w(1)] by (simp add: clear_failure_def clearly_failing_def)
  show ?thesis
    using w(2) [unfolded evaluation_action_def fail] assms(2) windowD(1) [OF w(1)] by (auto split: if_splits)
qed

text \<open>C34.  A recommended action rests on the evidence it names: a strategy is stopped early or
  suspended only when its last five sessions hold at least ten trades that lose by profit factor,
  mean and the upper end of the bootstrap interval, suspended only with twenty sessions behind it;
  a promotion review needs sixty sessions with a hundred trades and a stable edge over every regime
  and cohort, and no such failure; nothing is decided before five sessions exist.\<close>

theorem actions_rest_on_evidence:
  assumes "evaluate_strategy draw sessions context = Inr e"
  shows "(av_action e \<in> {EARLY_STOP, SUSPEND} \<longrightarrow> 5 \<le> length sessions
      \<and> (av_action e = SUSPEND \<longleftrightarrow> 20 \<le> length sessions)
      \<and> (\<exists>m. recent_performance draw sessions 5 = Inr m \<and> clearly_failing m))
    \<and> (av_action e = PROMOTION_REVIEW \<longrightarrow> 60 \<le> length sessions
      \<and> (\<exists>m. recent_performance draw sessions 60 = Inr m \<and> proven m (av_segmentation e))
      \<and> (\<exists>m. recent_performance draw sessions 5 = Inr m \<and> \<not> clearly_failing m))
    \<and> (length sessions < 5 \<longrightarrow> av_action e = COLLECTING)"
proof -
  obtain five ten twenty sixty where w: "av_windows e = [five, ten, twenty, sixty]"
    "evaluation_window draw (sort_key ed_session_date sessions) 5 = Inr five"
    "evaluation_window draw (sort_key ed_session_date sessions) 10 = Inr ten"
    "evaluation_window draw (sort_key ed_session_date sessions) 20 = Inr twenty"
    "evaluation_window draw (sort_key ed_session_date sessions) 60 = Inr sixty"
    "evaluation_action (length sessions) five ten twenty (proof_blockers sixty (av_segmentation e)) = (av_action e, av_reasons e)"
    using assms by (rule evaluatedD) auto
  note read = windowD [OF w(2), simplified] windowD(2) [OF w(3), simplified] windowD(2) [OF w(4), simplified]
    windowD [OF w(5), simplified]
  have fail: "clear_failure five \<longleftrightarrow> 5 \<le> length sessions \<and> clearly_failing (we_metrics five)"
    by (simp add: clear_failure_def clearly_failing_def read(2))
  have blockers: "proof_blockers sixty (av_segmentation e) = [] \<longleftrightarrow> 60 \<le> length sessions \<and> proven (we_metrics sixty) (av_segmentation e)"
    by (auto simp: proof_blockers_Nil proven_def read(6))
  note action = w(6) [unfolded evaluation_action_def fail blockers]
  have promote: "av_action e = PROMOTION_REVIEW \<Longrightarrow> 60 \<le> length sessions \<and> proven (we_metrics sixty) (av_segmentation e)
      \<and> \<not> clearly_failing (we_metrics five)"
    using action by (auto split: if_splits)
  have early: "length sessions < 5 \<Longrightarrow> av_action e = COLLECTING"
    using action by (auto simp: weak_edge_def positive_edge_def read split: if_splits)
  show ?thesis using stopped_on_failure [OF assms] promote early read(1,5) by auto
qed

subsection \<open>A failing strategy\<close>

definition losing_session :: "nat \<Rightarrow> evaluated_session" where
  "losing_session d = \<lparr> ed_session_date = 739803 + int d,
     ed_trades = (if d < 15 then [] else [sample_trade d 8 0, sample_trade d 8 0]), ed_regime = None, ed_features = [] \<rparr>"

definition losing_sessions :: "evaluated_session list" where
  "losing_sessions = map losing_session [0..<20]"

definition first_draw :: draws where
  "first_draw seed k n = 0"

definition losing_trades :: "paper_trade list" where
  "losing_trades = concat (map (\<lambda>d. [sample_trade d 8 0, sample_trade d 8 0]) [15, 16, 17, 18, 19])"

definition sample_context :: evaluation_context where
  "sample_context = \<lparr> ct_as_of = 739822, ct_strategy_version = ''v1'', ct_evaluator_version = ''e1'',
     ct_external_promotion_blockers = [] \<rparr>"

lemma worthless_exit: "net_return 20 (sample_trade d 8 0) = Inr (- 1)"
proof -
  define c where "c = frnd (20 / 10000)"
  have "0 \<le> c" using frnd_mono [of 0 "20 / 10000"] by (simp add: c_def)
  then have "0 < frnd (8 * frnd (1 + c))" by (intro flt.r_pos mult_pos_pos) simp_all
  then show ?thesis by (simp add: net_return_def Let_def c_def float_div_def sample_trade_def)
qed

lemma collect_same: "(\<And>x. x \<in> set xs \<Longrightarrow> f x = Inr y) \<Longrightarrow> collect f xs = Inr (replicate (length xs) y)"
  by (induction xs) auto

lemma constant_interval:
  assumes "\<And>s. bootstrap_mean draw seed blocks s = Inr v" "2 \<le> length blocks" "0 < samples"
  shows "day_block_bootstrap_interval draw blocks samples seed = Inr (Some v, Some v)"
proof -
  have means: "collect (bootstrap_mean draw seed blocks) [0..<nat samples] = Inr (replicate (nat samples) v)"
    using collect_same [of "[0..<nat samples]" "bootstrap_mean draw seed blocks" v] assms(1) by simp
  have "percentile_index (nat samples) (975 / 1000) < nat samples"
    using assms(3) by (intro percentile_index_less) (code_simp, code_simp, simp)
  moreover have "percentile_index (nat samples) (25 / 1000) < nat samples"
    using assms(3) by (intro percentile_index_less) (code_simp, code_simp, simp)
  moreover have "sort (replicate (nat samples) v) = replicate (nat samples) v"
    by (rule sorted_sort_id) (simp add: sorted_replicate)
  ultimately show ?thesis using assms(2,3) by (simp add: day_block_bootstrap_interval_def means)
qed

lemma sample_day: "wall_date (ny (td_exit_at (sample_trade d p q))) = 739803 + int d"
  by (rule wall_date_between [of _ "time_of 10 0" _ "time_of 11 1"])
    (use ny_bounds [of "td_exit_at (sample_trade d p q)"] in \<open>simp_all add: sample_trade_def combine_def time_of_def\<close>)

lemma losing_blocks: "day_return_blocks losing_trades (replicate 10 (- 1)) = replicate 5 [- 1, - 1]"
  by (simp add: day_return_blocks_def losing_trades_def sample_day numeral_eq_Suc)

lemma losing_mean: "bootstrap_mean first_draw seed (replicate 5 [- 1, - 1]) s = Inr (- 1)"
proof -
  have "map (\<lambda>j. replicate 5 [- 1, - 1 :: rat] ! first_draw seed (s * 5 + j) 5) [0..<5] = replicate 5 [- 1, - 1]"
    by (simp add: first_draw_def map_replicate_const)
  then have "bootstrap_mean first_draw seed (replicate 5 [- 1, - 1]) s
      = float_div (float_sum (concat (replicate 5 [- 1, - 1]))) (of_nat (length (concat (replicate 5 [- 1, - 1 :: rat]))))"
    by (simp add: bootstrap_mean_def Let_def)
  also have "\<dots> = Inr (- 1)" by code_simp
  finally show ?thesis .
qed

lemma losing_performance:
  assumes "0 < samples"
  shows "summarize_performance first_draw losing_trades \<lparr> mg_side_cost_bps = 20, mg_bootstrap_samples = samples, mg_random_seed = seed \<rparr>
     = Inr (performance_of \<lparr> mg_side_cost_bps = 20, mg_bootstrap_samples = samples, mg_random_seed = seed \<rparr> losing_trades
         (replicate 10 (- 1)) (Some (- 1), Some (- 1)) (Some 0))"
proof -
  define losses where "losses = replicate 10 (- 1 :: rat)"
  have len: "length losing_trades = 10" by (simp add: losing_trades_def)
  have "collect (net_return 20) losing_trades = Inr (replicate (length losing_trades) (- 1))"
    by (rule collect_same) (auto simp: losing_trades_def worthless_exit)
  then have net: "collect (net_return 20) losing_trades = Inr losses" unfolding len losses_def .
  have interval: "day_block_bootstrap_interval first_draw (day_return_blocks losing_trades losses) samples seed = Inr (Some (- 1), Some (- 1))"
    unfolding losses_def losing_blocks by (rule constant_interval) (simp_all add: losing_mean assms)
  have factor: "profit_factor losses = Inr (Some 0)" unfolding losses_def by code_simp
  have "losing_trades \<noteq> []" using len by auto
  then show ?thesis unfolding losses_def [symmetric] by (simp add: summarize_performance_def net interval factor)
qed

lemma losing_recent:
  "session_trades (last_n 5 losing_sessions) = losing_trades" "session_trades (last_n 10 losing_sessions) = losing_trades"
  "session_trades (last_n 20 losing_sessions) = losing_trades" "session_trades (last_n 60 losing_sessions) = losing_trades"
  by (simp_all add: last_n_def losing_sessions_def session_trades_def losing_session_def losing_trades_def upt_rec
      numeral_eq_Suc)

lemma losing_order: "sort_key ed_session_date losing_sessions = losing_sessions" "length losing_sessions = 20"
proof -
  have "sorted (map ed_session_date losing_sessions)"
    by (simp add: losing_sessions_def losing_session_def sorted_iff_nth_mono)
  then show "sort_key ed_session_date losing_sessions = losing_sessions" by (rule sort_key_id_if_sorted)
qed (simp add: losing_sessions_def)

lemma losing_segments:
  "evaluate_segmentations first_draw losing_sessions = Inr \<lparr> sn_regime_coverage = 0, sn_regimes = [], sn_feature_coverage = 0,
     sn_gap_feature_coverage = 0, sn_cohorts = [] \<rparr>"
  by code_simp

lemma losing_window: "n \<in> {5, 10, 20, 60} \<Longrightarrow> \<exists>w. evaluation_window first_draw losing_sessions n = Inr w
    \<and> we_complete w = (n \<le> 20) \<and> clearly_failing (we_metrics w)"
proof -
  assume "n \<in> {5, 10, 20, 60}"
  then have trades: "session_trades (last_n n losing_sessions) = losing_trades" using losing_recent by auto
  have "clearly_failing (performance_of \<lparr> mg_side_cost_bps = 20, mg_bootstrap_samples = bootstrap_samples, mg_random_seed = k \<rparr>
      losing_trades (replicate 10 (- 1)) (Some (- 1), Some (- 1)) (Some 0))" for k
    by code_simp
  then show ?thesis
    using losing_performance [of bootstrap_samples "bootstrap_seed + int n"]
    by (simp add: evaluation_window_def Let_def trades bootstrap_samples_def losing_order)
qed

lemma losing_sixty:
  assumes "evaluation_window first_draw losing_sessions 60 = Inr w"
  shows "w = \<lparr> we_required_sessions = 60, we_observed_sessions = 20, we_complete = False,
    we_metrics = performance_of \<lparr> mg_side_cost_bps = 20, mg_bootstrap_samples = bootstrap_samples,
        mg_random_seed = bootstrap_seed + 60 \<rparr> losing_trades (replicate 10 (- 1)) (Some (- 1), Some (- 1)) (Some 0) \<rparr>"
  using assms losing_performance [of bootstrap_samples "bootstrap_seed + 60"] losing_recent(4)
  by (auto simp: evaluation_window_def Let_def bootstrap_samples_def losing_order last_n_def)

definition losing_blockers :: "string list" where
  "losing_blockers = [''minimum_forward_days:20/60'', ''minimum_completed_trades:10/100'', ''rolling_60_pf_below_1.15'',
     ''rolling_60_average_nonpositive'', ''rolling_60_ci_lower_below_zero'', ''regime_coverage_below_80pct'',
     ''regime_diversity_below_2'', ''trade_feature_coverage_below_80pct'', ''gap_feature_coverage_below_80pct'']"

lemma losing_evaluated:
  "\<exists>e. evaluate_strategy first_draw losing_sessions context = Inr e \<and> av_action e = SUSPEND
     \<and> av_reasons e = [''five_day_clear_degradation''] \<and> av_as_of e = ct_as_of context
     \<and> av_strategy_version e = ct_strategy_version context \<and> av_evaluator_version e = ct_evaluator_version context
     \<and> av_proof_blockers e = unique_in_order (losing_blockers @ ct_external_promotion_blockers context)"
proof -
  obtain five ten twenty sixty where w: "evaluation_window first_draw losing_sessions 5 = Inr five" "we_complete five"
      "clearly_failing (we_metrics five)" "evaluation_window first_draw losing_sessions 10 = Inr ten"
      "evaluation_window first_draw losing_sessions 20 = Inr twenty" "evaluation_window first_draw losing_sessions 60 = Inr sixty"
    using losing_window [of 5] losing_window [of 10] losing_window [of 20] losing_window [of 60] by auto
  have "collect (evaluation_window first_draw losing_sessions) evaluation_windows = Inr [five, ten, twenty, sixty]"
    using w by (simp add: evaluation_windows_def)
  moreover have "last_n 60 losing_sessions = losing_sessions" by (simp add: last_n_def losing_order)
  moreover have "clear_failure five" using w(2,3) by (simp add: clear_failure_def clearly_failing_def)
  moreover have "proof_blockers sixty \<lparr> sn_regime_coverage = 0, sn_regimes = [], sn_feature_coverage = 0,
      sn_gap_feature_coverage = 0, sn_cohorts = [] \<rparr> = losing_blockers"
    unfolding losing_sixty [OF w(6)] by code_simp
  ultimately show ?thesis
    by (simp add: evaluate_strategy_def losing_order losing_segments Let_def evaluation_action_def)
qed

theorem actions_rest_on_evidence_witness:
  "\<exists>m. recent_performance first_draw losing_sessions 5 = Inr m \<and> clearly_failing m"
proof -
  obtain e where e: "evaluate_strategy first_draw losing_sessions sample_context = Inr e" "av_action e = SUSPEND"
    using losing_evaluated [of sample_context] by blast
  then show ?thesis using actions_rest_on_evidence [OF e(1)] by simp
qed

end
