(* ===== verification/Experiment_Models.thy ===== *)
theory Experiment_Models
  imports Us_Equity_Calendar "HOL-Library.Multiset"
begin

text \<open>
  The registrations and events of the experiment ledger with their validators:
  \<^verbatim>\<open>trading_agent/experiment_scope_models.py\<close>, \<^verbatim>\<open>experiment_ledger_models.py\<close>,
  \<^verbatim>\<open>strategy_authority_models.py\<close> and the identities of
  \<^verbatim>\<open>research_identity_models.py\<close>.  The models demand aware datetimes, so their instants are
  integers.
\<close>

subsection \<open>Sorted tables\<close>

text \<open>A row whose key is not below the others is the last of the sorted rows.\<close>

lemma sorted_append_last:
  assumes "\<And>y. y \<in> set ys \<Longrightarrow> f y \<le> f x"
  shows "sort_key f (ys @ [x]) = sort_key f ys @ [x]"
proof (rule properties_for_sort_key)
  show "mset (sort_key f ys @ [x]) = mset (ys @ [x])" by simp
  show "filter (\<lambda>z. f k = f z) (sort_key f ys @ [x]) = filter (\<lambda>z. f k = f z) (ys @ [x])" for k
    using sort_key_stable [of f "f k" ys] by (simp add: eq_commute)
  show "sorted (map f (sort_key f ys @ [x]))" using assms by (auto simp: sorted_append)
qed

subsection \<open>Canonical text\<close>

definition alnum :: string where
  "alnum = ''ABCDEFGHIJKLMNOPQRSTUVWXYZabcdefghijklmnopqrstuvwxyz0123456789''"

text \<open>\<^theory_text>\<open>^[A-Za-z0-9][A-Za-z0-9_.:-]{0,127}$\<close>\<close>

fun py_identifier :: "string \<Rightarrow> bool" where
  "py_identifier [] = False"
| "py_identifier (c # cs) = (c \<in> set alnum \<and> length cs \<le> 127 \<and> list_all (\<lambda>d. d \<in> set (alnum @ ''_.:-'')) cs)"

definition nonblank_text :: "string \<Rightarrow> bool" where
  "nonblank_text s \<longleftrightarrow> s \<noteq> [] \<and> s = strip s"

definition ordered_contract :: "string list \<Rightarrow> bool" where
  "ordered_contract values \<longleftrightarrow> values \<noteq> [] \<and> distinct values \<and> list_all nonblank_text values"

definition canonical_set :: "bool \<Rightarrow> string list \<Rightarrow> bool" where
  "canonical_set required values \<longleftrightarrow> (values \<noteq> [] \<or> \<not> required) \<and> values = sorted_set values \<and> list_all py_identifier values"

definition canonical_hashes :: "bool \<Rightarrow> string list \<Rightarrow> bool" where
  "canonical_hashes required values \<longleftrightarrow> (values \<noteq> [] \<or> \<not> required) \<and> values = sorted_set values \<and> list_all hex64 values"

subsection \<open>Scopes, hypotheses and strategy versions\<close>

datatype lane_id = INTRADAY_MOMENTUM | SWING_MOMENTUM | MARKET_REGIME
datatype scope_kind = SINGLE_LANE | CROSS_LANE_HYPOTHESIS

text \<open>The order of the lanes by their text.\<close>

fun lane_order :: "lane_id \<Rightarrow> nat" where
  "lane_order INTRADAY_MOMENTUM = 0"
| "lane_order MARKET_REGIME = 1"
| "lane_order SWING_MOMENTUM = 2"

record experiment_scope =
  es_kind :: scope_kind
  es_hypothesis_id :: string
  es_primary_lane :: lane_id
  es_lanes :: "lane_id list"
  es_source_hypothesis_ids :: "string list"
  es_combination_rule :: "string option"
  es_registered_at :: int

definition valid_scope :: "experiment_scope \<Rightarrow> bool" where
  "valid_scope s \<longleftrightarrow>
     (let lanes = sort_key lane_order (remdups (es_lanes s)); sources = sorted_set (es_source_hypothesis_ids s)
      in py_identifier (es_hypothesis_id s) \<and> list_all py_identifier sources
       \<and> es_lanes s = lanes \<and> es_source_hypothesis_ids s = sources
       \<and> es_primary_lane s \<in> set lanes
       \<and> (case es_kind s of
            SINGLE_LANE \<Rightarrow> lanes = [es_primary_lane s] \<and> sources = [] \<and> es_combination_rule s = None
          | CROSS_LANE_HYPOTHESIS \<Rightarrow> 2 \<le> length lanes \<and> 2 \<le> length sources \<and> es_hypothesis_id s \<notin> set sources
              \<and> (case es_combination_rule s of None \<Rightarrow> False | Some rule \<Rightarrow> nonblank_text rule)))"

record hypothesis_registration =
  hr_hypothesis_id :: string
  hr_scope :: experiment_scope
  hr_scope_key :: sha
  hr_primary_lane :: lane_id
  hr_hypothesis :: string
  hr_falsification_rule :: string
  hr_source_registered_at :: int
  hr_recorded_at :: int

record version_registration =
  vr_strategy_id :: string
  vr_strategy_version :: string
  vr_hypothesis_id :: string
  vr_scope_key :: sha
  vr_lane :: lane_id
  vr_code_version :: string
  vr_parameter_set :: "string list"
  vr_data_contract :: "string list"
  vr_cost_model :: "string list"
  vr_portfolio_policy :: "string list"
  vr_source_registered_at :: int
  vr_recorded_at :: int

definition valid_hypothesis :: "(experiment_scope \<Rightarrow> sha) \<Rightarrow> hypothesis_registration \<Rightarrow> bool" where
  "valid_hypothesis scope_key h \<longleftrightarrow> valid_scope (hr_scope h) \<and> py_identifier (hr_hypothesis_id h)
     \<and> hr_hypothesis_id h = es_hypothesis_id (hr_scope h) \<and> hr_scope_key h = scope_key (hr_scope h)
     \<and> hr_primary_lane h = es_primary_lane (hr_scope h) \<and> nonblank_text (hr_hypothesis h)
     \<and> nonblank_text (hr_falsification_rule h)
     \<and> hr_source_registered_at h = es_registered_at (hr_scope h) \<and> hr_source_registered_at h \<le> hr_recorded_at h"

definition valid_version :: "version_registration \<Rightarrow> bool" where
  "valid_version v \<longleftrightarrow>
     list_all py_identifier [vr_strategy_id v, vr_strategy_version v, vr_hypothesis_id v, vr_code_version v]
     \<and> hex64 (vr_scope_key v)
     \<and> list_all ordered_contract [vr_parameter_set v, vr_data_contract v, vr_cost_model v, vr_portfolio_policy v]
     \<and> vr_source_registered_at v \<le> vr_recorded_at v"

definition version_matches_hypothesis :: "version_registration \<Rightarrow> hypothesis_registration \<Rightarrow> bool" where
  "version_matches_hypothesis v h \<longleftrightarrow> vr_hypothesis_id v = hr_hypothesis_id h \<and> vr_scope_key v = hr_scope_key h
     \<and> vr_lane v = hr_primary_lane h \<and> vr_source_registered_at v = hr_source_registered_at h
     \<and> hr_recorded_at h \<le> vr_recorded_at v"

subsection \<open>Authority\<close>

datatype market_id = US_EQUITIES | KR_EQUITIES
datatype agent_family = OPPORTUNITY_MANAGER | DAY_TRADING | SWING_TRADING | SYSTEMATIC_QUANT
  | DERIVATIVES_RESEARCH | MARKET_CONTEXT | ALLOCATION_MANAGER
datatype operating_mode = CONTRACT_ONLY | SHADOW | ALPACA_PAPER

record strategy_lane =
  sl_market :: market_id
  sl_family :: agent_family
  sl_strategy_id :: string

record authority_binding =
  ab_strategy_version :: string
  ab_lane :: strategy_lane
  ab_mode :: operating_mode
  ab_legacy_lane :: lane_id
  ab_bound_at :: int

text \<open>\<^theory_text>\<open>^[a-z0-9][a-z0-9_]{0,63}$\<close>\<close>

fun strategy_name_ok :: "string \<Rightarrow> bool" where
  "strategy_name_ok [] = False"
| "strategy_name_ok (c # cs) = (c \<in> set ''abcdefghijklmnopqrstuvwxyz0123456789'' \<and> length cs \<le> 63
     \<and> list_all (\<lambda>d. d \<in> set ''abcdefghijklmnopqrstuvwxyz0123456789_'') cs)"

definition legacy_lane_of :: "strategy_lane \<Rightarrow> lane_id option" where
  "legacy_lane_of l = (case (sl_market l, sl_family l) of
       (US_EQUITIES, DAY_TRADING) \<Rightarrow> Some INTRADAY_MOMENTUM
     | (US_EQUITIES, SWING_TRADING) \<Rightarrow> Some SWING_MOMENTUM
     | (US_EQUITIES, MARKET_CONTEXT) \<Rightarrow> Some MARKET_REGIME
     | _ \<Rightarrow> None)"

definition paper_authorized :: "strategy_lane \<Rightarrow> bool" where
  "paper_authorized l \<longleftrightarrow> sl_market l = US_EQUITIES \<and> sl_family l \<in> {DAY_TRADING, SWING_TRADING}"

definition valid_binding :: "authority_binding \<Rightarrow> bool" where
  "valid_binding b \<longleftrightarrow> py_identifier (ab_strategy_version b) \<and> strategy_name_ok (sl_strategy_id (ab_lane b))
     \<and> legacy_lane_of (ab_lane b) = Some (ab_legacy_lane b)
     \<and> (ab_mode b = ALPACA_PAPER \<longrightarrow> paper_authorized (ab_lane b))"

subsection \<open>Lifecycle events\<close>

datatype lifecycle_state = IDEA | HISTORICAL | EXPERIMENTAL_SHADOW | EXPERIMENTAL_PAPER | CHALLENGER
  | SHADOW_CHAMPION | PAPER_CHAMPION | SUSPENDED | REJECTED

datatype lifecycle_kind = REGISTRATION | TRANSITION

record lifecycle_event =
  le_strategy_version :: string
  le_sequence :: int
  le_kind :: lifecycle_kind
  le_from_state :: "lifecycle_state option"
  le_to_state :: lifecycle_state
  le_policy_version :: string
  le_decision_date :: int
  le_effective_date :: int
  le_decided_at :: int
  le_evidence_keys :: "sha list"
  le_reason_codes :: "string list"
  le_previous_event_key :: "sha option"

definition allowed_from :: "lifecycle_state \<Rightarrow> lifecycle_state list" where
  "allowed_from s = (case s of
       IDEA \<Rightarrow> [HISTORICAL, REJECTED]
     | HISTORICAL \<Rightarrow> [EXPERIMENTAL_SHADOW, REJECTED]
     | EXPERIMENTAL_SHADOW \<Rightarrow> [EXPERIMENTAL_PAPER, CHALLENGER, SUSPENDED, REJECTED]
     | EXPERIMENTAL_PAPER \<Rightarrow> [CHALLENGER, SUSPENDED, REJECTED]
     | CHALLENGER \<Rightarrow> [SHADOW_CHAMPION, PAPER_CHAMPION, SUSPENDED, REJECTED]
     | SHADOW_CHAMPION \<Rightarrow> [SUSPENDED]
     | PAPER_CHAMPION \<Rightarrow> [SUSPENDED]
     | SUSPENDED \<Rightarrow> [EXPERIMENTAL_SHADOW, EXPERIMENTAL_PAPER, CHALLENGER, SHADOW_CHAMPION, PAPER_CHAMPION, REJECTED]
     | REJECTED \<Rightarrow> [])"

definition lifecycle_transition_allowed :: "lifecycle_state \<Rightarrow> lifecycle_state \<Rightarrow> bool" where
  "lifecycle_transition_allowed from_state to_state \<longleftrightarrow> to_state \<in> set (allowed_from from_state)"

definition lifecycle_state_rank :: "lifecycle_state \<Rightarrow> int" where
  "lifecycle_state_rank s = (case s of IDEA \<Rightarrow> 0 | HISTORICAL \<Rightarrow> 1 | EXPERIMENTAL_SHADOW \<Rightarrow> 2 | EXPERIMENTAL_PAPER \<Rightarrow> 3
     | CHALLENGER \<Rightarrow> 4 | SHADOW_CHAMPION \<Rightarrow> 5 | PAPER_CHAMPION \<Rightarrow> 5 | SUSPENDED \<Rightarrow> 6 | REJECTED \<Rightarrow> 7)"

definition valid_registration_event :: "lifecycle_event \<Rightarrow> bool" where
  "valid_registration_event e \<longleftrightarrow> le_sequence e = 1 \<and> le_from_state e = None \<and> le_previous_event_key e = None
     \<and> (if le_to_state e = IDEA then ''new_strategy_registration'' \<in> set (le_reason_codes e)
        else le_to_state e \<in> {HISTORICAL, EXPERIMENTAL_SHADOW, EXPERIMENTAL_PAPER}
          \<and> ''existing_contract_import'' \<in> set (le_reason_codes e) \<and> 3 \<le> length (le_evidence_keys e))"

definition valid_transition_event :: "lifecycle_event \<Rightarrow> bool" where
  "valid_transition_event e \<longleftrightarrow> 2 \<le> le_sequence e
     \<and> (case (le_from_state e, le_previous_event_key e) of
          (Some s, Some key) \<Rightarrow> hex64 key \<and> lifecycle_transition_allowed s (le_to_state e)
        | _ \<Rightarrow> False)"

definition valid_lifecycle_event :: "lifecycle_event \<Rightarrow> bool" where
  "valid_lifecycle_event e \<longleftrightarrow> py_identifier (le_strategy_version e) \<and> py_identifier (le_policy_version e)
     \<and> 1 \<le> le_sequence e \<and> wall_date (ny (le_decided_at e)) = le_decision_date e
     \<and> le_decision_date e < le_effective_date e \<and> regular_session_bounds (le_effective_date e) \<noteq> None
     \<and> canonical_hashes True (le_evidence_keys e) \<and> canonical_set True (le_reason_codes e)
     \<and> (case le_kind e of REGISTRATION \<Rightarrow> valid_registration_event e | TRANSITION \<Rightarrow> valid_transition_event e)"

subsection \<open>Trials\<close>

datatype trial_kind = HISTORICAL_REPLAY | SHADOW_FORWARD | BROKER_PAPER_FORWARD | EQUAL_RISK_COMPARISON
  | CROSS_LANE_TRIAL

datatype trial_event_kind = STARTED | COMPLETED | FAILED | TRIAL_CENSORED

record trial_registration =
  tr_trial_id :: string
  tr_strategy_version :: string
  tr_kind :: trial_kind
  tr_scope :: experiment_scope
  tr_scope_key :: sha
  tr_evaluator_version :: string
  tr_data_version :: sha
  tr_feed_entitlement :: string
  tr_planned_start :: int
  tr_planned_end :: int
  tr_registered_at :: int
  tr_evidence_budget :: "string list"

record trial_event =
  te_trial_id :: string
  te_sequence :: int
  te_kind :: trial_event_kind
  te_occurred_at :: int
  te_artifact_sha256s :: "sha list"
  te_reason_codes :: "string list"
  te_previous_event_key :: "sha option"

definition valid_trial :: "(experiment_scope \<Rightarrow> sha) \<Rightarrow> trial_registration \<Rightarrow> bool" where
  "valid_trial scope_key t \<longleftrightarrow> valid_scope (tr_scope t)
     \<and> list_all py_identifier [tr_trial_id t, tr_strategy_version t, tr_evaluator_version t]
     \<and> hex64 (tr_data_version t) \<and> nonblank_text (tr_feed_entitlement t) \<and> tr_scope_key t = scope_key (tr_scope t)
     \<and> regular_session_bounds (tr_planned_end t) \<noteq> None \<and> tr_planned_start t \<le> tr_planned_end t
     \<and> (case regular_session_bounds (tr_planned_start t) of
          None \<Rightarrow> False | Some (opens, _) \<Rightarrow> tr_registered_at t < ny_utc opens)
     \<and> canonical_set True (tr_evidence_budget t)
     \<and> (tr_kind t = CROSS_LANE_TRIAL \<longleftrightarrow> es_kind (tr_scope t) = CROSS_LANE_HYPOTHESIS)"

definition valid_trial_event :: "trial_event \<Rightarrow> bool" where
  "valid_trial_event e \<longleftrightarrow> py_identifier (te_trial_id e) \<and> 1 \<le> te_sequence e
     \<and> canonical_hashes False (te_artifact_sha256s e) \<and> canonical_set False (te_reason_codes e)
     \<and> (if te_kind e = STARTED
        then te_sequence e = 1 \<and> te_previous_event_key e = None \<and> te_artifact_sha256s e = [] \<and> te_reason_codes e = []
        else if te_sequence e = 1
        then te_kind e = TRIAL_CENSORED \<and> te_previous_event_key e = None \<and> te_artifact_sha256s e = [] \<and> te_reason_codes e \<noteq> []
        else (case te_previous_event_key e of None \<Rightarrow> False | Some key \<Rightarrow> hex64 key)
          \<and> (if te_kind e = COMPLETED then te_artifact_sha256s e \<noteq> [] \<and> te_reason_codes e = [] else te_reason_codes e \<noteq> []))"

definition trial_matches_version :: "trial_registration \<Rightarrow> version_registration \<Rightarrow> bool" where
  "trial_matches_version t v \<longleftrightarrow> tr_strategy_version t = vr_strategy_version v \<and> tr_scope_key t = vr_scope_key v
     \<and> es_hypothesis_id (tr_scope t) = vr_hypothesis_id v \<and> es_primary_lane (tr_scope t) = vr_lane v
     \<and> vr_recorded_at v \<le> tr_registered_at t"

end
