(* ===== verification/Lane_Registry.thy ===== *)
theory Lane_Registry
  imports Experiment_Models Paper_Risk
begin

text \<open>
  The contracts of the lanes and their registry: \<^verbatim>\<open>trading_agent/lane_policy_models.py\<close>,
  \<^verbatim>\<open>lane_contract_models.py\<close> and \<^verbatim>\<open>lane_registry_store.py\<close>.  A table is the list of
  its rows, each with its content key, in the order of insertion; the content keys are parameters.
\<close>

subsection \<open>Policies and risk contracts\<close>

datatype order_authority = Authority_Alpaca_Paper | Authority_Shadow_Only | Authority_None
datatype risk_enforcement = Enforce_Broker_Paper | Enforce_Shadow | Enforce_None
datatype account_binding_mode = Dedicated_Paper | Binding_Forbidden

text \<open>Every other field of a policy is a literal.\<close>

datatype execution_policy = Intraday_Policy | Swing_Policy | Regime_Policy

fun policy_lane :: "execution_policy \<Rightarrow> lane_id" where
  "policy_lane Intraday_Policy = INTRADAY_MOMENTUM"
| "policy_lane Swing_Policy = SWING_MOMENTUM"
| "policy_lane Regime_Policy = MARKET_REGIME"

fun policy_authority :: "execution_policy \<Rightarrow> order_authority" where
  "policy_authority Intraday_Policy = Authority_Alpaca_Paper"
| "policy_authority Swing_Policy = Authority_Shadow_Only"
| "policy_authority Regime_Policy = Authority_None"

record lane_risk_contract =
  lk_enforcement :: risk_enforcement
  lk_reference_equity :: pynum
  lk_risk_fraction :: pynum
  lk_max_notional_dollars :: pynum
  lk_max_planned_risk_dollars :: pynum
  lk_max_open_positions :: int
  lk_daily_loss_limit_dollars :: pynum
  lk_per_side_cost_bps :: pynum

definition contract_values :: "lane_risk_contract \<Rightarrow> pynum list" where
  "contract_values k = [lk_reference_equity k, lk_risk_fraction k, lk_max_notional_dollars k,
     lk_max_planned_risk_dollars k, lk_daily_loss_limit_dollars k, lk_per_side_cost_bps k]"

definition positive_up_to :: "pynum \<Rightarrow> rat \<Rightarrow> bool" where
  "positive_up_to x limit \<longleftrightarrow> Finite 0 < x \<and> x \<le> Finite limit"

definition valid_risk_contract :: "lane_risk_contract \<Rightarrow> bool" where
  "valid_risk_contract k \<longleftrightarrow>
     list_all (\<lambda>x. is_finite x \<and> Finite 0 \<le> x) (contract_values k) \<and> 0 \<le> lk_max_open_positions k
     \<and> (if lk_enforcement k = Enforce_None
        then list_all (\<lambda>x. num_eq x (Finite 0)) (contract_values k) \<and> lk_max_open_positions k = 0
        else positive_up_to (lk_reference_equity k) hard_reference_equity
          \<and> positive_up_to (lk_risk_fraction k) hard_risk_fraction
          \<and> positive_up_to (lk_max_notional_dollars k) hard_max_notional_dollars
          \<and> positive_up_to (lk_max_planned_risk_dollars k) hard_max_risk_dollars
          \<and> 0 < lk_max_open_positions k \<and> lk_max_open_positions k \<le> hard_max_open_positions
          \<and> positive_up_to (lk_daily_loss_limit_dollars k) hard_daily_loss_limit_dollars
          \<and> \<not> lk_per_side_cost_bps k < Finite hard_min_per_side_cost_bps)"

subsection \<open>Manifests, bindings and snapshots\<close>

text \<open>\<^theory_text>\<open>^[a-z0-9][a-z0-9_./-]{0,127}$\<close> without two dots or two slashes in a row\<close>

fun namespace_pattern :: "string \<Rightarrow> bool" where
  "namespace_pattern [] = False"
| "namespace_pattern (c # cs) = (c \<in> set ''abcdefghijklmnopqrstuvwxyz0123456789'' \<and> length cs \<le> 127
     \<and> list_all (\<lambda>d. d \<in> set ''abcdefghijklmnopqrstuvwxyz0123456789_./-'') cs)"

definition lane_namespace :: "string \<Rightarrow> bool" where
  "lane_namespace s \<longleftrightarrow> namespace_pattern s
     \<and> pairwise_list (\<lambda>a b. \<not> (a = CHR ''.'' \<and> b = CHR ''.'') \<and> \<not> (a = CHR ''/'' \<and> b = CHR ''/'')) s"

record lane_manifest =
  lm_lane_id :: lane_id
  lm_manifest_version :: string
  lm_registered_at :: int
  lm_ledger_namespace :: string
  lm_strategy_ids :: "string list"
  lm_account_binding_mode :: account_binding_mode
  lm_execution_policy :: execution_policy
  lm_risk_contract :: lane_risk_contract

fun expected_enforcement :: "order_authority \<Rightarrow> risk_enforcement" where
  "expected_enforcement Authority_Alpaca_Paper = Enforce_Broker_Paper"
| "expected_enforcement Authority_Shadow_Only = Enforce_Shadow"
| "expected_enforcement Authority_None = Enforce_None"

definition valid_manifest :: "lane_manifest \<Rightarrow> bool" where
  "valid_manifest m \<longleftrightarrow>
     (let authority = policy_authority (lm_execution_policy m)
      in valid_risk_contract (lm_risk_contract m)
       \<and> policy_lane (lm_execution_policy m) = lm_lane_id m
       \<and> lm_account_binding_mode m = (if authority = Authority_Alpaca_Paper then Dedicated_Paper else Binding_Forbidden)
       \<and> lk_enforcement (lm_risk_contract m) = expected_enforcement authority
       \<and> py_identifier (lm_manifest_version m) \<and> lane_namespace (lm_ledger_namespace m)
       \<and> canonical_set True (lm_strategy_ids m))"

record account_binding =
  bn_lane_id :: lane_id
  bn_account_fingerprint :: sha
  bn_execution_ledger_fingerprint :: sha
  bn_bound_at :: int

definition valid_account_binding :: "account_binding \<Rightarrow> bool" where
  "valid_account_binding b \<longleftrightarrow> hex64 (bn_account_fingerprint b) \<and> hex64 (bn_execution_ledger_fingerprint b)"

definition allows_account_binding :: "lane_manifest \<Rightarrow> bool" where
  "allows_account_binding m \<longleftrightarrow> lm_account_binding_mode m = Dedicated_Paper
     \<and> policy_authority (lm_execution_policy m) = Authority_Alpaca_Paper
     \<and> lk_enforcement (lm_risk_contract m) = Enforce_Broker_Paper"

record lane_snapshot =
  ln_lane_id :: lane_id
  ln_session_date :: int
  ln_finalized_at :: int
  ln_manifest_key :: sha
  ln_scope_keys :: "sha list"
  ln_source_generation :: int
  ln_source_sha256 :: sha
  ln_champions :: "string list"
  ln_data_quality_complete :: bool
  ln_allocation_eligible :: bool
  ln_incidents :: "string list"
  ln_conservative_equity :: pynum
  ln_realized_pnl :: pynum
  ln_unrealized_pnl :: pynum
  ln_planned_open_risk :: pynum
  ln_open_order_count :: int
  ln_open_position_count :: int

definition snapshot_money :: "lane_snapshot \<Rightarrow> pynum list" where
  "snapshot_money s = [ln_conservative_equity s, ln_realized_pnl s, ln_unrealized_pnl s, ln_planned_open_risk s]"

definition valid_lane_snapshot :: "lane_snapshot \<Rightarrow> bool" where
  "valid_lane_snapshot s \<longleftrightarrow> hex64 (ln_manifest_key s) \<and> canonical_hashes True (ln_scope_keys s)
     \<and> 0 \<le> ln_source_generation s \<and> hex64 (ln_source_sha256 s)
     \<and> list_all is_finite (snapshot_money s) \<and> \<not> ln_conservative_equity s < Finite 0 \<and> \<not> ln_planned_open_risk s < Finite 0
     \<and> 0 \<le> ln_open_order_count s \<and> 0 \<le> ln_open_position_count s
     \<and> canonical_set False (ln_champions s)
     \<and> ln_incidents s = sorted_set (ln_incidents s) \<and> list_all nonblank_text (ln_incidents s)
     \<and> (ln_lane_id s = INTRADAY_MOMENTUM \<longrightarrow> ln_open_order_count s = 0 \<and> ln_open_position_count s = 0
          \<and> num_eq (ln_planned_open_risk s) (Finite 0))
     \<and> (ln_lane_id s = MARKET_REGIME \<longrightarrow> list_all (\<lambda>x. num_eq x (Finite 0)) (snapshot_money s)
          \<and> ln_open_order_count s = 0 \<and> ln_open_position_count s = 0)
     \<and> (ln_allocation_eligible s \<longrightarrow> ln_data_quality_complete s \<and> ln_incidents s = [] \<and> ln_champions s \<noteq> [])"

subsection \<open>The registry\<close>

record lane_keys =
  ly_manifest :: "lane_manifest \<Rightarrow> sha"
  ly_binding :: "account_binding \<Rightarrow> sha"
  ly_scope :: "experiment_scope \<Rightarrow> sha"
  ly_snapshot :: "lane_snapshot \<Rightarrow> sha"

record lane_registry =
  lg_manifests :: "(sha \<times> lane_manifest) list"
  lg_bindings :: "(sha \<times> account_binding) list"
  lg_scopes :: "(sha \<times> experiment_scope) list"
  lg_snapshots :: "(sha \<times> lane_snapshot) list"

datatype registry_error = Registry_Conflict | Invalid_Registry_Source

definition empty_registry :: lane_registry where
  "empty_registry = \<lparr> lg_manifests = [], lg_bindings = [], lg_scopes = [], lg_snapshots = [] \<rparr>"

text \<open>A row of the key exists, one of the same identity, or the row is new.\<close>

definition put_immutable ::
  "sha \<Rightarrow> 'a \<Rightarrow> ('a \<Rightarrow> bool) \<Rightarrow> (sha \<times> 'a) list \<Rightarrow> registry_error + (sha \<times> 'a) list \<times> bool" where
  "put_immutable key row same table =
     (case find (\<lambda>(k, _). k = key) table of
        Some (_, existing) \<Rightarrow> if existing = row then Inr (table, False) else Inl Registry_Conflict
      | None \<Rightarrow> if list_ex (\<lambda>(_, x). same x) table then Inl Registry_Conflict else Inr (table @ [(key, row)], True))"

definition register_manifest :: "lane_keys \<Rightarrow> lane_manifest \<Rightarrow> lane_registry \<Rightarrow> registry_error + lane_registry \<times> bool" where
  "register_manifest K m R = map_sum id (\<lambda>(t, created). (R \<lparr> lg_manifests := t \<rparr>, created))
     (put_immutable (ly_manifest K m) m (\<lambda>x. lm_lane_id x = lm_lane_id m \<and> lm_manifest_version x = lm_manifest_version m)
        (lg_manifests R))"

definition bind_account :: "lane_keys \<Rightarrow> account_binding \<Rightarrow> lane_registry \<Rightarrow> registry_error + lane_registry \<times> bool" where
  "bind_account K b R =
     (let manifests = filter (\<lambda>(_, m). lm_lane_id m = bn_lane_id b) (lg_manifests R)
      in if manifests = [] \<or> \<not> list_all (\<lambda>(_, m). allows_account_binding m) manifests then Inl Invalid_Registry_Source
         else map_sum id (\<lambda>(t, created). (R \<lparr> lg_bindings := t \<rparr>, created))
           (put_immutable (ly_binding K b) b (\<lambda>x. bn_lane_id x = bn_lane_id b
                \<or> bn_account_fingerprint x = bn_account_fingerprint b
                \<or> bn_execution_ledger_fingerprint x = bn_execution_ledger_fingerprint b) (lg_bindings R)))"

definition register_experiment_scope ::
  "lane_keys \<Rightarrow> experiment_scope \<Rightarrow> lane_registry \<Rightarrow> registry_error + lane_registry \<times> bool" where
  "register_experiment_scope K s R = map_sum id (\<lambda>(t, created). (R \<lparr> lg_scopes := t \<rparr>, created))
     (put_immutable (ly_scope K s) s (\<lambda>x. es_hypothesis_id x = es_hypothesis_id s) (lg_scopes R))"

definition append_daily_snapshot :: "lane_keys \<Rightarrow> lane_snapshot \<Rightarrow> lane_registry \<Rightarrow> registry_error + lane_registry \<times> bool" where
  "append_daily_snapshot K s R =
     (case find (\<lambda>(k, _). k = ln_manifest_key s) (lg_manifests R) of
        None \<Rightarrow> Inl Invalid_Registry_Source
      | Some (_, m) \<Rightarrow>
          if lm_lane_id m \<noteq> ln_lane_id s then Inl Invalid_Registry_Source
          else let scopes = concat (map (\<lambda>key. filter (\<lambda>(k, _). k = key) (lg_scopes R)) (ln_scope_keys s))
            in if length scopes \<noteq> length (ln_scope_keys s) \<or> list_ex (\<lambda>(_, x). ln_lane_id s \<notin> set (es_lanes x)) scopes
               then Inl Invalid_Registry_Source
               else map_sum id (\<lambda>(t, created). (R \<lparr> lg_snapshots := t \<rparr>, created))
                 (put_immutable (ly_snapshot K s) s (\<lambda>x. ln_lane_id x = ln_lane_id s \<and> ln_session_date x = ln_session_date s)
                    (lg_snapshots R)))"

definition daily_snapshot :: "lane_id \<Rightarrow> int \<Rightarrow> lane_registry \<Rightarrow> registry_error + (sha \<times> lane_snapshot) option" where
  "daily_snapshot lane date R =
     (case filter (\<lambda>(_, s). ln_lane_id s = lane \<and> ln_session_date s = date) (lg_snapshots R) of
        [] \<Rightarrow> Inr None | [row] \<Rightarrow> Inr (Some row) | _ \<Rightarrow> Inl Invalid_Registry_Source)"


subsection \<open>Runs\<close>

text \<open>A registered object has passed its validator: the models validate when they are built.\<close>

inductive registry_run :: "lane_keys \<Rightarrow> lane_registry \<Rightarrow> bool" for K where
  created: "registry_run K empty_registry"
| manifest: "registry_run K R \<Longrightarrow> valid_manifest m \<Longrightarrow> register_manifest K m R = Inr (R', b) \<Longrightarrow> registry_run K R'"
| binding: "registry_run K R \<Longrightarrow> valid_account_binding a \<Longrightarrow> bind_account K a R = Inr (R', b) \<Longrightarrow> registry_run K R'"
| scope: "registry_run K R \<Longrightarrow> valid_scope s \<Longrightarrow> register_experiment_scope K s R = Inr (R', b) \<Longrightarrow> registry_run K R'"
| snapshot: "registry_run K R \<Longrightarrow> valid_lane_snapshot s \<Longrightarrow> append_daily_snapshot K s R = Inr (R', b) \<Longrightarrow> registry_run K R'"

lemma put_immutableD:
  assumes "put_immutable key row same t = Inr (t', b)"
  shows "t' = t \<or> list_all (\<lambda>(_, x). \<not> same x) t \<and> t' = t @ [(key, row)]"
  using assms by (auto simp: put_immutable_def list_ex_iff list_all_iff split: option.splits if_splits)

text \<open>Only a manifest of the intraday lane allows an account.\<close>

lemma paper_manifest_is_intraday:
  "valid_manifest m \<Longrightarrow> allows_account_binding m \<Longrightarrow> lm_lane_id m = INTRADAY_MOMENTUM"
  by (cases "lm_execution_policy m") (auto simp: valid_manifest_def allows_account_binding_def Let_def)

definition within_paper_limits :: "lane_risk_contract \<Rightarrow> bool" where
  "within_paper_limits k \<longleftrightarrow> lk_enforcement k = Enforce_Broker_Paper
     \<and> positive_up_to (lk_reference_equity k) hard_reference_equity
     \<and> positive_up_to (lk_risk_fraction k) hard_risk_fraction
     \<and> positive_up_to (lk_max_notional_dollars k) hard_max_notional_dollars
     \<and> positive_up_to (lk_max_planned_risk_dollars k) hard_max_risk_dollars
     \<and> 0 < lk_max_open_positions k \<and> lk_max_open_positions k \<le> hard_max_open_positions
     \<and> positive_up_to (lk_daily_loss_limit_dollars k) hard_daily_loss_limit_dollars"

lemma paper_manifest_limits:
  "valid_manifest m \<Longrightarrow> allows_account_binding m \<Longrightarrow> within_paper_limits (lm_risk_contract m)"
  by (auto simp: valid_manifest_def allows_account_binding_def valid_risk_contract_def within_paper_limits_def Let_def)

definition snapshot_rooted :: "lane_registry \<Rightarrow> lane_snapshot \<Rightarrow> bool" where
  "snapshot_rooted R s \<longleftrightarrow> valid_lane_snapshot s
     \<and> (\<exists>m. (ln_manifest_key s, m) \<in> set (lg_manifests R) \<and> lm_lane_id m = ln_lane_id s)"

definition bindings_ok :: "lane_registry \<Rightarrow> bool" where
  "bindings_ok R \<longleftrightarrow> length (lg_bindings R) \<le> 1
     \<and> (\<forall>(_, b) \<in> set (lg_bindings R). bn_lane_id b = INTRADAY_MOMENTUM
          \<and> (\<exists>(_, m) \<in> set (lg_manifests R). lm_lane_id m = INTRADAY_MOMENTUM \<and> allows_account_binding m
               \<and> within_paper_limits (lm_risk_contract m)))"

definition snapshots_ok :: "lane_registry \<Rightarrow> bool" where
  "snapshots_ok R \<longleftrightarrow> distinct (map (\<lambda>(_, s). (ln_lane_id s, ln_session_date s)) (lg_snapshots R))
     \<and> (\<forall>(_, s) \<in> set (lg_snapshots R). snapshot_rooted R s)"

definition registry_ok :: "lane_registry \<Rightarrow> bool" where
  "registry_ok R \<longleftrightarrow> (\<forall>(_, m) \<in> set (lg_manifests R). valid_manifest m) \<and> bindings_ok R \<and> snapshots_ok R"

lemma registry_ok_manifests:
  assumes "registry_ok R" "set (lg_manifests R) \<subseteq> set ms" "\<forall>(_, m) \<in> set ms. valid_manifest m"
  shows "registry_ok (R \<lparr> lg_manifests := ms \<rparr>)"
  using assms unfolding registry_ok_def bindings_ok_def snapshots_ok_def snapshot_rooted_def by fastforce

lemma bound_lane:
  assumes "registry_ok R" "bind_account K b R = Inr (R', c)" "R' \<noteq> R"
  shows "bn_lane_id b = INTRADAY_MOMENTUM \<and> lg_bindings R = [] \<and> R' = R \<lparr> lg_bindings := [(ly_binding K b, b)] \<rparr>
    \<and> (\<exists>(_, m) \<in> set (lg_manifests R). lm_lane_id m = INTRADAY_MOMENTUM \<and> allows_account_binding m
         \<and> within_paper_limits (lm_risk_contract m))"
proof -
  let ?ms = "filter (\<lambda>(_, m). lm_lane_id m = bn_lane_id b) (lg_manifests R)"
  obtain t where t: "?ms \<noteq> []" "list_all (\<lambda>(_, m). allows_account_binding m) ?ms" "R' = R \<lparr> lg_bindings := t \<rparr>"
      "put_immutable (ly_binding K b) b (\<lambda>x. bn_lane_id x = bn_lane_id b
          \<or> bn_account_fingerprint x = bn_account_fingerprint b
          \<or> bn_execution_ledger_fingerprint x = bn_execution_ledger_fingerprint b) (lg_bindings R) = Inr (t, c)"
    using assms(2) by (auto simp: bind_account_def Let_def map_sum_def split: if_splits sum.splits)
  obtain k m where "(k, m) \<in> set ?ms" using hd_in_set [OF t(1)] by (metis surj_pair)
  then have m: "(k, m) \<in> set (lg_manifests R)" "lm_lane_id m = bn_lane_id b" "allows_account_binding m"
    using t(2) by (auto simp: list_all_iff)
  have valid: "valid_manifest m" using assms(1) m(1) by (auto simp: registry_ok_def)
  have lane: "bn_lane_id b = INTRADAY_MOMENTUM" using paper_manifest_is_intraday [OF valid m(3)] m(2) by simp
  have "t \<noteq> lg_bindings R" using t(3) assms(3) by auto
  then have new: "list_all (\<lambda>(_, x). bn_lane_id x \<noteq> bn_lane_id b) (lg_bindings R)" "t = lg_bindings R @ [(ly_binding K b, b)]"
    using put_immutableD [OF t(4)] by (auto simp: list_all_iff)
  have "lg_bindings R = []"
    using new(1) lane assms(1) by (cases "lg_bindings R") (auto simp: registry_ok_def bindings_ok_def)
  then show ?thesis using lane new(2) t(3) m(1,2) m(3) paper_manifest_limits [OF valid m(3)] by auto
qed

lemma appended_snapshot:
  assumes "append_daily_snapshot K s R = Inr (R', c)" "R' \<noteq> R"
  shows "list_all (\<lambda>(_, x). \<not> (ln_lane_id x = ln_lane_id s \<and> ln_session_date x = ln_session_date s)) (lg_snapshots R)
    \<and> R' = R \<lparr> lg_snapshots := lg_snapshots R @ [(ly_snapshot K s, s)] \<rparr>
    \<and> (\<exists>m. (ln_manifest_key s, m) \<in> set (lg_manifests R) \<and> lm_lane_id m = ln_lane_id s)"
proof -
  obtain k m t where f: "find (\<lambda>(k, _). k = ln_manifest_key s) (lg_manifests R) = Some (k, m)" "lm_lane_id m = ln_lane_id s"
      "put_immutable (ly_snapshot K s) s (\<lambda>x. ln_lane_id x = ln_lane_id s \<and> ln_session_date x = ln_session_date s)
         (lg_snapshots R) = Inr (t, c)" "R' = R \<lparr> lg_snapshots := t \<rparr>"
    using assms(1) by (auto simp: append_daily_snapshot_def Let_def map_sum_def split: option.splits if_splits sum.splits)
  have "(k, m) \<in> set (lg_manifests R)" "k = ln_manifest_key s"
    using f(1) by (auto simp: find_Some_iff dest: nth_mem)
  moreover have "t \<noteq> lg_snapshots R" using f(4) assms(2) by auto
  ultimately show ?thesis using put_immutableD [OF f(3)] f(2,4) by auto
qed

lemma registry_run_ok: "registry_run K R \<Longrightarrow> registry_ok R"
proof (induction rule: registry_run.induct)
  case created
  show ?case by (simp add: registry_ok_def bindings_ok_def snapshots_ok_def empty_registry_def)
next
  case (manifest R m R' b)
  then obtain t where t: "R' = R \<lparr> lg_manifests := t \<rparr>" "t = lg_manifests R \<or> t = lg_manifests R @ [(ly_manifest K m, m)]"
    using put_immutableD by (fastforce simp: register_manifest_def map_sum_def split: sum.splits)
  then have "set (lg_manifests R) \<subseteq> set t" "\<forall>(_, x) \<in> set t. valid_manifest x"
    using manifest by (auto simp: registry_ok_def)
  then show ?case using registry_ok_manifests [OF manifest.IH] t(1) by simp
next
  case (binding R a R' b)
  show ?case
  proof (cases "R' = R")
    case False
    from bound_lane [OF binding.IH binding.hyps(3) False] binding.IH show ?thesis
      by (auto simp: registry_ok_def bindings_ok_def snapshots_ok_def snapshot_rooted_def)
  qed (use binding in simp)
next
  case (scope R s R' b)
  then show ?case
    by (auto simp: register_experiment_scope_def map_sum_def registry_ok_def bindings_ok_def snapshots_ok_def snapshot_rooted_def
        split: sum.splits)
next
  case (snapshot R s R' b)
  show ?case
  proof (cases "R' = R")
    case False
    from appended_snapshot [OF snapshot.hyps(3) False] snapshot show ?thesis
      by (auto simp: registry_ok_def bindings_ok_def snapshots_ok_def snapshot_rooted_def list_all_iff)
  qed (use snapshot in simp)
qed

text \<open>C37.  Lanes stay apart: whatever was registered, at most one account is ever bound, only to the
  intraday lane, and a manifest of that lane allows it whose risk contract lies within the hard limits
  of the paper execution; a lane has at most one snapshot of a day, made under a registered manifest
  of that lane, and an intraday snapshot is flat.\<close>

theorem lanes_stay_apart:
  assumes "registry_run K R"
  shows "length (lg_bindings R) \<le> 1
    \<and> (\<forall>(_, b) \<in> set (lg_bindings R). bn_lane_id b = INTRADAY_MOMENTUM
        \<and> (\<exists>(_, m) \<in> set (lg_manifests R). lm_lane_id m = INTRADAY_MOMENTUM \<and> within_paper_limits (lm_risk_contract m)))
    \<and> (\<forall>lane date. \<exists>row. daily_snapshot lane date R = Inr row
        \<and> (case row of None \<Rightarrow> True
           | Some (_, s) \<Rightarrow> ln_lane_id s = lane \<and> ln_session_date s = date
               \<and> (\<exists>m. (ln_manifest_key s, m) \<in> set (lg_manifests R) \<and> lm_lane_id m = lane)
               \<and> (lane = INTRADAY_MOMENTUM \<longrightarrow> ln_open_order_count s = 0 \<and> ln_open_position_count s = 0
                    \<and> ln_planned_open_risk s = Finite 0)))"
proof -
  have ok: "registry_ok R" using assms by (rule registry_run_ok)
  have read: "\<exists>row. daily_snapshot lane date R = Inr row
        \<and> (case row of None \<Rightarrow> True
           | Some (_, s) \<Rightarrow> ln_lane_id s = lane \<and> ln_session_date s = date \<and> snapshot_rooted R s)" for lane date
  proof (cases "filter (\<lambda>(_, s). ln_lane_id s = lane \<and> ln_session_date s = date) (lg_snapshots R)")
    case Nil then show ?thesis by (simp add: daily_snapshot_def)
  next
    case (Cons x xs)
    have "distinct (map (\<lambda>(_, s). (ln_lane_id s, ln_session_date s)) (x # xs))"
      unfolding Cons [symmetric] using ok by (auto simp: registry_ok_def snapshots_ok_def intro: distinct_map_filter)
    moreover have "\<forall>y \<in> set (x # xs). case y of (_, s) \<Rightarrow> ln_lane_id s = lane \<and> ln_session_date s = date \<and> snapshot_rooted R s"
      unfolding Cons [symmetric] using ok by (auto simp: registry_ok_def snapshots_ok_def)
    ultimately show ?thesis using Cons by (cases xs) (auto simp: daily_snapshot_def)
  qed
  have flat: "\<exists>row. daily_snapshot lane date R = Inr row
        \<and> (case row of None \<Rightarrow> True
           | Some (_, s) \<Rightarrow> ln_lane_id s = lane \<and> ln_session_date s = date
               \<and> (\<exists>m. (ln_manifest_key s, m) \<in> set (lg_manifests R) \<and> lm_lane_id m = lane)
               \<and> (lane = INTRADAY_MOMENTUM \<longrightarrow> ln_open_order_count s = 0 \<and> ln_open_position_count s = 0
                    \<and> ln_planned_open_risk s = Finite 0))" for lane date
  proof -
    obtain row where row: "daily_snapshot lane date R = Inr row" "case row of None \<Rightarrow> True
         | Some (_, s) \<Rightarrow> ln_lane_id s = lane \<and> ln_session_date s = date \<and> snapshot_rooted R s" using read by blast
    show ?thesis
      by (rule exI [of _ row]) (use row in \<open>auto simp: snapshot_rooted_def valid_lane_snapshot_def split: option.splits\<close>)
  qed
  have bound: "\<forall>(_, b) \<in> set (lg_bindings R). bn_lane_id b = INTRADAY_MOMENTUM
        \<and> (\<exists>(_, m) \<in> set (lg_manifests R). lm_lane_id m = INTRADAY_MOMENTUM \<and> within_paper_limits (lm_risk_contract m))"
    using ok by (fastforce simp: registry_ok_def bindings_ok_def)
  have "length (lg_bindings R) \<le> 1" using ok by (simp add: registry_ok_def bindings_ok_def)
  then show ?thesis using bound flat by blast
qed


subsection \<open>The registered defaults\<close>

definition intraday_pilot_risk_contract :: lane_risk_contract where
  "intraday_pilot_risk_contract = \<lparr> lk_enforcement = Enforce_Broker_Paper, lk_reference_equity = Finite 30000,
     lk_risk_fraction = Finite (3333333333333333 / 10 ^ 19), lk_max_notional_dollars = Finite 100,
     lk_max_planned_risk_dollars = Finite 10, lk_max_open_positions = 1, lk_daily_loss_limit_dollars = Finite 30,
     lk_per_side_cost_bps = Finite 20 \<rparr>"

text \<open>Registered on 15 July 2026, 01:00:05 UTC.\<close>

definition intraday_manifest :: lane_manifest where
  "intraday_manifest = \<lparr> lm_lane_id = INTRADAY_MOMENTUM, lm_manifest_version = ''1.0.1'',
     lm_registered_at = combine (ymd2ord 2026 7 15) (hour_us + 5 * second_us),
     lm_ledger_namespace = ''execution/intraday_momentum'',
     lm_strategy_ids = [''gap_and_go'', ''hod_breakout'', ''orb'', ''vwap_reclaim''],
     lm_account_binding_mode = Dedicated_Paper, lm_execution_policy = Intraday_Policy,
     lm_risk_contract = intraday_pilot_risk_contract \<rparr>"

definition single_lane_experiment_scope :: "lane_id \<Rightarrow> string \<Rightarrow> int \<Rightarrow> experiment_scope" where
  "single_lane_experiment_scope lane hypothesis_id registered_at = \<lparr> es_kind = SINGLE_LANE, es_hypothesis_id = hypothesis_id,
     es_primary_lane = lane, es_lanes = [lane], es_source_hypothesis_ids = [], es_combination_rule = None,
     es_registered_at = registered_at \<rparr>"

text \<open>\<^theory_text>\<open>current_intraday_experiment_scope("H-MOM-ORB-001")\<close>, registered on 14 July 2026.\<close>

definition orb_scope :: experiment_scope where
  "orb_scope = single_lane_experiment_scope INTRADAY_MOMENTUM ''H-MOM-ORB-001'' (combine (ymd2ord 2026 7 14) 0)"

definition sample_lane_keys :: lane_keys where
  "sample_lane_keys = \<lparr> ly_manifest = (\<lambda>_. hex_id 1), ly_binding = (\<lambda>_. hex_id 2), ly_scope = (\<lambda>_. hex_id 3),
     ly_snapshot = (\<lambda>_. hex_id 4) \<rparr>"

definition sample_account :: account_binding where
  "sample_account = \<lparr> bn_lane_id = INTRADAY_MOMENTUM, bn_account_fingerprint = hex_id 5,
     bn_execution_ledger_fingerprint = hex_id 6, bn_bound_at = 0 \<rparr>"

lemma intraday_manifest_valid: "valid_manifest intraday_manifest"
  by code_simp

lemma sample_account_valid: "valid_account_binding sample_account"
  by code_simp

theorem lanes_stay_apart_witness:
  "\<exists>R. registry_run sample_lane_keys R \<and> length (lg_bindings R) = 1
     \<and> (\<exists>(_, m) \<in> set (lg_manifests R). within_paper_limits (lm_risk_contract m))"
proof -
  define R where "R = empty_registry \<lparr> lg_manifests := [(hex_id 1, intraday_manifest)], lg_bindings := [(hex_id 2, sample_account)] \<rparr>"
  have "register_manifest sample_lane_keys intraday_manifest empty_registry
      = Inr (empty_registry \<lparr> lg_manifests := [(hex_id 1, intraday_manifest)] \<rparr>, True)"
    by (simp add: register_manifest_def put_immutable_def sample_lane_keys_def empty_registry_def)
  moreover have "bind_account sample_lane_keys sample_account (empty_registry \<lparr> lg_manifests := [(hex_id 1, intraday_manifest)] \<rparr>)
      = Inr (R, True)"
    by (simp add: bind_account_def put_immutable_def sample_lane_keys_def empty_registry_def R_def sample_account_def
        intraday_manifest_def allows_account_binding_def intraday_pilot_risk_contract_def)
  ultimately have run: "registry_run sample_lane_keys R"
    using registry_run.created registry_run.manifest registry_run.binding intraday_manifest_valid sample_account_valid by blast
  then show ?thesis using lanes_stay_apart [OF run] by (auto simp: R_def empty_registry_def)
qed

end
