(* ===== verification/Lane_Review.thy ===== *)
theory Lane_Review
  imports Adaptive_Evaluation Lane_Registry
begin

text \<open>
  The daily review of the intraday lane: \<^verbatim>\<open>trading_agent/lane_review_models.py\<close>,
  \<^verbatim>\<open>lane_review_store.py\<close>, \<^verbatim>\<open>lane_reviewer.py\<close> and the contract of the opening
  range strategy in \<^verbatim>\<open>daily_research_contract.py\<close>.
\<close>

subsection \<open>The contract under review\<close>

definition evaluator_version :: string where
  "evaluator_version = ''paper_metrics_day_block_bootstrap_v2''"

definition current_data_contract :: "string list" where
  "current_data_contract = [''completed_bars_only=true'', ''point_in_time_candidate_inputs=true'', ''source=KIS_read_only_rankings'']"

definition current_cost_model :: "string list" where
  "current_cost_model = [''side_cost_bps=5,10,20'', ''same_bar_stop_target=stop_first'', ''time_exit=last_completed_bar_fallback'']"

definition shadow_portfolio_policy :: "string list" where
  "shadow_portfolio_policy = [''max_ranked_candidates=10'', ''max_one_symbol_strategy_recommendation_per_day'', ''broker_orders=false'']"

definition orb_parameter_set :: "string list" where
  "orb_parameter_set = [''scanner_min_gap_pct=0.04'', ''scanner_min_change_pct=0.04'', ''scanner_min_relative_volume=2.0'',
     ''scanner_price=1..200'', ''scanner_min_dollar_volume=500000'', ''scanner_max_spread_bps=100'', ''risk_max_loss_pct=0.05'',
     ''target_2r_multiple=2.0'', ''range_minutes=5'', ''breakout_buffer_bps=5'', ''volume_multiplier=1.5'']"

definition orb_strategy_version :: string where
  "orb_strategy_version = ''orb_5m_buffer5bp_volume1.5_v1''"

text \<open>\<^theory_text>\<open>strategy_version_identity(StrategyMode.ORB, code)\<close>; \<open>None\<close> where it raises.\<close>

definition orb_version_identity :: "(string \<Rightarrow> string) \<Rightarrow> string \<Rightarrow> string option" where
  "orb_version_identity digest code =
     (if nonblank_text code then Some (orb_strategy_version @ ''-code-'' @ take 12 (digest code)) else None)"

subsection \<open>Reviews\<close>

datatype reviewer_action = Continue_Collection | Stop_Recommended | Diagnosis_Required | Review_Comparison_Ready
  | Promotion_Review_Blocked

record lane_review =
  lv_lane_id :: lane_id
  lv_session_date :: int
  lv_snapshot_key :: sha
  lv_scope_key :: sha
  lv_daily_record_id :: sha
  lv_daily_record_sha256 :: sha
  lv_adaptive_sha256 :: sha
  lv_strategy_version :: string
  lv_evaluator_version :: string
  lv_reviewer_version :: string
  lv_adaptive_action :: adaptive_action
  lv_reviewer_action :: reviewer_action
  lv_reasons :: "string list"
  lv_blockers :: "string list"
  lv_reviewed_at :: int

definition lane_reviewer_version :: string where
  "lane_reviewer_version = ''lane_reviewer_v1''"

definition canonical_texts :: "string list \<Rightarrow> bool" where
  "canonical_texts values \<longleftrightarrow> values = sorted_set values \<and> list_all nonblank_text values"

definition valid_review :: "lane_review \<Rightarrow> bool" where
  "valid_review r \<longleftrightarrow>
     list_all hex64 [lv_snapshot_key r, lv_scope_key r, lv_daily_record_id r, lv_daily_record_sha256 r, lv_adaptive_sha256 r]
     \<and> list_all py_identifier [lv_strategy_version r, lv_evaluator_version r, lv_reviewer_version r]
     \<and> canonical_texts (lv_reasons r) \<and> canonical_texts (lv_blockers r)"

type_synonym review_ledger = "(sha \<times> lane_review) list"

datatype review_error = Review_Conflict | Invalid_Review_Source | Invalid_Review

definition same_review :: "lane_review \<Rightarrow> lane_review \<Rightarrow> bool" where
  "same_review a b \<longleftrightarrow> lv_snapshot_key a = lv_snapshot_key b \<and> lv_scope_key a = lv_scope_key b
     \<and> lv_reviewer_version a = lv_reviewer_version b"

definition append_review :: "(lane_review \<Rightarrow> sha) \<Rightarrow> lane_review \<Rightarrow> review_ledger \<Rightarrow> review_error + review_ledger \<times> bool" where
  "append_review key r reviews =
     (if \<not> valid_review r then Inl Invalid_Review
      else case find (\<lambda>(k, _). k = key r) reviews of
        Some (_, existing) \<Rightarrow> if existing = r then Inr (reviews, False) else Inl Review_Conflict
      | None \<Rightarrow> if list_ex (\<lambda>(_, x). same_review x r) reviews then Inl Review_Conflict else Inr (reviews @ [(key r, r)], True))"

definition review_event ::
  "(lane_review \<Rightarrow> sha) \<Rightarrow> sha \<Rightarrow> sha \<Rightarrow> string \<Rightarrow> review_ledger \<Rightarrow> review_error + (sha \<times> lane_review) option" where
  "review_event key snapshot_key scope_key reviewer_version reviews =
     (case filter (\<lambda>(_, r). lv_snapshot_key r = snapshot_key \<and> lv_scope_key r = scope_key
              \<and> lv_reviewer_version r = reviewer_version) reviews of
        [] \<Rightarrow> Inr None
      | [(k, r)] \<Rightarrow> if k = key r then Inr (Some (k, r)) else Inl Invalid_Review_Source
      | _ \<Rightarrow> Inl Invalid_Review_Source)"

subsection \<open>The reviewer\<close>

fun expected_reviewer_action :: "adaptive_action \<Rightarrow> reviewer_action" where
  "expected_reviewer_action COLLECTING = Continue_Collection"
| "expected_reviewer_action SHADOW_CONTINUE = Continue_Collection"
| "expected_reviewer_action EARLY_STOP = Stop_Recommended"
| "expected_reviewer_action SUSPEND = Stop_Recommended"
| "expected_reviewer_action DIAGNOSE = Diagnosis_Required"
| "expected_reviewer_action COMPARISON_READY = Review_Comparison_Ready"
| "expected_reviewer_action PROMOTION_REVIEW = Promotion_Review_Blocked"

text \<open>The daily record the reviewer loads, as far as it reads it, with the hash of its file.\<close>

record daily_record =
  dr_record_id :: sha
  dr_raw_sha256 :: sha
  dr_recorded_at :: pydt
  dr_scope :: experiment_scope
  dr_strategy_version :: string
  dr_code_version :: string
  dr_evaluator_version :: string
  dr_promotion_blockers :: "string list"

record review_keys =
  rk_lanes :: lane_keys
  rk_review :: "lane_review \<Rightarrow> sha"
  rk_evaluation :: "adaptive_evaluation \<Rightarrow> sha"
  rk_digest :: "string \<Rightarrow> string"

definition review_snapshot_ok :: "review_keys \<Rightarrow> int \<Rightarrow> int \<Rightarrow> sha \<times> lane_snapshot \<Rightarrow> bool" where
  "review_snapshot_ok K session_date reviewed_at = (\<lambda>(key, s).
     key = ly_snapshot (rk_lanes K) s \<and> ln_lane_id s = INTRADAY_MOMENTUM \<and> ln_session_date s = session_date
     \<and> ln_manifest_key s = ly_manifest (rk_lanes K) intraday_manifest
     \<and> ln_scope_keys s = [ly_scope (rk_lanes K) orb_scope]
     \<and> ln_open_order_count s = 0 \<and> ln_open_position_count s = 0 \<and> num_eq (ln_planned_open_risk s) (Finite 0)
     \<and> num_eq (ln_unrealized_pnl s) (Finite 0) \<and> ln_finalized_at s \<le> reviewed_at)"

definition review_record_ok :: "review_keys \<Rightarrow> int \<Rightarrow> daily_record \<Rightarrow> bool" where
  "review_record_ok K reviewed_at d \<longleftrightarrow> dr_scope d = orb_scope
     \<and> Some (dr_strategy_version d) = orb_version_identity (rk_digest K) (dr_code_version d)
     \<and> dr_evaluator_version d = evaluator_version \<and> is_aware (dr_recorded_at d) \<and> instant (dr_recorded_at d) \<le> reviewed_at"

definition review_blockers :: "lane_snapshot \<Rightarrow> daily_record \<Rightarrow> adaptive_evaluation \<Rightarrow> string list" where
  "review_blockers s d e = sorted_set (ln_incidents s @ dr_promotion_blockers d @ av_proof_blockers e
     @ (if ln_data_quality_complete s then [] else [''data_quality_incomplete''])
     @ (if ln_champions s = [] then [''champion_missing''] else [])
     @ (if ln_allocation_eligible s then [] else [''allocation_ineligible''])
     @ (if av_action e = PROMOTION_REVIEW then [''automatic_promotion_forbidden''] else []))"

text \<open>\<open>record\<close> and \<open>evaluation\<close> are what the files of the session hold; \<open>None\<close> where one cannot
  be loaded.\<close>

definition build_review ::
  "review_keys \<Rightarrow> lane_registry \<Rightarrow> review_ledger \<Rightarrow> daily_record option \<Rightarrow> adaptive_evaluation option \<Rightarrow> int \<Rightarrow> pydt
     \<Rightarrow> lane_review option" where
  "build_review K registry reviews daily evaluation session_date reviewed_at =
     (case (is_aware reviewed_at, daily_snapshot INTRADAY_MOMENTUM session_date registry, daily, evaluation) of
        (True, Inr (Some (key, s)), Some d, Some e) \<Rightarrow>
          if \<not> review_snapshot_ok K session_date (instant reviewed_at) (key, s) then None
          else if \<not> review_record_ok K (instant reviewed_at) d then None
          else if av_as_of e \<noteq> session_date \<or> av_strategy_version e \<noteq> dr_strategy_version d
            \<or> av_evaluator_version e \<noteq> dr_evaluator_version d then None
          else (case review_event (rk_review K) key (ly_scope (rk_lanes K) orb_scope) lane_reviewer_version reviews of
              Inl _ \<Rightarrow> None
            | Inr existing \<Rightarrow>
                (let r = \<lparr> lv_lane_id = INTRADAY_MOMENTUM, lv_session_date = session_date, lv_snapshot_key = key,
                       lv_scope_key = ly_scope (rk_lanes K) orb_scope, lv_daily_record_id = dr_record_id d,
                       lv_daily_record_sha256 = dr_raw_sha256 d, lv_adaptive_sha256 = rk_evaluation K e,
                       lv_strategy_version = dr_strategy_version d, lv_evaluator_version = dr_evaluator_version d,
                       lv_reviewer_version = lane_reviewer_version, lv_adaptive_action = av_action e,
                       lv_reviewer_action = expected_reviewer_action (av_action e),
                       lv_reasons = sorted_set (av_reasons e), lv_blockers = review_blockers s d e,
                       lv_reviewed_at = (case existing of None \<Rightarrow> instant reviewed_at | Some (_, x) \<Rightarrow> lv_reviewed_at x) \<rparr>
                 in if valid_review r then Some r else None))
      | _ \<Rightarrow> None)"

definition review_intraday_lane_day ::
  "review_keys \<Rightarrow> lane_registry \<Rightarrow> review_ledger \<Rightarrow> daily_record option \<Rightarrow> adaptive_evaluation option \<Rightarrow> int \<Rightarrow> pydt
     \<Rightarrow> review_error + review_ledger \<times> bool \<times> lane_review" where
  "review_intraday_lane_day K registry reviews daily evaluation session_date reviewed_at =
     (case build_review K registry reviews daily evaluation session_date reviewed_at of
        None \<Rightarrow> Inl Invalid_Review
      | Some r \<Rightarrow> map_sum id (\<lambda>(ledger, created). (ledger, created, r)) (append_review (rk_review K) r reviews))"

text \<open>What a review that was built says.\<close>

lemma build_reviewD:
  assumes "build_review K registry reviews daily evaluation session_date reviewed_at = Some r"
  obtains key s e where "daily_snapshot INTRADAY_MOMENTUM session_date registry = Inr (Some (key, s))" "evaluation = Some e"
    "lv_snapshot_key r = key" "lv_scope_key r = ly_scope (rk_lanes K) orb_scope" "lv_reviewer_version r = lane_reviewer_version"
    "lv_adaptive_action r = av_action e"
proof -
  have aware: "is_aware reviewed_at" using assms by (cases "is_aware reviewed_at") (auto simp: build_review_def)
  obtain d e where files: "daily = Some d" "evaluation = Some e"
    using assms aware by (auto simp: build_review_def split: sum.splits option.splits)
  obtain key s where row: "daily_snapshot INTRADAY_MOMENTUM session_date registry = Inr (Some (key, s))"
    using assms by (auto simp: build_review_def aware files split: sum.splits option.splits)
  obtain existing where old: "review_event (rk_review K) key (ly_scope (rk_lanes K) orb_scope) lane_reviewer_version reviews = Inr existing"
    using assms by (simp add: build_review_def aware files row split: sum.splits if_splits)
  have "r = \<lparr> lv_lane_id = INTRADAY_MOMENTUM, lv_session_date = session_date, lv_snapshot_key = key,
      lv_scope_key = ly_scope (rk_lanes K) orb_scope, lv_daily_record_id = dr_record_id d,
      lv_daily_record_sha256 = dr_raw_sha256 d, lv_adaptive_sha256 = rk_evaluation K e,
      lv_strategy_version = dr_strategy_version d, lv_evaluator_version = dr_evaluator_version d,
      lv_reviewer_version = lane_reviewer_version, lv_adaptive_action = av_action e,
      lv_reviewer_action = expected_reviewer_action (av_action e), lv_reasons = sorted_set (av_reasons e),
      lv_blockers = review_blockers s d e,
      lv_reviewed_at = (case existing of None \<Rightarrow> instant reviewed_at | Some (_, x) \<Rightarrow> lv_reviewed_at x) \<rparr>"
    using assms unfolding build_review_def by (simp add: aware files row old Let_def split: if_splits)
  then show thesis by (intro that [OF row files(2)]) simp_all
qed

lemma append_review_member:
  assumes "append_review key r reviews = Inr (reviews', created)"
  shows "r \<in> snd ` set reviews'"
proof (cases "find (\<lambda>(k, _). k = key r) reviews")
  case None then show ?thesis using assms by (auto simp: append_review_def split: if_splits)
next
  case (Some row)
  then have "row \<in> set reviews" by (auto simp: find_Some_iff in_set_conv_nth)
  moreover have "reviews' = reviews \<and> snd row = r"
    using assms Some by (cases row) (simp add: append_review_def split: if_splits)
  ultimately show ?thesis by blast
qed

lemma review_eventD:
  assumes "review_event key snapshot_key scope_key version reviews = Inr (Some row)"
  shows "{x \<in> set reviews. lv_snapshot_key (snd x) = snapshot_key \<and> lv_scope_key (snd x) = scope_key
    \<and> lv_reviewer_version (snd x) = version} = {row}"
proof -
  have "filter (\<lambda>(_, r). lv_snapshot_key r = snapshot_key \<and> lv_scope_key r = scope_key \<and> lv_reviewer_version r = version) reviews = [row]"
    using assms by (auto simp: review_event_def split: list.splits prod.splits if_splits)
  from arg_cong [OF this, of set] show ?thesis by (auto simp: case_prod_beta)
qed

lemma review_dayD:
  assumes "review_intraday_lane_day K registry reviews daily evaluation session_date reviewed_at = Inr (reviews', created, r)"
  shows "build_review K registry reviews daily evaluation session_date reviewed_at = Some r"
    "append_review (rk_review K) r reviews = Inr (reviews', created)"
proof -
  obtain made where made: "build_review K registry reviews daily evaluation session_date reviewed_at = Some made"
    using assms by (cases "build_review K registry reviews daily evaluation session_date reviewed_at")
      (simp_all add: review_intraday_lane_day_def)
  then have "map_sum id (\<lambda>(ledger, created). (ledger, created, made)) (append_review (rk_review K) made reviews)
      = Inr (reviews', created, r)"
    using assms by (simp add: review_intraday_lane_day_def)
  then have "append_review (rk_review K) made reviews = Inr (reviews', created)" "made = r"
    by (cases "append_review (rk_review K) made reviews"; auto)+
  then show "build_review K registry reviews daily evaluation session_date reviewed_at = Some r"
    "append_review (rk_review K) r reviews = Inr (reviews', created)" using made by simp_all
qed

end
