(* ===== verification/Experiment_Ledger.thy ===== *)
theory Experiment_Ledger
  imports Experiment_Models "HOL-Library.Multiset"
begin

text \<open>
  The experiment ledger: the registrations, trials and lifecycle events of
  \<^verbatim>\<open>trading_agent/experiment_ledger_store.py\<close> and the champion authority of
  \<^verbatim>\<open>lifecycle_authority_policy.py\<close>.  A table is the list of its rows, each with its content
  key, in the order of insertion; a row is what its codec returns.  The content keys are parameters.
\<close>

record experiment_keys =
  ek_scope :: "experiment_scope \<Rightarrow> sha"
  ek_hypothesis :: "hypothesis_registration \<Rightarrow> sha"
  ek_version :: "version_registration \<Rightarrow> sha"
  ek_binding :: "authority_binding \<Rightarrow> sha"
  ek_trial :: "trial_registration \<Rightarrow> sha"
  ek_trial_event :: "trial_event \<Rightarrow> sha"
  ek_lifecycle :: "lifecycle_event \<Rightarrow> sha"

record experiment_ledger =
  xl_hypotheses :: "(sha \<times> hypothesis_registration) list"
  xl_versions :: "(sha \<times> version_registration) list"
  xl_bindings :: "(sha \<times> authority_binding) list"
  xl_trials :: "(sha \<times> trial_registration) list"
  xl_trial_events :: "(sha \<times> trial_event) list"
  xl_lifecycle :: "(sha \<times> lifecycle_event) list"

datatype ledger_error = Ledger_Conflict | Invalid_Ledger_Source

definition empty_ledger :: experiment_ledger where
  "empty_ledger = \<lparr> xl_hypotheses = [], xl_versions = [], xl_bindings = [], xl_trials = [], xl_trial_events = [],
     xl_lifecycle = [] \<rparr>"

subsection \<open>Tables\<close>

definition insert_immutable :: "sha \<Rightarrow> 'a \<Rightarrow> (sha \<times> 'a) list \<Rightarrow> ledger_error + (sha \<times> 'a) list" where
  "insert_immutable key row table = (if key \<in> fst ` set table then Inl Ledger_Conflict else Inr (table @ [(key, row)]))"

definition row_of :: "('a \<Rightarrow> 'b) \<Rightarrow> 'b \<Rightarrow> (sha \<times> 'a) list \<Rightarrow> (sha \<times> 'a) option" where
  "row_of ident i table = find (\<lambda>(_, x). ident x = i) table"

text \<open>Registering the same row again changes nothing; another row of the same identity is a conflict.\<close>

definition register_row ::
  "('a \<Rightarrow> sha) \<Rightarrow> ('a \<Rightarrow> 'b) \<Rightarrow> 'a \<Rightarrow> (sha \<times> 'a) list \<Rightarrow> ledger_error + (sha \<times> 'a) list \<times> bool" where
  "register_row key ident x table =
     (case row_of ident (ident x) table of
        Some existing \<Rightarrow> if existing = (key x, x) then Inr (table, False) else Inl Ledger_Conflict
      | None \<Rightarrow> map_sum id (\<lambda>t. (t, True)) (insert_immutable (key x) x table))"

abbreviation hypothesis_row where "hypothesis_row L i \<equiv> row_of hr_hypothesis_id i (xl_hypotheses L)"
abbreviation version_row where "version_row L i \<equiv> row_of vr_strategy_version i (xl_versions L)"
abbreviation binding_row where "binding_row L i \<equiv> row_of ab_strategy_version i (xl_bindings L)"
abbreviation trial_row where "trial_row L i \<equiv> row_of tr_trial_id i (xl_trials L)"

subsection \<open>Registrations\<close>

definition register_hypothesis ::
  "experiment_keys \<Rightarrow> hypothesis_registration \<Rightarrow> experiment_ledger \<Rightarrow> ledger_error + experiment_ledger \<times> bool" where
  "register_hypothesis K h L =
     (if \<not> valid_hypothesis (ek_scope K) h then Inl Invalid_Ledger_Source
      else map_sum id (\<lambda>(t, created). (L \<lparr> xl_hypotheses := t \<rparr>, created))
        (register_row (ek_hypothesis K) hr_hypothesis_id h (xl_hypotheses L)))"

definition register_strategy_version ::
  "experiment_keys \<Rightarrow> version_registration \<Rightarrow> experiment_ledger \<Rightarrow> ledger_error + experiment_ledger \<times> bool" where
  "register_strategy_version K v L =
     (if \<not> valid_version v then Inl Invalid_Ledger_Source
      else case hypothesis_row L (vr_hypothesis_id v) of
        None \<Rightarrow> Inl Invalid_Ledger_Source
      | Some (_, h) \<Rightarrow>
          if \<not> version_matches_hypothesis v h then Inl Invalid_Ledger_Source
          else map_sum id (\<lambda>(t, created). (L \<lparr> xl_versions := t \<rparr>, created))
            (register_row (ek_version K) vr_strategy_version v (xl_versions L)))"

definition binding_matches_parent :: "version_registration \<Rightarrow> authority_binding \<Rightarrow> bool" where
  "binding_matches_parent v b \<longleftrightarrow> sl_strategy_id (ab_lane b) = vr_strategy_id v \<and> ab_legacy_lane b = vr_lane v
     \<and> vr_recorded_at v \<le> ab_bound_at b"

definition register_strategy_authority_binding ::
  "experiment_keys \<Rightarrow> authority_binding \<Rightarrow> experiment_ledger \<Rightarrow> ledger_error + experiment_ledger \<times> bool" where
  "register_strategy_authority_binding K b L =
     (if \<not> valid_binding b then Inl Invalid_Ledger_Source
      else case version_row L (ab_strategy_version b) of
        None \<Rightarrow> Inl Invalid_Ledger_Source
      | Some (_, v) \<Rightarrow>
          if \<not> binding_matches_parent v b then Inl Invalid_Ledger_Source
          else map_sum id (\<lambda>(t, created). (L \<lparr> xl_bindings := t \<rparr>, created))
            (register_row (ek_binding K) ab_strategy_version b (xl_bindings L)))"

definition register_trial ::
  "experiment_keys \<Rightarrow> trial_registration \<Rightarrow> experiment_ledger \<Rightarrow> ledger_error + experiment_ledger \<times> bool" where
  "register_trial K t L =
     (if \<not> valid_trial (ek_scope K) t then Inl Invalid_Ledger_Source
      else case version_row L (tr_strategy_version t) of
        None \<Rightarrow> Inl Invalid_Ledger_Source
      | Some (_, v) \<Rightarrow>
          if \<not> trial_matches_version t v then Inl Invalid_Ledger_Source
          else map_sum id (\<lambda>(tb, created). (L \<lparr> xl_trials := tb \<rparr>, created))
            (register_row (ek_trial K) tr_trial_id t (xl_trials L)))"

text \<open>A version with its hypothesis; \<open>Some None\<close> is no version, \<open>None\<close> a version without its hypothesis.\<close>

definition verified_lifecycle_parent ::
  "experiment_ledger \<Rightarrow> string \<Rightarrow> ((sha \<times> version_registration) \<times> (sha \<times> hypothesis_registration)) option option" where
  "verified_lifecycle_parent L i =
     (case version_row L i of
        None \<Rightarrow> Some None
      | Some v \<Rightarrow> (case hypothesis_row L (vr_hypothesis_id (snd v)) of
            None \<Rightarrow> None
          | Some h \<Rightarrow> if version_matches_hypothesis (snd v) (snd h) then Some (Some (v, h)) else None))"

subsection \<open>Trial events\<close>

definition verified_trial_parent :: "experiment_ledger \<Rightarrow> string \<Rightarrow> (sha \<times> trial_registration) option option" where
  "verified_trial_parent L i =
     (case trial_row L i of
        None \<Rightarrow> Some None
      | Some t \<Rightarrow> (case verified_lifecycle_parent L (tr_strategy_version (snd t)) of
            Some (Some (v, _)) \<Rightarrow> if trial_matches_version (snd t) (snd v) then Some (Some t) else None
          | _ \<Rightarrow> None))"

definition trial_events_by_id :: "experiment_ledger \<Rightarrow> string \<Rightarrow> (sha \<times> trial_event) list" where
  "trial_events_by_id L i =
     sort_key (\<lambda>(_, e). te_sequence e) (filter (\<lambda>(_, e). te_trial_id e = i) (xl_trial_events L))"

fun trial_chain_from ::
  "trial_registration \<Rightarrow> (sha \<times> trial_event) option \<Rightarrow> int \<Rightarrow> (sha \<times> trial_event) list \<Rightarrow> bool" where
  "trial_chain_from t previous n [] = True"
| "trial_chain_from t previous n ((key, e) # rest) =
     (te_trial_id e = tr_trial_id t \<and> te_sequence e = n \<and> tr_registered_at t \<le> te_occurred_at e
      \<and> (case previous of
           None \<Rightarrow> te_kind e = STARTED \<and> te_previous_event_key e = None
         | Some (pkey, p) \<Rightarrow> te_kind p = STARTED \<and> te_previous_event_key e = Some pkey \<and> te_occurred_at p \<le> te_occurred_at e)
      \<and> trial_chain_from t (Some (key, e)) (n + 1) rest)"

definition valid_trial_event_chain :: "(sha \<times> trial_registration) option \<Rightarrow> (sha \<times> trial_event) list \<Rightarrow> bool" where
  "valid_trial_event_chain parent events =
     (case parent of None \<Rightarrow> events = [] | Some t \<Rightarrow> trial_chain_from (snd t) None 1 events)"

definition append_trial_event ::
  "experiment_keys \<Rightarrow> trial_event \<Rightarrow> experiment_ledger \<Rightarrow> ledger_error + experiment_ledger \<times> bool" where
  "append_trial_event K e L =
     (if \<not> valid_trial_event e then Inl Invalid_Ledger_Source
      else case verified_trial_parent L (te_trial_id e) of
        None \<Rightarrow> Inl Invalid_Ledger_Source
      | Some parent \<Rightarrow>
          (let events = trial_events_by_id L (te_trial_id e); key = ek_trial_event K e
           in if \<not> valid_trial_event_chain parent events then Inl Invalid_Ledger_Source
              else case find (\<lambda>(_, x). te_sequence x = te_sequence e) events of
                Some existing \<Rightarrow> if existing = (key, e) then Inr (L, False) else Inl Ledger_Conflict
              | None \<Rightarrow>
                  if parent = None \<or> \<not> valid_trial_event_chain parent (events @ [(key, e)]) then Inl Invalid_Ledger_Source
                  else map_sum id (\<lambda>t. (L \<lparr> xl_trial_events := t \<rparr>, True)) (insert_immutable key e (xl_trial_events L))))"

definition trial_events :: "experiment_ledger \<Rightarrow> string \<Rightarrow> ledger_error + (sha \<times> trial_event) list" where
  "trial_events L i =
     (case verified_trial_parent L i of
        None \<Rightarrow> Inl Invalid_Ledger_Source
      | Some parent \<Rightarrow> if valid_trial_event_chain parent (trial_events_by_id L i) then Inr (trial_events_by_id L i)
          else Inl Invalid_Ledger_Source)"

subsection \<open>Champion authority\<close>

definition required_champion_mode :: "lifecycle_state \<Rightarrow> operating_mode option" where
  "required_champion_mode s = (case s of SHADOW_CHAMPION \<Rightarrow> Some SHADOW | PAPER_CHAMPION \<Rightarrow> Some ALPACA_PAPER | _ \<Rightarrow> None)"

definition exact_authority :: "experiment_keys \<Rightarrow> authority_binding option \<Rightarrow> lifecycle_event \<Rightarrow> operating_mode \<Rightarrow> bool" where
  "exact_authority K binding e mode =
     (case binding of
        None \<Rightarrow> False
      | Some b \<Rightarrow> ab_mode b = mode \<and> ab_bound_at b \<le> le_decided_at e \<and> ek_binding K b \<in> set (le_evidence_keys e))"

definition champion_path :: "lifecycle_event list \<Rightarrow> lifecycle_state \<Rightarrow> bool" where
  "champion_path prior target =
     (let has_paper_phase = list_ex (\<lambda>e. le_to_state e = EXPERIMENTAL_PAPER) prior
      in case target of SHADOW_CHAMPION \<Rightarrow> \<not> has_paper_phase | PAPER_CHAMPION \<Rightarrow> has_paper_phase | _ \<Rightarrow> True)"

definition new_champion_authority ::
  "experiment_keys \<Rightarrow> authority_binding option \<Rightarrow> lifecycle_event list \<Rightarrow> lifecycle_event \<Rightarrow> bool" where
  "new_champion_authority K binding prior e =
     (case required_champion_mode (le_to_state e) of
        None \<Rightarrow> True
      | Some mode \<Rightarrow> exact_authority K binding e mode \<and> champion_path prior (le_to_state e))"

definition is_legacy_paper_champion :: "authority_binding option \<Rightarrow> lifecycle_event \<Rightarrow> bool" where
  "is_legacy_paper_champion binding e \<longleftrightarrow> le_to_state e = PAPER_CHAMPION
     \<and> (case binding of None \<Rightarrow> True | Some b \<Rightarrow> le_decided_at e < ab_bound_at b)"

fun persisted_authority_from ::
  "experiment_keys \<Rightarrow> authority_binding option \<Rightarrow> lifecycle_event list \<Rightarrow> lifecycle_event list \<Rightarrow> bool" where
  "persisted_authority_from K binding prior [] = True"
| "persisted_authority_from K binding prior (e # es) =
     ((is_legacy_paper_champion binding e \<or> new_champion_authority K binding prior e)
      \<and> persisted_authority_from K binding (prior @ [e]) es)"

definition persisted_champion_authority ::
  "experiment_keys \<Rightarrow> authority_binding option \<Rightarrow> lifecycle_event list \<Rightarrow> bool" where
  "persisted_champion_authority K binding es = persisted_authority_from K binding [] es"

subsection \<open>Lifecycle events\<close>

definition lifecycle_events_by_version :: "experiment_ledger \<Rightarrow> string \<Rightarrow> (sha \<times> lifecycle_event) list" where
  "lifecycle_events_by_version L i =
     sort_key (\<lambda>(_, e). le_sequence e) (filter (\<lambda>(_, e). le_strategy_version e = i) (xl_lifecycle L))"

definition valid_import_evidence ::
  "sha \<times> version_registration \<Rightarrow> sha \<times> hypothesis_registration \<Rightarrow> lifecycle_event \<Rightarrow> bool" where
  "valid_import_evidence v h e \<longleftrightarrow> le_to_state e = IDEA
     \<or> le_evidence_keys e = sort [fst h, vr_scope_key (snd v), fst v]"

definition valid_suspended_recovery :: "lifecycle_event list \<Rightarrow> lifecycle_state \<Rightarrow> bool" where
  "valid_suspended_recovery prior target \<longleftrightarrow> target = REJECTED
     \<or> (case find (\<lambda>e. le_to_state e \<noteq> SUSPENDED) (rev prior) of
          None \<Rightarrow> False
        | Some e \<Rightarrow> lifecycle_state_rank target \<le> lifecycle_state_rank (le_to_state e))"

text \<open>The event after \<open>prior\<close>.\<close>

definition next_lifecycle_event ::
  "sha \<times> version_registration \<Rightarrow> sha \<times> hypothesis_registration \<Rightarrow> (sha \<times> lifecycle_event) list \<Rightarrow> lifecycle_event \<Rightarrow> bool" where
  "next_lifecycle_event v h prior e \<longleftrightarrow>
     le_strategy_version e = vr_strategy_version (snd v) \<and> le_sequence e = int (length prior) + 1
     \<and> vr_recorded_at (snd v) \<le> le_decided_at e
     \<and> (if prior = [] then le_kind e = REGISTRATION \<and> valid_import_evidence v h e
        else let (pkey, p) = last prior
          in le_to_state p \<noteq> REJECTED \<and> le_kind e = TRANSITION \<and> le_previous_event_key e = Some pkey
           \<and> le_from_state e = Some (le_to_state p) \<and> le_decided_at p \<le> le_decided_at e
           \<and> le_effective_date p \<le> le_decision_date e
           \<and> (le_to_state p = SUSPENDED \<longrightarrow> valid_suspended_recovery (map snd prior) (le_to_state e)))"

fun lifecycle_chain_from ::
  "sha \<times> version_registration \<Rightarrow> sha \<times> hypothesis_registration \<Rightarrow> (sha \<times> lifecycle_event) list
     \<Rightarrow> (sha \<times> lifecycle_event) list \<Rightarrow> bool" where
  "lifecycle_chain_from v h prior [] = True"
| "lifecycle_chain_from v h prior (x # xs) =
     (next_lifecycle_event v h prior (snd x) \<and> lifecycle_chain_from v h (prior @ [x]) xs)"

definition valid_lifecycle_chain ::
  "((sha \<times> version_registration) \<times> (sha \<times> hypothesis_registration)) option \<Rightarrow> (sha \<times> lifecycle_event) list \<Rightarrow> bool" where
  "valid_lifecycle_chain parent events =
     (case parent of None \<Rightarrow> events = [] | Some (v, h) \<Rightarrow> lifecycle_chain_from v h [] events)"

definition append_lifecycle_event ::
  "experiment_keys \<Rightarrow> lifecycle_event \<Rightarrow> experiment_ledger \<Rightarrow> ledger_error + experiment_ledger \<times> bool" where
  "append_lifecycle_event K e L =
     (if \<not> valid_lifecycle_event e then Inl Invalid_Ledger_Source
      else case verified_lifecycle_parent L (le_strategy_version e) of
        None \<Rightarrow> Inl Invalid_Ledger_Source
      | Some parent \<Rightarrow>
          (let events = lifecycle_events_by_version L (le_strategy_version e); key = ek_lifecycle K e;
               authority = map_option snd (binding_row L (le_strategy_version e))
           in if \<not> valid_lifecycle_chain parent events \<or> \<not> persisted_champion_authority K authority (map snd events)
              then Inl Invalid_Ledger_Source
              else case find (\<lambda>(_, x). le_sequence x = le_sequence e) events of
                Some existing \<Rightarrow> if existing = (key, e) then Inr (L, False) else Inl Ledger_Conflict
              | None \<Rightarrow>
                  if parent = None \<or> \<not> valid_lifecycle_chain parent (events @ [(key, e)])
                    \<or> \<not> new_champion_authority K authority (map snd events) e
                  then Inl Invalid_Ledger_Source
                  else map_sum id (\<lambda>t. (L \<lparr> xl_lifecycle := t \<rparr>, True)) (insert_immutable key e (xl_lifecycle L))))"

definition lifecycle_events :: "experiment_keys \<Rightarrow> experiment_ledger \<Rightarrow> string \<Rightarrow> ledger_error + (sha \<times> lifecycle_event) list" where
  "lifecycle_events K L i =
     (case verified_lifecycle_parent L i of
        None \<Rightarrow> Inl Invalid_Ledger_Source
      | Some parent \<Rightarrow>
          (let events = lifecycle_events_by_version L i
           in if valid_lifecycle_chain parent events
                \<and> persisted_champion_authority K (map_option snd (binding_row L i)) (map snd events)
              then Inr events else Inl Invalid_Ledger_Source))"

definition lifecycle_state_on :: "experiment_keys \<Rightarrow> experiment_ledger \<Rightarrow> string \<Rightarrow> int \<Rightarrow> ledger_error + (sha \<times> lifecycle_event) option" where
  "lifecycle_state_on K L i date =
     map_sum id (\<lambda>events. let effective = filter (\<lambda>(_, e). le_effective_date e \<le> date) events
       in if effective = [] then None else Some (last effective)) (lifecycle_events K L i)"

end
