(* ===== verification/Experiment_Runs.thy ===== *)
theory Experiment_Runs
  imports Experiment_Ledger
begin

text \<open>
  What the experiment ledger guarantees over every sequence of successful operations from an empty
  ledger: its chains stay readable, a lifecycle moves only along the transition table, and a
  champion has its authority, its challenger phase and its paper phase behind it.
\<close>

subsection \<open>Runs\<close>

inductive experiment_run :: "experiment_keys \<Rightarrow> experiment_ledger \<Rightarrow> bool" for K where
  created: "experiment_run K empty_ledger"
| hypothesis: "experiment_run K L \<Longrightarrow> register_hypothesis K h L = Inr (L', b) \<Longrightarrow> experiment_run K L'"
| version: "experiment_run K L \<Longrightarrow> register_strategy_version K v L = Inr (L', b) \<Longrightarrow> experiment_run K L'"
| binding: "experiment_run K L \<Longrightarrow> register_strategy_authority_binding K a L = Inr (L', b) \<Longrightarrow> experiment_run K L'"
| trial: "experiment_run K L \<Longrightarrow> register_trial K t L = Inr (L', b) \<Longrightarrow> experiment_run K L'"
| trial_event: "experiment_run K L \<Longrightarrow> append_trial_event K te L = Inr (L', b) \<Longrightarrow> experiment_run K L'"
| lifecycle_event: "experiment_run K L \<Longrightarrow> append_lifecycle_event K e L = Inr (L', b) \<Longrightarrow> experiment_run K L'"

subsection \<open>Tables only grow\<close>

lemma row_of_append:
  "row_of f i (t @ [(k, x)]) = (case row_of f i t of Some r \<Rightarrow> Some r | None \<Rightarrow> if f x = i then Some (k, x) else None)"
  unfolding row_of_def by (induction t) auto

lemma row_of_SomeD: "row_of f i t = Some r \<Longrightarrow> r \<in> set t \<and> f (snd r) = i"
  unfolding row_of_def by (induction t) (auto split: if_splits)

lemma register_rowD:
  assumes "register_row key ident x t = Inr (t', b)"
  shows "t' = t \<or> row_of ident (ident x) t = None \<and> t' = t @ [(key x, x)]"
  using assms by (auto simp: register_row_def insert_immutable_def split: option.splits if_splits)

subsection \<open>Lifecycle chains\<close>

lemma lifecycle_chain_append:
  "lifecycle_chain_from v h prior (xs @ [x]) \<longleftrightarrow>
     lifecycle_chain_from v h prior xs \<and> next_lifecycle_event v h (prior @ xs) (snd x)"
  by (induction xs arbitrary: prior) auto

text \<open>Every champion event authorised in its own right, the legacy exception left out.\<close>

definition authorised :: "experiment_keys \<Rightarrow> authority_binding option \<Rightarrow> lifecycle_event list \<Rightarrow> bool" where
  "authorised K b es \<longleftrightarrow> (\<forall>i < length es. new_champion_authority K b (take i es) (es ! i))"

lemma authorised_snoc:
  "authorised K b (es @ [e]) \<longleftrightarrow> authorised K b es \<and> new_champion_authority K b es e"
  by (auto simp: authorised_def nth_append less_Suc_eq)

lemma authorised_persists:
  assumes "authorised K b es"
  shows "persisted_champion_authority K b es"
proof -
  have "persisted_authority_from K b prior es"
    if "\<forall>i < length es. new_champion_authority K b (prior @ take i es) (es ! i)" for prior
    using that
  proof (induction es arbitrary: prior)
    case Nil then show ?case by simp
  next
    case (Cons e es)
    have "new_champion_authority K b prior e" using Cons.prems by force
    moreover have "persisted_authority_from K b (prior @ [e]) es"
    proof (rule Cons.IH, intro allI impI)
      fix i assume "i < length es"
      then show "new_champion_authority K b ((prior @ [e]) @ take i es) (es ! i)"
        using Cons.prems [rule_format, of "Suc i"] by simp
    qed
    ultimately show ?case by simp
  qed
  then show ?thesis using assms by (simp add: persisted_champion_authority_def authorised_def)
qed

text \<open>Without a binding there is no champion, so a binding made later changes nothing.\<close>

lemma new_authority_unbound: "new_champion_authority K None prior e \<Longrightarrow> new_champion_authority K b prior e"
  by (auto simp: new_champion_authority_def exact_authority_def split: option.splits)

lemma authorised_unbound: "authorised K None es \<Longrightarrow> authorised K b es"
  unfolding authorised_def using new_authority_unbound by blast

definition lifecycle_good :: "experiment_keys \<Rightarrow> experiment_ledger \<Rightarrow> string \<Rightarrow> bool" where
  "lifecycle_good K L i \<longleftrightarrow>
     list_all valid_lifecycle_event (map snd (lifecycle_events_by_version L i))
     \<and> (case verified_lifecycle_parent L i of None \<Rightarrow> False
        | Some parent \<Rightarrow> valid_lifecycle_chain parent (lifecycle_events_by_version L i))
     \<and> authorised K (map_option snd (binding_row L i)) (map snd (lifecycle_events_by_version L i))"

definition trial_good :: "experiment_keys \<Rightarrow> experiment_ledger \<Rightarrow> string \<Rightarrow> bool" where
  "trial_good K L i \<longleftrightarrow>
     list_all valid_trial_event (map snd (trial_events_by_id L i))
     \<and> (case verified_trial_parent L i of None \<Rightarrow> False
        | Some parent \<Rightarrow> (case parent of None \<Rightarrow> True | Some t \<Rightarrow> valid_trial (ek_scope K) (snd t))
            \<and> valid_trial_event_chain parent (trial_events_by_id L i))"

definition ledger_good :: "experiment_keys \<Rightarrow> experiment_ledger \<Rightarrow> bool" where
  "ledger_good K L \<longleftrightarrow> (\<forall>i. lifecycle_good K L i) \<and> (\<forall>i. trial_good K L i)"

text \<open>A chain without a parent is empty, so it is a chain of any parent.\<close>

lemma empty_chains [simp]:
  "valid_lifecycle_chain parent []" "valid_trial_event_chain tparent []"
  by (auto simp: valid_lifecycle_chain_def valid_trial_event_chain_def split: option.splits)

lemma good_parent:
  assumes "lifecycle_good K L i"
  obtains parent where "verified_lifecycle_parent L i = Some parent"
    "valid_lifecycle_chain parent (lifecycle_events_by_version L i)"
  using assms by (auto simp: lifecycle_good_def split: option.splits)

text \<open>How a registration changes the parent of a chain.\<close>

lemma parent_after_hypothesis:
  assumes "verified_lifecycle_parent L i = Some p"
  shows "verified_lifecycle_parent (L \<lparr> xl_hypotheses := xl_hypotheses L @ [(k, h)] \<rparr>) i = Some p"
  using assms by (auto simp: verified_lifecycle_parent_def row_of_append split: option.splits)

lemma parent_after_version:
  assumes "verified_lifecycle_parent L i = Some p" "hypothesis_row L (vr_hypothesis_id v) = Some (hk, h)"
    "version_matches_hypothesis v h"
  shows "verified_lifecycle_parent (L \<lparr> xl_versions := xl_versions L @ [(k, v)] \<rparr>) i = Some p
    \<or> p = None \<and> (\<exists>q. verified_lifecycle_parent (L \<lparr> xl_versions := xl_versions L @ [(k, v)] \<rparr>) i = Some (Some q))"
  using assms by (auto simp: verified_lifecycle_parent_def row_of_append split: option.splits if_splits)

text \<open>Growing parents keep a good ledger good.\<close>

lemma parents_grow:
  assumes good: "ledger_good K L"
    and same: "xl_lifecycle L' = xl_lifecycle L" "xl_trial_events L' = xl_trial_events L" "xl_trials L' = xl_trials L"
      "xl_bindings L' = xl_bindings L"
    and grow: "\<And>i p. verified_lifecycle_parent L i = Some p \<Longrightarrow>
        verified_lifecycle_parent L' i = Some p \<or> p = None \<and> (\<exists>q. verified_lifecycle_parent L' i = Some (Some q))"
  shows "ledger_good K L'"
  unfolding ledger_good_def
proof (intro conjI allI)
  fix i
  have events: "lifecycle_events_by_version L' i = lifecycle_events_by_version L i"
    by (simp add: lifecycle_events_by_version_def same)
  have g: "lifecycle_good K L i" using good by (simp add: ledger_good_def)
  then obtain p where p: "verified_lifecycle_parent L i = Some p" "valid_lifecycle_chain p (lifecycle_events_by_version L i)"
    by (rule good_parent)
  have "\<exists>p'. verified_lifecycle_parent L' i = Some p' \<and> valid_lifecycle_chain p' (lifecycle_events_by_version L i)"
    using grow [OF p(1)] p(2) by (auto simp: valid_lifecycle_chain_def [of None])
  then show "lifecycle_good K L' i" using g by (auto simp: lifecycle_good_def events same)
next
  fix i
  have g: "trial_good K L i" using good by (simp add: ledger_good_def)
  have parent: "verified_trial_parent L' i = verified_trial_parent L i"
  proof (cases "trial_row L i")
    case None
    then show ?thesis by (simp add: verified_trial_parent_def same)
  next
    case (Some t)
    obtain v h where "verified_lifecycle_parent L (tr_strategy_version (snd t)) = Some (Some (v, h))"
      using g Some by (auto simp: trial_good_def verified_trial_parent_def split: option.splits)
    then show ?thesis using grow [of _ "Some (v, h)"] Some by (simp add: verified_trial_parent_def same)
  qed
  have events: "trial_events_by_id L' i = trial_events_by_id L i"
    by (simp add: trial_events_by_id_def same)
  show "trial_good K L' i" using g unfolding trial_good_def parent events .
qed

lemma good_after_hypothesis:
  assumes "ledger_good K L" "register_hypothesis K h L = Inr (L', b)"
  shows "ledger_good K L'"
proof -
  from assms(2) obtain t where t: "register_row (ek_hypothesis K) hr_hypothesis_id h (xl_hypotheses L) = Inr (t, b)"
      "L' = L \<lparr> xl_hypotheses := t \<rparr>"
    by (auto simp: register_hypothesis_def map_sum_def split: if_splits sum.splits)
  from register_rowD [OF t(1)] show ?thesis
    using assms(1) parents_grow [OF assms(1), of L'] parent_after_hypothesis by (auto simp: t(2))
qed

lemma good_after_version:
  assumes "ledger_good K L" "register_strategy_version K v L = Inr (L', b)"
  shows "ledger_good K L'"
proof -
  from assms(2) obtain hk h t where t: "register_row (ek_version K) vr_strategy_version v (xl_versions L) = Inr (t, b)"
      "L' = L \<lparr> xl_versions := t \<rparr>" "hypothesis_row L (vr_hypothesis_id v) = Some (hk, h)" "version_matches_hypothesis v h"
    by (auto simp: register_strategy_version_def map_sum_def split: if_splits sum.splits option.splits)
  from register_rowD [OF t(1)] show ?thesis
    using assms(1) parents_grow [OF assms(1), of L'] parent_after_version [OF _ t(3,4)] by (auto simp: t(2))
qed

lemma good_after_binding:
  assumes "ledger_good K L" "register_strategy_authority_binding K a L = Inr (L', b)"
  shows "ledger_good K L'"
proof -
  from assms(2) obtain t where t: "register_row (ek_binding K) ab_strategy_version a (xl_bindings L) = Inr (t, b)"
      "L' = L \<lparr> xl_bindings := t \<rparr>"
    by (auto simp: register_strategy_authority_binding_def map_sum_def split: if_splits sum.splits option.splits)
  from register_rowD [OF t(1)] show ?thesis
  proof
    assume "t = xl_bindings L" then show ?thesis using assms(1) t(2) by simp
  next
    assume new: "row_of ab_strategy_version (ab_strategy_version a) (xl_bindings L) = None \<and> t = xl_bindings L @ [(ek_binding K a, a)]"
    have events: "lifecycle_events_by_version L' i = lifecycle_events_by_version L i"
      "trial_events_by_id L' i = trial_events_by_id L i" for i
      by (simp_all add: t(2) lifecycle_events_by_version_def trial_events_by_id_def)
    have parent: "verified_lifecycle_parent L' i = verified_lifecycle_parent L i" for i
      by (simp add: t(2) verified_lifecycle_parent_def cong: option.case_cong)
    have trial_parent: "verified_trial_parent L' i = verified_trial_parent L i" for i
      unfolding verified_trial_parent_def parent by (simp add: t(2) cong: option.case_cong)
    have "lifecycle_good K L' i" for i
    proof -
      have g: "lifecycle_good K L i" using assms(1) by (simp add: ledger_good_def)
      have "authorised K (map_option snd (binding_row L' i)) (map snd (lifecycle_events_by_version L i))"
      proof (cases "binding_row L i")
        case None
        then show ?thesis using g authorised_unbound by (simp add: lifecycle_good_def)
      next
        case (Some r)
        then have "binding_row L' i = Some r" using new by (simp add: t(2) row_of_append)
        then show ?thesis using g Some by (simp add: lifecycle_good_def)
      qed
      then show ?thesis using g unfolding lifecycle_good_def events parent by simp
    qed
    moreover have "trial_good K L' i" for i
      using assms(1) unfolding ledger_good_def trial_good_def events trial_parent by simp
    ultimately show ?thesis by (simp add: ledger_good_def)
  qed
qed

lemma good_after_trial:
  assumes "ledger_good K L" "register_trial K t L = Inr (L', b)"
  shows "ledger_good K L'"
proof -
  from assms(2) obtain vk v tb where tb: "register_row (ek_trial K) tr_trial_id t (xl_trials L) = Inr (tb, b)"
      "L' = L \<lparr> xl_trials := tb \<rparr>" "version_row L (tr_strategy_version t) = Some (vk, v)" "trial_matches_version t v"
      "valid_trial (ek_scope K) t"
    by (auto simp: register_trial_def map_sum_def split: if_splits sum.splits option.splits)
  from register_rowD [OF tb(1)] show ?thesis
  proof
    assume "tb = xl_trials L" then show ?thesis using assms(1) tb(2) by simp
  next
    assume new: "row_of tr_trial_id (tr_trial_id t) (xl_trials L) = None \<and> tb = xl_trials L @ [(ek_trial K t, t)]"
    have events: "lifecycle_events_by_version L' i = lifecycle_events_by_version L i"
      "trial_events_by_id L' i = trial_events_by_id L i" for i
      by (simp_all add: tb(2) lifecycle_events_by_version_def trial_events_by_id_def)
    have parent: "verified_lifecycle_parent L' i = verified_lifecycle_parent L i" for i
      by (simp add: tb(2) verified_lifecycle_parent_def cong: option.case_cong)
    have bindings: "xl_bindings L' = xl_bindings L" by (simp add: tb(2))
    have "lifecycle_good K L' i" for i
      using assms(1) unfolding ledger_good_def lifecycle_good_def events parent bindings by simp
    moreover have "trial_good K L' i" for i
    proof -
      have g: "trial_good K L i" using assms(1) by (simp add: ledger_good_def)
      have "lifecycle_good K L (tr_strategy_version t)" using assms(1) by (simp add: ledger_good_def)
      then obtain h where h: "verified_lifecycle_parent L (tr_strategy_version t) = Some (Some ((vk, v), h))"
        by (rule good_parent) (auto simp: verified_lifecycle_parent_def tb(3) split: option.splits if_splits)
      show ?thesis
      proof (cases "trial_row L i = None \<and> i = tr_trial_id t")
        case True
        then have none: "verified_trial_parent L i = Some None" by (auto simp: verified_trial_parent_def)
        have "trial_row L' i = Some (ek_trial K t, t)" using new True by (simp add: tb(2) row_of_append)
        then have "verified_trial_parent L' i = Some (Some (ek_trial K t, t))"
          using tb(4) by (simp add: verified_trial_parent_def parent h)
        then show ?thesis using g none tb(5) unfolding trial_good_def events
          by (simp add: valid_trial_event_chain_def)
      next
        case False
        then have "trial_row L' i = trial_row L i" using new by (auto simp: tb(2) row_of_append split: option.splits)
        then have "verified_trial_parent L' i = verified_trial_parent L i"
          unfolding verified_trial_parent_def parent by simp
        then show ?thesis using g unfolding trial_good_def events by simp
      qed
    qed
    ultimately show ?thesis by (simp add: ledger_good_def)
  qed
qed

subsection \<open>Appending events\<close>

lemma lifecycle_sequences:
  assumes "lifecycle_chain_from v h prior xs" "(k, x) \<in> set xs"
  shows "le_sequence x \<le> int (length prior + length xs)"
  using assms
proof (induction xs arbitrary: prior)
  case (Cons y ys)
  then show ?case
  proof (cases "(k, x) = y")
    case True then show ?thesis using Cons.prems(1) by (auto simp: next_lifecycle_event_def)
  next
    case False
    then have "(k, x) \<in> set ys" using Cons.prems(2) by simp
    then show ?thesis using Cons.IH [of "prior @ [y]"] Cons.prems(1) by simp
  qed
qed simp

lemma trial_sequences:
  assumes "trial_chain_from t p n xs" "(k, x) \<in> set xs"
  shows "te_sequence x < n + int (length xs)"
  using assms by (induction t p n xs rule: trial_chain_from.induct) force+

lemma trial_chain_append:
  "trial_chain_from t p n (xs @ [x]) \<Longrightarrow> te_sequence (snd x) = n + int (length xs)"
  by (induction t p n xs rule: trial_chain_from.induct) (cases x; auto)+

lemma append_lifecycleD:
  assumes "append_lifecycle_event K e L = Inr (L', b)"
  obtains "L' = L" "\<not> b" "(ek_lifecycle K e, e) \<in> set (xl_lifecycle L)"
  | parent where "b" "L' = L \<lparr> xl_lifecycle := xl_lifecycle L @ [(ek_lifecycle K e, e)] \<rparr>" "valid_lifecycle_event e"
      "verified_lifecycle_parent L (le_strategy_version e) = Some (Some parent)"
      "valid_lifecycle_chain (Some parent) (lifecycle_events_by_version L (le_strategy_version e) @ [(ek_lifecycle K e, e)])"
      "new_champion_authority K (map_option snd (binding_row L (le_strategy_version e)))
         (map snd (lifecycle_events_by_version L (le_strategy_version e))) e"
      "ek_lifecycle K e \<notin> fst ` set (xl_lifecycle L)"
proof -
  let ?es = "lifecycle_events_by_version L (le_strategy_version e)"
  from assms obtain parent where p: "valid_lifecycle_event e" "verified_lifecycle_parent L (le_strategy_version e) = Some parent"
    by (auto simp: append_lifecycle_event_def split: if_splits option.splits)
  show thesis
  proof (cases "find (\<lambda>(_, x). le_sequence x = le_sequence e) ?es")
    case (Some x)
    then have x: "x = (ek_lifecycle K e, e)" "L' = L" "\<not> b"
      using assms p by (auto simp: append_lifecycle_event_def Let_def split: if_splits)
    have "x \<in> set ?es" using Some by (metis find_Some_iff nth_mem)
    then show thesis using that(1) x by (auto simp: lifecycle_events_by_version_def)
  next
    case None
    then obtain q where q: "parent = Some q" using assms p
      by (auto simp: append_lifecycle_event_def Let_def split: if_splits)
    show thesis
      by (rule that(2) [of q]) (use assms p None q in
        \<open>auto simp: append_lifecycle_event_def insert_immutable_def map_sum_def Let_def split: if_splits sum.splits\<close>)
  qed
qed

lemma events_after_lifecycle:
  assumes "L' = L \<lparr> xl_lifecycle := xl_lifecycle L @ [(k, e)] \<rparr>"
    "valid_lifecycle_chain (Some parent) (lifecycle_events_by_version L (le_strategy_version e) @ [(k, e)])"
  shows "lifecycle_events_by_version L' i =
    (if i = le_strategy_version e then lifecycle_events_by_version L i @ [(k, e)] else lifecycle_events_by_version L i)"
proof (cases "i = le_strategy_version e")
  case True
  obtain v h where vh: "parent = (v, h)" by (cases parent)
  let ?es = "filter (\<lambda>(_, e). le_strategy_version e = i) (xl_lifecycle L)"
  have chain: "lifecycle_chain_from v h [] (lifecycle_events_by_version L i)"
      "le_sequence e = int (length (lifecycle_events_by_version L i)) + 1"
    using assms(2) by (auto simp: vh True valid_lifecycle_chain_def lifecycle_chain_append next_lifecycle_event_def)
  have "(case y of (_, x) \<Rightarrow> le_sequence x) \<le> (case (k, e) of (_, x) \<Rightarrow> le_sequence x)" if "y \<in> set ?es" for y
    using lifecycle_sequences [OF chain(1), of "fst y" "snd y"] chain(2) that
    by (auto simp: lifecycle_events_by_version_def)
  then have "sort_key (\<lambda>(_, e). le_sequence e) (?es @ [(k, e)]) = sort_key (\<lambda>(_, e). le_sequence e) ?es @ [(k, e)]"
    by (rule sorted_append_last)
  then show ?thesis by (simp add: assms(1) True lifecycle_events_by_version_def)
qed (simp add: assms(1) lifecycle_events_by_version_def)

lemma good_after_lifecycle:
  assumes "ledger_good K L" "append_lifecycle_event K e L = Inr (L', b)"
  shows "ledger_good K L'"
  using assms(2)
proof (cases rule: append_lifecycleD)
  case 1 then show ?thesis using assms(1) by simp
next
  case (2 parent)
  note events = events_after_lifecycle [OF 2(2,5)]
  have parent: "verified_lifecycle_parent L' i = verified_lifecycle_parent L i" for i
    by (simp add: 2(2) verified_lifecycle_parent_def cong: option.case_cong)
  have same: "xl_bindings L' = xl_bindings L" "xl_trials L' = xl_trials L" by (simp_all add: 2(2))
  have "lifecycle_good K L' i" for i
  proof -
    have g: "lifecycle_good K L i" using assms(1) by (simp add: ledger_good_def)
    show ?thesis
    proof (cases "i = le_strategy_version e")
      case True
      have at: "lifecycle_events_by_version L' i = lifecycle_events_by_version L i @ [(ek_lifecycle K e, e)]"
        using True by (simp add: events)
      show ?thesis using g 2(3-6) unfolding lifecycle_good_def parent same at
        by (simp add: True authorised_snoc)
    next
      case False
      then have at: "lifecycle_events_by_version L' i = lifecycle_events_by_version L i" by (simp add: events)
      show ?thesis using g unfolding lifecycle_good_def parent same at .
    qed
  qed
  moreover have "trial_good K L' i" for i
  proof -
    have trial: "verified_trial_parent L' i = verified_trial_parent L i" "trial_events_by_id L' i = trial_events_by_id L i"
      unfolding verified_trial_parent_def parent same by (simp_all add: 2(2) trial_events_by_id_def)
    show ?thesis using assms(1) unfolding ledger_good_def trial_good_def trial by simp
  qed
  ultimately show ?thesis by (simp add: ledger_good_def)
qed

lemma append_trial_eventD:
  assumes "append_trial_event K e L = Inr (L', b)"
  obtains "L' = L" "\<not> b"
  | parent where "b" "L' = L \<lparr> xl_trial_events := xl_trial_events L @ [(ek_trial_event K e, e)] \<rparr>" "valid_trial_event e"
      "verified_trial_parent L (te_trial_id e) = Some (Some parent)"
      "valid_trial_event_chain (Some parent) (trial_events_by_id L (te_trial_id e))"
      "valid_trial_event_chain (Some parent) (trial_events_by_id L (te_trial_id e) @ [(ek_trial_event K e, e)])"
proof -
  let ?es = "trial_events_by_id L (te_trial_id e)"
  from assms obtain parent where p: "valid_trial_event e" "verified_trial_parent L (te_trial_id e) = Some parent"
    by (auto simp: append_trial_event_def split: if_splits option.splits)
  show thesis
  proof (cases "find (\<lambda>(_, x). te_sequence x = te_sequence e) ?es")
    case (Some x)
    then show thesis using that(1) assms p by (auto simp: append_trial_event_def Let_def split: if_splits)
  next
    case None
    then obtain q where q: "parent = Some q" using assms p
      by (auto simp: append_trial_event_def Let_def split: if_splits)
    show thesis
      by (rule that(2) [of q]) (use assms p None q in
        \<open>auto simp: append_trial_event_def insert_immutable_def map_sum_def Let_def split: if_splits sum.splits\<close>)
  qed
qed

lemma events_after_trial_event:
  assumes "L' = L \<lparr> xl_trial_events := xl_trial_events L @ [(k, e)] \<rparr>"
    "valid_trial_event_chain (Some parent) (trial_events_by_id L (te_trial_id e))"
    "valid_trial_event_chain (Some parent) (trial_events_by_id L (te_trial_id e) @ [(k, e)])"
  shows "trial_events_by_id L' i =
    (if i = te_trial_id e then trial_events_by_id L i @ [(k, e)] else trial_events_by_id L i)"
proof (cases "i = te_trial_id e")
  case True
  let ?es = "filter (\<lambda>(_, e). te_trial_id e = i) (xl_trial_events L)"
  have chain: "trial_chain_from (snd parent) None 1 (trial_events_by_id L i)"
      "te_sequence e = 1 + int (length (trial_events_by_id L i))"
    using assms(2) trial_chain_append [of "snd parent" None 1 "trial_events_by_id L i" "(k, e)"] assms(3)
    by (auto simp: True valid_trial_event_chain_def)
  have "(case y of (_, x) \<Rightarrow> te_sequence x) \<le> (case (k, e) of (_, x) \<Rightarrow> te_sequence x)" if "y \<in> set ?es" for y
    using trial_sequences [OF chain(1), of "fst y" "snd y"] chain(2) that
    by (auto simp: trial_events_by_id_def)
  then have "sort_key (\<lambda>(_, e). te_sequence e) (?es @ [(k, e)]) = sort_key (\<lambda>(_, e). te_sequence e) ?es @ [(k, e)]"
    by (rule sorted_append_last)
  then show ?thesis by (simp add: assms(1) True trial_events_by_id_def)
qed (simp add: assms(1) trial_events_by_id_def)

lemma good_after_trial_event:
  assumes "ledger_good K L" "append_trial_event K e L = Inr (L', b)"
  shows "ledger_good K L'"
  using assms(2)
proof (cases rule: append_trial_eventD)
  case 1 then show ?thesis using assms(1) by simp
next
  case (2 parent)
  note events = events_after_trial_event [OF 2(2,5,6)]
  have parent: "verified_lifecycle_parent L' i = verified_lifecycle_parent L i" for i
    by (simp add: 2(2) verified_lifecycle_parent_def cong: option.case_cong)
  have trial_parent: "verified_trial_parent L' i = verified_trial_parent L i" for i
    unfolding verified_trial_parent_def parent by (simp add: 2(2) cong: option.case_cong)
  have same: "xl_bindings L' = xl_bindings L" "lifecycle_events_by_version L' i = lifecycle_events_by_version L i" for i
    by (simp_all add: 2(2) lifecycle_events_by_version_def)
  have "lifecycle_good K L' i" for i
    using assms(1) unfolding ledger_good_def lifecycle_good_def parent same by simp
  moreover have "trial_good K L' i" for i
  proof -
    have g: "trial_good K L i" using assms(1) by (simp add: ledger_good_def)
    show ?thesis
    proof (cases "i = te_trial_id e")
      case True
      have at: "trial_events_by_id L' i = trial_events_by_id L i @ [(ek_trial_event K e, e)]"
        using True by (simp add: events)
      show ?thesis using g 2(3,4,6) unfolding trial_good_def trial_parent at by (simp add: True)
    next
      case False
      then have at: "trial_events_by_id L' i = trial_events_by_id L i" by (simp add: events)
      show ?thesis using g unfolding trial_good_def trial_parent at .
    qed
  qed
  ultimately show ?thesis by (simp add: ledger_good_def)
qed

subsection \<open>Every run\<close>

lemma empty_is_good: "ledger_good K empty_ledger"
  by (simp add: ledger_good_def lifecycle_good_def trial_good_def empty_ledger_def verified_lifecycle_parent_def
      verified_trial_parent_def lifecycle_events_by_version_def trial_events_by_id_def row_of_def authorised_def)

lemma runs_are_good: "experiment_run K L \<Longrightarrow> ledger_good K L"
  by (induction rule: experiment_run.induct)
    (auto intro: empty_is_good good_after_hypothesis good_after_version good_after_binding good_after_trial
      good_after_trial_event good_after_lifecycle)

text \<open>Every stored row is keyed by its content.\<close>

definition keyed :: "('a \<Rightarrow> sha) \<Rightarrow> (sha \<times> 'a) list \<Rightarrow> bool" where
  "keyed key t \<longleftrightarrow> (\<forall>(k, x) \<in> set t. k = key x)"

lemma keyed_simps [simp]: "keyed key []" "keyed key (t @ [(k, x)]) \<longleftrightarrow> keyed key t \<and> k = key x"
  by (auto simp: keyed_def)

lemma register_keyed: "register_row key ident x t = Inr (t', b) \<Longrightarrow> keyed key t \<Longrightarrow> keyed key t'"
  using register_rowD [of key ident x t t' b] by auto

lemma runs_are_keyed:
  "experiment_run K L \<Longrightarrow> keyed (ek_lifecycle K) (xl_lifecycle L) \<and> keyed (ek_binding K) (xl_bindings L)"
proof (induction rule: experiment_run.induct)
  case created show ?case by (simp add: empty_ledger_def)
next
  case (binding L a L' b)
  then obtain t where "register_row (ek_binding K) ab_strategy_version a (xl_bindings L) = Inr (t, b)"
      "L' = L \<lparr> xl_bindings := t \<rparr>"
    by (auto simp: register_strategy_authority_binding_def map_sum_def split: if_splits sum.splits option.splits)
  then show ?case using binding.IH register_keyed by auto
next
  case (lifecycle_event L e L' b)
  from lifecycle_event(2) show ?case by (cases rule: append_lifecycleD) (use lifecycle_event in auto)
next
  case (trial_event L e L' b)
  from trial_event(2) show ?case by (cases rule: append_trial_eventD) (use trial_event in auto)
qed (auto simp: register_hypothesis_def register_strategy_version_def register_trial_def map_sum_def
    split: if_splits sum.splits option.splits)

text \<open>So the history of a version can always be read.\<close>

lemma lifecycle_events_readable:
  assumes "experiment_run K L"
  obtains parent where "verified_lifecycle_parent L i = Some parent"
    "lifecycle_events K L i = Inr (lifecycle_events_by_version L i)"
    "valid_lifecycle_chain parent (lifecycle_events_by_version L i)"
    "list_all valid_lifecycle_event (map snd (lifecycle_events_by_version L i))"
    "authorised K (map_option snd (binding_row L i)) (map snd (lifecycle_events_by_version L i))"
proof -
  have g: "lifecycle_good K L i" using runs_are_good [OF assms] by (simp add: ledger_good_def)
  obtain parent where p: "verified_lifecycle_parent L i = Some parent"
    "valid_lifecycle_chain parent (lifecycle_events_by_version L i)" using g by (rule good_parent)
  then show thesis using that [of parent] g authorised_persists
    by (simp add: lifecycle_good_def lifecycle_events_def Let_def)
qed

end
