(* ===== verification/Experiment_Guarantees.thy ===== *)
theory Experiment_Guarantees
  imports Experiment_Runs
begin

text \<open>
  The guarantees of the experiment ledger: what a reader finds in the history of a strategy version
  or a trial, after any sequence of operations.
\<close>

subsection \<open>Steps of a lifecycle\<close>

definition legal_lifecycle_step :: "experiment_keys \<Rightarrow> lifecycle_event \<Rightarrow> lifecycle_event \<Rightarrow> bool" where
  "legal_lifecycle_step K p e \<longleftrightarrow> le_from_state e = Some (le_to_state p)
     \<and> lifecycle_transition_allowed (le_to_state p) (le_to_state e)
     \<and> le_previous_event_key e = Some (ek_lifecycle K p) \<and> le_sequence e = le_sequence p + 1
     \<and> le_decided_at p \<le> le_decided_at e \<and> le_effective_date p \<le> le_decision_date e
     \<and> le_decision_date e < le_effective_date e"

lemma chain_nth:
  "lifecycle_chain_from v h prior xs \<Longrightarrow> n < length xs \<Longrightarrow> next_lifecycle_event v h (prior @ take n xs) (snd (xs ! n))"
proof (induction xs arbitrary: prior n)
  case (Cons x xs)
  then show ?case by (cases n) (auto dest: Cons.IH [of "prior @ [x]"])
qed simp

text \<open>The histories a run leaves behind.\<close>

definition version_history :: "experiment_keys \<Rightarrow> lifecycle_event list \<Rightarrow> bool" where
  "version_history K es \<longleftrightarrow> list_all valid_lifecycle_event es \<and>
     (es \<noteq> [] \<longrightarrow> le_kind (hd es) = REGISTRATION) \<and>
     (\<forall>n. Suc n < length es \<longrightarrow> legal_lifecycle_step K (es ! n) (es ! Suc n)
       \<and> (le_to_state (es ! n) = SUSPENDED \<longrightarrow> valid_suspended_recovery (take (Suc n) es) (le_to_state (es ! Suc n))))"

lemma readable_history:
  assumes "experiment_run K L" "lifecycle_events K L i = Inr xs"
  shows "version_history K (map snd xs)" "authorised K (map_option snd (binding_row L i)) (map snd xs)"
    "xs = lifecycle_events_by_version L i"
proof -
  obtain parent where p: "verified_lifecycle_parent L i = Some parent" "xs = lifecycle_events_by_version L i"
    "valid_lifecycle_chain parent xs" "list_all valid_lifecycle_event (map snd xs)"
    "authorised K (map_option snd (binding_row L i)) (map snd xs)"
    using lifecycle_events_readable [OF assms(1), of i] assms(2) by auto
  show "authorised K (map_option snd (binding_row L i)) (map snd xs)" "xs = lifecycle_events_by_version L i"
    using p by auto
  have keys: "k = ek_lifecycle K e" if "(k, e) \<in> set xs" for k e
    using that runs_are_keyed [OF assms(1)] by (auto simp: p(2) lifecycle_events_by_version_def keyed_def)
  show "version_history K (map snd xs)"
  proof (cases parent)
    case None then show ?thesis using p(3) by (simp add: valid_lifecycle_chain_def version_history_def)
  next
    case (Some q)
    then obtain v h where chain: "lifecycle_chain_from v h [] xs"
      using p(3) by (cases q) (auto simp: valid_lifecycle_chain_def)
    note nth = chain_nth [OF chain, simplified]
    have first: "le_kind (snd (hd xs)) = REGISTRATION" if "xs \<noteq> []"
      using nth [of 0] that by (simp add: next_lifecycle_event_def hd_conv_nth)
    have "legal_lifecycle_step K (snd (xs ! n)) (snd (xs ! Suc n))
        \<and> (le_to_state (snd (xs ! n)) = SUSPENDED \<longrightarrow>
            valid_suspended_recovery (take (Suc n) (map snd xs)) (le_to_state (snd (xs ! Suc n))))"
      if n: "Suc n < length xs" for n
    proof -
      obtain k p where kp: "xs ! n = (k, p)" by (cases "xs ! n")
      have last: "last (take (Suc n) xs) = (k, p)" "xs \<noteq> []" using n kp by (auto simp: take_Suc_conv_app_nth)
      have "k = ek_lifecycle K p" using keys [of k p] n kp nth_mem [of n xs] by simp
      moreover have "le_sequence p = int n + 1" using nth [of n] n kp by (auto simp: next_lifecycle_event_def)
      moreover have "valid_lifecycle_event (snd (xs ! Suc n))" using p(4) n by (simp add: list_all_iff)
      ultimately show ?thesis using nth [OF n] n unfolding next_lifecycle_event_def last
        by (simp add: last kp take_map legal_lifecycle_step_def valid_lifecycle_event_def valid_transition_event_def)
    qed
    then show ?thesis using first p(4) by (auto simp: version_history_def hd_map)
  qed
qed

lemma history_step:
  "version_history K es \<Longrightarrow> Suc n < length es \<Longrightarrow>
     legal_lifecycle_step K (es ! n) (es ! Suc n)
     \<and> lifecycle_transition_allowed (le_to_state (es ! n)) (le_to_state (es ! Suc n))"
  by (simp add: version_history_def legal_lifecycle_step_def)

text \<open>A recovery from a suspension leads no higher than the state that was suspended.\<close>

lemma history_begins:
  assumes "version_history K es" "es \<noteq> []"
  shows "le_to_state (es ! 0) \<in> {IDEA, HISTORICAL, EXPERIMENTAL_SHADOW, EXPERIMENTAL_PAPER}"
proof -
  have "valid_lifecycle_event (hd es)" "le_kind (hd es) = REGISTRATION"
    using assms by (cases es; simp add: version_history_def)+
  then show ?thesis using assms(2)
    by (auto simp: valid_lifecycle_event_def valid_registration_event_def hd_conv_nth split: if_splits)
qed

lemma suspension_recovers:
  assumes "version_history K es" "Suc n < length es" "le_to_state (es ! n) = SUSPENDED" "le_to_state (es ! Suc n) \<noteq> REJECTED"
  shows "0 < n \<and> le_to_state (es ! (n - 1)) \<noteq> SUSPENDED
     \<and> lifecycle_state_rank (le_to_state (es ! Suc n)) \<le> lifecycle_state_rank (le_to_state (es ! (n - 1)))"
proof (cases n)
  case 0
  then show ?thesis using history_begins [OF assms(1)] assms(2,3) by (cases es) auto
next
  case (Suc k)
  then have "legal_lifecycle_step K (es ! k) (es ! n)" using assms by (simp add: version_history_def)
  then have k: "le_to_state (es ! k) \<noteq> SUSPENDED"
    using assms(3) by (auto simp: legal_lifecycle_step_def lifecycle_transition_allowed_def allowed_from_def)
  have "rev (take (Suc n) es) = es ! n # es ! k # rev (take k es)"
    using assms(2) Suc by (simp add: take_Suc_conv_app_nth)
  moreover have "valid_suspended_recovery (take (Suc n) es) (le_to_state (es ! Suc n))"
    using assms by (simp add: version_history_def)
  ultimately show ?thesis using k assms(3,4) Suc by (simp add: valid_suspended_recovery_def)
qed

lemma challenger_first:
  assumes "version_history K es"
  shows "n < length es \<Longrightarrow> required_champion_mode (le_to_state (es ! n)) \<noteq> None \<Longrightarrow> \<exists>m<n. le_to_state (es ! m) = CHALLENGER"
proof (induction n rule: less_induct)
  case (less n)
  show ?case
  proof (cases n)
    case 0
    then show ?thesis using history_begins [OF assms] less.prems
      by (cases es) (auto simp: required_champion_mode_def)
  next
    case (Suc k)
    have step: "lifecycle_transition_allowed (le_to_state (es ! k)) (le_to_state (es ! n))"
      using assms less.prems Suc by (auto simp: version_history_def legal_lifecycle_step_def)
    show ?thesis
    proof (cases "le_to_state (es ! k) = SUSPENDED")
      case True
      have rank: "0 < k" "le_to_state (es ! (k - 1)) \<noteq> SUSPENDED"
          "5 \<le> lifecycle_state_rank (le_to_state (es ! (k - 1)))"
        using suspension_recovers [OF assms, of k] True less.prems Suc
        by (auto simp: required_champion_mode_def lifecycle_state_rank_def split: lifecycle_state.splits)
      moreover have "lifecycle_transition_allowed (le_to_state (es ! (k - 1))) SUSPENDED"
        using history_step [OF assms, of "k - 1"] rank(1) less.prems Suc True by simp
      ultimately have "required_champion_mode (le_to_state (es ! (k - 1))) \<noteq> None"
        by (cases "le_to_state (es ! (k - 1))")
          (auto simp: lifecycle_state_rank_def lifecycle_transition_allowed_def allowed_from_def required_champion_mode_def)
      moreover have "k - 1 < n" "k - 1 < length es" using less.prems(1) Suc by auto
      ultimately obtain m where "m < k - 1" "le_to_state (es ! m) = CHALLENGER"
        using less.IH [of "k - 1"] by blast
      then show ?thesis using Suc by (intro exI [of _ m]) simp
    next
      case False
      then have "le_to_state (es ! k) = CHALLENGER"
        using step less.prems(2) by (cases "le_to_state (es ! k)"; cases "le_to_state (es ! n)")
          (auto simp: lifecycle_transition_allowed_def allowed_from_def required_champion_mode_def)
      then show ?thesis using Suc by auto
    qed
  qed
qed


subsection \<open>Champions\<close>

lemma authorised_champion:
  assumes "authorised K b es" "n < length es" "required_champion_mode (le_to_state (es ! n)) = Some mode"
  obtains a where "b = Some a" "exact_authority K (Some a) (es ! n) mode" "champion_path (take n es) (le_to_state (es ! n))"
  using assms by (cases b) (auto simp: authorised_def new_champion_authority_def exact_authority_def)

lemma paper_phase: "list_ex (\<lambda>e. le_to_state e = s) (take n es) \<longleftrightarrow> (\<exists>m < n. m < length es \<and> le_to_state (es ! m) = s)"
proof
  assume "list_ex (\<lambda>e. le_to_state e = s) (take n es)"
  then obtain m where "m < length (take n es)" "le_to_state (take n es ! m) = s"
    unfolding list_ex_length by blast
  then show "\<exists>m < n. m < length es \<and> le_to_state (es ! m) = s" by auto
next
  assume "\<exists>m < n. m < length es \<and> le_to_state (es ! m) = s"
  then obtain m where "m < length (take n es)" "le_to_state (take n es ! m) = s" by auto
  then show "list_ex (\<lambda>e. le_to_state e = s) (take n es)" unfolding list_ex_length by blast
qed

lemma row_of_keyed: "keyed key t \<Longrightarrow> row_of f i t = Some (k, x) \<Longrightarrow> k = key x"
  by (auto dest!: row_of_SomeD simp: keyed_def)

text \<open>C28.  A strategy becomes a champion only with authority: whatever registrations, bindings and
  events the ledger took, a champion event of a version cites the key of the version's one authority
  binding, which was made for the champion's operating mode and before the decision; the version
  was a challenger before, has passed the experimental paper phase exactly when it is a paper
  champion, and is never a champion of the other kind.\<close>

theorem champions_hold_authority:
  assumes "experiment_run K L" "lifecycle_events K L i = Inr xs" "n < length xs"
    and "required_champion_mode (le_to_state (snd (xs ! n))) = Some mode"
  shows "(\<exists>a. binding_row L i = Some (ek_binding K a, a) \<and> ab_strategy_version a = i \<and> ab_mode a = mode
      \<and> ab_bound_at a \<le> le_decided_at (snd (xs ! n)) \<and> ek_binding K a \<in> set (le_evidence_keys (snd (xs ! n))))
    \<and> (\<exists>m < n. le_to_state (snd (xs ! m)) = CHALLENGER)
    \<and> ((\<exists>m < n. le_to_state (snd (xs ! m)) = EXPERIMENTAL_PAPER) \<longleftrightarrow> le_to_state (snd (xs ! n)) = PAPER_CHAMPION)
    \<and> (\<forall>m < length xs. required_champion_mode (le_to_state (snd (xs ! m))) \<noteq> None
         \<longrightarrow> le_to_state (snd (xs ! m)) = le_to_state (snd (xs ! n)))"
proof -
  define es where "es = map snd xs"
  have nth: "es ! m = snd (xs ! m)" if "m < length xs" for m using that by (simp add: es_def)
  have n: "n < length es" "required_champion_mode (le_to_state (es ! n)) = Some mode" using assms(3,4) nth by (simp_all add: es_def)
  note history = readable_history [OF assms(1,2), folded es_def]
  obtain a where a: "map_option snd (binding_row L i) = Some a" "exact_authority K (Some a) (es ! n) mode"
      "champion_path (take n es) (le_to_state (es ! n))"
    using authorised_champion [OF history(2) n] by metis
  have "binding_row L i = Some (ek_binding K a, a)"
    using a(1) row_of_keyed [OF conjunct2 [OF runs_are_keyed [OF assms(1)]]] by auto
  moreover from this have "ab_strategy_version a = i" using row_of_SomeD by fastforce
  moreover have "\<exists>m<n. le_to_state (es ! m) = CHALLENGER" using challenger_first [OF history(1) n(1)] n(2) by simp
  moreover have "(\<exists>m < n. le_to_state (es ! m) = EXPERIMENTAL_PAPER) \<longleftrightarrow> le_to_state (es ! n) = PAPER_CHAMPION"
    using a(3) n by (cases "le_to_state (es ! n)") (auto simp: champion_path_def Let_def paper_phase required_champion_mode_def)
  moreover have "le_to_state (es ! m) = le_to_state (es ! n)"
    if m: "m < length es" "required_champion_mode (le_to_state (es ! m)) \<noteq> None" for m
  proof -
    obtain m' where "required_champion_mode (le_to_state (es ! m)) = Some m'" using m(2) by blast
    moreover from authorised_champion [OF history(2) m(1) this] have "m' = mode"
      using a(1,2) by (auto simp: exact_authority_def)
    ultimately show ?thesis using n(2)
      by (cases "le_to_state (es ! m)"; cases "le_to_state (es ! n)") (auto simp: required_champion_mode_def)
  qed
  ultimately show ?thesis using a(2) n(1) nth assms(3) by (auto simp: exact_authority_def es_def)
qed


subsection \<open>Accepted events\<close>

text \<open>The ledger takes every legal next event, unless its content key is in use.\<close>

lemma legal_event_accepted:
  assumes run: "experiment_run K L" "lifecycle_events K L i = Inr xs" "xs \<noteq> []"
    and e: "valid_lifecycle_event e" "le_strategy_version e = i" "le_sequence e = int (length xs) + 1" "le_kind e = TRANSITION"
      "le_previous_event_key e = Some (fst (last xs))" "le_from_state e = Some (le_to_state (snd (last xs)))"
      "le_to_state (snd (last xs)) \<noteq> REJECTED" "le_decided_at (snd (last xs)) \<le> le_decided_at e"
      "le_effective_date (snd (last xs)) \<le> le_decision_date e"
      "le_to_state (snd (last xs)) = SUSPENDED \<Longrightarrow> valid_suspended_recovery (map snd xs) (le_to_state e)"
      "new_champion_authority K (map_option snd (binding_row L i)) (map snd xs) e"
  shows "append_lifecycle_event K e L =
    (if ek_lifecycle K e \<in> fst ` set (xl_lifecycle L) then Inl Ledger_Conflict
     else Inr (L \<lparr> xl_lifecycle := xl_lifecycle L @ [(ek_lifecycle K e, e)] \<rparr>, True))"
proof -
  obtain parent where p: "verified_lifecycle_parent L i = Some parent" "xs = lifecycle_events_by_version L i"
    "valid_lifecycle_chain parent xs" "authorised K (map_option snd (binding_row L i)) (map snd xs)"
    using lifecycle_events_readable [OF run(1), of i] run(2) by auto
  obtain v h where vh: "parent = Some (v, h)" "lifecycle_chain_from v h [] xs"
    using p(3) run(3) by (cases parent) (auto simp: valid_lifecycle_chain_def)
  define n where "n = length xs - 1"
  have n: "n < length xs" "last xs = xs ! n" using run(3) by (simp_all add: n_def last_conv_nth)
  have last: "le_strategy_version (snd (last xs)) = vr_strategy_version (snd v)" "vr_recorded_at (snd v) \<le> le_decided_at (snd (last xs))"
    using chain_nth [OF vh(2) n(1)] by (simp_all add: n(2) next_lifecycle_event_def)
  have version: "vr_strategy_version (snd v) = i"
    using p(1) vh(1) by (auto simp: verified_lifecycle_parent_def split: option.splits if_splits dest!: row_of_SomeD)
  have "next_lifecycle_event v h xs e"
    using e last version run(3) unfolding next_lifecycle_event_def by (cases "last xs") auto
  then have chain: "valid_lifecycle_chain parent (xs @ [(ek_lifecycle K e, e)])"
    using vh by (simp add: valid_lifecycle_chain_def lifecycle_chain_append)
  have "find (\<lambda>(_, x). le_sequence x = le_sequence e) xs = None"
    using lifecycle_sequences [OF vh(2)] e(3) by (fastforce simp: find_None_iff)
  then show ?thesis
    using p chain authorised_persists [OF p(4)] e(1,2,11) vh(1)
    by (simp add: append_lifecycle_event_def Let_def insert_immutable_def)
qed

lemma accepted_event_read:
  assumes "experiment_run K L" "lifecycle_events K L i = Inr xs" "append_lifecycle_event K e L = Inr (L', True)" "le_strategy_version e = i"
  shows "lifecycle_events K L' i = Inr (xs @ [(ek_lifecycle K e, e)])"
proof -
  have xs: "xs = lifecycle_events_by_version L i" using readable_history(3) [OF assms(1,2)] .
  from assms(3) obtain parent where "L' = L \<lparr> xl_lifecycle := xl_lifecycle L @ [(ek_lifecycle K e, e)] \<rparr>"
      "valid_lifecycle_chain (Some parent) (lifecycle_events_by_version L (le_strategy_version e) @ [(ek_lifecycle K e, e)])"
    by (cases rule: append_lifecycleD) auto
  from events_after_lifecycle [OF this, of i] have "lifecycle_events_by_version L' i = xs @ [(ek_lifecycle K e, e)]"
    using assms(4) xs by simp
  moreover have "experiment_run K L'" using assms(1,3) by (rule experiment_run.lifecycle_event)
  ultimately show ?thesis using lifecycle_events_readable [of K L' i] by metis
qed

lemma history_sequence:
  assumes "experiment_run K L" "lifecycle_events K L i = Inr xs"
  shows "xs \<noteq> [] \<Longrightarrow> le_sequence (snd (last xs)) = int (length xs)"
proof -
  assume xs: "xs \<noteq> []"
  obtain parent where p: "xs = lifecycle_events_by_version L i" "valid_lifecycle_chain parent xs"
    using lifecycle_events_readable [OF assms(1), of i] assms(2) by auto
  then obtain v h where "lifecycle_chain_from v h [] xs"
    using xs by (cases parent) (auto simp: valid_lifecycle_chain_def)
  then show ?thesis using xs
    by (cases xs rule: rev_cases) (auto simp: lifecycle_chain_append next_lifecycle_event_def)
qed

subsection \<open>A sample run\<close>

definition sample_experiment_keys :: experiment_keys where
  "sample_experiment_keys = \<lparr> ek_scope = (\<lambda>_. hex_id 1), ek_hypothesis = (\<lambda>_. hex_id 2), ek_version = (\<lambda>_. hex_id 3),
     ek_binding = (\<lambda>_. hex_id 4), ek_trial = (\<lambda>_. hex_id 5), ek_trial_event = (\<lambda>e. hex_id (5 + nat (te_sequence e))),
     ek_lifecycle = (\<lambda>e. hex_id (8 + nat (le_sequence e))) \<rparr>"

definition sample_scope :: experiment_scope where
  "sample_scope = \<lparr> es_kind = SINGLE_LANE, es_hypothesis_id = ''h1'', es_primary_lane = INTRADAY_MOMENTUM,
     es_lanes = [INTRADAY_MOMENTUM], es_source_hypothesis_ids = [], es_combination_rule = None, es_registered_at = 0 \<rparr>"

definition sample_hypothesis :: hypothesis_registration where
  "sample_hypothesis = \<lparr> hr_hypothesis_id = ''h1'', hr_scope = sample_scope, hr_scope_key = hex_id 1,
     hr_primary_lane = INTRADAY_MOMENTUM, hr_hypothesis = ''opening ranges break'', hr_falsification_rule = ''no edge'',
     hr_source_registered_at = 0, hr_recorded_at = 1 \<rparr>"

definition sample_version :: version_registration where
  "sample_version = \<lparr> vr_strategy_id = ''orb'', vr_strategy_version = ''v1'', vr_hypothesis_id = ''h1'',
     vr_scope_key = hex_id 1, vr_lane = INTRADAY_MOMENTUM, vr_code_version = ''c1'', vr_parameter_set = [''p''],
     vr_data_contract = [''d''], vr_cost_model = [''c''], vr_portfolio_policy = [''f''], vr_source_registered_at = 0,
     vr_recorded_at = 2 \<rparr>"

definition sample_binding :: authority_binding where
  "sample_binding = \<lparr> ab_strategy_version = ''v1'',
     ab_lane = \<lparr> sl_market = US_EQUITIES, sl_family = DAY_TRADING, sl_strategy_id = ''orb'' \<rparr>, ab_mode = SHADOW,
     ab_legacy_lane = INTRADAY_MOMENTUM, ab_bound_at = 3 \<rparr>"

text \<open>One event a day from Monday 6 July 2026, decided at 18:00 in New York.\<close>

definition sample_decision :: "int \<Rightarrow> int" where
  "sample_decision n = ny_utc (combine (739802 + n) (time_of 18 0))"

definition sample_lifecycle :: "int \<Rightarrow> lifecycle_state option \<Rightarrow> lifecycle_state \<Rightarrow> sha list \<Rightarrow> lifecycle_event" where
  "sample_lifecycle n s s' evidence = \<lparr> le_strategy_version = ''v1'', le_sequence = n,
     le_kind = (if s = None then REGISTRATION else TRANSITION), le_from_state = s, le_to_state = s', le_policy_version = ''m1'',
     le_decision_date = 739802 + n, le_effective_date = 739803 + n, le_decided_at = sample_decision n,
     le_evidence_keys = evidence, le_reason_codes = [''existing_contract_import''],
     le_previous_event_key = (if s = None then None else Some (hex_id (8 + nat (n - 1)))) \<rparr>"

definition sample_events :: "lifecycle_event list" where
  "sample_events = [sample_lifecycle 1 None EXPERIMENTAL_SHADOW [hex_id 1, hex_id 2, hex_id 3],
     sample_lifecycle 2 (Some EXPERIMENTAL_SHADOW) CHALLENGER [hex_id 9],
     sample_lifecycle 3 (Some CHALLENGER) SHADOW_CHAMPION [hex_id 4, hex_id 10]]"

definition and_then :: "ledger_error + experiment_ledger \<times> bool
    \<Rightarrow> (experiment_ledger \<Rightarrow> ledger_error + experiment_ledger \<times> bool) \<Rightarrow> ledger_error + experiment_ledger \<times> bool" where
  "and_then r f = (case r of Inl err \<Rightarrow> Inl err | Inr (L, _) \<Rightarrow> f L)"

definition sample_registrations :: "ledger_error + experiment_ledger \<times> bool" where
  "sample_registrations =
     and_then (and_then (register_hypothesis sample_experiment_keys sample_hypothesis empty_ledger)
       (register_strategy_version sample_experiment_keys sample_version))
       (register_strategy_authority_binding sample_experiment_keys sample_binding)"

definition sample_ledger :: experiment_ledger where
  "sample_ledger = \<lparr> xl_hypotheses = [(hex_id 2, sample_hypothesis)], xl_versions = [(hex_id 3, sample_version)],
     xl_bindings = [(hex_id 4, sample_binding)], xl_trials = [], xl_trial_events = [],
     xl_lifecycle = map (\<lambda>e. (ek_lifecycle sample_experiment_keys e, e)) sample_events \<rparr>"

lemma sample_ledger_result:
  "foldl (\<lambda>r e. and_then r (append_lifecycle_event sample_experiment_keys e)) sample_registrations sample_events
     = Inr (sample_ledger, True)"
  by code_simp

lemma and_then_run:
  assumes "and_then r f = Inr (L', b)" "\<And>L c. r = Inr (L, c) \<Longrightarrow> experiment_run K L"
    "\<And>L. f L = Inr (L', b) \<Longrightarrow> experiment_run K L \<Longrightarrow> experiment_run K L'"
  shows "experiment_run K L'"
  using assms by (auto simp: and_then_def split: sum.splits)

lemma appended_run:
  "foldl (\<lambda>r e. and_then r (append_lifecycle_event K e)) r es = Inr (L', b)
     \<Longrightarrow> (\<And>L c. r = Inr (L, c) \<Longrightarrow> experiment_run K L) \<Longrightarrow> experiment_run K L'"
proof (induction es arbitrary: r)
  case (Cons e es)
  show ?case
  proof (rule Cons.IH)
    show "foldl (\<lambda>r e. and_then r (append_lifecycle_event K e)) (and_then r (append_lifecycle_event K e)) es = Inr (L', b)"
      using Cons.prems(1) by simp
    show "experiment_run K L" if "and_then r (append_lifecycle_event K e) = Inr (L, c)" for L c
      using that Cons.prems(2) by (rule and_then_run) (auto intro: experiment_run.lifecycle_event)
  qed
qed simp

lemma sample_run: "experiment_run sample_experiment_keys sample_ledger"
proof (rule appended_run [OF sample_ledger_result])
  fix L c assume "sample_registrations = Inr (L, c)"
  then show "experiment_run sample_experiment_keys L"
    unfolding sample_registrations_def
    by (auto intro!: experiment_run.created elim!: and_then_run
        intro: experiment_run.hypothesis experiment_run.version experiment_run.binding)
qed

lemma sample_history:
  "lifecycle_events sample_experiment_keys sample_ledger ''v1''
     = Inr (map (\<lambda>e. (ek_lifecycle sample_experiment_keys e, e)) sample_events)"
  by code_simp

theorem champions_hold_authority_witness:
  "(\<exists>a. binding_row sample_ledger ''v1'' = Some (ek_binding sample_experiment_keys a, a) \<and> ab_mode a = SHADOW)
   \<and> (\<exists>m < 2. le_to_state (sample_events ! m) = CHALLENGER)"
proof -
  have "le_to_state (sample_events ! 2) = SHADOW_CHAMPION" "length sample_events = 3"
    by (simp_all add: sample_events_def sample_lifecycle_def)
  then show ?thesis
    using champions_hold_authority [OF sample_run sample_history, of 2 SHADOW]
    by (auto simp: required_champion_mode_def)
qed

subsection \<open>Histories\<close>

text \<open>C29.  In every run the lifecycle of a version can be read, and it is a legal history: its first
  event registers the version at most in an experimental state, and each further event starts from
  the state before it, moves along the transition table, cites the content key of the event before,
  is decided no earlier than that event took effect and takes effect on a later date; leaving a
  suspension for another state than rejection leads back no higher than the state that was
  suspended.\<close>

theorem strategy_lifecycle_is_legal:
  assumes "experiment_run K L"
  shows "\<exists>xs. lifecycle_events K L i = Inr xs
    \<and> (xs \<noteq> [] \<longrightarrow> le_to_state (snd (xs ! 0)) \<in> {IDEA, HISTORICAL, EXPERIMENTAL_SHADOW, EXPERIMENTAL_PAPER})
    \<and> (\<forall>n. Suc n < length xs \<longrightarrow> legal_lifecycle_step K (snd (xs ! n)) (snd (xs ! Suc n)))
    \<and> (\<forall>n. Suc n < length xs \<and> le_to_state (snd (xs ! n)) = SUSPENDED \<and> le_to_state (snd (xs ! Suc n)) \<noteq> REJECTED
         \<longrightarrow> 0 < n \<and> lifecycle_state_rank (le_to_state (snd (xs ! Suc n)))
                 \<le> lifecycle_state_rank (le_to_state (snd (xs ! (n - 1)))))"
proof -
  obtain xs where xs: "lifecycle_events K L i = Inr xs" using lifecycle_events_readable [OF assms] by metis
  note h = readable_history(1) [OF assms xs]
  have first: "xs \<noteq> [] \<longrightarrow> le_to_state (snd (xs ! 0)) \<in> {IDEA, HISTORICAL, EXPERIMENTAL_SHADOW, EXPERIMENTAL_PAPER}"
    using history_begins [OF h] by auto
  have step: "legal_lifecycle_step K (snd (xs ! n)) (snd (xs ! Suc n))" if "Suc n < length xs" for n
    using history_step [OF h, of n] that by simp
  have recovery: "0 < n \<and> lifecycle_state_rank (le_to_state (snd (xs ! Suc n))) \<le> lifecycle_state_rank (le_to_state (snd (xs ! (n - 1))))"
    if "Suc n < length xs \<and> le_to_state (snd (xs ! n)) = SUSPENDED \<and> le_to_state (snd (xs ! Suc n)) \<noteq> REJECTED" for n
    using suspension_recovers [OF h, of n] that by (auto simp: nth_map)
  show ?thesis using xs first step recovery by blast
qed

theorem strategy_lifecycle_is_legal_witness:
  "\<exists>xs. lifecycle_events sample_experiment_keys sample_ledger ''v1'' = Inr xs \<and> length xs = 3
     \<and> legal_lifecycle_step sample_experiment_keys (snd (xs ! 1)) (snd (xs ! 2))"
proof -
  obtain xs where xs: "lifecycle_events sample_experiment_keys sample_ledger ''v1'' = Inr xs"
      "\<forall>n. Suc n < length xs \<longrightarrow> legal_lifecycle_step sample_experiment_keys (snd (xs ! n)) (snd (xs ! Suc n))"
    using strategy_lifecycle_is_legal [OF sample_run, of "''v1''"] by blast
  have "length xs = length sample_events" using xs(1) unfolding sample_history by auto
  then have "length xs = 3" by (simp add: sample_events_def)
  then show ?thesis using xs(1) spec [OF xs(2), of 1] by (simp add: numeral_2_eq_2)
qed

text \<open>C30.  A trial is one start and at most one end: in every run the events of a trial can be read,
  and they are none, its start, or its start and a completion, failure or censoring that cites the
  key of the start; the trial was registered before the opening of its first planned session, and
  nothing happens to it before it was registered.\<close>

theorem trials_start_and_end_once:
  assumes "experiment_run K L"
  shows "\<exists>xs. trial_events L i = Inr xs \<and> list_all valid_trial_event (map snd xs)
    \<and> (xs = [] \<or> (\<exists>t s rest opens closes. trial_row L i = Some t \<and> xs = s # rest
         \<and> te_kind (snd s) = STARTED \<and> te_previous_event_key (snd s) = None \<and> tr_registered_at (snd t) \<le> te_occurred_at (snd s)
         \<and> regular_session_bounds (tr_planned_start (snd t)) = Some (opens, closes) \<and> tr_registered_at (snd t) < ny_utc opens
         \<and> (rest = [] \<or> (\<exists>e. rest = [e] \<and> te_kind (snd e) \<noteq> STARTED \<and> te_previous_event_key (snd e) = Some (fst s)
              \<and> te_occurred_at (snd s) \<le> te_occurred_at (snd e)))))"
proof -
  define xs where "xs = trial_events_by_id L i"
  have "trial_good K L i" using runs_are_good [OF assms] by (simp add: ledger_good_def)
  then obtain parent where p: "verified_trial_parent L i = Some parent" "list_all valid_trial_event (map snd xs)"
      "\<And>t. parent = Some t \<Longrightarrow> valid_trial (ek_scope K) (snd t)" "valid_trial_event_chain parent xs"
    by (auto simp: trial_good_def xs_def split: option.splits)
  have read: "trial_events L i = Inr xs" using p(1,4) by (simp add: trial_events_def xs_def)
  show ?thesis
  proof (cases xs)
    case Nil then show ?thesis using read by simp
  next
    case (Cons s rest)
    then obtain t where t: "parent = Some t" "trial_chain_from (snd t) None 1 xs"
      using p(4) by (auto simp: valid_trial_event_chain_def split: option.splits)
    have row: "trial_row L i = Some t" using p(1) t(1) by (auto simp: verified_trial_parent_def split: option.splits if_splits prod.splits)
    obtain opens closes where bounds: "regular_session_bounds (tr_planned_start (snd t)) = Some (opens, closes)"
        "tr_registered_at (snd t) < ny_utc opens"
      using p(3) [OF t(1)] by (auto simp: valid_trial_def split: option.splits)
    have start: "te_kind (snd s) = STARTED" "te_previous_event_key (snd s) = None" "tr_registered_at (snd t) \<le> te_occurred_at (snd s)"
      using t(2) by (cases s; simp add: Cons)+
    have "rest = [] \<or> (\<exists>e. rest = [e] \<and> te_kind (snd e) \<noteq> STARTED \<and> te_previous_event_key (snd e) = Some (fst s)
        \<and> te_occurred_at (snd s) \<le> te_occurred_at (snd e))"
    proof (cases rest)
      case (Cons e rest')
      have "te_sequence (snd e) = 2" "te_previous_event_key (snd e) = Some (fst s)" "te_occurred_at (snd s) \<le> te_occurred_at (snd e)"
        using t(2) unfolding \<open>xs = s # rest\<close> Cons by (cases s; cases e; simp)+
      moreover have "valid_trial_event (snd e)" using p(2) \<open>xs = s # rest\<close> Cons by simp
      ultimately have e: "te_kind (snd e) \<noteq> STARTED" by (auto simp: valid_trial_event_def)
      have "rest' = []"
        using t(2) e unfolding \<open>xs = s # rest\<close> Cons by (cases s; cases e; cases rest') auto
      then show ?thesis using Cons e t(2) \<open>xs = s # rest\<close> by (cases s; cases e) auto
    qed simp
    then show ?thesis using read p(2) row bounds start Cons by blast
  qed
qed

definition sample_trial :: trial_registration where
  "sample_trial = \<lparr> tr_trial_id = ''t1'', tr_strategy_version = ''v1'', tr_kind = SHADOW_FORWARD, tr_scope = sample_scope,
     tr_scope_key = hex_id 1, tr_evaluator_version = ''e1'', tr_data_version = hex_id 0, tr_feed_entitlement = ''sip'',
     tr_planned_start = 739803, tr_planned_end = 739804, tr_registered_at = 5, tr_evidence_budget = [''sessions''] \<rparr>"

definition sample_start :: trial_event where
  "sample_start = \<lparr> te_trial_id = ''t1'', te_sequence = 1, te_kind = STARTED, te_occurred_at = 6, te_artifact_sha256s = [],
     te_reason_codes = [], te_previous_event_key = None \<rparr>"

definition sample_trial_ledger :: experiment_ledger where
  "sample_trial_ledger = \<lparr> xl_hypotheses = [(hex_id 2, sample_hypothesis)], xl_versions = [(hex_id 3, sample_version)],
     xl_bindings = [(hex_id 4, sample_binding)], xl_trials = [(hex_id 5, sample_trial)],
     xl_trial_events = [(hex_id 6, sample_start)], xl_lifecycle = [] \<rparr>"

lemma sample_trial_result:
  "and_then (and_then sample_registrations (register_trial sample_experiment_keys sample_trial))
     (append_trial_event sample_experiment_keys sample_start) = Inr (sample_trial_ledger, True)"
  by code_simp

theorem trials_start_and_end_once_witness:
  "\<exists>s. trial_events sample_trial_ledger ''t1'' = Inr [s] \<and> te_kind (snd s) = STARTED"
proof -
  have "experiment_run sample_experiment_keys sample_trial_ledger"
    using sample_trial_result unfolding sample_registrations_def
    by (auto intro!: experiment_run.created elim!: and_then_run
        intro: experiment_run.hypothesis experiment_run.version experiment_run.binding experiment_run.trial
          experiment_run.trial_event)
  then obtain xs where xs: "trial_events sample_trial_ledger ''t1'' = Inr xs"
      "xs = [] \<or> (\<exists>s rest. xs = s # rest \<and> te_kind (snd s) = STARTED)"
    using trials_start_and_end_once [of sample_experiment_keys sample_trial_ledger "''t1''"] by blast
  moreover have "map_sum id length (trial_events sample_trial_ledger ''t1'') = Inr 1" by code_simp
  ultimately show ?thesis by (auto simp: length_Suc_conv)
qed

end
