(* ===== verification/Lifecycle_Controller.thy ===== *)
theory Lifecycle_Controller
  imports Lane_Review Experiment_Guarantees
begin

text \<open>
  The controller that turns a review into a lifecycle event:
  \<^verbatim>\<open>trading_agent/lifecycle_controller.py\<close>.  The Korean texts of the hypothesis are
  parameters.
\<close>

subsection \<open>The sources it verifies\<close>

definition lifecycle_controller_policy :: string where
  "lifecycle_controller_policy = ''lifecycle_controller_v1''"

definition promotion_blocker_codes :: "string list" where
  "promotion_blocker_codes = [''broker_shadow_promotion_evidence_missing'', ''dsr_pbo_evidence_missing'',
     ''parameter_plateau_evidence_missing'', ''sip_validation_evidence_missing'']"

definition suspend_reason_codes :: "string list" where
  "suspend_reason_codes = [''five_day_clear_degradation'', ''review_evidence_verified'']"

definition suspendible_states :: "lifecycle_state list" where
  "suspendible_states = [EXPERIMENTAL_SHADOW, EXPERIMENTAL_PAPER, CHALLENGER, SHADOW_CHAMPION, PAPER_CHAMPION]"

datatype controller_outcome = No_Change | Controller_Blocked | Transitioned

text \<open>\<open>Invalid_Controller_Source\<close> is the controller's own error; a conflict of the ledger passes through.\<close>

datatype controller_error = Invalid_Controller_Source | Controller_Ledger_Error ledger_error

record controller_result =
  cr_outcome :: controller_outcome
  cr_created :: bool
  cr_session_date :: int
  cr_from_state :: lifecycle_state
  cr_to_state :: "lifecycle_state option"
  cr_reason_codes :: "string list"
  cr_blockers :: "string list"
  cr_event :: "lifecycle_event option"

record controller_setup =
  cs_review :: review_keys
  cs_experiment :: experiment_keys
  cs_hypothesis :: string
  cs_falsification_rule :: string

record controller_source =
  cv_snapshot :: lane_snapshot
  cv_snapshot_key :: sha
  cv_review :: lane_review
  cv_review_key :: sha
  cv_events :: "(sha \<times> lifecycle_event) list"
  cv_current :: "sha \<times> lifecycle_event"

text \<open>The key of the scope of the opening range strategy.\<close>

definition orb_scope_key :: "controller_setup \<Rightarrow> sha" where
  "orb_scope_key C = ly_scope (rk_lanes (cs_review C)) orb_scope"

definition exact_lane_contracts :: "controller_setup \<Rightarrow> lane_registry \<Rightarrow> bool" where
  "exact_lane_contracts C R \<longleftrightarrow>
     filter (\<lambda>(_, m). lm_lane_id m = INTRADAY_MOMENTUM \<and> lm_manifest_version m = lm_manifest_version intraday_manifest)
         (lg_manifests R) = [(ly_manifest (rk_lanes (cs_review C)) intraday_manifest, intraday_manifest)]
     \<and> filter (\<lambda>(_, s). es_hypothesis_id s = es_hypothesis_id orb_scope) (lg_scopes R) = [(orb_scope_key C, orb_scope)]"

definition exact_hypothesis :: "controller_setup \<Rightarrow> hypothesis_registration \<Rightarrow> bool" where
  "exact_hypothesis C h \<longleftrightarrow> hr_scope h = orb_scope \<and> hr_scope_key h = orb_scope_key C
     \<and> hr_primary_lane h = INTRADAY_MOMENTUM \<and> hr_hypothesis h = cs_hypothesis C
     \<and> hr_falsification_rule h = cs_falsification_rule C"

definition exact_version :: "controller_setup \<Rightarrow> version_registration \<Rightarrow> bool" where
  "exact_version C v \<longleftrightarrow> vr_strategy_id v = ''orb''
     \<and> (vr_strategy_version v = orb_strategy_version
        \<or> Some (vr_strategy_version v) = orb_version_identity (rk_digest (cs_review C)) (vr_code_version v))
     \<and> vr_hypothesis_id v = es_hypothesis_id orb_scope \<and> vr_scope_key v = orb_scope_key C \<and> vr_lane v = INTRADAY_MOMENTUM
     \<and> vr_parameter_set v = orb_parameter_set \<and> vr_data_contract v = current_data_contract
     \<and> vr_cost_model v = current_cost_model \<and> vr_portfolio_policy v = shadow_portfolio_policy
     \<and> vr_source_registered_at v = es_registered_at orb_scope"

definition exact_lineage :: "controller_setup \<Rightarrow> experiment_ledger \<Rightarrow> string \<Rightarrow> bool" where
  "exact_lineage C L i =
     (case (filter (\<lambda>(_, h). hr_hypothesis_id h = es_hypothesis_id orb_scope) (xl_hypotheses L),
            filter (\<lambda>(_, v). vr_strategy_version v = i) (xl_versions L)) of
        ([(_, h)], [(_, v)]) \<Rightarrow> exact_hypothesis C h \<and> exact_version C v
      | _ \<Rightarrow> False)"

definition exact_snapshot :: "controller_setup \<Rightarrow> int \<Rightarrow> int \<Rightarrow> sha \<times> lane_snapshot \<Rightarrow> bool" where
  "exact_snapshot C session_date close = (\<lambda>(key, s).
     key = ly_snapshot (rk_lanes (cs_review C)) s \<and> ln_lane_id s = INTRADAY_MOMENTUM \<and> ln_session_date s = session_date
     \<and> ln_manifest_key s = ly_manifest (rk_lanes (cs_review C)) intraday_manifest
     \<and> ln_scope_keys s = [orb_scope_key C] \<and> close \<le> ln_finalized_at s
     \<and> ln_open_order_count s = 0 \<and> ln_open_position_count s = 0 \<and> num_eq (ln_planned_open_risk s) (Finite 0))"

definition exact_review :: "controller_setup \<Rightarrow> int \<Rightarrow> int \<Rightarrow> sha \<times> lane_snapshot \<Rightarrow> sha \<times> lane_review \<Rightarrow> bool" where
  "exact_review C session_date decided_at = (\<lambda>(snapshot_key, s) (key, r).
     key = rk_review (cs_review C) r \<and> lv_lane_id r = INTRADAY_MOMENTUM \<and> lv_session_date r = session_date
     \<and> lv_snapshot_key r = snapshot_key \<and> lv_scope_key r = orb_scope_key C \<and> lv_evaluator_version r = evaluator_version
     \<and> lv_reviewer_version r = lane_reviewer_version
     \<and> lv_reviewer_action r = expected_reviewer_action (lv_adaptive_action r)
     \<and> ln_finalized_at s \<le> lv_reviewed_at r \<and> lv_reviewed_at r \<le> decided_at)"

definition verified_source ::
  "controller_setup \<Rightarrow> lane_registry \<Rightarrow> review_ledger \<Rightarrow> experiment_ledger \<Rightarrow> int \<Rightarrow> pydt \<Rightarrow> controller_source option" where
  "verified_source C R reviews L session_date decided_at =
     (if \<not> is_aware decided_at \<or> wall_date (ny (instant decided_at)) \<noteq> session_date then None
      else case regular_session_bounds session_date of
        None \<Rightarrow> None
      | Some (_, close) \<Rightarrow>
          if \<not> exact_lane_contracts C R then None
          else (case daily_snapshot INTRADAY_MOMENTUM session_date R of
            Inr (Some snapshot) \<Rightarrow>
              if \<not> exact_snapshot C session_date (ny_utc close) snapshot then None
              else (case review_event (rk_review (cs_review C)) (fst snapshot) (orb_scope_key C) lane_reviewer_version reviews of
                Inr (Some review) \<Rightarrow>
                  if \<not> exact_review C session_date (instant decided_at) snapshot review then None
                  else if \<not> exact_lineage C L (lv_strategy_version (snd review)) then None
                  else (case (lifecycle_events (cs_experiment C) L (lv_strategy_version (snd review)),
                          lifecycle_state_on (cs_experiment C) L (lv_strategy_version (snd review)) session_date) of
                    (Inr chain, Inr (Some current)) \<Rightarrow>
                      if chain = [] then None
                      else Some \<lparr> cv_snapshot = snd snapshot, cv_snapshot_key = fst snapshot, cv_review = snd review,
                        cv_review_key = fst review, cv_events = chain, cv_current = current \<rparr>
                  | _ \<Rightarrow> None)
              | _ \<Rightarrow> None)
          | _ \<Rightarrow> None))"

subsection \<open>The decision\<close>

text \<open>The first session within ten days.\<close>

definition controller_next_session :: "int \<Rightarrow> int option" where
  "controller_next_session session_date =
     find (\<lambda>d. regular_session_bounds d \<noteq> None) (map (\<lambda>offset. session_date + int offset) [1..<11])"

definition transition_result :: "int \<Rightarrow> lifecycle_state \<Rightarrow> bool \<Rightarrow> lifecycle_event \<Rightarrow> controller_result" where
  "transition_result session_date from_state created e = \<lparr> cr_outcome = Transitioned, cr_created = created,
     cr_session_date = session_date, cr_from_state = from_state, cr_to_state = Some SUSPENDED,
     cr_reason_codes = suspend_reason_codes, cr_blockers = [], cr_event = Some e \<rparr>"

definition non_transition_result :: "controller_outcome \<Rightarrow> int \<Rightarrow> lifecycle_state \<Rightarrow> string list \<Rightarrow> controller_result" where
  "non_transition_result outcome session_date from_state blockers = \<lparr> cr_outcome = outcome, cr_created = False,
     cr_session_date = session_date, cr_from_state = from_state, cr_to_state = None,
     cr_reason_codes = [''review_evidence_verified''], cr_blockers = blockers, cr_event = None \<rparr>"

text \<open>A decision of the controller made earlier for the same session: \<open>None\<close> where it raises.\<close>

definition existing_controller_replay :: "controller_source \<Rightarrow> int \<Rightarrow> controller_result option option" where
  "existing_controller_replay src session_date =
     (case filter (\<lambda>i. le_policy_version (snd (cv_events src ! i)) = lifecycle_controller_policy
              \<and> le_decision_date (snd (cv_events src ! i)) = session_date) [0..<length (cv_events src)] of
        [] \<Rightarrow> Some None
      | [Suc i] \<Rightarrow>
          (let (pkey, p) = cv_events src ! i; e = snd (cv_events src ! Suc i)
           in if le_kind e = TRANSITION \<and> le_from_state e = Some (le_to_state p) \<and> le_to_state e = SUSPENDED
                \<and> le_previous_event_key e = Some pkey
                \<and> le_evidence_keys e = sort [pkey, cv_review_key src, cv_snapshot_key src]
                \<and> le_reason_codes e = suspend_reason_codes
                \<and> Some (le_effective_date e) = controller_next_session session_date
                \<and> lv_reviewed_at (cv_review src) \<le> le_decided_at e
              then Some (Some (transition_result session_date (le_to_state p) False e)) else None)
      | _ \<Rightarrow> None)"

definition closed_policy_decision :: "controller_source \<Rightarrow> int \<Rightarrow> controller_result option option" where
  "closed_policy_decision src session_date =
     (let state = le_to_state (snd (cv_current src)); no_change = non_transition_result No_Change session_date state;
          blocked = non_transition_result Controller_Blocked session_date state; review = cv_review src
      in if state = SUSPENDED then Some (Some (no_change [''already_suspended'']))
         else if state = REJECTED then Some (Some (no_change [''rejected_terminal'']))
         else (case lv_adaptive_action review of
             COLLECTING \<Rightarrow> Some (Some (no_change []))
           | SHADOW_CONTINUE \<Rightarrow> Some (Some (no_change []))
           | DIAGNOSE \<Rightarrow> Some (Some (no_change [''diagnosis_required'']))
           | EARLY_STOP \<Rightarrow> Some (Some (blocked [''early_stop_rejection_not_enabled'']))
           | COMPARISON_READY \<Rightarrow> Some (Some (blocked [''equal_risk_terminal_trial_evidence_missing'']))
           | PROMOTION_REVIEW \<Rightarrow> Some (Some (blocked promotion_blocker_codes))
           | SUSPEND \<Rightarrow>
               if lv_reviewer_action review \<noteq> Stop_Recommended \<or> ''five_day_clear_degradation'' \<notin> set (lv_reasons review) then None
               else if \<not> ln_data_quality_complete (cv_snapshot src) \<or> ln_incidents (cv_snapshot src) \<noteq> []
               then Some (Some (blocked [''clean_finalized_snapshot_required'']))
               else if state \<notin> set suspendible_states then Some (Some (blocked [''current_state_not_suspendible'']))
               else Some None))"

definition suspend_event :: "controller_source \<Rightarrow> int \<Rightarrow> int \<Rightarrow> lifecycle_event option" where
  "suspend_event src session_date decided_at =
     (case controller_next_session session_date of
        None \<Rightarrow> None
      | Some effective \<Rightarrow>
          (let (key, latest) = last (cv_events src);
               e = \<lparr> le_strategy_version = le_strategy_version latest, le_sequence = le_sequence latest + 1, le_kind = TRANSITION,
                 le_from_state = Some (le_to_state latest), le_to_state = SUSPENDED, le_policy_version = lifecycle_controller_policy,
                 le_decision_date = session_date, le_effective_date = effective, le_decided_at = decided_at,
                 le_evidence_keys = sort [key, cv_review_key src, cv_snapshot_key src], le_reason_codes = suspend_reason_codes,
                 le_previous_event_key = Some key \<rparr>
           in if valid_lifecycle_event e then Some e else None))"

definition control_intraday_orb_lifecycle ::
  "controller_setup \<Rightarrow> lane_registry \<Rightarrow> review_ledger \<Rightarrow> int \<Rightarrow> pydt \<Rightarrow> experiment_ledger
     \<Rightarrow> experiment_ledger \<times> (controller_error + controller_result)" where
  "control_intraday_orb_lifecycle C R reviews session_date decided_at L =
     (case verified_source C R reviews L session_date decided_at of
        None \<Rightarrow> (L, Inl Invalid_Controller_Source)
      | Some src \<Rightarrow>
          (case existing_controller_replay src session_date of
             None \<Rightarrow> (L, Inl Invalid_Controller_Source)
           | Some (Some replay) \<Rightarrow> (L, Inr replay)
           | Some None \<Rightarrow>
               if last (cv_events src) \<noteq> cv_current src \<or> session_date < le_effective_date (snd (last (cv_events src)))
               then (L, Inl Invalid_Controller_Source)
               else (case closed_policy_decision src session_date of
                   None \<Rightarrow> (L, Inl Invalid_Controller_Source)
                 | Some (Some decision) \<Rightarrow> (L, Inr decision)
                 | Some None \<Rightarrow>
                     (case suspend_event src session_date (instant decided_at) of
                        None \<Rightarrow> (L, Inl Invalid_Controller_Source)
                      | Some e \<Rightarrow>
                          (case append_lifecycle_event (cs_experiment C) e L of
                             Inl err \<Rightarrow> (L, Inl (Controller_Ledger_Error err))
                           | Inr (L', created) \<Rightarrow>
                               (L', Inr (transition_result session_date (le_to_state (snd (cv_current src))) created e)))))))"

subsection \<open>What the controller has verified\<close>

lemma verified_sourceD:
  assumes "verified_source C R reviews L d t = Some src"
  shows "is_aware t" "wall_date (ny (instant t)) = d"
    "daily_snapshot INTRADAY_MOMENTUM d R = Inr (Some (cv_snapshot_key src, cv_snapshot src))"
    "review_event (rk_review (cs_review C)) (cv_snapshot_key src) (orb_scope_key C) lane_reviewer_version reviews
       = Inr (Some (cv_review_key src, cv_review src))"
    "exact_review C d (instant t) (cv_snapshot_key src, cv_snapshot src) (cv_review_key src, cv_review src)"
    "lifecycle_events (cs_experiment C) L (lv_strategy_version (cv_review src)) = Inr (cv_events src)" "cv_events src \<noteq> []"
    "lifecycle_state_on (cs_experiment C) L (lv_strategy_version (cv_review src)) d = Inr (Some (cv_current src))"
  using assms by (auto simp: verified_source_def split: if_splits option.splits prod.splits sum.splits)

lemma verified_flat:
  assumes "verified_source C R reviews L d t = Some src"
  shows "ln_open_order_count (cv_snapshot src) = 0 \<and> ln_open_position_count (cv_snapshot src) = 0"
  using assms by (auto simp: verified_source_def exact_snapshot_def split: if_splits option.splits prod.splits sum.splits)

text \<open>A later look the same day, at the same registries and a longer history, verifies the same.\<close>

lemma verified_source_again:
  assumes "verified_source C R reviews L d t = Some src" "is_aware t'" "wall_date (ny (instant t')) = d" "instant t \<le> instant t'"
    and "xl_hypotheses L' = xl_hypotheses L" "xl_versions L' = xl_versions L"
    and "lifecycle_events (cs_experiment C) L' (lv_strategy_version (cv_review src)) = Inr (cv_events src @ later)"
    and "\<forall>x \<in> set later. d < le_effective_date (snd x)"
  shows "verified_source C R reviews L' d t' = Some (src \<lparr> cv_events := cv_events src @ later \<rparr>)"
proof -
  have keep: "filter (\<lambda>(_, e). le_effective_date e \<le> d) later = []" using assms(8) by (auto simp: filter_empty_conv)
  have state: "lifecycle_state_on (cs_experiment C) L' (lv_strategy_version (cv_review src)) d = Inr (Some (cv_current src))"
    using verified_sourceD(6,8) [OF assms(1)] assms(7) by (simp add: lifecycle_state_on_def keep)
  have lineage: "exact_lineage C L' i = exact_lineage C L i" for i by (simp add: exact_lineage_def assms(5,6))
  have review: "exact_review C d (instant t') (k, s) (k', r)" if "exact_review C d (instant t) (k, s) (k', r)" for k s k' r
    using that assms(4) by (auto simp: exact_review_def)
  show ?thesis
    using assms(1-3,7) state review verified_sourceD(7) [OF assms(1)]
    by (auto simp: verified_source_def lineage split: if_splits option.splits prod.splits sum.splits)
qed

lemma current_is_effective:
  assumes "verified_source C R reviews L d t = Some src"
  shows "cv_current src \<in> set (cv_events src)" "le_effective_date (snd (cv_current src)) \<le> d"
proof -
  have "cv_current src = last (filter (\<lambda>(_, e). le_effective_date e \<le> d) (cv_events src))"
      "filter (\<lambda>(_, e). le_effective_date e \<le> d) (cv_events src) \<noteq> []"
    using verified_sourceD(6,8) [OF assms] by (auto simp: lifecycle_state_on_def Let_def split: if_splits)
  then have "cv_current src \<in> set (filter (\<lambda>(_, e). le_effective_date e \<le> d) (cv_events src))"
    using last_in_set by metis
  then show "cv_current src \<in> set (cv_events src)" "le_effective_date (snd (cv_current src)) \<le> d" by auto
qed

lemma next_session_within:
  assumes "controller_next_session d = Some e"
  shows "d < e \<and> e \<le> d + 10 \<and> regular_session_bounds e \<noteq> None \<and> (\<forall>x. d < x \<and> x < e \<longrightarrow> regular_session_bounds x = None)"
proof -
  define ds where "ds = map (\<lambda>offset. d + int offset) [1..<11]"
  obtain i where i: "i < length ds" "regular_session_bounds (ds ! i) \<noteq> None" "e = ds ! i"
      "\<forall>j < i. \<not> regular_session_bounds (ds ! j) \<noteq> None"
    using assms unfolding controller_next_session_def ds_def [symmetric] find_Some_iff by blast
  have nth: "ds ! j = d + 1 + int j" if "j < 10" for j using that by (simp add: ds_def)
  have len: "length ds = 10" by (simp add: ds_def)
  have e: "e = d + 1 + int i" using i nth len by simp
  moreover have "regular_session_bounds x = None" if "d < x" "x < e" for x
  proof -
    define j where "j = nat (x - d - 1)"
    have j: "j < i" "x = d + 1 + int j" using that e by (auto simp: j_def)
    have "regular_session_bounds (ds ! j) = None" using i(4) j(1) by blast
    then show ?thesis using nth [of j] j i(1) len by simp
  qed
  ultimately show ?thesis using i len by auto
qed

text \<open>The event of a suspension and how the ledger takes it.\<close>

lemma suspend_eventD:
  assumes "suspend_event src d t = Some e"
  shows "valid_lifecycle_event e \<and> le_strategy_version e = le_strategy_version (snd (last (cv_events src)))
    \<and> le_sequence e = le_sequence (snd (last (cv_events src))) + 1 \<and> le_kind e = TRANSITION
    \<and> le_from_state e = Some (le_to_state (snd (last (cv_events src)))) \<and> le_to_state e = SUSPENDED
    \<and> le_policy_version e = lifecycle_controller_policy \<and> le_decision_date e = d
    \<and> controller_next_session d = Some (le_effective_date e) \<and> le_decided_at e = t
    \<and> le_evidence_keys e = sort [fst (last (cv_events src)), cv_review_key src, cv_snapshot_key src]
    \<and> le_reason_codes e = suspend_reason_codes \<and> le_previous_event_key e = Some (fst (last (cv_events src)))"
  using assms by (cases "last (cv_events src)") (auto simp: suspend_event_def Let_def split: option.splits if_splits)

lemma suspension_accepted:
  assumes "experiment_run (cs_experiment C) L" "verified_source C R reviews L d t = Some src"
    and "last (cv_events src) = cv_current src" "le_effective_date (snd (last (cv_events src))) \<le> d"
    and "closed_policy_decision src d = Some None" "suspend_event src d (instant t) = Some e"
  shows "append_lifecycle_event (cs_experiment C) e L =
    (if ek_lifecycle (cs_experiment C) e \<in> fst ` set (xl_lifecycle L) then Inl Ledger_Conflict
     else Inr (L \<lparr> xl_lifecycle := xl_lifecycle L @ [(ek_lifecycle (cs_experiment C) e, e)] \<rparr>, True))"
proof -
  note src = verified_sourceD [OF assms(2)] and ev = suspend_eventD [OF assms(6)]
  define p where "p = snd (last (cv_events src))"
  have state: "le_to_state p \<in> set suspendible_states"
    using assms(5) unfolding p_def assms(3)
    by (auto simp: closed_policy_decision_def Let_def split: if_splits adaptive_action.splits)
  have p: "valid_lifecycle_event p" "le_strategy_version p = lv_strategy_version (cv_review src)"
      "le_sequence p = int (length (cv_events src))"
    using readable_history(1,3) [OF assms(1) src(6)] last_in_set [OF src(7)] src(7)
      history_sequence [OF assms(1) src(6)]
    by (auto simp: p_def version_history_def list_all_iff lifecycle_events_by_version_def)
  have "wall_date (ny (le_decided_at p)) < wall_date (ny (instant t))"
    using p(1) assms(4) src(2) by (auto simp: valid_lifecycle_event_def p_def)
  then have "le_decided_at p \<le> le_decided_at e" using ny_date_before [of "le_decided_at p" "instant t"] ev by simp
  then show ?thesis
    by (intro legal_event_accepted [OF assms(1) src(6,7)])
      (use ev p state assms(4) in \<open>auto simp: p_def suspendible_states_def new_champion_authority_def required_champion_mode_def\<close>)
qed

text \<open>Every call ends in one of three ways: an error or a decision that leaves the ledger as it is, or
  a suspension.\<close>

definition suspended :: "controller_setup \<Rightarrow> controller_source \<Rightarrow> int \<Rightarrow> int \<Rightarrow> lifecycle_event \<Rightarrow> bool" where
  "suspended C src d t e \<longleftrightarrow> existing_controller_replay src d = Some None \<and> last (cv_events src) = cv_current src
     \<and> le_effective_date (snd (last (cv_events src))) \<le> d \<and> closed_policy_decision src d = Some None
     \<and> suspend_event src d t = Some e"

lemma control_cases:
  assumes "experiment_run (cs_experiment C) L" "control_intraday_orb_lifecycle C R reviews d t L = (L', r)"
  obtains (kept) "L' = L" "r = Inl Invalid_Controller_Source"
  | (conflict) src e where "verified_source C R reviews L d t = Some src" "suspended C src d (instant t) e"
      "L' = L" "r = Inl (Controller_Ledger_Error Ledger_Conflict)" "ek_lifecycle (cs_experiment C) e \<in> fst ` set (xl_lifecycle L)"
  | (replayed) src res where "verified_source C R reviews L d t = Some src" "existing_controller_replay src d = Some (Some res)"
      "L' = L" "r = Inr res"
  | (decided) src res where "verified_source C R reviews L d t = Some src" "existing_controller_replay src d = Some None"
      "last (cv_events src) = cv_current src" "le_effective_date (snd (last (cv_events src))) \<le> d"
      "closed_policy_decision src d = Some (Some res)" "L' = L" "r = Inr res"
  | (suspension) src e where "verified_source C R reviews L d t = Some src" "suspended C src d (instant t) e"
      "append_lifecycle_event (cs_experiment C) e L = Inr (L', True)"
      "L' = L \<lparr> xl_lifecycle := xl_lifecycle L @ [(ek_lifecycle (cs_experiment C) e, e)] \<rparr>"
      "r = Inr (transition_result d (le_to_state (snd (cv_current src))) True e)"
proof (cases "\<exists>src e. verified_source C R reviews L d t = Some src \<and> suspended C src d (instant t) e")
  case True
  then obtain src e where e: "verified_source C R reviews L d t = Some src" "suspended C src d (instant t) e" by blast
  have accepted: "append_lifecycle_event (cs_experiment C) e L =
    (if ek_lifecycle (cs_experiment C) e \<in> fst ` set (xl_lifecycle L) then Inl Ledger_Conflict
     else Inr (L \<lparr> xl_lifecycle := xl_lifecycle L @ [(ek_lifecycle (cs_experiment C) e, e)] \<rparr>, True))"
    using e(2) unfolding suspended_def by (elim conjE) (rule suspension_accepted [OF assms(1) e(1)])
  have step: "(L', r) = (case append_lifecycle_event (cs_experiment C) e L of
      Inl err \<Rightarrow> (L, Inl (Controller_Ledger_Error err))
    | Inr (L', created) \<Rightarrow> (L', Inr (transition_result d (le_to_state (snd (cv_current src))) created e)))"
    using assms(2) e(2) unfolding control_intraday_orb_lifecycle_def suspended_def
    by (elim conjE) (simp add: e(1) not_less split: sum.splits)
  show thesis
  proof (cases "ek_lifecycle (cs_experiment C) e \<in> fst ` set (xl_lifecycle L)")
    case True
    show thesis by (rule conflict [OF e _ _ True]) (use step True in \<open>simp_all add: accepted\<close>)
  next
    case False
    show thesis by (rule suspension [OF e]) (use step False in \<open>simp_all add: accepted\<close>)
  qed
next
  case False
  then show thesis
    using assms(2) kept replayed decided
    by (auto simp: control_intraday_orb_lifecycle_def suspended_def not_less split: option.splits if_splits)
qed

lemma suspensionD:
  assumes "verified_source C R reviews L d t = Some src" "suspended C src d (instant t) e"
  shows "lv_adaptive_action (cv_review src) = SUSPEND \<and> ''five_day_clear_degradation'' \<in> set (lv_reasons (cv_review src))
      \<and> ln_data_quality_complete (cv_snapshot src) \<and> ln_incidents (cv_snapshot src) = []
      \<and> le_to_state (snd (cv_current src)) \<in> set suspendible_states"
    "le_from_state e = Some (le_to_state (snd (cv_current src))) \<and> le_to_state e = SUSPENDED
      \<and> controller_next_session d = Some (le_effective_date e)"
    "le_strategy_version e = le_strategy_version (snd (last (cv_events src)))"
proof -
  have s: "closed_policy_decision src d = Some None" "suspend_event src d (instant t) = Some e"
      "last (cv_events src) = cv_current src"
    using assms(2) by (simp_all add: suspended_def)
  show "lv_adaptive_action (cv_review src) = SUSPEND \<and> ''five_day_clear_degradation'' \<in> set (lv_reasons (cv_review src))
      \<and> ln_data_quality_complete (cv_snapshot src) \<and> ln_incidents (cv_snapshot src) = []
      \<and> le_to_state (snd (cv_current src)) \<in> set suspendible_states"
    using s(1) unfolding closed_policy_decision_def Let_def by (simp split: if_splits adaptive_action.splits)
  show "le_from_state e = Some (le_to_state (snd (cv_current src))) \<and> le_to_state e = SUSPENDED
      \<and> controller_next_session d = Some (le_effective_date e)"
    "le_strategy_version e = le_strategy_version (snd (last (cv_events src)))"
    using suspend_eventD [OF s(2)] s(3) by simp_all
qed

lemma latest_version:
  assumes "experiment_run (cs_experiment C) L" "verified_source C R reviews L d t = Some src"
  shows "le_strategy_version (snd (last (cv_events src))) = lv_strategy_version (cv_review src)"
  using readable_history(3) [OF assms(1) verified_sourceD(6) [OF assms(2)]] last_in_set [OF verified_sourceD(7) [OF assms(2)]]
  by (auto simp: lifecycle_events_by_version_def)

text \<open>C32.  The controller can only suspend, and only on evidence: a call leaves the experiment ledger
  as it is or appends one event, and that event suspends a strategy whose history ended in a
  suspendible state, on a review that recommends it for five days of clear degradation and a
  snapshot that is flat, complete and free of incidents; it takes effect on the first session after
  the reviewed one, within ten days, and extends the strategy's readable history.  The ledger
  refuses such an event only where its content key is already used.\<close>

theorem controller_only_suspends:
  assumes "experiment_run (cs_experiment C) L" "control_intraday_orb_lifecycle C R reviews d t L = (L', r)"
  shows "(L' = L \<or> (\<exists>src e. verified_source C R reviews L d t = Some src
      \<and> L' = L \<lparr> xl_lifecycle := xl_lifecycle L @ [(ek_lifecycle (cs_experiment C) e, e)] \<rparr>
      \<and> lv_adaptive_action (cv_review src) = SUSPEND \<and> ''five_day_clear_degradation'' \<in> set (lv_reasons (cv_review src))
      \<and> ln_data_quality_complete (cv_snapshot src) \<and> ln_incidents (cv_snapshot src) = []
      \<and> ln_open_order_count (cv_snapshot src) = 0 \<and> ln_open_position_count (cv_snapshot src) = 0
      \<and> le_to_state (snd (last (cv_events src))) \<in> set suspendible_states \<and> le_to_state e = SUSPENDED
      \<and> d < le_effective_date e \<and> le_effective_date e \<le> d + 10 \<and> regular_session_bounds (le_effective_date e) \<noteq> None
      \<and> (\<forall>x. d < x \<and> x < le_effective_date e \<longrightarrow> regular_session_bounds x = None)
      \<and> lifecycle_events (cs_experiment C) L' (lv_strategy_version (cv_review src))
          = Inr (cv_events src @ [(ek_lifecycle (cs_experiment C) e, e)])))
    \<and> (\<forall>err. r = Inl (Controller_Ledger_Error err) \<longrightarrow> err = Ledger_Conflict)"
  using assms
proof (cases rule: control_cases)
  case (suspension src e)
  note why = suspensionD [OF suspension(1,2)] and soon = next_session_within [of d "le_effective_date e"]
  have now: "last (cv_events src) = cv_current src" using suspension(2) by (simp add: suspended_def)
  have flat: "ln_open_order_count (cv_snapshot src) = 0 \<and> ln_open_position_count (cv_snapshot src) = 0"
    using verified_flat [OF suspension(1)] .
  have read: "lifecycle_events (cs_experiment C) L' (lv_strategy_version (cv_review src))
      = Inr (cv_events src @ [(ek_lifecycle (cs_experiment C) e, e)])"
    by (rule accepted_event_read [OF assms(1) verified_sourceD(6) [OF suspension(1)] suspension(3)])
      (simp add: why(3) latest_version [OF assms(1) suspension(1)])
  show ?thesis
    by (intro conjI disjI2 exI [of _ src] exI [of _ e])
      (use suspension(1,4,5) why(1,2) soon flat read now in simp_all)
qed simp_all

text \<open>The review the controller reads is the one the reviewer recorded.\<close>

lemma recorded_review:
  assumes "review_intraday_lane_day (cs_review C) R reviews daily evaluation d t = Inr (reviews', created, made)"
    and "verified_source C R reviews' L d t' = Some src"
  shows "cv_review src = made \<and> (\<exists>e. evaluation = Some e \<and> lv_adaptive_action made = av_action e)"
proof -
  note built = review_dayD [OF assms(1)]
  from built(1) obtain key s e where b: "daily_snapshot INTRADAY_MOMENTUM d R = Inr (Some (key, s))" "evaluation = Some e"
      "lv_snapshot_key made = key" "lv_scope_key made = ly_scope (rk_lanes (cs_review C)) orb_scope"
      "lv_reviewer_version made = lane_reviewer_version" "lv_adaptive_action made = av_action e"
    by (rule build_reviewD)
  have "key = cv_snapshot_key src" using verified_sourceD(3) [OF assms(2)] b(1) by simp
  then have one: "{x \<in> set reviews'. lv_snapshot_key (snd x) = key \<and> lv_scope_key (snd x) = ly_scope (rk_lanes (cs_review C)) orb_scope
      \<and> lv_reviewer_version (snd x) = lane_reviewer_version} = {(cv_review_key src, cv_review src)}"
    using review_eventD [OF verified_sourceD(4) [OF assms(2)]] by (simp add: orb_scope_key_def)
  obtain k where "(k, made) \<in> set reviews'" using append_review_member [OF built(2)] by auto
  then have "(k, made) \<in> {(cv_review_key src, cv_review src)}" unfolding one [symmetric] by (simp add: b(3-5))
  then have "cv_review src = made" by simp
  then show ?thesis using b(2,6) by blast
qed

text \<open>A repeated call.\<close>

lemma replay_cases:
  assumes "existing_controller_replay src d = Some x"
  shows "(case x of
      None \<Rightarrow> filter (\<lambda>i. le_policy_version (snd (cv_events src ! i)) = lifecycle_controller_policy
          \<and> le_decision_date (snd (cv_events src ! i)) = d) [0..<length (cv_events src)] = []
    | Some res \<Rightarrow> (\<exists>s e. res = transition_result d s False e))"
proof -
  have same: "\<exists>s' e'. transition_result d s False e = transition_result d s' False e'" for s e by blast
  show ?thesis
    using assms unfolding existing_controller_replay_def Let_def
    by (auto simp: same split: list.splits nat.splits prod.splits if_split_asm)
qed

lemma replay_of_suspension:
  assumes "existing_controller_replay src d = Some None" "suspend_event src d t = Some e" "cv_events src \<noteq> []"
    and "lv_reviewed_at (cv_review src) \<le> le_decided_at e"
  shows "existing_controller_replay (src \<lparr> cv_events := cv_events src @ [(k, e)] \<rparr>) d
    = Some (Some (transition_result d (le_to_state (snd (last (cv_events src)))) False e))"
proof -
  define match :: "sha \<times> lifecycle_event \<Rightarrow> bool"
    where "match = (\<lambda>x. le_policy_version (snd x) = lifecycle_controller_policy \<and> le_decision_date (snd x) = d)"
  define n where "n = length (cv_events src)"
  note ev = suspend_eventD [OF assms(2)]
  have none: "filter (\<lambda>i. match (cv_events src ! i)) [0..<n] = []"
    using replay_cases [OF assms(1)] by (auto simp: match_def n_def)
  have "filter (\<lambda>i. match ((cv_events src @ [(k, e)]) ! i)) [0..<n] = []"
    using none by (auto simp: filter_empty_conv nth_append n_def)
  then have one: "filter (\<lambda>i. match ((cv_events src @ [(k, e)]) ! i)) [0..<length (cv_events src @ [(k, e)])] = [n]"
    using ev by (simp add: n_def match_def)
  obtain m where m: "n = Suc m" using assms(3) by (cases n) (auto simp: n_def)
  have last: "(cv_events src @ [(k, e)]) ! m = last (cv_events src)" "(cv_events src @ [(k, e)]) ! Suc m = (k, e)"
    using m assms(3) by (auto simp: n_def nth_append last_conv_nth)
  define S where "S = src \<lparr> cv_events := cv_events src @ [(k, e)] \<rparr>"
  have matches: "filter (\<lambda>i. le_policy_version (snd (cv_events S ! i)) = lifecycle_controller_policy
      \<and> le_decision_date (snd (cv_events S ! i)) = d) [0..<length (cv_events S)] = [Suc m]"
    using one unfolding m match_def by (simp add: S_def)
  have "existing_controller_replay S d = Some (Some (transition_result d (le_to_state (snd (last (cv_events src)))) False e))"
    unfolding existing_controller_replay_def matches using ev assms(4) last
    by (simp add: S_def Let_def case_prod_beta)
  then show ?thesis by (simp add: S_def)
qed

text \<open>C33.  Calling the controller again later the same day changes nothing and answers the same: a
  suspension it made is found in the history and returned, marked as not new, and every other
  decision is taken again.\<close>

theorem controller_is_repeatable:
  assumes "experiment_run (cs_experiment C) L" "control_intraday_orb_lifecycle C R reviews d t L = (L', Inr res)"
    and "is_aware t'" "wall_date (ny (instant t')) = d" "instant t \<le> instant t'"
  shows "control_intraday_orb_lifecycle C R reviews d t' L' = (L', Inr (res \<lparr> cr_created := False \<rparr>))"
  using assms(1,2)
proof (cases rule: control_cases)
  case (replayed src res')
  have "res' = res' \<lparr> cr_created := False \<rparr>"
    using replay_cases [OF replayed(2)] by (auto simp: transition_result_def)
  then show ?thesis
    using verified_source_again [OF replayed(1) assms(3-5), of L "[]"] replayed verified_sourceD(6) [OF replayed(1)]
    by (simp add: control_intraday_orb_lifecycle_def)
next
  case (decided src res')
  have "res' = res' \<lparr> cr_created := False \<rparr>"
    using decided(5) by (auto simp: closed_policy_decision_def non_transition_result_def Let_def
        split: if_splits adaptive_action.splits)
  then show ?thesis
    using verified_source_again [OF decided(1) assms(3-5), of L "[]"] decided verified_sourceD(6) [OF decided(1)]
    by (simp add: control_intraday_orb_lifecycle_def)
next
  case (suspension src e)
  define row where "row = (ek_lifecycle (cs_experiment C) e, e)"
  note s = suspension(2) [unfolded suspended_def] and why = suspensionD [OF suspension(1,2)]
  have ev: "existing_controller_replay src d = Some None" "suspend_event src d (instant t) = Some e" using s by auto
  have read: "lifecycle_events (cs_experiment C) L' (lv_strategy_version (cv_review src)) = Inr (cv_events src @ [row])"
    unfolding row_def by (rule accepted_event_read [OF assms(1) verified_sourceD(6) [OF suspension(1)] suspension(3)])
      (simp add: why(3) latest_version [OF assms(1) suspension(1)])
  have "verified_source C R reviews L' d t' = Some (src \<lparr> cv_events := cv_events src @ [row] \<rparr>)"
    by (rule verified_source_again [OF suspension(1) assms(3-5) _ _ read])
      (use suspension(4) next_session_within why(2) in \<open>simp_all add: row_def\<close>)
  moreover have "lv_reviewed_at (cv_review src) \<le> le_decided_at e"
    using verified_sourceD(5) [OF suspension(1)] suspend_eventD [OF ev(2)] by (simp add: exact_review_def)
  note replay_of_suspension [OF ev verified_sourceD(7) [OF suspension(1)] this, of "ek_lifecycle (cs_experiment C) e", folded row_def]
  ultimately show ?thesis
    using s suspension(5) by (simp add: control_intraday_orb_lifecycle_def transition_result_def)
qed simp_all

subsection \<open>A suspension\<close>

text \<open>The opening range strategy is registered by the evening of Friday 24 July 2026 and reviewed on
  Monday 27 July.\<close>

definition sample_session :: int where "sample_session = 739824"

definition sample_time :: "int \<Rightarrow> int \<Rightarrow> int" where
  "sample_time day hour = ny_utc (combine day (time_of (nat hour) 0))"

definition sample_review_keys :: review_keys where
  "sample_review_keys = \<lparr> rk_lanes = sample_lane_keys \<lparr> ly_scope := (\<lambda>_. hex_id 1) \<rparr>, rk_review = (\<lambda>_. hex_id 12),
     rk_evaluation = (\<lambda>_. hex_id 13), rk_digest = id \<rparr>"

definition sample_setup :: controller_setup where
  "sample_setup = \<lparr> cs_review = sample_review_keys, cs_experiment = sample_experiment_keys,
     cs_hypothesis = ''opening ranges break'', cs_falsification_rule = ''no edge'' \<rparr>"

definition orb_sample_version :: string where
  "orb_sample_version = orb_strategy_version @ ''-code-c1''"

definition orb_hypothesis :: hypothesis_registration where
  "orb_hypothesis = \<lparr> hr_hypothesis_id = es_hypothesis_id orb_scope, hr_scope = orb_scope, hr_scope_key = hex_id 1,
     hr_primary_lane = INTRADAY_MOMENTUM, hr_hypothesis = ''opening ranges break'', hr_falsification_rule = ''no edge'',
     hr_source_registered_at = es_registered_at orb_scope, hr_recorded_at = es_registered_at orb_scope \<rparr>"

definition orb_version :: version_registration where
  "orb_version = \<lparr> vr_strategy_id = ''orb'', vr_strategy_version = orb_sample_version,
     vr_hypothesis_id = es_hypothesis_id orb_scope, vr_scope_key = hex_id 1, vr_lane = INTRADAY_MOMENTUM,
     vr_code_version = ''c1'', vr_parameter_set = orb_parameter_set, vr_data_contract = current_data_contract,
     vr_cost_model = current_cost_model, vr_portfolio_policy = shadow_portfolio_policy,
     vr_source_registered_at = es_registered_at orb_scope, vr_recorded_at = es_registered_at orb_scope \<rparr>"

definition orb_registered :: lifecycle_event where
  "orb_registered = \<lparr> le_strategy_version = orb_sample_version, le_sequence = 1, le_kind = REGISTRATION, le_from_state = None,
     le_to_state = EXPERIMENTAL_SHADOW, le_policy_version = ''m1'', le_decision_date = 739821,
     le_effective_date = sample_session, le_decided_at = sample_time 739821 18,
     le_evidence_keys = [hex_id 1, hex_id 2, hex_id 3], le_reason_codes = [''existing_contract_import''],
     le_previous_event_key = None \<rparr>"

definition orb_ledger :: experiment_ledger where
  "orb_ledger = \<lparr> xl_hypotheses = [(hex_id 2, orb_hypothesis)], xl_versions = [(hex_id 3, orb_version)],
     xl_bindings = [], xl_trials = [], xl_trial_events = [], xl_lifecycle = [(hex_id 9, orb_registered)] \<rparr>"

definition orb_snapshot :: lane_snapshot where
  "orb_snapshot = \<lparr> ln_lane_id = INTRADAY_MOMENTUM, ln_session_date = sample_session,
     ln_finalized_at = sample_time sample_session 17, ln_manifest_key = hex_id 1, ln_scope_keys = [hex_id 1],
     ln_source_generation = 1, ln_source_sha256 = hex_id 14, ln_champions = [], ln_data_quality_complete = True,
     ln_allocation_eligible = False, ln_incidents = [], ln_conservative_equity = Finite 30000, ln_realized_pnl = Finite 0,
     ln_unrealized_pnl = Finite 0, ln_planned_open_risk = Finite 0, ln_open_order_count = 0, ln_open_position_count = 0 \<rparr>"

definition orb_registry :: lane_registry where
  "orb_registry = \<lparr> lg_manifests = [(hex_id 1, intraday_manifest)], lg_bindings = [], lg_scopes = [(hex_id 1, orb_scope)],
     lg_snapshots = [(hex_id 4, orb_snapshot)] \<rparr>"

definition orb_blockers :: "string list" where
  "orb_blockers = sorted_set (losing_blockers @ [''champion_missing'', ''allocation_ineligible''])"

definition orb_review :: lane_review where
  "orb_review = \<lparr> lv_lane_id = INTRADAY_MOMENTUM, lv_session_date = sample_session, lv_snapshot_key = hex_id 4,
     lv_scope_key = hex_id 1, lv_daily_record_id = hex_id 15, lv_daily_record_sha256 = hex_id 11, lv_adaptive_sha256 = hex_id 13,
     lv_strategy_version = orb_sample_version, lv_evaluator_version = evaluator_version,
     lv_reviewer_version = lane_reviewer_version, lv_adaptive_action = SUSPEND, lv_reviewer_action = Stop_Recommended,
     lv_reasons = [''five_day_clear_degradation''], lv_blockers = orb_blockers, lv_reviewed_at = sample_time sample_session 18 \<rparr>"

lemma orb_ledger_result:
  "and_then (and_then (register_hypothesis sample_experiment_keys orb_hypothesis empty_ledger)
       (register_strategy_version sample_experiment_keys orb_version))
       (append_lifecycle_event sample_experiment_keys orb_registered) = Inr (orb_ledger, True)"
  by code_simp

lemma orb_run: "experiment_run (cs_experiment sample_setup) orb_ledger"
  using orb_ledger_result
  by (auto simp: sample_setup_def intro!: experiment_run.created elim!: and_then_run
      intro: experiment_run.hypothesis experiment_run.version experiment_run.lifecycle_event)

lemma orb_suspends:
  "(case control_intraday_orb_lifecycle sample_setup orb_registry [(hex_id 12, orb_review)] sample_session
        (Aware (sample_time sample_session 19)) orb_ledger of
      (L', Inr res) \<Rightarrow> cr_outcome res = Transitioned \<and> cr_created res \<and> L' \<noteq> orb_ledger
        \<and> map_option le_effective_date (cr_event res) = Some 739825
    | (_, Inl _) \<Rightarrow> False)"
  by code_simp

text \<open>What the call returns, and the same call an hour later.\<close>

lemma orb_suspended:
  obtains L' res where "control_intraday_orb_lifecycle sample_setup orb_registry [(hex_id 12, orb_review)] sample_session
      (Aware (sample_time sample_session 19)) orb_ledger = (L', Inr res)" "L' \<noteq> orb_ledger" "cr_created res"
    "map_option le_effective_date (cr_event res) = Some 739825"
  using orb_suspends by (auto split: prod.splits sum.splits)

theorem controller_only_suspends_witness:
  "\<exists>L' res e. control_intraday_orb_lifecycle sample_setup orb_registry [(hex_id 12, orb_review)] sample_session
      (Aware (sample_time sample_session 19)) orb_ledger = (L', Inr res)
    \<and> L' = orb_ledger \<lparr> xl_lifecycle := xl_lifecycle orb_ledger @ [(ek_lifecycle sample_experiment_keys e, e)] \<rparr>
    \<and> le_to_state e = SUSPENDED \<and> le_effective_date e \<le> sample_session + 10"
proof -
  obtain L' res where call: "control_intraday_orb_lifecycle sample_setup orb_registry [(hex_id 12, orb_review)] sample_session
      (Aware (sample_time sample_session 19)) orb_ledger = (L', Inr res)" and new: "L' \<noteq> orb_ledger"
    by (rule orb_suspended)
  obtain e where "L' = orb_ledger \<lparr> xl_lifecycle := xl_lifecycle orb_ledger @ [(ek_lifecycle (cs_experiment sample_setup) e, e)] \<rparr>"
      "le_to_state e = SUSPENDED" "le_effective_date e \<le> sample_session + 10"
    using controller_only_suspends [OF orb_run call] new by blast
  then show ?thesis using call by (auto simp: sample_setup_def)
qed

theorem controller_is_repeatable_witness:
  "\<exists>L' res. control_intraday_orb_lifecycle sample_setup orb_registry [(hex_id 12, orb_review)] sample_session
      (Aware (sample_time sample_session 19)) orb_ledger = (L', Inr res) \<and> L' \<noteq> orb_ledger
    \<and> control_intraday_orb_lifecycle sample_setup orb_registry [(hex_id 12, orb_review)] sample_session
      (Aware (sample_time sample_session 20)) L' = (L', Inr (res \<lparr> cr_created := False \<rparr>))"
proof -
  obtain L' res where call: "control_intraday_orb_lifecycle sample_setup orb_registry [(hex_id 12, orb_review)] sample_session
      (Aware (sample_time sample_session 19)) orb_ledger = (L', Inr res)" "L' \<noteq> orb_ledger"
    by (rule orb_suspended)
  have "is_aware (Aware (sample_time sample_session 20)) \<and> wall_date (ny (instant (Aware (sample_time sample_session 20)))) = sample_session
      \<and> instant (Aware (sample_time sample_session 19)) \<le> instant (Aware (sample_time sample_session 20))" by code_simp
  then show ?thesis using controller_is_repeatable [OF orb_run call(1)] call by blast
qed

end
