(* ===== verification/Day_Discovery_Models.thy ===== *)
theory Day_Discovery_Models
  imports Experiment_Models
begin

text \<open>
  The records of the day discovery ledger and their validators:
  \<^verbatim>\<open>trading_agent/day_discovery_ledger_models.py\<close> and the models of
  \<^verbatim>\<open>day_discovery_journal.py\<close> and \<^verbatim>\<open>day_discovery_loop.py\<close> that are stored in it.
  The content keys, SHA-256 and the length of a JSON text are parameters; a payload text is
  identified with the value it is the canonical text of, a base64 text with its bytes.
\<close>

subsection \<open>Kinds\<close>

datatype discovery_kind = CYCLE_OPENED | CALL_RESERVED | CALL_RESPONSE_RECORDED | BRANCH_PREPARED
  | RESOLUTION_INTENT | ARTIFACT_VERIFIED | ARTIFACT_FAILED | ARTIFACT_OUTCOME_UNKNOWN | PREFLIGHT_INTENT
  | PREFLIGHT_VERIFIED | PREFLIGHT_FAILED | PREFLIGHT_OUTCOME_UNKNOWN | BRANCH_FINALIZED | CYCLE_FINALIZED

datatype debit_kind = CALL_RESERVATION | CARTESIAN_TOP_UP

text \<open>The table of legal successors.\<close>

fun discovery_successors :: "discovery_kind \<Rightarrow> discovery_kind list" where
  "discovery_successors CYCLE_OPENED = [CALL_RESERVED]"
| "discovery_successors CALL_RESERVED = [CALL_RESPONSE_RECORDED, BRANCH_FINALIZED]"
| "discovery_successors CALL_RESPONSE_RECORDED = [BRANCH_PREPARED, BRANCH_FINALIZED]"
| "discovery_successors BRANCH_PREPARED = [RESOLUTION_INTENT, BRANCH_FINALIZED]"
| "discovery_successors RESOLUTION_INTENT = [ARTIFACT_VERIFIED, ARTIFACT_FAILED, ARTIFACT_OUTCOME_UNKNOWN]"
| "discovery_successors ARTIFACT_VERIFIED = [PREFLIGHT_INTENT]"
| "discovery_successors PREFLIGHT_INTENT = [PREFLIGHT_VERIFIED, PREFLIGHT_FAILED, PREFLIGHT_OUTCOME_UNKNOWN]"
| "discovery_successors BRANCH_FINALIZED = [CALL_RESERVED, CYCLE_FINALIZED]"
| "discovery_successors CYCLE_FINALIZED = []"
| "discovery_successors _ = [BRANCH_FINALIZED]"

subsection \<open>Accounts, cycles and debits\<close>

record budget_account =
  ba_account_id :: sha
  ba_market_id :: market_id
  ba_budget_epoch_ref :: string
  ba_debit_limit :: int
  ba_created_at :: int

record discovery_cycle =
  dc_cycle_id :: sha
  dc_account_id :: sha
  dc_market_id :: market_id
  dc_evidence_sha256 :: sha
  dc_cursor_sha256 :: sha
  dc_opened_at :: int

record budget_debit =
  dd_debit_id :: sha
  dd_account_id :: sha
  dd_cycle_id :: sha
  dd_branch_index :: int
  dd_debit_kind :: debit_kind
  dd_amount :: int
  dd_debited_at :: int

record call_reservation =
  ra_reservation_id :: sha
  ra_account_id :: sha
  ra_cycle_id :: sha
  ra_branch_index :: int
  ra_prompt_sha256 :: sha
  ra_prompt_bytes_sha256 :: sha
  ra_prompt_length :: int
  ra_model_id :: string
  ra_seed :: "int option"
  ra_temperature :: rat
  ra_protocol_sha256 :: sha
  ra_creator :: string
  ra_creator_sha256 :: sha
  ra_reserved_at :: int

record call_response =
  rb_reservation_id :: sha
  rb_response :: string
  rb_response_sha256 :: sha
  rb_response_length :: int
  rb_invocation_started_at :: int
  rb_received_at :: int

subsection \<open>Proposals and branches\<close>

text \<open>A proposal of the researcher.  \<open>qp_card\<close> is the content key of its card, which stands for
  the fields of the card the cycle does not read.\<close>

record proposed_hypothesis =
  qp_hypothesis_id :: string
  qp_hypothesis :: string
  qp_economic_mechanism :: string
  qp_counterfactual_baseline :: string
  qp_falsification_rule :: string
  qp_card :: sha
  qp_research_source_keys :: "sha list"
  qp_model_id :: string
  qp_prompt_sha256 :: sha
  qp_response_sha256 :: sha
  qp_called_at :: int
  qp_source_code :: string
  qp_free_parameters :: "string list"
  qp_methodology_tags :: "string list"

text \<open>The identities of the family, the version and the preregistration of a hypothesis.\<close>

record hypothesis_contracts =
  hy_family_id :: sha
  hy_version_id :: sha
  hy_version_family_id :: sha
  hy_preregistered_id :: sha
  hy_code_sha256 :: sha

definition terminal_reasons :: "string list" where
  "terminal_reasons = [''artifact_publication_failed'', ''budget_exhausted'', ''compile_failed'', ''critic_rejected'',
     ''contract_invalid'', ''forward_probe_not_future_only'', ''methodology_missing'', ''model_call_outcome_unknown'',
     ''model_call_interrupted'', ''model_response_malformed'', ''nondeterministic'', ''point_in_time_leakage'',
     ''proposal_time_invalid'', ''artifact_outcome_unknown'', ''preflight_outcome_unknown'', ''sandbox_failed'',
     ''semantic_duplicate'', ''unconstructible'']"

record prepared_branch =
  pb_cycle_id :: sha
  pb_evidence_sha256 :: sha
  pb_branch_index :: int
  pb_market_id :: market_id
  pb_search_budget :: int
  pb_remaining_budget_before :: int
  pb_proposal :: proposed_hypothesis
  pb_terminal_reason :: "string option"
  pb_contracts :: hypothesis_contracts
  pb_attempt_id :: sha
  pb_attempt_started_at :: int
  pb_attempt_finished_at :: int
  pb_bound_at :: int
  pb_published_at :: int
  pb_search_budget_debit :: int

record generated_artifact =
  ga_artifact_id :: sha
  ga_source_sha256 :: sha
  ga_hypothesis_id :: string
  ga_card_key :: sha
  ga_research_source_keys :: "sha list"
  ga_prompt_sha256 :: sha
  ga_response_sha256 :: sha
  ga_model_id :: string
  ga_free_parameters :: "string list"
  ga_runtime :: sha
  ga_created_at :: int

record strategy_capsule =
  cz_capsule_id :: sha
  cz_artifact_ref :: string
  cz_published_at :: int

record branch_result =
  bq_accepted :: bool
  bq_attempt_id :: sha
  bq_family_id :: "sha option"
  bq_hypothesis_version_id :: "sha option"
  bq_capsule_id :: "sha option"
  bq_admission_id :: "sha option"
  bq_trial_id :: "sha option"
  bq_terminal_reason :: "string option"
  bq_search_budget_debit :: int
  bq_remaining_budget :: "int option"

record cycle_result =
  cy_cycle_id :: sha
  cy_attempt_ids :: "sha list"
  cy_family_id :: "sha option"
  cy_hypothesis_version_id :: "sha option"
  cy_capsule_id :: "sha option"
  cy_admission_id :: "sha option"
  cy_accepted :: bool
  cy_terminal_reason :: "string option"
  cy_drafts_attempted :: int
  cy_remaining_budget :: int
  cy_first_eligible_completed_bar_at :: int

subsection \<open>Events\<close>

datatype discovery_payload =
    Opened_Payload sha sha
  | Reservation_Payload call_reservation
  | Response_Payload call_response
  | Prepared_Payload int prepared_branch
  | Resolution_Payload sha generated_artifact string
  | Artifact_Payload generated_artifact string
  | Expected_Artifact_Payload sha
  | Failure_Payload string
  | Preflight_Payload sha sha
  | Capsule_Payload strategy_capsule
  | Empty_Payload
  | Branch_Payload branch_result
  | Final_Payload sha cycle_result

record discovery_event =
  dv_event_id :: sha
  dv_cycle_id :: sha
  dv_sequence :: int
  dv_previous_event_id :: "sha option"
  dv_branch_index :: "int option"
  dv_event_kind :: discovery_kind
  dv_event_at :: int
  dv_payload :: discovery_payload

text \<open>The content keys; each is applied to the record without its own identifier.\<close>

record discovery_keys =
  yk_account :: "market_id \<Rightarrow> string \<Rightarrow> sha"
  yk_cycle :: "discovery_cycle \<Rightarrow> sha"
  yk_debit :: "budget_debit \<Rightarrow> sha"
  yk_event :: "discovery_event \<Rightarrow> sha"
  yk_reservation :: "call_reservation \<Rightarrow> sha"
  yk_artifact :: "generated_artifact \<Rightarrow> sha"
  yk_prepared :: "prepared_branch \<Rightarrow> sha"
  yk_request :: "prepared_branch \<Rightarrow> sha \<Rightarrow> sha"
  yk_attempt :: "sha \<Rightarrow> int \<Rightarrow> string \<Rightarrow> sha"
  yk_text :: "string \<Rightarrow> sha"
  yk_payload_length :: "discovery_payload \<Rightarrow> int"

subsection \<open>Validators\<close>

definition branch_in_range :: "int \<Rightarrow> bool" where
  "branch_in_range i \<longleftrightarrow> 0 \<le> i \<and> i \<le> 2"

definition valid_account :: "discovery_keys \<Rightarrow> budget_account \<Rightarrow> bool" where
  "valid_account K a \<longleftrightarrow> hex64 (ba_account_id a) \<and> py_identifier (ba_budget_epoch_ref a)
     \<and> 1 \<le> ba_debit_limit a \<and> ba_debit_limit a \<le> 10000
     \<and> ba_account_id a = yk_account K (ba_market_id a) (ba_budget_epoch_ref a)"

definition valid_cycle :: "discovery_keys \<Rightarrow> discovery_cycle \<Rightarrow> bool" where
  "valid_cycle K c \<longleftrightarrow> list_all hex64 [dc_cycle_id c, dc_account_id c, dc_evidence_sha256 c, dc_cursor_sha256 c]
     \<and> dc_cycle_id c = yk_cycle K (c \<lparr> dc_cycle_id := [] \<rparr>)"

definition valid_debit :: "discovery_keys \<Rightarrow> budget_debit \<Rightarrow> bool" where
  "valid_debit K d \<longleftrightarrow> list_all hex64 [dd_debit_id d, dd_account_id d, dd_cycle_id d] \<and> branch_in_range (dd_branch_index d)
     \<and> 1 \<le> dd_amount d \<and> dd_amount d \<le> 10000 \<and> dd_debit_id d = yk_debit K (d \<lparr> dd_debit_id := [] \<rparr>)"

definition valid_reservation :: "discovery_keys \<Rightarrow> call_reservation \<Rightarrow> bool" where
  "valid_reservation K r \<longleftrightarrow>
     list_all hex64 [ra_reservation_id r, ra_account_id r, ra_cycle_id r, ra_prompt_sha256 r, ra_prompt_bytes_sha256 r,
       ra_protocol_sha256 r, ra_creator_sha256 r]
     \<and> branch_in_range (ra_branch_index r) \<and> 1 \<le> ra_prompt_length r \<and> ra_prompt_length r \<le> 512 * 1024
     \<and> 1 \<le> length (ra_model_id r) \<and> length (ra_model_id r) \<le> 256
     \<and> 0 \<le> ra_temperature r \<and> ra_temperature r \<le> 2 \<and> 1 \<le> length (ra_creator r) \<and> length (ra_creator r) \<le> 256
     \<and> ra_creator_sha256 r = yk_text K (ra_creator r)
     \<and> ra_reservation_id r = yk_reservation K (r \<lparr> ra_reservation_id := [] \<rparr>)"

definition valid_response :: "discovery_keys \<Rightarrow> call_response \<Rightarrow> bool" where
  "valid_response K r \<longleftrightarrow> list_all hex64 [rb_reservation_id r, rb_response_sha256 r] \<and> rb_response_length r \<le> 256 * 1024
     \<and> rb_response_length r = int (length (rb_response r)) \<and> rb_response_sha256 r = yk_text K (rb_response r)
     \<and> rb_invocation_started_at r \<le> rb_received_at r"

definition valid_discovery_event :: "discovery_keys \<Rightarrow> discovery_event \<Rightarrow> bool" where
  "valid_discovery_event K e \<longleftrightarrow> hex64 (dv_event_id e) \<and> hex64 (dv_cycle_id e) \<and> 1 \<le> dv_sequence e
     \<and> (case dv_previous_event_id e of None \<Rightarrow> dv_sequence e = 1 | Some k \<Rightarrow> hex64 k \<and> 1 < dv_sequence e)
     \<and> (case dv_branch_index e of None \<Rightarrow> True | Some i \<Rightarrow> branch_in_range i)
     \<and> yk_payload_length K (dv_payload e) \<le> 512 * 1024
     \<and> dv_event_id e = yk_event K (e \<lparr> dv_event_id := [] \<rparr>)"

text \<open>\<^theory_text>\<open>DayDiscoveryPreparedBranch.validate_prepared_identity\<close> with the bounds of its fields\<close>

definition valid_prepared :: "discovery_keys \<Rightarrow> prepared_branch \<Rightarrow> bool" where
  "valid_prepared K b \<longleftrightarrow> list_all hex64 [pb_cycle_id b, pb_evidence_sha256 b, pb_attempt_id b]
     \<and> branch_in_range (pb_branch_index b)
     \<and> list_all (\<lambda>n. 1 \<le> n \<and> n \<le> 10000) [pb_search_budget b, pb_remaining_budget_before b, pb_search_budget_debit b]
     \<and> list_all hex64 [qp_prompt_sha256 (pb_proposal b), qp_response_sha256 (pb_proposal b)]
     \<and> hy_version_family_id (pb_contracts b) = hy_family_id (pb_contracts b)
     \<and> hy_preregistered_id (pb_contracts b) = hy_version_id (pb_contracts b)
     \<and> pb_attempt_started_at b \<le> pb_attempt_finished_at b \<and> pb_attempt_finished_at b < pb_bound_at b
     \<and> pb_bound_at b < pb_published_at b \<and> pb_attempt_started_at b = qp_called_at (pb_proposal b)
     \<and> pb_attempt_id b = yk_attempt K (pb_cycle_id b) (pb_branch_index b) (hy_version_id (pb_contracts b))
     \<and> pb_search_budget_debit b \<le> pb_remaining_budget_before b
     \<and> (case pb_terminal_reason b of None \<Rightarrow> True | Some r \<Rightarrow> r \<in> set terminal_reasons)"

text \<open>\<^theory_text>\<open>GeneratedStrategyArtifactPayload.validate_payload\<close> with the bounds of its fields\<close>

definition valid_artifact_payload :: "generated_artifact \<Rightarrow> bool" where
  "valid_artifact_payload a \<longleftrightarrow>
     list_all hex64 [ga_source_sha256 a, ga_card_key a, ga_prompt_sha256 a, ga_response_sha256 a]
     \<and> ga_hypothesis_id a \<noteq> [] \<and> ga_model_id a \<noteq> [] \<and> ga_research_source_keys a \<noteq> []
     \<and> ga_research_source_keys a = sorted_set (ga_research_source_keys a) \<and> list_all hex64 (ga_research_source_keys a)
     \<and> ga_free_parameters a = sorted_set (ga_free_parameters a) \<and> length (ga_free_parameters a) \<le> 4
     \<and> list_all (\<lambda>p. p \<noteq> []) (ga_free_parameters a)"

definition valid_cycle_result :: "cycle_result \<Rightarrow> bool" where
  "valid_cycle_result r \<longleftrightarrow> hex64 (cy_cycle_id r) \<and> list_all hex64 (cy_attempt_ids r)
     \<and> list_all (\<lambda>x. case x of None \<Rightarrow> True | Some k \<Rightarrow> hex64 k)
         [cy_family_id r, cy_hypothesis_version_id r, cy_capsule_id r, cy_admission_id r]
     \<and> 0 \<le> cy_drafts_attempted r \<and> cy_drafts_attempted r \<le> 3 \<and> 0 \<le> cy_remaining_budget r
     \<and> int (length (cy_attempt_ids r)) = cy_drafts_attempted r \<and> distinct (cy_attempt_ids r)
     \<and> (if cy_accepted r
        then list_all (\<lambda>x. x \<noteq> None) [cy_family_id r, cy_hypothesis_version_id r, cy_capsule_id r, cy_admission_id r]
          \<and> cy_terminal_reason r = None
        else cy_capsule_id r = None \<and> cy_admission_id r = None
          \<and> (case cy_terminal_reason r of None \<Rightarrow> False | Some t \<Rightarrow> t \<in> set terminal_reasons))"

end
