(* ===== verification/Day_Discovery_Ledger.thy ===== *)
theory Day_Discovery_Ledger
  imports Day_Discovery_Models
begin

text \<open>
  The ledger of day discovery: \<^verbatim>\<open>trading_agent/day_discovery_ledger.py\<close> and the writer of
  \<^verbatim>\<open>experiment_ledger_store.py\<close> around it.  A table is the list of its rows in the order of
  insertion; the index columns of a row repeat its payload, so comparing them cannot fail.  An
  operation that raises leaves the ledger as it is: the writer rolls its transaction back.
\<close>

subsection \<open>Tables and errors\<close>

record discovery_ledger =
  yl_accounts :: "budget_account list"
  yl_cycles :: "discovery_cycle list"
  yl_debits :: "budget_debit list"
  yl_events :: "discovery_event list"

definition empty_discovery_ledger :: discovery_ledger where
  "empty_discovery_ledger = \<lparr> yl_accounts = [], yl_cycles = [], yl_debits = [], yl_events = [] \<rparr>"

text \<open>\<open>Discovery_Integrity\<close> is a constraint of the schema, \<open>Discovery_Validation\<close> a model that does not
  validate.\<close>

datatype discovery_error = Discovery_Conflict string | Invalid_Discovery string | Discovery_Integrity | Discovery_Validation

record discovery_state =
  ys_account :: budget_account
  ys_cycle :: discovery_cycle
  ys_debits :: "budget_debit list"
  ys_events :: "discovery_event list"
  ys_remaining_budget :: int

definition account_row :: "discovery_ledger \<Rightarrow> sha \<Rightarrow> budget_account option" where
  "account_row L i = find (\<lambda>a. ba_account_id a = i) (yl_accounts L)"

definition cycle_row :: "discovery_ledger \<Rightarrow> sha \<Rightarrow> discovery_cycle option" where
  "cycle_row L i = find (\<lambda>c. dc_cycle_id c = i) (yl_cycles L)"

definition event_row :: "discovery_ledger \<Rightarrow> sha \<Rightarrow> discovery_event option" where
  "event_row L i = find (\<lambda>e. dv_event_id e = i) (yl_events L)"

definition cycle_events :: "discovery_ledger \<Rightarrow> sha \<Rightarrow> discovery_event list" where
  "cycle_events L i = sort_key dv_sequence (filter (\<lambda>e. dv_cycle_id e = i) (yl_events L))"

definition used_budget :: "discovery_ledger \<Rightarrow> sha \<Rightarrow> int" where
  "used_budget L i = sum_list (map dd_amount (filter (\<lambda>d. dd_account_id d = i) (yl_debits L)))"

text \<open>The next operation of a transaction, unless one has raised.\<close>

fun bind_sum :: "'e + 'a \<Rightarrow> ('a \<Rightarrow> 'e + 'b) \<Rightarrow> 'e + 'b" where
  "bind_sum (Inl err) f = Inl err"
| "bind_sum (Inr x) f = f x"

lemma bind_sum_Inr [simp]: "bind_sum r f = Inr y \<longleftrightarrow> (\<exists>x. r = Inr x \<and> f x = Inr y)"
  by (cases r) auto

lemma map_sum_Inr [simp]: "map_sum id f r = Inr y \<longleftrightarrow> (\<exists>x. r = Inr x \<and> y = f x)"
  by (cases r) auto

subsection \<open>Insertions under the schema\<close>

definition insert_account :: "budget_account \<Rightarrow> discovery_ledger \<Rightarrow> discovery_error + discovery_ledger" where
  "insert_account a L =
     (if list_ex (\<lambda>b. ba_market_id b = ba_market_id a \<and> ba_budget_epoch_ref b = ba_budget_epoch_ref a) (yl_accounts L)
      then Inl Discovery_Integrity else Inr (L \<lparr> yl_accounts := yl_accounts L @ [a] \<rparr>))"

definition insert_cycle :: "discovery_cycle \<Rightarrow> discovery_ledger \<Rightarrow> discovery_error + discovery_ledger" where
  "insert_cycle c L =
     (case cycle_row L (dc_cycle_id c) of
        Some c' \<Rightarrow> if c' = c then Inr L else Inl (Discovery_Conflict ''immutable_identity_conflict'')
      | None \<Rightarrow>
          if list_ex (\<lambda>b. dc_account_id b = dc_account_id c \<and> dc_evidence_sha256 b = dc_evidence_sha256 c
               \<and> dc_cursor_sha256 b = dc_cursor_sha256 c) (yl_cycles L)
          then Inl Discovery_Integrity else Inr (L \<lparr> yl_cycles := yl_cycles L @ [c] \<rparr>))"

definition insert_debit :: "budget_debit \<Rightarrow> discovery_ledger \<Rightarrow> discovery_error + discovery_ledger" where
  "insert_debit d L =
     (if list_ex (\<lambda>b. dd_debit_id b = dd_debit_id d \<or> dd_cycle_id b = dd_cycle_id d \<and> dd_branch_index b = dd_branch_index d
           \<and> dd_debit_kind b = dd_debit_kind d) (yl_debits L)
      then Inl Discovery_Integrity else Inr (L \<lparr> yl_debits := yl_debits L @ [d] \<rparr>))"

definition insert_event :: "discovery_event \<Rightarrow> discovery_ledger \<Rightarrow> discovery_error + discovery_ledger" where
  "insert_event e L =
     (if list_ex (\<lambda>b. dv_event_id b = dv_event_id e \<or> dv_cycle_id b = dv_cycle_id e \<and> dv_sequence b = dv_sequence e) (yl_events L)
      then Inl Discovery_Integrity else Inr (L \<lparr> yl_events := yl_events L @ [e] \<rparr>))"

subsection \<open>Opening a cycle\<close>

definition opened_event :: "discovery_keys \<Rightarrow> discovery_cycle \<Rightarrow> discovery_event" where
  "opened_event K c =
     (let e = \<lparr> dv_event_id = [], dv_cycle_id = dc_cycle_id c, dv_sequence = 1, dv_previous_event_id = None,
        dv_branch_index = None, dv_event_kind = CYCLE_OPENED, dv_event_at = dc_opened_at c,
        dv_payload = Opened_Payload (dc_account_id c) (dc_cycle_id c) \<rparr>
      in e \<lparr> dv_event_id := yk_event K e \<rparr>)"

definition open_account :: "budget_account \<Rightarrow> discovery_ledger \<Rightarrow> discovery_error + discovery_ledger" where
  "open_account a L =
     (case account_row L (ba_account_id a) of
        None \<Rightarrow> insert_account a L
      | Some b \<Rightarrow>
          if ba_market_id b = ba_market_id a \<and> ba_budget_epoch_ref b = ba_budget_epoch_ref a \<and> ba_debit_limit b = ba_debit_limit a
          then Inr L else Inl (Discovery_Conflict ''budget_account_replay_conflict''))"

definition opened_cycle :: "discovery_cycle \<Rightarrow> discovery_ledger \<Rightarrow> discovery_error + discovery_ledger" where
  "opened_cycle c L =
     (case find (\<lambda>b. dc_account_id b = dc_account_id c \<and> dc_cursor_sha256 b = dc_cursor_sha256 c) (yl_cycles L) of
        Some b \<Rightarrow> if dc_cycle_id b = dc_cycle_id c \<and> dc_evidence_sha256 b = dc_evidence_sha256 c then insert_cycle c L
          else Inl (Discovery_Conflict ''cycle_cursor_evidence_conflict'')
      | None \<Rightarrow> insert_cycle c L)"

definition first_event :: "discovery_keys \<Rightarrow> discovery_cycle \<Rightarrow> discovery_ledger \<Rightarrow> discovery_error + discovery_ledger \<times> discovery_event" where
  "first_event K c L =
     (case cycle_events L (dc_cycle_id c) of
        [] \<Rightarrow>
          if valid_discovery_event K (opened_event K c) then map_sum id (\<lambda>L'. (L', opened_event K c)) (insert_event (opened_event K c) L)
          else Inl Discovery_Validation
      | [e] \<Rightarrow> if dv_event_kind e = CYCLE_OPENED then Inr (L, e) else Inl (Discovery_Conflict ''cycle_already_advanced'')
      | _ \<Rightarrow> Inl (Discovery_Conflict ''cycle_already_advanced''))"

definition open_day_discovery_cycle ::
  "discovery_keys \<Rightarrow> budget_account \<Rightarrow> discovery_cycle \<Rightarrow> discovery_ledger \<Rightarrow> discovery_error + discovery_ledger \<times> discovery_event" where
  "open_day_discovery_cycle K a c L =
     (if \<not> valid_account K a then Inl (Invalid_Discovery ''budget_account_invalid'')
      else if \<not> valid_cycle K c then Inl (Invalid_Discovery ''cycle_invalid'')
      else if dc_account_id c \<noteq> ba_account_id a \<or> dc_market_id c \<noteq> ba_market_id a
      then Inl (Invalid_Discovery ''cycle_account_mismatch'')
      else bind_sum (open_account a L) (\<lambda>L1. bind_sum (opened_cycle c L1) (first_event K c)))"

subsection \<open>Appending events\<close>

definition require_next_event :: "discovery_ledger \<Rightarrow> discovery_event \<Rightarrow> discovery_error option" where
  "require_next_event L e =
     (let es = cycle_events L (dv_cycle_id e); p = last es
      in if es = [] \<or> dv_sequence e \<noteq> dv_sequence p + 1 \<or> dv_previous_event_id e \<noteq> Some (dv_event_id p)
         then Some (Invalid_Discovery ''event_chain_invalid'')
         else if dv_event_at e < dv_event_at p then Some (Invalid_Discovery ''event_time_invalid'')
         else if dv_event_kind e \<notin> set (discovery_successors (dv_event_kind p)) then Some (Invalid_Discovery ''event_transition_invalid'')
         else None)"

definition append_next :: "discovery_event \<Rightarrow> discovery_ledger \<Rightarrow> discovery_error + discovery_ledger" where
  "append_next e L = (case require_next_event L e of Some err \<Rightarrow> Inl err | None \<Rightarrow> insert_event e L)"

definition reservation_matches :: "budget_debit \<Rightarrow> discovery_event \<Rightarrow> call_reservation \<Rightarrow> bool" where
  "reservation_matches d e r \<longleftrightarrow> dv_event_kind e = CALL_RESERVED \<and> dv_cycle_id e = dd_cycle_id d
     \<and> dv_branch_index e = Some (dd_branch_index d) \<and> dd_debit_kind d = CALL_RESERVATION \<and> dd_amount d = 1
     \<and> ra_account_id r = dd_account_id d \<and> ra_cycle_id r = dd_cycle_id d \<and> ra_branch_index r = dd_branch_index d
     \<and> ra_reserved_at r = dv_event_at e \<and> dd_debited_at d = ra_reserved_at r"

definition reservation_of :: "discovery_keys \<Rightarrow> discovery_event \<Rightarrow> call_reservation option" where
  "reservation_of K e = (case dv_payload e of Reservation_Payload r \<Rightarrow> if valid_reservation K r then Some r else None | _ \<Rightarrow> None)"

definition response_of :: "discovery_keys \<Rightarrow> discovery_event \<Rightarrow> call_response option" where
  "response_of K e = (case dv_payload e of Response_Payload r \<Rightarrow> if valid_response K r then Some r else None | _ \<Rightarrow> None)"

definition reserve_day_discovery_call ::
  "discovery_keys \<Rightarrow> budget_debit \<Rightarrow> discovery_event \<Rightarrow> discovery_ledger \<Rightarrow> discovery_error + discovery_ledger \<times> bool" where
  "reserve_day_discovery_call K d e L =
     (if \<not> valid_debit K d then Inl (Invalid_Discovery ''debit_invalid'')
      else if \<not> valid_discovery_event K e then Inl (Invalid_Discovery ''event_invalid'')
      else case reservation_of K e of
        None \<Rightarrow> Inl (Invalid_Discovery ''call_reservation_payload_invalid'')
      | Some r \<Rightarrow>
          if \<not> reservation_matches d e r then Inl (Invalid_Discovery ''call_reservation_invalid'')
          else (case (cycle_row L (dd_cycle_id d), account_row L (dd_account_id d)) of
            (None, _) \<Rightarrow> Inl (Invalid_Discovery ''cycle_missing'')
          | (_, None) \<Rightarrow> Inl (Invalid_Discovery ''budget_account_missing'')
          | (Some c, Some a) \<Rightarrow>
              if dc_account_id c \<noteq> ba_account_id a \<or> dc_market_id c \<noteq> ba_market_id a
              then Inl (Invalid_Discovery ''debit_account_mismatch'')
              else (case find (\<lambda>b. dd_cycle_id b = dd_cycle_id d \<and> dd_branch_index b = dd_branch_index d
                       \<and> dd_debit_kind b = dd_debit_kind d) (yl_debits L) of
                Some b \<Rightarrow>
                  if b \<noteq> d then Inl (Discovery_Conflict ''debit_replay_conflict'')
                  else if event_row L (dv_event_id e) \<noteq> Some e then Inl (Discovery_Conflict ''event_replay_conflict'')
                  else Inr (L, False)
              | None \<Rightarrow>
                  if ba_debit_limit a < used_budget L (ba_account_id a) + dd_amount d
                  then Inl (Invalid_Discovery ''discovery_budget_exhausted'')
                  else (case require_next_event L e of
                      Some err \<Rightarrow> Inl err
                    | None \<Rightarrow> map_sum id (\<lambda>L'. (L', True)) (bind_sum (insert_debit d L) (insert_event e))))))"

definition append_day_discovery_event ::
  "discovery_keys \<Rightarrow> discovery_event \<Rightarrow> discovery_kind \<Rightarrow> discovery_ledger \<Rightarrow> discovery_error + discovery_ledger \<times> bool" where
  "append_day_discovery_event K e expected L =
     (if \<not> valid_discovery_event K e then Inl (Invalid_Discovery ''event_invalid'')
      else if dv_event_kind e \<noteq> expected then Inl (Invalid_Discovery ''event_kind_invalid'')
      else case event_row L (dv_event_id e) of
        Some b \<Rightarrow> if b = e then Inr (L, False) else Inl (Discovery_Conflict ''event_replay_conflict'')
      | None \<Rightarrow> map_sum id (\<lambda>L'. (L', True)) (append_next e L))"

definition response_matches :: "discovery_event \<Rightarrow> call_response \<Rightarrow> call_reservation \<Rightarrow> bool" where
  "response_matches e r s \<longleftrightarrow> rb_reservation_id r = ra_reservation_id s \<and> ra_reserved_at s \<le> rb_invocation_started_at r
     \<and> rb_received_at r = dv_event_at e"

definition record_day_discovery_call_response ::
  "discovery_keys \<Rightarrow> discovery_event \<Rightarrow> discovery_ledger \<Rightarrow> discovery_error + discovery_ledger \<times> bool" where
  "record_day_discovery_call_response K e L =
     (if \<not> valid_discovery_event K e then Inl (Invalid_Discovery ''event_invalid'')
      else if dv_event_kind e \<noteq> CALL_RESPONSE_RECORDED then Inl (Invalid_Discovery ''call_response_event_invalid'')
      else case response_of K e of
        None \<Rightarrow> Inl (Invalid_Discovery ''call_response_payload_invalid'')
      | Some r \<Rightarrow>
          (let es = cycle_events L (dv_cycle_id e)
           in if es = [] \<or> dv_previous_event_id e \<noteq> Some (dv_event_id (last es)) then Inl (Invalid_Discovery ''event_chain_invalid'')
              else case reservation_of K (last es) of
                None \<Rightarrow> Inl (Invalid_Discovery ''call_reservation_payload_invalid'')
              | Some s \<Rightarrow> if \<not> response_matches e r s then Inl (Invalid_Discovery ''call_response_reservation_mismatch'')
                  else append_day_discovery_event K e CALL_RESPONSE_RECORDED L))"

text \<open>The demand and the debit a prepared branch names.\<close>

definition prepared_numbers :: "discovery_event \<Rightarrow> (int \<times> int) option" where
  "prepared_numbers e = (case dv_payload e of Prepared_Payload demand b \<Rightarrow> Some (demand, pb_search_budget_debit b) | _ \<Rightarrow> None)"

definition top_up_matches :: "budget_debit \<Rightarrow> discovery_event \<Rightarrow> int \<Rightarrow> bool" where
  "top_up_matches d e top_up \<longleftrightarrow> dd_debit_kind d = CARTESIAN_TOP_UP \<and> dd_cycle_id d = dv_cycle_id e
     \<and> dv_branch_index e = Some (dd_branch_index d) \<and> dd_amount d = top_up \<and> dd_debited_at d = dv_event_at e"

definition charge_top_up :: "discovery_keys \<Rightarrow> discovery_event \<Rightarrow> int \<Rightarrow> budget_debit \<Rightarrow> discovery_ledger \<Rightarrow> discovery_error + discovery_ledger" where
  "charge_top_up K e top_up d L =
     (if \<not> valid_debit K d then Inl (Invalid_Discovery ''debit_invalid'')
      else if \<not> top_up_matches d e top_up then Inl (Invalid_Discovery ''prepared_debit_invalid'')
      else case (account_row L (dd_account_id d), cycle_row L (dd_cycle_id d)) of
        (None, _) \<Rightarrow> Inl (Invalid_Discovery ''budget_account_missing'')
      | (_, None) \<Rightarrow> Inl (Invalid_Discovery ''cycle_missing'')
      | (Some a, Some c) \<Rightarrow>
          if dc_account_id c \<noteq> ba_account_id a then Inl (Invalid_Discovery ''prepared_debit_account_mismatch'')
          else if ba_debit_limit a < used_budget L (ba_account_id a) + dd_amount d
          then Inl (Invalid_Discovery ''discovery_budget_exhausted'')
          else insert_debit d L)"

definition prepare_day_discovery_branch ::
  "discovery_keys \<Rightarrow> budget_debit option \<Rightarrow> discovery_event \<Rightarrow> discovery_ledger \<Rightarrow> discovery_error + discovery_ledger \<times> bool" where
  "prepare_day_discovery_branch K debit e L =
     (if \<not> valid_discovery_event K e then Inl (Invalid_Discovery ''event_invalid'')
      else if dv_event_kind e \<noteq> BRANCH_PREPARED then Inl (Invalid_Discovery ''prepared_event_invalid'')
      else case require_next_event L e of
        Some err \<Rightarrow> Inl err
      | None \<Rightarrow>
          (case prepared_numbers e of
             None \<Rightarrow> Inl (Invalid_Discovery ''prepared_payload_invalid'')
           | Some (demand, charged) \<Rightarrow>
               if demand < 1 then Inl (Invalid_Discovery ''prepared_cartesian_demand_invalid'')
               else if charged \<noteq> demand \<or> (debit = None) \<noteq> (demand - 1 = 0) then Inl (Invalid_Discovery ''prepared_debit_invalid'')
               else map_sum id (\<lambda>L'. (L', True))
                 (bind_sum (case debit of None \<Rightarrow> Inr L | Some d \<Rightarrow> charge_top_up K e (demand - 1) d L) (insert_event e))))"

text \<open>The methods of the writer restrict the kinds.\<close>

definition intent_kinds :: "discovery_kind list" where
  "intent_kinds = [RESOLUTION_INTENT, PREFLIGHT_INTENT]"

definition outcome_kinds :: "discovery_kind list" where
  "outcome_kinds = [ARTIFACT_VERIFIED, ARTIFACT_FAILED, ARTIFACT_OUTCOME_UNKNOWN, PREFLIGHT_VERIFIED, PREFLIGHT_FAILED,
     PREFLIGHT_OUTCOME_UNKNOWN]"

definition append_kind_in ::
  "discovery_kind list \<Rightarrow> discovery_keys \<Rightarrow> discovery_event \<Rightarrow> discovery_ledger \<Rightarrow> discovery_error + discovery_ledger \<times> bool" where
  "append_kind_in kinds K e L = (if dv_event_kind e \<notin> set kinds then Inl (Invalid_Discovery ''event_kind_invalid'')
     else append_day_discovery_event K e (dv_event_kind e) L)"

definition start_day_discovery_effect where "start_day_discovery_effect = append_kind_in intent_kinds"
definition finalize_day_discovery_effect where "finalize_day_discovery_effect = append_kind_in outcome_kinds"

definition finalize_day_discovery_branch ::
  "discovery_keys \<Rightarrow> discovery_event \<Rightarrow> discovery_ledger \<Rightarrow> discovery_error + discovery_ledger \<times> bool" where
  "finalize_day_discovery_branch K e L = append_day_discovery_event K e BRANCH_FINALIZED L"

definition finalize_day_discovery_cycle ::
  "discovery_keys \<Rightarrow> discovery_event \<Rightarrow> discovery_ledger \<Rightarrow> discovery_error + discovery_ledger \<times> bool" where
  "finalize_day_discovery_cycle K e L = append_day_discovery_event K e CYCLE_FINALIZED L"

subsection \<open>Reading a cycle\<close>

text \<open>The chain of the events of a cycle, each after \<open>previous\<close>.\<close>

fun audited_chain :: "sha \<Rightarrow> discovery_event option \<Rightarrow> discovery_event list \<Rightarrow> discovery_error option" where
  "audited_chain i previous [] = None"
| "audited_chain i previous (e # es) =
     (if dv_cycle_id e \<noteq> i \<or> dv_sequence e \<noteq> (case previous of None \<Rightarrow> 1 | Some p \<Rightarrow> dv_sequence p + 1)
      then Some (Invalid_Discovery ''event_chain_invalid'')
      else case previous of
        None \<Rightarrow> if dv_event_kind e \<noteq> CYCLE_OPENED \<or> dv_previous_event_id e \<noteq> None
          then Some (Invalid_Discovery ''event_chain_invalid'') else audited_chain i (Some e) es
      | Some p \<Rightarrow>
          if dv_previous_event_id e \<noteq> Some (dv_event_id p) \<or> dv_event_at e < dv_event_at p
          then Some (Invalid_Discovery ''event_chain_invalid'')
          else if dv_event_kind e \<notin> set (discovery_successors (dv_event_kind p)) then Some (Invalid_Discovery ''event_transition_invalid'')
          else audited_chain i (Some e) es)"

text \<open>The reservations by branch, and what each response answers.\<close>

fun audited_calls ::
  "discovery_keys \<Rightarrow> (int \<rightharpoonup> call_reservation) \<Rightarrow> discovery_event list \<Rightarrow> discovery_error + (int \<rightharpoonup> call_reservation)" where
  "audited_calls K m [] = Inr m"
| "audited_calls K m (e # es) =
     (if dv_event_kind e = CALL_RESERVED
      then (case reservation_of K e of
          None \<Rightarrow> Inl (Invalid_Discovery ''call_reservation_payload_invalid'')
        | Some r \<Rightarrow>
            if ra_cycle_id r \<noteq> dv_cycle_id e \<or> dv_branch_index e \<noteq> Some (ra_branch_index r) \<or> ra_reserved_at r \<noteq> dv_event_at e
            then Inl (Invalid_Discovery ''call_reservation_payload_invalid'')
            else audited_calls K (m(ra_branch_index r \<mapsto> r)) es)
      else if dv_event_kind e = CALL_RESPONSE_RECORDED
      then (case response_of K e of
          None \<Rightarrow> Inl (Invalid_Discovery ''call_response_payload_invalid'')
        | Some r \<Rightarrow>
            (case m (case dv_branch_index e of None \<Rightarrow> 0 | Some i \<Rightarrow> i) of
               None \<Rightarrow> Inl (Invalid_Discovery ''call_response_reservation_mismatch'')
             | Some s \<Rightarrow> if response_matches e r s then audited_calls K m es
                 else Inl (Invalid_Discovery ''call_response_reservation_mismatch'')))
      else audited_calls K m es)"

text \<open>The last debit of a kind for a branch, as a dictionary over the branches keeps it.\<close>

definition debit_of :: "debit_kind \<Rightarrow> budget_debit list \<Rightarrow> int \<Rightarrow> budget_debit option" where
  "debit_of k debits i = find (\<lambda>d. dd_debit_kind d = k \<and> dd_branch_index d = i) (rev debits)"

definition debit_branches :: "debit_kind \<Rightarrow> budget_debit list \<Rightarrow> int set" where
  "debit_branches k debits = dd_branch_index ` set (filter (\<lambda>d. dd_debit_kind d = k) debits)"

definition charged_for :: "budget_debit \<Rightarrow> call_reservation \<Rightarrow> bool" where
  "charged_for d r \<longleftrightarrow> dd_account_id d = ra_account_id r \<and> dd_cycle_id d = ra_cycle_id r \<and> dd_amount d = 1
     \<and> dd_debited_at d = ra_reserved_at r"

definition reserved_branches :: "discovery_event list \<Rightarrow> int list" where
  "reserved_branches es = List.map_filter (\<lambda>e. if dv_event_kind e = CALL_RESERVED then dv_branch_index e else None) es"

definition audit_call_events :: "discovery_keys \<Rightarrow> discovery_event list \<Rightarrow> budget_debit list \<Rightarrow> discovery_error option" where
  "audit_call_events K es debits =
     (case audited_calls K Map.empty es of
        Inl err \<Rightarrow> Some err
      | Inr m \<Rightarrow>
          if debits = [] then None
          else if set (reserved_branches es) \<noteq> debit_branches CALL_RESERVATION debits
            \<or> \<not> list_all (\<lambda>i. case (m i, debit_of CALL_RESERVATION debits i) of
                   (Some r, Some d) \<Rightarrow> charged_for d r | _ \<Rightarrow> False) (reserved_branches es)
          then Some (Invalid_Discovery ''call_reservation_debit_mismatch'') else None)"

fun audited_prepared :: "budget_debit list \<Rightarrow> discovery_event list \<Rightarrow> discovery_error option" where
  "audited_prepared debits [] = None"
| "audited_prepared debits (e # es) =
     (if dv_event_kind e \<noteq> BRANCH_PREPARED then audited_prepared debits es
      else case prepared_numbers e of
        None \<Rightarrow> Some (Invalid_Discovery ''prepared_payload_invalid'')
      | Some (demand, charged) \<Rightarrow>
          (case dv_branch_index e of
             None \<Rightarrow> Some (Invalid_Discovery ''prepared_cartesian_demand_invalid'')
           | Some i \<Rightarrow>
               if demand < 1 then Some (Invalid_Discovery ''prepared_cartesian_demand_invalid'')
               else if charged \<noteq> demand then Some (Invalid_Discovery ''prepared_debit_invalid'')
               else (case debit_of CARTESIAN_TOP_UP debits i of
                   None \<Rightarrow> if demand = 1 then audited_prepared debits es else Some (Invalid_Discovery ''prepared_debit_invalid'')
                 | Some d \<Rightarrow> if demand \<noteq> 1 \<and> dd_amount d = demand - 1 \<and> dd_debited_at d = dv_event_at e
                     then audited_prepared debits es else Some (Invalid_Discovery ''prepared_debit_invalid''))))"

definition topped_up_branches :: "discovery_event list \<Rightarrow> int list" where
  "topped_up_branches es = List.map_filter (\<lambda>e. case (dv_event_kind e, prepared_numbers e, dv_branch_index e) of
     (BRANCH_PREPARED, Some (demand, _), Some i) \<Rightarrow> if 1 < demand then Some i else None | _ \<Rightarrow> None) es"

definition audit_prepared_events :: "discovery_event list \<Rightarrow> budget_debit list \<Rightarrow> discovery_error option" where
  "audit_prepared_events es debits =
     (case audited_prepared debits es of
        Some err \<Rightarrow> Some err
      | None \<Rightarrow> if debit_branches CARTESIAN_TOP_UP debits \<noteq> set (topped_up_branches es)
          then Some (Invalid_Discovery ''prepared_debit_invalid'') else None)"

definition audit_events :: "discovery_keys \<Rightarrow> sha \<Rightarrow> discovery_event list \<Rightarrow> budget_debit list \<Rightarrow> discovery_error option" where
  "audit_events K i es debits =
     (case audited_chain i None es of
        Some err \<Rightarrow> Some err
      | None \<Rightarrow>
          if es = [] then Some (Invalid_Discovery ''event_chain_missing'')
          else (case audit_call_events K es debits of Some err \<Rightarrow> Some err | None \<Rightarrow> audit_prepared_events es debits))"

definition cycle_debits :: "discovery_ledger \<Rightarrow> sha \<Rightarrow> sha \<Rightarrow> budget_debit list" where
  "cycle_debits L account i =
     sort_key dd_debited_at (sort_key dd_debit_id (filter (\<lambda>d. dd_account_id d = account \<and> dd_cycle_id d = i) (yl_debits L)))"

definition read_day_discovery_cycle_state :: "discovery_keys \<Rightarrow> discovery_ledger \<Rightarrow> sha \<Rightarrow> discovery_error + discovery_state" where
  "read_day_discovery_cycle_state K L i =
     (case cycle_row L i of
        None \<Rightarrow> Inl (Invalid_Discovery ''cycle_missing'')
      | Some c \<Rightarrow>
          (case account_row L (dc_account_id c) of
             None \<Rightarrow> Inl (Invalid_Discovery ''budget_account_missing'')
           | Some a \<Rightarrow>
               if dc_market_id c \<noteq> ba_market_id a then Inl (Invalid_Discovery ''budget_account_index_invalid'')
               else if ba_debit_limit a < used_budget L (ba_account_id a) then Inl (Invalid_Discovery ''discovery_budget_invalid'')
               else (let debits = cycle_debits L (ba_account_id a) (dc_cycle_id c);
                       es = cycle_events L (dc_cycle_id c)
                     in case audit_events K (dc_cycle_id c) es debits of
                       Some err \<Rightarrow> Inl err
                     | None \<Rightarrow> Inr \<lparr> ys_account = a, ys_cycle = c, ys_debits = debits, ys_events = es,
                         ys_remaining_budget = ba_debit_limit a - used_budget L (ba_account_id a) \<rparr>)))"

end
