(* ===== verification/Day_Discovery_Budget.thy ===== *)
theory Day_Discovery_Budget
  imports Day_Discovery_Ledger
begin

text \<open>
  What every history of the day discovery ledger keeps: the budget of an account, the chain of the
  events of a cycle, and the debit behind every reserved call.
\<close>

subsection \<open>What the operations write\<close>

lemma require_next_eventD:
  assumes "require_next_event L e = None"
  shows "cycle_events L (dv_cycle_id e) \<noteq> [] \<and> dv_sequence e = dv_sequence (last (cycle_events L (dv_cycle_id e))) + 1
    \<and> dv_previous_event_id e = Some (dv_event_id (last (cycle_events L (dv_cycle_id e))))
    \<and> dv_event_at (last (cycle_events L (dv_cycle_id e))) \<le> dv_event_at e
    \<and> dv_event_kind e \<in> set (discovery_successors (dv_event_kind (last (cycle_events L (dv_cycle_id e)))))"
  using assms by (auto simp: require_next_event_def Let_def split: if_splits)

definition event_added :: "discovery_event \<Rightarrow> discovery_ledger \<Rightarrow> discovery_ledger" where
  "event_added e L = L \<lparr> yl_events := yl_events L @ [e] \<rparr>"

definition debit_added :: "budget_debit \<Rightarrow> discovery_ledger \<Rightarrow> discovery_ledger" where
  "debit_added d L = L \<lparr> yl_debits := yl_debits L @ [d] \<rparr>"

lemma insert_eventD: "insert_event e L = Inr L' \<Longrightarrow> L' = event_added e L"
  by (auto simp: insert_event_def event_added_def split: if_splits)

lemma insert_debitD:
  "insert_debit d L = Inr L' \<Longrightarrow> L' = debit_added d L \<and> (\<forall>b \<in> set (yl_debits L). \<not> (dd_cycle_id b = dd_cycle_id d
     \<and> dd_branch_index b = dd_branch_index d \<and> dd_debit_kind b = dd_debit_kind d))"
  by (auto simp: insert_debit_def debit_added_def list_ex_iff split: if_splits)

lemma debit_added_simps [simp]:
  "yl_events (debit_added d L) = yl_events L" "yl_cycles (debit_added d L) = yl_cycles L"
  "yl_accounts (debit_added d L) = yl_accounts L" "yl_debits (debit_added d L) = yl_debits L @ [d]"
  "cycle_events (debit_added d L) i = cycle_events L i" "cycle_row (debit_added d L) i = cycle_row L i"
  "account_row (debit_added d L) i = account_row L i"
  "used_budget (debit_added d L) i = used_budget L i + (if dd_account_id d = i then dd_amount d else 0)"
  by (simp_all add: debit_added_def cycle_events_def cycle_row_def account_row_def used_budget_def)

lemma event_added_simps [simp]:
  "yl_events (event_added e L) = yl_events L @ [e]" "yl_cycles (event_added e L) = yl_cycles L"
  "yl_accounts (event_added e L) = yl_accounts L" "yl_debits (event_added e L) = yl_debits L"
  "cycle_row (event_added e L) i = cycle_row L i" "account_row (event_added e L) i = account_row L i"
  "used_budget (event_added e L) i = used_budget L i" "cycle_debits (event_added e L) a i = cycle_debits L a i"
  by (simp_all add: event_added_def cycle_row_def account_row_def used_budget_def cycle_debits_def)

lemma cycle_event_before:
  assumes "x \<in> set (cycle_events L i)"
  shows "dv_sequence x \<le> dv_sequence (last (cycle_events L i))"
proof -
  have "sorted (map dv_sequence (cycle_events L i))" by (simp add: cycle_events_def)
  moreover obtain n where "n < length (cycle_events L i)" "x = cycle_events L i ! n" using assms by (auto simp: in_set_conv_nth)
  moreover from this have "n \<le> length (cycle_events L i) - 1" "length (cycle_events L i) - 1 < length (cycle_events L i)" by auto
  ultimately have "map dv_sequence (cycle_events L i) ! n \<le> map dv_sequence (cycle_events L i) ! (length (cycle_events L i) - 1)"
    by (metis length_map sorted_nth_mono)
  then show ?thesis using \<open>n < length (cycle_events L i)\<close> \<open>x = cycle_events L i ! n\<close>
    by (subst last_conv_nth) (auto simp: nth_map)
qed

lemma next_event_last:
  assumes "require_next_event L e = None" "L' = event_added e L'' " "yl_events L'' = yl_events L"
  shows "cycle_events L' i = (if i = dv_cycle_id e then cycle_events L i @ [e] else cycle_events L i)"
proof (cases "i = dv_cycle_id e")
  case True
  have before: "\<forall>x \<in> set (filter (\<lambda>x. dv_cycle_id x = i) (yl_events L)). dv_sequence x \<le> dv_sequence e"
  proof
    fix x assume "x \<in> set (filter (\<lambda>x. dv_cycle_id x = i) (yl_events L))"
    then have "x \<in> set (cycle_events L i)" by (simp add: cycle_events_def)
    from cycle_event_before [OF this] show "dv_sequence x \<le> dv_sequence e"
      using require_next_eventD [OF assms(1)] True by simp
  qed
  have "cycle_events L' i = sort_key dv_sequence (filter (\<lambda>x. dv_cycle_id x = i) (yl_events L) @ [e])"
    using True by (simp add: cycle_events_def assms(2,3))
  then show ?thesis using sorted_append_last [of "filter (\<lambda>x. dv_cycle_id x = i) (yl_events L)" dv_sequence e] before True
    by (simp add: cycle_events_def)
qed (simp add: cycle_events_def assms(2,3))

lemma append_eventD:
  assumes "append_day_discovery_event K e k L = Inr (L', b)"
  shows "L' = L \<and> \<not> b \<or> b \<and> require_next_event L e = None \<and> L' = event_added e L \<and> dv_event_kind e = k \<and> valid_discovery_event K e"
  using assms by (auto simp: append_day_discovery_event_def append_next_def dest: insert_eventD split: if_splits option.splits)

lemma reserveD:
  assumes "reserve_day_discovery_call K d e L = Inr (L', b)"
  obtains (again) "L' = L" "\<not> b" "event_row L (dv_event_id e) = Some e"
  | (new) r c a where "b" "valid_debit K d" "valid_discovery_event K e" "reservation_of K e = Some r" "reservation_matches d e r"
      "cycle_row L (dd_cycle_id d) = Some c" "account_row L (dd_account_id d) = Some a" "dc_account_id c = ba_account_id a"
      "used_budget L (ba_account_id a) + dd_amount d \<le> ba_debit_limit a" "require_next_event L e = None"
      "\<forall>b \<in> set (yl_debits L). \<not> (dd_cycle_id b = dd_cycle_id d \<and> dd_branch_index b = dd_branch_index d
         \<and> dd_debit_kind b = dd_debit_kind d)" "L' = event_added e (debit_added d L)"
proof (cases b)
  case False
  then show thesis using assms again
    by (auto simp: reserve_day_discovery_call_def split: if_splits option.splits)
next
  case True
  then obtain r c a L1 where "valid_debit K d" "valid_discovery_event K e" "reservation_of K e = Some r" "reservation_matches d e r"
      "cycle_row L (dd_cycle_id d) = Some c" "account_row L (dd_account_id d) = Some a" "dc_account_id c = ba_account_id a"
      "used_budget L (ba_account_id a) + dd_amount d \<le> ba_debit_limit a" "require_next_event L e = None"
      "insert_debit d L = Inr L1" "insert_event e L1 = Inr L'"
    using assms by (auto simp: reserve_day_discovery_call_def not_less split: if_splits option.splits)
  then show thesis using True new insert_debitD [of d L L1] insert_eventD [of e L1 L'] by blast
qed

lemma prepareD:
  assumes "prepare_day_discovery_branch K debit e L = Inr (L', b)"
  obtains demand where "require_next_event L e = None" "dv_event_kind e = BRANCH_PREPARED" "valid_discovery_event K e"
    "prepared_numbers e = Some (demand, demand)" "1 \<le> demand"
    "case debit of
       None \<Rightarrow> demand = 1 \<and> L' = event_added e L
     | Some d \<Rightarrow> 1 < demand \<and> valid_debit K d \<and> top_up_matches d e (demand - 1) \<and> L' = event_added e (debit_added d L)
         \<and> (\<forall>b \<in> set (yl_debits L). \<not> (dd_cycle_id b = dd_cycle_id d \<and> dd_branch_index b = dd_branch_index d
              \<and> dd_debit_kind b = dd_debit_kind d))
         \<and> (\<exists>a c. account_row L (dd_account_id d) = Some a \<and> cycle_row L (dd_cycle_id d) = Some c
              \<and> dc_account_id c = ba_account_id a \<and> used_budget L (ba_account_id a) + dd_amount d \<le> ba_debit_limit a)"
proof -
  from assms obtain demand L1 where s: "require_next_event L e = None" "dv_event_kind e = BRANCH_PREPARED" "valid_discovery_event K e"
    "prepared_numbers e = Some (demand, demand)" "1 \<le> demand" "(debit = None) = (demand - 1 = 0)"
    "(case debit of None \<Rightarrow> Inr L | Some d \<Rightarrow> charge_top_up K e (demand - 1) d L) = Inr L1" "insert_event e L1 = Inr L'"
    by (auto simp: prepare_day_discovery_branch_def not_less split: if_splits option.splits)
  note added = insert_eventD [OF s(8)]
  show thesis
  proof (cases debit)
    case None then show thesis using s added that by auto
  next
    case (Some d)
    have "charge_top_up K e (demand - 1) d L = Inr L1" using s(7) Some by simp
    then have "insert_debit d L = Inr L1" "valid_debit K d" "top_up_matches d e (demand - 1)"
        "\<exists>a c. account_row L (dd_account_id d) = Some a \<and> cycle_row L (dd_cycle_id d) = Some c
           \<and> dc_account_id c = ba_account_id a \<and> used_budget L (ba_account_id a) + dd_amount d \<le> ba_debit_limit a"
      by (auto simp: charge_top_up_def not_less split: if_splits option.splits)
    moreover from s(5,6) Some have "1 < demand" by auto
    ultimately show thesis using Some s(1-5) added insert_debitD [of d L L1] by (intro that [of demand]) auto
  qed
qed

subsection \<open>Runs\<close>

inductive discovery_run :: "discovery_keys \<Rightarrow> discovery_ledger \<Rightarrow> bool" for K where
  created: "discovery_run K empty_discovery_ledger"
| opened: "discovery_run K L \<Longrightarrow> open_day_discovery_cycle K a c L = Inr (L', e) \<Longrightarrow> discovery_run K L'"
| reserved: "discovery_run K L \<Longrightarrow> reserve_day_discovery_call K d e L = Inr (L', b) \<Longrightarrow> discovery_run K L'"
| responded: "discovery_run K L \<Longrightarrow> record_day_discovery_call_response K e L = Inr (L', b) \<Longrightarrow> discovery_run K L'"
| prepared: "discovery_run K L \<Longrightarrow> prepare_day_discovery_branch K debit e L = Inr (L', b) \<Longrightarrow> discovery_run K L'"
| intent: "discovery_run K L \<Longrightarrow> start_day_discovery_effect K e L = Inr (L', b) \<Longrightarrow> discovery_run K L'"
| outcome: "discovery_run K L \<Longrightarrow> finalize_day_discovery_effect K e L = Inr (L', b) \<Longrightarrow> discovery_run K L'"
| branch: "discovery_run K L \<Longrightarrow> finalize_day_discovery_branch K e L = Inr (L', b) \<Longrightarrow> discovery_run K L'"
| finished: "discovery_run K L \<Longrightarrow> finalize_day_discovery_cycle K e L = Inr (L', b) \<Longrightarrow> discovery_run K L'"

text \<open>Every operation is one of four changes of the tables.\<close>

definition reservation_keys :: "discovery_ledger \<Rightarrow> (sha \<times> int option) list" where
  "reservation_keys L = map (\<lambda>e. (dv_cycle_id e, dv_branch_index e)) (filter (\<lambda>e. dv_event_kind e = CALL_RESERVED) (yl_events L))"

definition debit_keys :: "debit_kind \<Rightarrow> discovery_ledger \<Rightarrow> (sha \<times> int option) list" where
  "debit_keys k L = map (\<lambda>d. (dd_cycle_id d, Some (dd_branch_index d))) (filter (\<lambda>d. dd_debit_kind d = k) (yl_debits L))"

text \<open>A debit is charged to the account of its cycle.\<close>

definition charged_right :: "discovery_ledger \<Rightarrow> budget_debit \<Rightarrow> bool" where
  "charged_right L d \<longleftrightarrow> 1 \<le> dd_amount d \<and> branch_in_range (dd_branch_index d)
     \<and> (\<exists>c \<in> set (yl_cycles L). dc_cycle_id c = dd_cycle_id d \<and> dc_account_id c = dd_account_id d)"

definition discovery_ok :: "discovery_ledger \<Rightarrow> bool" where
  "discovery_ok L \<longleftrightarrow> distinct (map ba_account_id (yl_accounts L)) \<and> distinct (map dc_cycle_id (yl_cycles L))
     \<and> (\<forall>a \<in> set (yl_accounts L). 0 \<le> ba_debit_limit a \<and> used_budget L (ba_account_id a) \<le> ba_debit_limit a)
     \<and> (\<forall>c \<in> set (yl_cycles L). \<exists>a \<in> set (yl_accounts L). ba_account_id a = dc_account_id c)
     \<and> (\<forall>d \<in> set (yl_debits L). charged_right L d)
     \<and> reservation_keys L = debit_keys CALL_RESERVATION L \<and> distinct (debit_keys CALL_RESERVATION L)
     \<and> (\<forall>i. audited_chain i None (cycle_events L i) = None)"

lemma find_id: "find (\<lambda>x. f x = i) xs = Some x \<Longrightarrow> x \<in> set xs \<and> f x = i"
  by (auto simp: find_Some_iff in_set_conv_nth)

lemma unused_account:
  assumes "discovery_ok L" "i \<notin> ba_account_id ` set (yl_accounts L)"
  shows "used_budget L i = 0"
proof -
  have "dd_account_id d \<noteq> i" if "d \<in> set (yl_debits L)" for d
    using assms that unfolding discovery_ok_def charged_right_def by (metis image_eqI)
  then have "filter (\<lambda>d. dd_account_id d = i) (yl_debits L) = []" by (simp add: filter_empty_conv)
  then show ?thesis by (simp add: used_budget_def)
qed

lemma charged_right_mono: "charged_right L d \<Longrightarrow> set (yl_cycles L) \<subseteq> set (yl_cycles L') \<Longrightarrow> charged_right L' d"
  by (auto simp: charged_right_def)

text \<open>The invariant under more accounts or more cycles.\<close>

lemma ok_rows_added:
  assumes "discovery_ok L" "yl_debits L' = yl_debits L" "yl_events L' = yl_events L" "set (yl_cycles L) \<subseteq> set (yl_cycles L')"
    and "distinct (map ba_account_id (yl_accounts L'))" "distinct (map dc_cycle_id (yl_cycles L'))"
    and "\<And>a. a \<in> set (yl_accounts L') \<Longrightarrow> 0 \<le> ba_debit_limit a \<and> used_budget L (ba_account_id a) \<le> ba_debit_limit a"
    and "\<And>c. c \<in> set (yl_cycles L') \<Longrightarrow> \<exists>a \<in> set (yl_accounts L'). ba_account_id a = dc_account_id c"
  shows "discovery_ok L'"
proof -
  have same: "used_budget L' i = used_budget L i" "cycle_events L' i = cycle_events L i" "reservation_keys L' = reservation_keys L"
      "debit_keys k L' = debit_keys k L" for i k
    by (simp_all add: used_budget_def cycle_events_def reservation_keys_def debit_keys_def assms(2,3))
  have "\<forall>d \<in> set (yl_debits L'). charged_right L' d"
    using assms(1,4) charged_right_mono unfolding assms(2) discovery_ok_def by blast
  then show ?thesis using assms(1,5-8) unfolding discovery_ok_def same by blast
qed

lemma ok_account_added:
  assumes "discovery_ok L" "account_row L (ba_account_id a) = None" "0 \<le> ba_debit_limit a"
  shows "discovery_ok (L \<lparr> yl_accounts := yl_accounts L @ [a] \<rparr>)"
proof -
  have new: "ba_account_id a \<notin> ba_account_id ` set (yl_accounts L)" using assms(2) by (auto simp: account_row_def find_None_iff)
  have unused: "used_budget L (ba_account_id a) = 0" by (rule unused_account [OF assms(1) new])
  show ?thesis
  proof (rule ok_rows_added [OF assms(1)])
    fix b assume "b \<in> set (yl_accounts (L \<lparr> yl_accounts := yl_accounts L @ [a] \<rparr>))"
    then show "0 \<le> ba_debit_limit b \<and> used_budget L (ba_account_id b) \<le> ba_debit_limit b"
      using assms(1,3) unused by (auto simp: discovery_ok_def)
  next
    fix c assume "c \<in> set (yl_cycles (L \<lparr> yl_accounts := yl_accounts L @ [a] \<rparr>))"
    then show "\<exists>b \<in> set (yl_accounts (L \<lparr> yl_accounts := yl_accounts L @ [a] \<rparr>)). ba_account_id b = dc_account_id c"
      using assms(1) by (fastforce simp: discovery_ok_def)
  qed (use assms(1) new in \<open>auto simp: discovery_ok_def\<close>)
qed

lemma ok_cycle_added:
  assumes "discovery_ok L" "cycle_row L (dc_cycle_id c) = None" "\<exists>a \<in> set (yl_accounts L). ba_account_id a = dc_account_id c"
  shows "discovery_ok (L \<lparr> yl_cycles := yl_cycles L @ [c] \<rparr>)"
proof (rule ok_rows_added [OF assms(1)])
  have "dc_cycle_id c \<notin> dc_cycle_id ` set (yl_cycles L)" using assms(2) by (auto simp: cycle_row_def find_None_iff)
  then show "distinct (map dc_cycle_id (yl_cycles (L \<lparr> yl_cycles := yl_cycles L @ [c] \<rparr>)))"
    using assms(1) by (simp add: discovery_ok_def)
qed (use assms(1,3) in \<open>auto simp: discovery_ok_def\<close>)

lemma audited_chain_append:
  "audited_chain i p (xs @ [e]) = None \<longleftrightarrow> audited_chain i p xs = None \<and> audited_chain i (if xs = [] then p else Some (last xs)) [e] = None"
proof (induction xs arbitrary: p)
  case (Cons x xs)
  show ?case using Cons.IH [of "Some x"] by (cases p; cases "xs = []") simp_all
qed simp

lemma ok_chain:
  assumes "discovery_ok L" "require_next_event L e = None" "L' = event_added e L''" "yl_events L'' = yl_events L"
  shows "audited_chain i None (cycle_events L' i) = None"
  using assms(1) require_next_eventD [OF assms(2)] next_event_last [OF assms(2-4), of i]
  by (auto simp: discovery_ok_def audited_chain_append)

lemma ok_event_added:
  assumes "discovery_ok L" "require_next_event L e = None" "dv_event_kind e \<noteq> CALL_RESERVED"
  shows "discovery_ok (event_added e L)"
  using assms(1,3) ok_chain [OF assms(1,2) refl refl]
  by (auto simp: discovery_ok_def charged_right_def reservation_keys_def debit_keys_def)

lemma ok_charged:
  assumes "discovery_ok L" "require_next_event L e = None" "charged_right L d" "account_row L (dd_account_id d) = Some a"
    and "used_budget L (ba_account_id a) + dd_amount d \<le> ba_debit_limit a"
    and "if dv_event_kind e = CALL_RESERVED then dd_debit_kind d = CALL_RESERVATION \<and> dv_cycle_id e = dd_cycle_id d
           \<and> dv_branch_index e = Some (dd_branch_index d) else dd_debit_kind d \<noteq> CALL_RESERVATION"
    and "\<forall>b \<in> set (yl_debits L). \<not> (dd_cycle_id b = dd_cycle_id d \<and> dd_branch_index b = dd_branch_index d
         \<and> dd_debit_kind b = dd_debit_kind d)"
  shows "discovery_ok (event_added e (debit_added d L))"
proof -
  have a: "a \<in> set (yl_accounts L)" "ba_account_id a = dd_account_id d"
    using find_id [of ba_account_id] assms(4) by (auto simp: account_row_def)
  have limit: "used_budget (debit_added d L) (ba_account_id b) \<le> ba_debit_limit b" if "b \<in> set (yl_accounts L)" for b
  proof (cases "ba_account_id b = dd_account_id d")
    case True
    then have "b = a" using assms(1) that a by (auto simp: discovery_ok_def distinct_map inj_on_def)
    then show ?thesis using assms(5) a by simp
  qed (use assms(1) that in \<open>auto simp: discovery_ok_def\<close>)
  have "charged_right (event_added e (debit_added d L)) x" if "x \<in> set (yl_debits L @ [d])" for x
    using assms(1,3) that by (auto simp: discovery_ok_def charged_right_def)
  moreover have "distinct (debit_keys CALL_RESERVATION (event_added e (debit_added d L)))"
    using assms(1,7) by (auto simp: discovery_ok_def debit_keys_def)
  moreover have "reservation_keys (event_added e (debit_added d L)) = debit_keys CALL_RESERVATION (event_added e (debit_added d L))"
    using assms(1,6) by (auto simp: discovery_ok_def reservation_keys_def debit_keys_def split: if_splits)
  ultimately show ?thesis
    using assms(1) limit ok_chain [OF assms(1,2), of _ "debit_added d L"] by (simp add: discovery_ok_def)
qed

lemma opened_event_fields:
  "dv_cycle_id (opened_event K c) = dc_cycle_id c" "dv_sequence (opened_event K c) = 1"
  "dv_previous_event_id (opened_event K c) = None" "dv_event_kind (opened_event K c) = CYCLE_OPENED"
  by (simp_all add: opened_event_def Let_def)

lemma ok_first_event:
  assumes "discovery_ok L" "first_event K c L = Inr (L', e)"
  shows "discovery_ok L'"
proof (cases "cycle_events L (dc_cycle_id c)")
  case Nil
  then have L': "L' = event_added (opened_event K c) L"
    using assms(2) by (auto simp: first_event_def dest: insert_eventD split: if_splits)
  have no_events: "filter (\<lambda>e. dv_cycle_id e = dc_cycle_id c) (yl_events L) = []"
    using arg_cong [OF Nil [unfolded cycle_events_def], of set] by (simp del: set_filter)
  have "cycle_events L' i = (if i = dc_cycle_id c then [opened_event K c] else cycle_events L i)" for i
    using no_events by (auto simp: L' cycle_events_def opened_event_fields)
  then show ?thesis
    using assms(1) by (auto simp: L' discovery_ok_def charged_right_def reservation_keys_def debit_keys_def opened_event_fields)
next
  case (Cons x xs)
  then have "L' = L" using assms(2) by (cases xs) (auto simp: first_event_def split: if_splits)
  then show ?thesis using assms(1) by simp
qed

lemma ok_opened:
  assumes "discovery_ok L" "open_day_discovery_cycle K a c L = Inr (L', e)"
  shows "discovery_ok L'"
proof -
  from assms(2) obtain L1 L2 where o: "valid_account K a" "dc_account_id c = ba_account_id a"
      "open_account a L = Inr L1" "opened_cycle c L1 = Inr L2" "first_event K c L2 = Inr (L', e)"
    by (auto simp: open_day_discovery_cycle_def split: if_splits)
  have "discovery_ok L1 \<and> (\<exists>b \<in> set (yl_accounts L1). ba_account_id b = dc_account_id c)"
  proof (cases "account_row L (ba_account_id a)")
    case None
    then have "L1 = L \<lparr> yl_accounts := yl_accounts L @ [a] \<rparr>"
      using o(3) by (auto simp: open_account_def insert_account_def split: if_splits)
    then show ?thesis using ok_account_added [OF assms(1) None] o(1,2) by (simp add: valid_account_def)
  next
    case (Some b)
    then have "L1 = L" using o(3) by (auto simp: open_account_def split: if_splits)
    then show ?thesis using assms(1) o(2) find_id [OF Some [unfolded account_row_def]] by auto
  qed
  moreover have "L2 = L1 \<or> cycle_row L1 (dc_cycle_id c) = None \<and> L2 = L1 \<lparr> yl_cycles := yl_cycles L1 @ [c] \<rparr>"
    using o(4) by (auto simp: opened_cycle_def insert_cycle_def split: if_splits option.splits)
  ultimately have "discovery_ok L2" using ok_cycle_added by blast
  then show ?thesis using o(5) by (rule ok_first_event)
qed

lemma ok_reserved:
  assumes "discovery_ok L" "reserve_day_discovery_call K d e L = Inr (L', b)"
  shows "discovery_ok L'"
  using assms(2)
proof (cases rule: reserveD)
  case (new r c a)
  have "c \<in> set (yl_cycles L)" "dc_cycle_id c = dd_cycle_id d" "ba_account_id a = dd_account_id d"
    using find_id [OF new(6) [unfolded cycle_row_def]] find_id [OF new(7) [unfolded account_row_def]] by auto
  then have "charged_right L d" using new(2,8) by (auto simp: charged_right_def valid_debit_def)
  from ok_charged [OF assms(1) new(10) this new(7,9) _ new(11)] show ?thesis
    using new(5,12) by (simp add: reservation_matches_def)
qed (use assms(1) in simp)

lemma ok_prepared:
  assumes "discovery_ok L" "prepare_day_discovery_branch K debit e L = Inr (L', b)"
  shows "discovery_ok L'"
  using assms(2)
proof (cases rule: prepareD)
  case (1 demand)
  show ?thesis
  proof (cases debit)
    case None then show ?thesis using 1 ok_event_added [OF assms(1)] by simp
  next
    case (Some d)
    then obtain a c where d: "valid_debit K d" "top_up_matches d e (demand - 1)" "L' = event_added e (debit_added d L)"
        "\<forall>b \<in> set (yl_debits L). \<not> (dd_cycle_id b = dd_cycle_id d \<and> dd_branch_index b = dd_branch_index d
           \<and> dd_debit_kind b = dd_debit_kind d)"
        "account_row L (dd_account_id d) = Some a" "cycle_row L (dd_cycle_id d) = Some c" "dc_account_id c = ba_account_id a"
        "used_budget L (ba_account_id a) + dd_amount d \<le> ba_debit_limit a"
      using 1(6) by auto
    have "c \<in> set (yl_cycles L)" "dc_cycle_id c = dd_cycle_id d" "ba_account_id a = dd_account_id d"
      using find_id [OF d(6) [unfolded cycle_row_def]] find_id [OF d(5) [unfolded account_row_def]] by auto
    then have "charged_right L d" using d(1,7) by (auto simp: charged_right_def valid_debit_def)
    from ok_charged [OF assms(1) 1(1) this d(5,8) _ d(4)] show ?thesis
      using d(2,3) 1(2) by (simp add: top_up_matches_def)
  qed
qed

lemma ok_appended:
  assumes "discovery_ok L" "append_day_discovery_event K e k L = Inr (L', b)" "k \<noteq> CALL_RESERVED"
  shows "discovery_ok L'"
  using append_eventD [OF assms(2)] assms(1,3) ok_event_added [OF assms(1)] by auto

lemma discovery_run_ok: "discovery_run K L \<Longrightarrow> discovery_ok L"
proof (induction rule: discovery_run.induct)
  case created
  show ?case by (simp add: discovery_ok_def empty_discovery_ledger_def cycle_events_def reservation_keys_def debit_keys_def)
next
  case (responded L e L' b)
  then have "append_day_discovery_event K e CALL_RESPONSE_RECORDED L = Inr (L', b)"
    by (auto simp: record_day_discovery_call_response_def Let_def split: if_splits option.splits)
  then show ?case using ok_appended responded by blast
next
  case (intent L e L' b)
  then show ?case using ok_appended [of L K e "dv_event_kind e"]
    by (auto simp: start_day_discovery_effect_def append_kind_in_def intent_kinds_def split: if_splits)
next
  case (outcome L e L' b)
  then show ?case using ok_appended [of L K e "dv_event_kind e"]
    by (auto simp: finalize_day_discovery_effect_def append_kind_in_def outcome_kinds_def split: if_splits)
qed (auto intro: ok_opened ok_reserved ok_prepared ok_appended simp: finalize_day_discovery_branch_def finalize_day_discovery_cycle_def)

subsection \<open>The budget\<close>

text \<open>The calls reserved by the cycles of an account.\<close>

definition account_calls :: "discovery_ledger \<Rightarrow> sha \<Rightarrow> discovery_event list" where
  "account_calls L i = filter (\<lambda>e. dv_event_kind e = CALL_RESERVED
     \<and> (\<exists>c \<in> set (yl_cycles L). dc_cycle_id c = dv_cycle_id e \<and> dc_account_id c = i)) (yl_events L)"

lemma account_calls_charged:
  assumes "discovery_ok L"
  shows "length (account_calls L i) = length (filter (\<lambda>d. dd_debit_kind d = CALL_RESERVATION \<and> dd_account_id d = i) (yl_debits L))"
proof -
  define P where "P = (\<lambda>k. \<exists>c \<in> set (yl_cycles L). dc_cycle_id c = k \<and> dc_account_id c = i)"
  have owner: "P (dd_cycle_id d) \<longleftrightarrow> dd_account_id d = i" if "d \<in> set (yl_debits L)" for d
  proof -
    obtain c where c: "c \<in> set (yl_cycles L)" "dc_cycle_id c = dd_cycle_id d" "dc_account_id c = dd_account_id d"
      using assms \<open>d \<in> set (yl_debits L)\<close> by (auto simp: discovery_ok_def charged_right_def)
    have "inj_on dc_cycle_id (set (yl_cycles L))" using assms by (simp add: discovery_ok_def distinct_map)
    then show ?thesis using c unfolding P_def by (metis inj_onD)
  qed
  have "length (account_calls L i) = length (filter (\<lambda>(k, _). P k) (reservation_keys L))"
    by (simp add: account_calls_def reservation_keys_def filter_map o_def P_def conj_commute)
  also have "\<dots> = length (filter (\<lambda>(k, _). P k) (debit_keys CALL_RESERVATION L))" using assms by (simp add: discovery_ok_def)
  also have "\<dots> = length (filter (\<lambda>d. dd_debit_kind d = CALL_RESERVATION \<and> P (dd_cycle_id d)) (yl_debits L))"
    by (simp add: debit_keys_def filter_map o_def)
  also have "filter (\<lambda>d. dd_debit_kind d = CALL_RESERVATION \<and> P (dd_cycle_id d)) (yl_debits L)
      = filter (\<lambda>d. dd_debit_kind d = CALL_RESERVATION \<and> dd_account_id d = i) (yl_debits L)"
    using owner by (intro filter_cong) auto
  finally show ?thesis .
qed

lemma counted_by_amount:
  "(\<And>d. d \<in> set ds \<Longrightarrow> 1 \<le> dd_amount d) \<Longrightarrow> int (length (filter P (filter Q ds))) \<le> sum_list (map dd_amount (filter Q ds))"
proof (induction ds)
  case (Cons d ds)
  then have "1 \<le> dd_amount d" "int (length (filter P (filter Q ds))) \<le> sum_list (map dd_amount (filter Q ds))" by auto
  then show ?case by auto
qed simp

definition reserved_calls :: "discovery_ledger \<Rightarrow> sha \<Rightarrow> discovery_event list" where
  "reserved_calls L i = filter (\<lambda>e. dv_event_kind e = CALL_RESERVED) (cycle_events L i)"

lemma branches_reserved_once:
  assumes "discovery_ok L"
  shows "distinct (map dv_branch_index (reserved_calls L i)) \<and> set (map dv_branch_index (reserved_calls L i)) \<subseteq> Some ` {0, 1, 2}"
proof -
  define es where "es = filter (\<lambda>e. dv_event_kind e = CALL_RESERVED) (filter (\<lambda>e. dv_cycle_id e = i) (yl_events L))"
  have same: "mset (reserved_calls L i) = mset es"
    by (simp add: reserved_calls_def cycle_events_def es_def filter_sort del: filter_filter mset_filter)
  have keys: "distinct (reservation_keys L)" using assms by (simp add: discovery_ok_def)
  have sub: "map (\<lambda>e. (dv_cycle_id e, dv_branch_index e)) es = filter (\<lambda>k. fst k = i) (reservation_keys L)"
    by (simp add: es_def reservation_keys_def filter_map o_def conj_commute)
  then have "distinct (map (\<lambda>e. (dv_cycle_id e, dv_branch_index e)) es)" using keys by simp
  then have "distinct (map dv_branch_index es)"
    by (auto simp: distinct_map inj_on_def es_def)
  moreover have "mset (map dv_branch_index (reserved_calls L i)) = mset (map dv_branch_index es)" using same by simp
  ultimately have "distinct (map dv_branch_index (reserved_calls L i))" using mset_eq_imp_distinct_iff by blast
  moreover have "dv_branch_index e \<in> Some ` {0, 1, 2}" if "e \<in> set (reserved_calls L i)" for e
  proof -
    have "e \<in> set es" using that same by (metis set_mset_mset)
    then have "(dv_cycle_id e, dv_branch_index e) \<in> set (debit_keys CALL_RESERVATION L)"
      using sub assms by (metis (no_types, lifting) discovery_ok_def filter_is_subset image_eqI list.set_map subsetD)
    then obtain d where "d \<in> set (yl_debits L)" "dv_branch_index e = Some (dd_branch_index d)" by (auto simp: debit_keys_def)
    moreover from this(1) have "branch_in_range (dd_branch_index d)" using assms by (auto simp: discovery_ok_def charged_right_def)
    ultimately show ?thesis by (auto simp: branch_in_range_def image_iff)
  qed
  ultimately show ?thesis by auto
qed

text \<open>The search budget is never exceeded, whatever the ledger was asked: the model calls the cycles
  of an account have reserved are at most the units debited to the account, and these are at most
  its limit.  A cycle reserves at most three calls, never two for one branch.\<close>

theorem discovery_budget_is_kept:
  assumes "discovery_run K L" "a \<in> set (yl_accounts L)"
  shows "int (length (account_calls L (ba_account_id a))) \<le> used_budget L (ba_account_id a)
    \<and> used_budget L (ba_account_id a) \<le> ba_debit_limit a
    \<and> (\<forall>i. length (reserved_calls L i) \<le> 3 \<and> distinct (map dv_branch_index (reserved_calls L i)))"
proof -
  note ok = discovery_run_ok [OF assms(1)]
  have "1 \<le> dd_amount d" if "d \<in> set (yl_debits L)" for d using ok that by (auto simp: discovery_ok_def charged_right_def)
  then have "int (length (account_calls L (ba_account_id a))) \<le> used_budget L (ba_account_id a)"
    using counted_by_amount [of "yl_debits L" "\<lambda>d. dd_debit_kind d = CALL_RESERVATION" "\<lambda>d. dd_account_id d = ba_account_id a"]
    by (simp add: account_calls_charged [OF ok] used_budget_def conj_commute)
  moreover have "used_budget L (ba_account_id a) \<le> ba_debit_limit a" using ok assms(2) by (simp add: discovery_ok_def)
  moreover have "length (reserved_calls L i) \<le> 3" for i
  proof -
    note once = branches_reserved_once [OF ok, of i]
    have "length (reserved_calls L i) = card (set (map dv_branch_index (reserved_calls L i)))" using once distinct_card by fastforce
    also have "\<dots> \<le> card (Some ` {0 :: int, 1, 2})" using once by (intro card_mono) auto
    finally show ?thesis by (simp add: card_image)
  qed
  ultimately show ?thesis using branches_reserved_once [OF ok] by blast
qed

end
