(* ===== verification/Day_Discovery_Cycle.thy ===== *)
theory Day_Discovery_Cycle
  imports Day_Discovery_Budget Kr_Market_Models "HOL-Library.Sublist"
begin

text \<open>
  The cycle of day discovery: \<^verbatim>\<open>trading_agent/day_discovery_state_machine.py\<close>,
  \<^verbatim>\<open>day_discovery_effect_state.py\<close> and the helpers of \<^verbatim>\<open>day_discovery_loop.py\<close> they
  call.  What a cycle asks of the outside is an environment: the clock, the model, the parser of
  its answers, the critic, the artifact store, the sandbox, and the registration of hypotheses,
  attempts, capsules and trials in the tables of the science.
\<close>

subsection \<open>What a cycle sees\<close>

record discovery_view =
  vw_market_id :: market_id
  vw_observed_at :: int
  vw_completed_bar_at :: int
  vw_first_eligible_completed_bar_at :: int
  vw_existing_semantic_hashes :: "sha list"
  vw_budget_epoch_ref :: string
  vw_search_budget :: int
  vw_cursor :: string
  vw_evidence_sha256 :: sha

text \<open>\<open>vw_evidence_sha256\<close> is the digest of the canonical text of the view.\<close>

record llm_plan =
  lp_prompt_sha256 :: sha
  lp_prompt_bytes_sha256 :: sha
  lp_prompt_length :: int
  lp_model_id :: string
  lp_seed :: "int option"
  lp_temperature :: rat
  lp_protocol_sha256 :: sha
  lp_planned_at :: int

text \<open>\<open>Cycle_Error\<close> is \<^theory_text>\<open>DayDiscoveryError\<close>, \<open>Cycle_Validation\<close> a model that does not
  validate, \<open>Cycle_Broken\<close> any other exception of the outside.\<close>

datatype cycle_error = Cycle_Error string | Cycle_Ledger discovery_error | Cycle_Validation | Cycle_Broken

datatype completion = Completed string int int | Completion_Rejected | Completion_Broken

datatype preflight = Preflight_Passed strategy_capsule | Preflight_Refused string | Preflight_Broken

record objection =
  ob_blocking :: bool
  ob_evidence :: string

text \<open>A structured generator plans its prompt; of any other the prompt of the cycle is recorded.  The
  functions take the event they follow, so they may answer differently every time; \<open>None\<close> of a plan
  is an error of the generator, of a parse an answer that is refused.\<close>

record discovery_env =
  ye_context_safe :: bool
  ye_clock :: "(discovery_event \<Rightarrow> nat \<Rightarrow> int) option"
  ye_structured_plan :: "(discovery_event \<Rightarrow> llm_plan option) option"
  ye_prompt :: string
  ye_generator_name :: string
  ye_creator :: string
  ye_complete :: "discovery_event \<Rightarrow> completion"
  ye_parse :: "discovery_event \<Rightarrow> string \<Rightarrow> proposed_hypothesis option"
  ye_recorded :: "string \<Rightarrow> proposed_hypothesis option"
  ye_critic :: "proposed_hypothesis \<Rightarrow> objection list"
  ye_critique_recorded :: "proposed_hypothesis \<Rightarrow> bool"
  ye_function_names :: "string \<Rightarrow> string list option"
  ye_contracts :: "proposed_hypothesis \<Rightarrow> int \<Rightarrow> int \<Rightarrow> int \<Rightarrow> bool \<Rightarrow> hypothesis_contracts option"
  ye_runtime :: sha
  ye_publish :: "discovery_event \<Rightarrow> proposed_hypothesis \<Rightarrow> string + generated_artifact"
  ye_load :: "discovery_event \<Rightarrow> sha \<Rightarrow> string + generated_artifact"
  ye_request :: "prepared_branch \<Rightarrow> generated_artifact \<Rightarrow> bool"
  ye_preflight :: "discovery_event \<Rightarrow> preflight"
  ye_semantic_parent :: "proposed_hypothesis \<Rightarrow> (sha \<times> sha) option"
  ye_admission :: "strategy_capsule \<Rightarrow> sha"
  ye_trial :: "strategy_capsule \<Rightarrow> cycle_error + sha"
  ye_register_science :: "prepared_branch \<Rightarrow> branch_result \<Rightarrow> cycle_error option"
  ye_final_join :: "cycle_result \<Rightarrow> cycle_error option"
  ye_receipt_published :: bool
  ye_fault :: "string \<Rightarrow> discovery_event \<Rightarrow> bool"

subsection \<open>Criticism\<close>

definition char_code :: "char \<Rightarrow> nat" where
  "char_code c = of_char c"

definition printable :: "string \<Rightarrow> bool" where
  "printable s \<longleftrightarrow> list_all (\<lambda>c. 32 \<le> char_code c \<and> char_code c \<le> 126) s"

definition canonical_ai_text :: "string \<Rightarrow> bool" where
  "canonical_ai_text s \<longleftrightarrow> s \<noteq> [] \<and> s = strip s \<and> printable s"

definition safe_declaration :: "string \<Rightarrow> bool" where
  "safe_declaration s \<longleftrightarrow> s \<noteq> [] \<and> s = strip s \<and> length s \<le> 80 \<and> printable s"

definition methodology_named :: "proposed_hypothesis \<Rightarrow> bool" where
  "methodology_named p \<longleftrightarrow> qp_methodology_tags p \<noteq> [] \<and> qp_methodology_tags p = sorted_set (qp_methodology_tags p)
     \<and> list_all safe_declaration (qp_methodology_tags p)"

definition parameter_combination_demand :: "proposed_hypothesis \<Rightarrow> int" where
  "parameter_combination_demand p =
     (let n = length (remdups (qp_free_parameters p))
      in if 12 < n \<or> list_ex (\<lambda>x. \<not> canonical_ai_text x \<or> 80 < length x) (qp_free_parameters p) then 2 else 2 ^ n)"

fun joined :: "string list \<Rightarrow> string" where
  "joined [] = []"
| "joined [x] = x"
| "joined (x # xs) = x @ ''|'' @ joined xs"

definition proposal_semantic_hash :: "discovery_keys \<Rightarrow> proposed_hypothesis \<Rightarrow> sha" where
  "proposal_semantic_hash K p = yk_text K (joined (strip (casefold (qp_hypothesis p))
     # strip (casefold (qp_economic_mechanism p)) # qp_methodology_tags p))"

definition leaking_tokens :: "string list" where
  "leaking_tokens = [''future_bar'', ''lookahead'', ''revised_data'', ''target_leak'']"

definition day_critic_reason :: "discovery_keys \<Rightarrow> discovery_env \<Rightarrow> proposed_hypothesis \<Rightarrow> discovery_view \<Rightarrow> int \<Rightarrow> string option" where
  "day_critic_reason K E p view remaining =
     (if remaining < 1 then Some ''budget_exhausted''
      else if list_ex (\<lambda>x. \<not> canonical_ai_text x) [qp_hypothesis p, qp_economic_mechanism p, qp_counterfactual_baseline p]
        \<or> qp_falsification_rule p \<noteq> [] \<and> \<not> canonical_ai_text (qp_falsification_rule p) then Some ''contract_invalid''
      else if list_ex (\<lambda>x. \<not> canonical_ai_text x \<or> 80 < length x) (qp_free_parameters p)
        \<or> 12 < length (remdups (qp_free_parameters p)) then Some ''contract_invalid''
      else if remaining < parameter_combination_demand p then Some ''budget_exhausted''
      else if proposal_semantic_hash K p \<in> set (vw_existing_semantic_hashes view) then Some ''semantic_duplicate''
      else if \<not> methodology_named p then Some ''methodology_missing''
      else if list_ex (\<lambda>t. sublist t (casefold (qp_source_code p))) leaking_tokens then Some ''point_in_time_leakage''
      else if strip (qp_counterfactual_baseline p) = [] \<or> strip (qp_falsification_rule p) = [] then Some ''critic_rejected''
      else case ye_function_names E (qp_source_code p) of
        None \<Rightarrow> Some ''compile_failed''
      | Some names \<Rightarrow> if ''create_strategy'' \<notin> set names \<or> ''observe'' \<notin> set names then Some ''unconstructible'' else None)"

definition day_critique :: "discovery_keys \<Rightarrow> discovery_env \<Rightarrow> proposed_hypothesis \<Rightarrow> discovery_view \<Rightarrow> int \<Rightarrow> objection list" where
  "day_critique K E p view remaining = (case day_critic_reason K E p view remaining of
     None \<Rightarrow> [] | Some reason \<Rightarrow> [\<lparr> ob_blocking = True, ob_evidence = reason \<rparr>])"

definition critique_terminal_reason :: "objection list \<Rightarrow> string option" where
  "critique_terminal_reason objections =
     (let blocking = filter ob_blocking objections;
          reasons = filter (\<lambda>r. r \<in> set terminal_reasons) (map ob_evidence blocking)
      in if blocking = [] then None
         else Some (case find (\<lambda>r. r \<noteq> ''critic_rejected'') reasons of Some r \<Rightarrow> r | None \<Rightarrow> ''critic_rejected''))"

text \<open>\<^theory_text>\<open>_safe_reason_token\<close>: \<open>False\<close> where it raises.\<close>

definition safe_reason :: "string \<Rightarrow> bool" where
  "safe_reason s \<longleftrightarrow> 1 \<le> length s \<and> length s \<le> 80
     \<and> list_all (\<lambda>c. 97 \<le> char_code c \<and> char_code c \<le> 122 \<or> 48 \<le> char_code c \<and> char_code c \<le> 57 \<or> c = CHR ''_'') s
     \<and> \<not> list_ex (\<lambda>t. sublist t s) [''account'', ''api_key'', ''credential'', ''provider'', ''secret'', ''token'']"

subsection \<open>The world\<close>

record cycle_receipt =
  cq_cycle_id :: sha
  cq_evidence_sha256 :: sha
  cq_ledger_head_event_id :: sha
  cq_result :: cycle_result

text \<open>The ledger, the calls the model has received with their branch, and the receipts published.\<close>

record discovery_world =
  yw_ledger :: discovery_ledger
  yw_calls :: "(sha \<times> int) list"
  yw_receipts :: "sha \<rightharpoonup> cycle_receipt"

text \<open>Sequencing: the second part sees the world the first has reached, unless it has raised.\<close>

definition then_do ::
  "discovery_world \<times> (cycle_error + 'a) \<Rightarrow> ('a \<Rightarrow> discovery_world \<Rightarrow> discovery_world \<times> (cycle_error + 'b))
     \<Rightarrow> discovery_world \<times> (cycle_error + 'b)" where
  "then_do r f = (case r of (w, Inl err) \<Rightarrow> (w, Inl err) | (w, Inr x) \<Rightarrow> f x w)"

text \<open>One transaction of the writer.\<close>

definition write_ledger ::
  "(discovery_ledger \<Rightarrow> discovery_error + discovery_ledger \<times> bool) \<Rightarrow> discovery_world \<Rightarrow> discovery_world \<times> (cycle_error + bool)" where
  "write_ledger f w = (case f (yw_ledger w) of
     Inl err \<Rightarrow> (w, Inl (Cycle_Ledger err)) | Inr (L, b) \<Rightarrow> (w \<lparr> yw_ledger := L \<rparr>, Inr b))"

definition read_state :: "discovery_keys \<Rightarrow> sha \<Rightarrow> discovery_world \<Rightarrow> cycle_error + discovery_state" where
  "read_state K i w = (case read_day_discovery_cycle_state K (yw_ledger w) i of
     Inl err \<Rightarrow> Inl (Cycle_Ledger err) | Inr st \<Rightarrow> Inr st)"

text \<open>The injected fault, or a crash at that point.\<close>

definition fault_point :: "discovery_env \<Rightarrow> string \<Rightarrow> discovery_event \<Rightarrow> cycle_error + unit" where
  "fault_point E point e = (if ye_fault E point e then Inl Cycle_Broken else Inr ())"

subsection \<open>Times and events\<close>

definition cycle_time :: "discovery_env \<Rightarrow> discovery_event \<Rightarrow> nat \<Rightarrow> int \<Rightarrow> int" where
  "cycle_time E e reading earliest = max (case ye_clock E of None \<Rightarrow> earliest | Some f \<Rightarrow> f e reading) (earliest + 1)"

definition event_after ::
  "discovery_keys \<Rightarrow> discovery_event \<Rightarrow> discovery_kind \<Rightarrow> int option \<Rightarrow> discovery_payload \<Rightarrow> int \<Rightarrow> cycle_error + discovery_event" where
  "event_after K p kind branch payload timestamp =
     (let e = \<lparr> dv_event_id = [], dv_cycle_id = dv_cycle_id p, dv_sequence = dv_sequence p + 1,
        dv_previous_event_id = Some (dv_event_id p), dv_branch_index = branch, dv_event_kind = kind,
        dv_event_at = max timestamp (dv_event_at p), dv_payload = payload \<rparr>; e' = e \<lparr> dv_event_id := yk_event K e \<rparr>
      in if valid_discovery_event K e' then Inr e' else Inl Cycle_Validation)"

text \<open>The event with the time of the clock.\<close>

definition timed_event_after ::
  "discovery_keys \<Rightarrow> discovery_env \<Rightarrow> discovery_event \<Rightarrow> nat \<Rightarrow> discovery_kind \<Rightarrow> int option \<Rightarrow> discovery_payload
     \<Rightarrow> cycle_error + discovery_event" where
  "timed_event_after K E p reading kind branch payload = event_after K p kind branch payload (cycle_time E p reading (dv_event_at p))"

definition terminal_branch_event ::
  "discovery_keys \<Rightarrow> discovery_env \<Rightarrow> discovery_event \<Rightarrow> nat \<Rightarrow> string \<Rightarrow> int \<Rightarrow> cycle_error + discovery_event" where
  "terminal_branch_event K E p reading reason remaining =
     (let branch = (case dv_branch_index p of None \<Rightarrow> 0 | Some i \<Rightarrow> i)
      in timed_event_after K E p reading BRANCH_FINALIZED (Some branch) (Branch_Payload \<lparr> bq_accepted = False,
           bq_attempt_id = yk_attempt K (dv_cycle_id p) branch reason, bq_family_id = None, bq_hypothesis_version_id = None,
           bq_capsule_id = None, bq_admission_id = None, bq_trial_id = None, bq_terminal_reason = Some reason,
           bq_search_budget_debit = 1, bq_remaining_budget = Some remaining \<rparr>))"

text \<open>The event that follows is written by an operation of the writer.\<close>

definition write_event ::
  "(discovery_event \<Rightarrow> discovery_ledger \<Rightarrow> discovery_error + discovery_ledger \<times> bool) \<Rightarrow> cycle_error + discovery_event
     \<Rightarrow> discovery_world \<Rightarrow> discovery_world \<times> (cycle_error + unit)" where
  "write_event f r w = then_do (w, r) (\<lambda>e w. then_do (write_ledger (f e) w) (\<lambda>_ w. (w, Inr ())))"

definition finalize_terminal ::
  "discovery_keys \<Rightarrow> discovery_env \<Rightarrow> discovery_event \<Rightarrow> nat \<Rightarrow> string \<Rightarrow> int \<Rightarrow> discovery_world \<Rightarrow> discovery_world \<times> (cycle_error + unit)" where
  "finalize_terminal K E p reading reason remaining =
     write_event (finalize_day_discovery_branch K) (terminal_branch_event K E p reading reason remaining)"

end
