(* ===== verification/Day_Discovery_Machine.thy ===== *)
theory Day_Discovery_Machine
  imports Day_Discovery_Cycle
begin

text \<open>
  The state machine of a discovery cycle: \<^verbatim>\<open>run_authoritative_cycle\<close> of
  \<^verbatim>\<open>day_discovery_state_machine.py\<close> with the handlers it dispatches to, those of
  \<^verbatim>\<open>day_discovery_effect_state.py\<close> included.  A handler is a function of the state read before;
  it returns the world it leaves and the exception it raises, if it raises one.
\<close>

subsection \<open>The state a handler sees\<close>

definition last_event :: "discovery_state \<Rightarrow> discovery_event" where
  "last_event st = last (ys_events st)"

definition finalized_branches :: "discovery_state \<Rightarrow> discovery_event list" where
  "finalized_branches st = filter (\<lambda>e. dv_event_kind e = BRANCH_FINALIZED) (ys_events st)"

definition current_branch :: "discovery_state \<Rightarrow> int" where
  "current_branch st = int (length (finalized_branches st))"

text \<open>The latest event of a kind, of a branch or of any.\<close>

definition latest_event :: "discovery_kind \<Rightarrow> (discovery_event \<Rightarrow> bool) \<Rightarrow> discovery_state \<Rightarrow> discovery_event option" where
  "latest_event k P st = find (\<lambda>e. dv_event_kind e = k \<and> P e) (rev (ys_events st))"

definition branch_spent :: "discovery_state \<Rightarrow> int \<Rightarrow> int" where
  "branch_spent st i = sum_list (map dd_amount (filter (\<lambda>d. dd_branch_index d = i) (ys_debits st)))"

subsection \<open>Calls\<close>

definition typed_protocol :: "discovery_keys \<Rightarrow> sha" where
  "typed_protocol K = yk_text K ''typed-proposal-v1''"

definition call_plan :: "discovery_keys \<Rightarrow> discovery_env \<Rightarrow> discovery_event \<Rightarrow> llm_plan option" where
  "call_plan K E p = (case ye_structured_plan E of
     Some plan \<Rightarrow> plan p
   | None \<Rightarrow> Some \<lparr> lp_prompt_sha256 = yk_text K (ye_prompt E), lp_prompt_bytes_sha256 = yk_text K (ye_prompt E),
       lp_prompt_length = int (length (ye_prompt E)), lp_model_id = ye_generator_name E, lp_seed = None, lp_temperature = 0,
       lp_protocol_sha256 = typed_protocol K, lp_planned_at = cycle_time E p 0 (dv_event_at p) \<rparr>)"

definition planned_reservation ::
  "discovery_keys \<Rightarrow> discovery_env \<Rightarrow> discovery_state \<Rightarrow> int \<Rightarrow> llm_plan \<Rightarrow> call_reservation" where
  "planned_reservation K E st branch plan =
     (let r = \<lparr> ra_reservation_id = [], ra_account_id = ba_account_id (ys_account st), ra_cycle_id = dc_cycle_id (ys_cycle st),
        ra_branch_index = branch, ra_prompt_sha256 = lp_prompt_sha256 plan, ra_prompt_bytes_sha256 = lp_prompt_bytes_sha256 plan,
        ra_prompt_length = lp_prompt_length plan, ra_model_id = lp_model_id plan, ra_seed = lp_seed plan,
        ra_temperature = lp_temperature plan, ra_protocol_sha256 = lp_protocol_sha256 plan, ra_creator = ye_creator E,
        ra_creator_sha256 = yk_text K (ye_creator E), ra_reserved_at = max (lp_planned_at plan) (dv_event_at (last_event st)) \<rparr>
      in r \<lparr> ra_reservation_id := yk_reservation K r \<rparr>)"

definition cycle_debit :: "discovery_keys \<Rightarrow> discovery_state \<Rightarrow> int \<Rightarrow> debit_kind \<Rightarrow> int \<Rightarrow> int \<Rightarrow> cycle_error + budget_debit" where
  "cycle_debit K st branch kind amount debited_at =
     (let d = \<lparr> dd_debit_id = [], dd_account_id = ba_account_id (ys_account st), dd_cycle_id = dc_cycle_id (ys_cycle st),
        dd_branch_index = branch, dd_debit_kind = kind, dd_amount = amount, dd_debited_at = debited_at \<rparr>;
        d' = d \<lparr> dd_debit_id := yk_debit K d \<rparr>
      in if valid_debit K d' then Inr d' else Inl Cycle_Validation)"

definition reserve_call ::
  "discovery_keys \<Rightarrow> discovery_env \<Rightarrow> discovery_state \<Rightarrow> int \<Rightarrow> discovery_world \<Rightarrow> discovery_world \<times> (cycle_error + bool)" where
  "reserve_call K E st branch w = (case call_plan K E (last_event st) of
     None \<Rightarrow> (w, Inl Cycle_Broken)
   | Some plan \<Rightarrow>
       (let r = planned_reservation K E st branch plan
        in if \<not> valid_reservation K r then (w, Inl Cycle_Validation)
           else then_do (w, event_after K (last_event st) CALL_RESERVED (Some branch) (Reservation_Payload r) (ra_reserved_at r)) (\<lambda>e w.
             then_do (w, cycle_debit K st branch CALL_RESERVATION 1 (ra_reserved_at r)) (\<lambda>d.
             write_ledger (reserve_day_discovery_call K d e)))))"

text \<open>The answer of the model as it is recorded, or \<open>None\<close> for an error the loop catches.  A plan that
  does not fit the reservation is an error it does not catch, and is found before the call.\<close>

definition completed_response ::
  "discovery_keys \<Rightarrow> discovery_env \<Rightarrow> discovery_event \<Rightarrow> call_reservation \<Rightarrow> string \<Rightarrow> int \<Rightarrow> int \<Rightarrow> call_response" where
  "completed_response K E e r raw started received =
     (let started' = (if ye_structured_plan E = None then cycle_time E e 0 (ra_reserved_at r) else started);
          received' = (if ye_structured_plan E = None then cycle_time E e 1 started' else received)
      in \<lparr> rb_reservation_id = ra_reservation_id r, rb_response = raw, rb_response_sha256 = yk_text K raw,
           rb_response_length = int (length raw), rb_invocation_started_at = started', rb_received_at = received' \<rparr>)"

datatype call_readiness = Call_Ready | Call_Rejected | Call_Mismatch

definition call_ready :: "discovery_env \<Rightarrow> discovery_event \<Rightarrow> call_reservation \<Rightarrow> call_readiness" where
  "call_ready E e r = (case ye_structured_plan E of
     None \<Rightarrow> Call_Ready
   | Some plan \<Rightarrow> (case plan e of
       None \<Rightarrow> Call_Rejected
     | Some p \<Rightarrow> if lp_prompt_sha256 p \<noteq> ra_prompt_sha256 r \<or> lp_prompt_length p \<noteq> ra_prompt_length r then Call_Mismatch
         else Call_Ready))"

text \<open>The model is called, then its answer is recorded.  \<open>Inr False\<close> is an error the loop catches.\<close>

definition record_response ::
  "discovery_keys \<Rightarrow> discovery_env \<Rightarrow> discovery_event \<Rightarrow> call_reservation \<Rightarrow> discovery_world \<Rightarrow> discovery_world \<times> (cycle_error + bool)" where
  "record_response K E e r w = (case ye_complete E e of
     Completion_Broken \<Rightarrow> (w, Inl Cycle_Broken)
   | Completion_Rejected \<Rightarrow> (w, Inr False)
   | Completed raw started received \<Rightarrow>
       (let a = completed_response K E e r raw started received
        in if \<not> valid_response K a then (w, Inr False)
           else case event_after K e CALL_RESPONSE_RECORDED (Some (ra_branch_index r)) (Response_Payload a) (rb_received_at a) of
             Inl err \<Rightarrow> (w, Inr False)
           | Inr f \<Rightarrow> then_do (write_ledger (record_day_discovery_call_response K f) w) (\<lambda>_ w. (w, Inr True))))"

definition invoke_and_record_call ::
  "discovery_keys \<Rightarrow> discovery_env \<Rightarrow> discovery_event \<Rightarrow> discovery_world \<Rightarrow> discovery_world \<times> (cycle_error + bool)" where
  "invoke_and_record_call K E e w = (case reservation_of K e of
     None \<Rightarrow> (w, Inr False)
   | Some r \<Rightarrow> (case call_ready E e r of
       Call_Rejected \<Rightarrow> (w, Inr False)
     | Call_Mismatch \<Rightarrow> (w, Inl (Cycle_Error ''call_reservation_prompt_mismatch''))
     | Call_Ready \<Rightarrow> record_response K E e r (w \<lparr> yw_calls := yw_calls w @ [(ra_cycle_id r, ra_branch_index r)] \<rparr>)))"

definition finish_call ::
  "discovery_keys \<Rightarrow> discovery_env \<Rightarrow> discovery_state \<Rightarrow> discovery_world \<Rightarrow> discovery_world \<times> (cycle_error + unit)" where
  "finish_call K E st w = then_do (w, fault_point E ''call_reserved'' (last_event st)) (\<lambda>_ w.
     then_do (invoke_and_record_call K E (last_event st) w) (\<lambda>recorded w.
     if recorded then (w, Inr ())
     else finalize_terminal K E (last_event st) 2 ''model_call_outcome_unknown'' (ys_remaining_budget st) w))"

definition call_model ::
  "discovery_keys \<Rightarrow> discovery_env \<Rightarrow> discovery_state \<Rightarrow> int \<Rightarrow> discovery_world \<Rightarrow> discovery_world \<times> (cycle_error + unit)" where
  "call_model K E st branch w = then_do (reserve_call K E st branch w) (\<lambda>created w.
     if \<not> created then (w, Inr ())
     else then_do (w, read_state K (dc_cycle_id (ys_cycle st)) w) (finish_call K E))"

subsection \<open>Preparing a branch\<close>

text \<open>The proposal in an answer, criticised; \<open>None\<close> for an error the loop catches.\<close>

definition answered_proposal ::
  "discovery_keys \<Rightarrow> discovery_env \<Rightarrow> discovery_state \<Rightarrow> string \<Rightarrow> proposed_hypothesis option" where
  "answered_proposal K E st raw = (case ye_structured_plan E of
     None \<Rightarrow> ye_recorded E raw
   | Some plan \<Rightarrow> (case (plan (last_event st), reservation_of K (ys_events st ! (length (ys_events st) - 2))) of
       (Some p, Some r) \<Rightarrow> if lp_prompt_sha256 p \<noteq> ra_prompt_sha256 r \<or> lp_model_id p \<noteq> ra_model_id r
           \<or> lp_protocol_sha256 p \<noteq> ra_protocol_sha256 r then None
         else ye_parse E (last_event st) raw
     | _ \<Rightarrow> None))"

definition criticised_proposal ::
  "discovery_keys \<Rightarrow> discovery_env \<Rightarrow> discovery_view \<Rightarrow> discovery_state \<Rightarrow> string \<Rightarrow> (proposed_hypothesis \<times> string option) option" where
  "criticised_proposal K E view st raw = (case answered_proposal K E st raw of
     None \<Rightarrow> None
   | Some p \<Rightarrow> if ye_critique_recorded E p
       then Some (p, critique_terminal_reason (ye_critic E p @ day_critique K E p view (ys_remaining_budget st + 1))) else None)"

definition registration_at :: "discovery_view \<Rightarrow> proposed_hypothesis \<Rightarrow> int" where
  "registration_at view p = max (max (qp_called_at p) (vw_completed_bar_at view)) (vw_observed_at view)"

text \<open>The times of the proposal overrule the critic.\<close>

definition prepared_reason :: "discovery_view \<Rightarrow> proposed_hypothesis \<Rightarrow> string option \<Rightarrow> string option" where
  "prepared_reason view p reason =
     (if vw_first_eligible_completed_bar_at view \<le> registration_at view p then Some ''forward_probe_not_future_only''
      else if qp_called_at p < vw_observed_at view then Some ''proposal_time_invalid'' else reason)"

definition planned_demand :: "proposed_hypothesis \<Rightarrow> string option \<Rightarrow> int" where
  "planned_demand p reason = (if reason = Some ''budget_exhausted'' then 1 else parameter_combination_demand p)"

definition drafted_branch ::
  "discovery_keys \<Rightarrow> discovery_env \<Rightarrow> discovery_view \<Rightarrow> discovery_state \<Rightarrow> int \<Rightarrow> proposed_hypothesis \<Rightarrow> string option
     \<Rightarrow> cycle_error + prepared_branch" where
  "drafted_branch K E view st branch p reason =
     (let registered = registration_at view p; e = last_event st;
          finished = cycle_time E e 0 registered; bound = cycle_time E e 1 finished; published = cycle_time E e 2 bound
      in case ye_contracts E p registered (max (vw_first_eligible_completed_bar_at view) (registered + 1))
             (ys_remaining_budget st + 1) (reason \<noteq> None) of
           None \<Rightarrow> Inl Cycle_Broken
         | Some hy \<Rightarrow>
             (let b = \<lparr> pb_cycle_id = dc_cycle_id (ys_cycle st), pb_evidence_sha256 = dc_evidence_sha256 (ys_cycle st),
                pb_branch_index = branch, pb_market_id = vw_market_id view, pb_search_budget = vw_search_budget view,
                pb_remaining_budget_before = ys_remaining_budget st + 1, pb_proposal = p, pb_terminal_reason = reason,
                pb_contracts = hy, pb_attempt_id = yk_attempt K (dc_cycle_id (ys_cycle st)) branch (hy_version_id hy),
                pb_attempt_started_at = qp_called_at p, pb_attempt_finished_at = finished, pb_bound_at = bound,
                pb_published_at = published, pb_search_budget_debit = planned_demand p reason \<rparr>
              in if valid_prepared K b then Inr b else Inl Cycle_Validation))"

definition top_up_debit ::
  "discovery_keys \<Rightarrow> discovery_state \<Rightarrow> int \<Rightarrow> int \<Rightarrow> int \<Rightarrow> cycle_error + budget_debit option" where
  "top_up_debit K st branch demand debited_at =
     (if demand \<le> 1 then Inr None
      else map_sum id Some (cycle_debit K st branch CARTESIAN_TOP_UP (demand - 1) debited_at))"

definition prepare_branch ::
  "discovery_keys \<Rightarrow> discovery_env \<Rightarrow> discovery_view \<Rightarrow> discovery_state \<Rightarrow> int \<Rightarrow> discovery_world \<Rightarrow> discovery_world \<times> (cycle_error + unit)" where
  "prepare_branch K E view st branch w =
     (let e = last_event st
      in case response_of K e of
        None \<Rightarrow> (w, Inl Cycle_Validation)
      | Some a \<Rightarrow> (case criticised_proposal K E view st (rb_response a) of
          None \<Rightarrow> finalize_terminal K E e 0 ''model_response_malformed'' (ys_remaining_budget st) w
        | Some (p, objected) \<Rightarrow>
            (let reason = prepared_reason view p objected; demand = planned_demand p reason
             in then_do (w, drafted_branch K E view st branch p reason) (\<lambda>b w.
                (let event_at = max (dv_event_at e) (pb_published_at b)
                 in then_do (w, event_after K e BRANCH_PREPARED (Some branch) (Prepared_Payload demand b) event_at) (\<lambda>f w.
                    then_do (w, top_up_debit K st branch demand event_at) (\<lambda>d w.
                    then_do (write_ledger (prepare_day_discovery_branch K d f) w) (\<lambda>_ w. (w, Inr ())))))))))"

subsection \<open>The prepared branch of a state\<close>

text \<open>The draft answers the call it was prepared from.\<close>

definition answers_call :: "discovery_keys \<Rightarrow> discovery_env \<Rightarrow> prepared_branch \<Rightarrow> call_response \<Rightarrow> call_reservation \<Rightarrow> bool" where
  "answers_call K E b a r =
     (let p = pb_proposal b
      in if ra_protocol_sha256 r = typed_protocol K then ye_recorded E (rb_response a) = Some p
         else qp_response_sha256 p = rb_response_sha256 a \<and> qp_prompt_sha256 p = ra_prompt_sha256 r \<and> qp_model_id p = ra_model_id r)"

definition prepared_from_state :: "discovery_keys \<Rightarrow> discovery_env \<Rightarrow> discovery_state \<Rightarrow> cycle_error + prepared_branch" where
  "prepared_from_state K E st =
     (case latest_event BRANCH_PREPARED (\<lambda>_. True) st of
        None \<Rightarrow> Inl Cycle_Broken
      | Some e \<Rightarrow>
          (case (dv_payload e, latest_event CALL_RESPONSE_RECORDED (\<lambda>x. dv_branch_index x = dv_branch_index e) st,
                 latest_event CALL_RESERVED (\<lambda>x. dv_branch_index x = dv_branch_index e) st) of
             (Prepared_Payload _ b, Some ae, Some re) \<Rightarrow>
               if \<not> valid_prepared K b then Inl Cycle_Validation
               else (case (response_of K ae, reservation_of K re) of
                 (Some a, Some r) \<Rightarrow>
                   if pb_cycle_id b \<noteq> dc_cycle_id (ys_cycle st) \<or> pb_evidence_sha256 b \<noteq> dc_evidence_sha256 (ys_cycle st)
                     \<or> pb_market_id b \<noteq> dc_market_id (ys_cycle st) \<or> pb_search_budget_debit b \<noteq> branch_spent st (pb_branch_index b)
                   then Inl (Cycle_Error ''prepared_branch_authority_mismatch'')
                   else if ra_protocol_sha256 r = typed_protocol K \<and> ye_recorded E (rb_response a) = None
                   then Inl (Cycle_Error ''model_response_malformed'')
                   else if answers_call K E b a r then Inr b else Inl (Cycle_Error ''prepared_branch_response_mismatch'')
               | _ \<Rightarrow> Inl Cycle_Validation)
           | _ \<Rightarrow> Inl Cycle_Broken))"

subsection \<open>Effects\<close>

definition science_of ::
  "discovery_env \<Rightarrow> prepared_branch \<Rightarrow> string option \<Rightarrow> cycle_error + (sha \<times> sha)" where
  "science_of E b reason =
     (if reason = Some ''semantic_duplicate''
      then (case ye_semantic_parent E (pb_proposal b) of
          None \<Rightarrow> Inl (Cycle_Error ''semantic_duplicate_parent_invalid'') | Some parent \<Rightarrow> Inr parent)
      else Inr (hy_family_id (pb_contracts b), hy_version_id (pb_contracts b)))"

definition forward_trial_of :: "discovery_env \<Rightarrow> strategy_capsule option \<Rightarrow> cycle_error + sha option" where
  "forward_trial_of E capsule = (case capsule of None \<Rightarrow> Inr None | Some c \<Rightarrow> map_sum id Some (ye_trial E c))"

text \<open>The attempt, its science and the end of the branch are one transaction.\<close>

definition finalize_science_and_branch ::
  "discovery_keys \<Rightarrow> discovery_env \<Rightarrow> discovery_state \<Rightarrow> string option \<Rightarrow> strategy_capsule option
     \<Rightarrow> discovery_world \<Rightarrow> discovery_world \<times> (cycle_error + unit)" where
  "finalize_science_and_branch K E st reason capsule w =
     then_do (w, prepared_from_state K E st) (\<lambda>b w.
     then_do (w, science_of E b reason) (\<lambda>(family, version) w.
     then_do (w, forward_trial_of E capsule) (\<lambda>trial w.
       (let result = \<lparr> bq_accepted = (capsule \<noteq> None), bq_attempt_id = pb_attempt_id b, bq_family_id = Some family,
              bq_hypothesis_version_id = Some version, bq_capsule_id = map_option cz_capsule_id capsule,
              bq_admission_id = map_option (ye_admission E) capsule, bq_trial_id = trial, bq_terminal_reason = reason,
              bq_search_budget_debit = pb_search_budget_debit b, bq_remaining_budget = None \<rparr>
        in then_do (w, timed_event_after K E (last_event st) 0 BRANCH_FINALIZED (Some (pb_branch_index b)) (Branch_Payload result)) (\<lambda>e w.
           case ye_register_science E b result of
             Some err \<Rightarrow> (w, Inl err)
           | None \<Rightarrow> then_do (write_ledger (finalize_day_discovery_branch K e) w) (\<lambda>_ w. (w, Inr ())))))))"

definition expected_artifact :: "discovery_keys \<Rightarrow> discovery_env \<Rightarrow> proposed_hypothesis \<Rightarrow> cycle_error + generated_artifact" where
  "expected_artifact K E p =
     (let a = \<lparr> ga_artifact_id = [], ga_source_sha256 = yk_text K (qp_source_code p), ga_hypothesis_id = qp_hypothesis_id p,
        ga_card_key = qp_card p, ga_research_source_keys = qp_research_source_keys p, ga_prompt_sha256 = qp_prompt_sha256 p,
        ga_response_sha256 = qp_response_sha256 p, ga_model_id = qp_model_id p, ga_free_parameters = qp_free_parameters p,
        ga_runtime = ye_runtime E, ga_created_at = qp_called_at p \<rparr>
      in if valid_artifact_payload a then Inr (a \<lparr> ga_artifact_id := yk_artifact K a \<rparr>) else Inl Cycle_Validation)"

definition attempted_artifact_ref :: "sha \<Rightarrow> string" where
  "attempted_artifact_ref code = ''artifact://safe/'' @ code"

text \<open>What the store says of the artifact an intent names: the first attempt publishes it, a later one
  only looks for it.\<close>

definition resolved_artifact ::
  "discovery_env \<Rightarrow> discovery_event \<Rightarrow> prepared_branch option \<Rightarrow> generated_artifact \<Rightarrow> string
     \<Rightarrow> cycle_error + discovery_kind \<times> discovery_payload" where
  "resolved_artifact E e first_attempt a ref =
     (case first_attempt of
        Some b \<Rightarrow>
          (let failed = (\<lambda>reason. if safe_reason reason then Inr (ARTIFACT_FAILED, Failure_Payload reason)
              else Inl (Cycle_Error ''feedback_reason_invalid''))
           in case ye_publish E e (pb_proposal b) of
                Inl reason \<Rightarrow> failed reason
              | Inr published \<Rightarrow> (case ye_load E e (ga_artifact_id a) of
                  Inl reason \<Rightarrow> failed reason
                | Inr loaded \<Rightarrow> if published \<noteq> a \<or> loaded \<noteq> a then failed ''artifact_content_invalid''
                    else Inr (ARTIFACT_VERIFIED, Artifact_Payload loaded ref)))
      | None \<Rightarrow> Inr (if ye_load E e (ga_artifact_id a) = Inr a then (ARTIFACT_VERIFIED, Artifact_Payload a ref)
          else (ARTIFACT_OUTCOME_UNKNOWN, Expected_Artifact_Payload (ga_artifact_id a))))"

definition recover_or_publish_artifact ::
  "discovery_keys \<Rightarrow> discovery_env \<Rightarrow> bool \<Rightarrow> discovery_state \<Rightarrow> discovery_world \<Rightarrow> discovery_world \<times> (cycle_error + unit)" where
  "recover_or_publish_artifact K E first_attempt st w =
     (let e = last_event st
      in case dv_payload e of
        Resolution_Payload _ a ref \<Rightarrow>
          then_do (w, if first_attempt then map_sum id Some (prepared_from_state K E st) else Inr None) (\<lambda>b w.
          then_do (w, resolved_artifact E e b a ref) (\<lambda>(kind, payload).
          write_event (finalize_day_discovery_effect K) (timed_event_after K E e 0 kind (dv_branch_index e) payload)))
      | _ \<Rightarrow> (w, Inl Cycle_Broken))"

definition start_artifact_resolution ::
  "discovery_keys \<Rightarrow> discovery_env \<Rightarrow> discovery_state \<Rightarrow> int \<Rightarrow> discovery_world \<Rightarrow> discovery_world \<times> (cycle_error + unit)" where
  "start_artifact_resolution K E st branch w =
     then_do (w, prepared_from_state K E st) (\<lambda>b w.
       if pb_terminal_reason b \<noteq> None then finalize_science_and_branch K E st (pb_terminal_reason b) None w
       else then_do (w, expected_artifact K E (pb_proposal b)) (\<lambda>a w.
         then_do (write_event (start_day_discovery_effect K) (timed_event_after K E (last_event st) 0 RESOLUTION_INTENT (Some branch)
           (Resolution_Payload (yk_prepared K b) a (attempted_artifact_ref (ga_source_sha256 a)))) w) (\<lambda>_ w.
         then_do (w, fault_point E ''resolution_intent'' (last_event st)) (\<lambda>_ w.
         then_do (w, read_state K (dc_cycle_id (ys_cycle st)) w) (recover_or_publish_artifact K E True)))))"

text \<open>The sandbox is only asked after the intent is recorded.\<close>

definition preflight_reason :: "string \<Rightarrow> string" where
  "preflight_reason reason = (if sublist ''nondeterministic'' reason then ''nondeterministic'' else ''sandbox_failed'')"

definition finish_preflight ::
  "discovery_keys \<Rightarrow> discovery_env \<Rightarrow> discovery_event \<Rightarrow> discovery_world \<Rightarrow> discovery_world \<times> (cycle_error + unit)" where
  "finish_preflight K E e w =
     (let finish = (\<lambda>kind payload. write_event (finalize_day_discovery_effect K)
        (timed_event_after K E e 0 kind (dv_branch_index e) payload) w)
      in case ye_preflight E e of
        Preflight_Broken \<Rightarrow> (w, Inl Cycle_Broken)
      | Preflight_Passed c \<Rightarrow> finish PREFLIGHT_VERIFIED (Capsule_Payload c)
      | Preflight_Refused reason \<Rightarrow> finish PREFLIGHT_FAILED (Failure_Payload (preflight_reason reason)))"

definition start_preflight ::
  "discovery_keys \<Rightarrow> discovery_env \<Rightarrow> discovery_view \<Rightarrow> discovery_state \<Rightarrow> discovery_world \<Rightarrow> discovery_world \<times> (cycle_error + unit)" where
  "start_preflight K E view st w =
     (let e = last_event st
      in then_do (w, prepared_from_state K E st) (\<lambda>b w.
        case dv_payload e of
          Artifact_Payload a _ \<Rightarrow>
            if \<not> ye_request E b a then (w, Inl Cycle_Validation)
            else then_do (w, timed_event_after K E e 0 PREFLIGHT_INTENT (dv_branch_index e)
                (Preflight_Payload (ga_artifact_id a) (yk_request K b (vw_evidence_sha256 view)))) (\<lambda>f w.
              then_do (write_ledger (start_day_discovery_effect K f) w) (\<lambda>_ w.
              then_do (w, fault_point E ''preflight_intent'' e) (\<lambda>_. finish_preflight K E f)))
        | _ \<Rightarrow> (w, Inl Cycle_Broken)))"

definition finalize_authoritative_branch ::
  "discovery_keys \<Rightarrow> discovery_env \<Rightarrow> discovery_state \<Rightarrow> discovery_world \<Rightarrow> discovery_world \<times> (cycle_error + unit)" where
  "finalize_authoritative_branch K E st w =
     (let e = last_event st
      in case dv_event_kind e of
        ARTIFACT_FAILED \<Rightarrow> finalize_science_and_branch K E st (Some ''artifact_publication_failed'') None w
      | ARTIFACT_OUTCOME_UNKNOWN \<Rightarrow> finalize_science_and_branch K E st (Some ''artifact_outcome_unknown'') None w
      | PREFLIGHT_OUTCOME_UNKNOWN \<Rightarrow> finalize_science_and_branch K E st (Some ''preflight_outcome_unknown'') None w
      | PREFLIGHT_FAILED \<Rightarrow> finalize_science_and_branch K E st
          (Some (case dv_payload e of Failure_Payload reason \<Rightarrow> reason | _ \<Rightarrow> ''sandbox_failed'')) None w
      | PREFLIGHT_VERIFIED \<Rightarrow> (case dv_payload e of
          Capsule_Payload c \<Rightarrow> finalize_science_and_branch K E st None (Some c) w | _ \<Rightarrow> (w, Inl Cycle_Broken))
      | _ \<Rightarrow> (w, Inl (Cycle_Error ''day_discovery_terminal_transition_invalid'')))"

subsection \<open>The end of a cycle\<close>

definition branch_result_of :: "discovery_event \<Rightarrow> branch_result option" where
  "branch_result_of e = (case dv_payload e of Branch_Payload r \<Rightarrow> Some r | _ \<Rightarrow> None)"

text \<open>The result of the cycle is that of the accepted branch, else of the last.\<close>

definition result_from_branches ::
  "discovery_view \<Rightarrow> sha \<Rightarrow> int \<Rightarrow> discovery_event list \<Rightarrow> cycle_error + cycle_result" where
  "result_from_branches view i remaining branches =
     (let rs = List.map_filter branch_result_of branches; accepted = find bq_accepted rs;
          latest = (case accepted of Some r \<Rightarrow> Some r | None \<Rightarrow> if rs = [] then None else Some (last rs));
          field = (\<lambda>f. case latest of None \<Rightarrow> None | Some r \<Rightarrow> f r);
          reason = (case latest of None \<Rightarrow> ''budget_exhausted''
            | Some r \<Rightarrow> (case bq_terminal_reason r of None \<Rightarrow> ''None'' | Some t \<Rightarrow> t));
          result = \<lparr> cy_cycle_id = i, cy_attempt_ids = map bq_attempt_id rs, cy_family_id = field bq_family_id,
            cy_hypothesis_version_id = field bq_hypothesis_version_id, cy_capsule_id = field bq_capsule_id,
            cy_admission_id = field bq_admission_id, cy_accepted = (accepted \<noteq> None),
            cy_terminal_reason = (if accepted = None then Some reason else None), cy_drafts_attempted = int (length rs),
            cy_remaining_budget = remaining, cy_first_eligible_completed_bar_at = vw_first_eligible_completed_bar_at view \<rparr>
      in if valid_cycle_result result then Inr result else Inl Cycle_Validation)"

definition branch_accepted :: "discovery_event \<Rightarrow> bool" where
  "branch_accepted e = (case branch_result_of e of None \<Rightarrow> False | Some r \<Rightarrow> bq_accepted r)"

definition cycle_is_over :: "int \<Rightarrow> discovery_state \<Rightarrow> bool" where
  "cycle_is_over max_drafts st \<longleftrightarrow> list_ex branch_accepted (finalized_branches st) \<or> max_drafts \<le> current_branch st
     \<or> ys_remaining_budget st = 0"

definition finalize_cycle ::
  "discovery_keys \<Rightarrow> discovery_env \<Rightarrow> discovery_view \<Rightarrow> discovery_state \<Rightarrow> discovery_world \<Rightarrow> discovery_world \<times> (cycle_error + unit)" where
  "finalize_cycle K E view st w =
     then_do (w, result_from_branches view (dc_cycle_id (ys_cycle st)) (ys_remaining_budget st) (finalized_branches st)) (\<lambda>result.
     write_event (finalize_day_discovery_cycle K)
       (timed_event_after K E (last_event st) 0 CYCLE_FINALIZED None (Final_Payload (dv_event_id (last_event st)) result)))"

text \<open>What the cycle itself leaves of the budget: a branch that has ended says so, or its draft does.\<close>

definition cycle_local_remaining_budget :: "discovery_state \<Rightarrow> int option" where
  "cycle_local_remaining_budget st =
     (case latest_event BRANCH_FINALIZED (\<lambda>_. True) st of
        None \<Rightarrow> if ys_debits st = [] then Some 0 else None
      | Some e \<Rightarrow>
          (let remaining = (case branch_result_of e of
              None \<Rightarrow> None
            | Some r \<Rightarrow> (case bq_remaining_budget r of
                Some n \<Rightarrow> Some n
              | None \<Rightarrow> (case latest_event BRANCH_PREPARED (\<lambda>x. dv_branch_index x = dv_branch_index e) st of
                  None \<Rightarrow> None
                | Some f \<Rightarrow> (case dv_payload f of
                    Prepared_Payload _ b \<Rightarrow> Some (pb_remaining_budget_before b
                      - (case dv_branch_index e of None \<Rightarrow> 0 | Some i \<Rightarrow> branch_spent st i))
                  | _ \<Rightarrow> None))))
           in case remaining of None \<Rightarrow> None | Some n \<Rightarrow> if n < 0 then None else Some n))"

text \<open>The receipt a finished cycle publishes, or the one published before.\<close>

definition read_receipt ::
  "discovery_view \<Rightarrow> sha \<Rightarrow> sha \<Rightarrow> cycle_receipt \<Rightarrow> cycle_error + cycle_result" where
  "read_receipt view i head q =
     (if cq_cycle_id q \<noteq> i then Inl (Cycle_Error ''cycle_receipt_identity_conflict'')
      else if cq_evidence_sha256 q \<noteq> vw_evidence_sha256 view then Inl (Cycle_Error ''cycle_evidence_identity_conflict'')
      else if cq_ledger_head_event_id q \<noteq> head then Inl (Cycle_Error ''cycle_receipt_ledger_head_mismatch'')
      else Inr (cq_result q))"

definition publish_receipt ::
  "discovery_env \<Rightarrow> discovery_view \<Rightarrow> sha \<Rightarrow> sha \<Rightarrow> cycle_result \<Rightarrow> discovery_world \<Rightarrow> discovery_world \<times> (cycle_error + cycle_result)" where
  "publish_receipt E view i head result w =
     (case yw_receipts w i of
        Some q \<Rightarrow> then_do (w, read_receipt view i head q) (\<lambda>replay w.
          (w, if replay \<noteq> result then Inl (Cycle_Error ''cycle_receipt_authority_mismatch'') else Inr result))
      | None \<Rightarrow>
          if \<not> ye_receipt_published E then (w, Inl (Cycle_Error ''cycle_receipt_publication_failed''))
          else (w \<lparr> yw_receipts := (yw_receipts w)(i \<mapsto> \<lparr> cq_cycle_id = i, cq_evidence_sha256 = vw_evidence_sha256 view,
                  cq_ledger_head_event_id = head, cq_result = result \<rparr>) \<rparr>, Inr result))"

definition project_final_cycle ::
  "discovery_env \<Rightarrow> discovery_view \<Rightarrow> sha \<Rightarrow> discovery_state \<Rightarrow> discovery_world \<Rightarrow> discovery_world \<times> (cycle_error + cycle_result)" where
  "project_final_cycle E view i st w =
     (let e = last_event st
      in case dv_payload e of
        Final_Payload head result \<Rightarrow>
          if Some head \<noteq> dv_previous_event_id e then (w, Inl (Cycle_Error ''cycle_final_ledger_head_invalid''))
          else if \<not> valid_cycle_result result then (w, Inl Cycle_Validation)
          else if cycle_local_remaining_budget st \<noteq> Some (cy_remaining_budget result)
          then (w, Inl (Cycle_Error ''cycle_final_budget_invalid''))
          else (case (if cy_accepted result then ye_final_join E result else None) of
              Some err \<Rightarrow> (w, Inl err) | None \<Rightarrow> publish_receipt E view i (dv_event_id e) result w)
      | _ \<Rightarrow> (w, Inl (Cycle_Error ''cycle_final_ledger_head_invalid'')))"

subsection \<open>The loop\<close>

definition budget_account_of :: "discovery_keys \<Rightarrow> discovery_view \<Rightarrow> budget_account" where
  "budget_account_of K view = \<lparr> ba_account_id = yk_account K (vw_market_id view) (vw_budget_epoch_ref view),
     ba_market_id = vw_market_id view, ba_budget_epoch_ref = vw_budget_epoch_ref view,
     ba_debit_limit = vw_search_budget view, ba_created_at = vw_observed_at view \<rparr>"

definition discovery_cycle_of :: "discovery_keys \<Rightarrow> discovery_view \<Rightarrow> discovery_cycle" where
  "discovery_cycle_of K view =
     (let c = \<lparr> dc_cycle_id = [], dc_account_id = ba_account_id (budget_account_of K view), dc_market_id = vw_market_id view,
        dc_evidence_sha256 = vw_evidence_sha256 view, dc_cursor_sha256 = yk_text K (vw_cursor view),
        dc_opened_at = vw_observed_at view \<rparr> in c \<lparr> dc_cycle_id := yk_cycle K c \<rparr>)"

definition load_or_open_cycle ::
  "discovery_keys \<Rightarrow> discovery_view \<Rightarrow> discovery_world \<Rightarrow> discovery_world \<times> (cycle_error + discovery_state)" where
  "load_or_open_cycle K view w =
     (let a = budget_account_of K view; c = discovery_cycle_of K view
      in case read_state K (dc_cycle_id c) w of
        Inr st \<Rightarrow> (w, Inr st)
      | Inl _ \<Rightarrow>
          if yw_receipts w (dc_cycle_id c) \<noteq> None then (w, Inl (Cycle_Error ''legacy_discovery_journal_unmigrated''))
          else if \<not> valid_account K a \<or> \<not> valid_cycle K c then (w, Inl Cycle_Validation)
          else (case open_day_discovery_cycle K a c (yw_ledger w) of
              Inl (Discovery_Conflict _) \<Rightarrow> (w, Inl (Cycle_Error ''cycle_evidence_identity_conflict''))
            | Inl err \<Rightarrow> (w, Inl (Cycle_Ledger err))
            | Inr (L, _) \<Rightarrow> (w \<lparr> yw_ledger := L \<rparr>, read_state K (dc_cycle_id c) (w \<lparr> yw_ledger := L \<rparr>))))"

text \<open>One turn of the loop, for a cycle that is not finalized.\<close>

definition cycle_iteration ::
  "discovery_keys \<Rightarrow> discovery_env \<Rightarrow> discovery_view \<Rightarrow> int \<Rightarrow> discovery_state \<Rightarrow> discovery_world \<Rightarrow> discovery_world \<times> (cycle_error + unit)" where
  "cycle_iteration K E view max_drafts st w =
     (let e = last_event st; branch = current_branch st
      in case dv_event_kind e of
        CYCLE_OPENED \<Rightarrow> if cycle_is_over max_drafts st then finalize_cycle K E view st w else call_model K E st branch w
      | BRANCH_FINALIZED \<Rightarrow> if cycle_is_over max_drafts st then finalize_cycle K E view st w else call_model K E st branch w
      | CALL_RESERVED \<Rightarrow> finalize_terminal K E e 0 ''model_call_outcome_unknown'' (ys_remaining_budget st) w
      | CALL_RESPONSE_RECORDED \<Rightarrow> prepare_branch K E view st branch w
      | BRANCH_PREPARED \<Rightarrow> start_artifact_resolution K E st branch w
      | RESOLUTION_INTENT \<Rightarrow> recover_or_publish_artifact K E False st w
      | ARTIFACT_VERIFIED \<Rightarrow> start_preflight K E view st w
      | PREFLIGHT_INTENT \<Rightarrow> write_event (finalize_day_discovery_effect K)
          (timed_event_after K E e 0 PREFLIGHT_OUTCOME_UNKNOWN (Some branch) Empty_Payload) w
      | _ \<Rightarrow> finalize_authoritative_branch K E st w)"

end
