(* ===== verification/Day_Discovery_Progress.thy ===== *)
theory Day_Discovery_Progress
  imports Day_Discovery_Machine
begin

text \<open>
  The loop of a discovery cycle ends.  Every handler that does not raise appends an event to its
  cycle, an event may only follow those the table of successors allows, and along that table at
  most ten events belong to a draft; so the loop is a total function.
\<close>

subsection \<open>Writing the next event\<close>

text \<open>An operation of the writer that appends an event or has appended it before.\<close>

definition appends :: "discovery_event \<Rightarrow> (discovery_ledger \<Rightarrow> discovery_error + discovery_ledger \<times> bool) \<Rightarrow> bool" where
  "appends e f \<longleftrightarrow> (\<forall>L L' b. f L = Inr (L', b) \<longrightarrow>
     L' = L \<and> event_row L (dv_event_id e) = Some e
     \<or> require_next_event L e = None \<and> (\<exists>L''. L' = event_added e L'' \<and> yl_events L'' = yl_events L))"

lemma appends_event: "appends e (append_day_discovery_event K e k)"
  unfolding appends_def
proof (intro allI impI)
  fix L L' b assume a: "append_day_discovery_event K e k L = Inr (L', b)"
  show "L' = L \<and> event_row L (dv_event_id e) = Some e
      \<or> require_next_event L e = None \<and> (\<exists>L''. L' = event_added e L'' \<and> yl_events L'' = yl_events L)"
  proof (cases "event_row L (dv_event_id e)")
    case None
    then have "append_next e L = Inr L'" using a by (auto simp: append_day_discovery_event_def split: if_splits)
    then show ?thesis by (auto simp: append_next_def dest: insert_eventD split: option.splits)
  next
    case (Some x) then show ?thesis using a by (auto simp: append_day_discovery_event_def split: if_splits)
  qed
qed

lemma appends_reserved: "appends e (reserve_day_discovery_call K d e)"
  unfolding appends_def
proof (intro allI impI)
  fix L L' b assume "reserve_day_discovery_call K d e L = Inr (L', b)"
  then show "L' = L \<and> event_row L (dv_event_id e) = Some e
      \<or> require_next_event L e = None \<and> (\<exists>L''. L' = event_added e L'' \<and> yl_events L'' = yl_events L)"
    by (cases rule: reserveD) auto
qed

lemma appends_prepared: "appends e (prepare_day_discovery_branch K d e)"
  unfolding appends_def
proof (intro allI impI)
  fix L L' b assume "prepare_day_discovery_branch K d e L = Inr (L', b)"
  then show "L' = L \<and> event_row L (dv_event_id e) = Some e
      \<or> require_next_event L e = None \<and> (\<exists>L''. L' = event_added e L'' \<and> yl_events L'' = yl_events L)"
    by (cases rule: prepareD) (auto split: option.splits)
qed

lemma appends_restricted:
  assumes "\<And>L r. f L = Inr r \<Longrightarrow> append_day_discovery_event K e k L = Inr r"
  shows "appends e f"
  using assms appends_event [of e K k] unfolding appends_def by blast

lemma appends_response: "appends e (record_day_discovery_call_response K e)"
  by (rule appends_restricted [of _ K e CALL_RESPONSE_RECORDED])
    (auto simp: record_day_discovery_call_response_def Let_def split: if_splits option.splits)

lemma appends_kind: "appends e (append_kind_in ks K e)"
  by (rule appends_restricted [of _ K e "dv_event_kind e"]) (auto simp: append_kind_in_def split: if_splits)

lemma appends_operations:
  "appends e (start_day_discovery_effect K e)" "appends e (finalize_day_discovery_effect K e)"
  "appends e (finalize_day_discovery_branch K e)" "appends e (finalize_day_discovery_cycle K e)"
  by (simp_all add: start_day_discovery_effect_def finalize_day_discovery_effect_def appends_kind appends_event
    finalize_day_discovery_branch_def [abs_def] finalize_day_discovery_cycle_def [abs_def])

definition next_of :: "discovery_event \<Rightarrow> discovery_event \<Rightarrow> bool" where
  "next_of p e \<longleftrightarrow> dv_cycle_id e = dv_cycle_id p \<and> dv_sequence e = dv_sequence p + 1"

lemma event_afterD:
  assumes "event_after K p kind branch payload t = Inr e"
  shows "next_of p e \<and> dv_event_kind e = kind \<and> dv_branch_index e = branch \<and> dv_payload e = payload"
  using assms by (auto simp: event_after_def next_of_def Let_def split: if_splits)

lemma timed_event_afterD:
  "timed_event_after K E p n kind branch payload = Inr e
     \<Longrightarrow> next_of p e \<and> dv_event_kind e = kind \<and> dv_branch_index e = branch \<and> dv_payload e = payload"
  by (auto simp: timed_event_after_def dest: event_afterD)

lemma cycle_events_ids: "e \<in> set (cycle_events L i) \<Longrightarrow> e \<in> set (yl_events L) \<and> dv_cycle_id e = i"
  by (simp add: cycle_events_def)

text \<open>The next event of a cycle cannot have been written before, so writing it appends it.\<close>

lemma next_event_written:
  assumes "appends e f" "f L = Inr (L', b)" "cycle_events L i \<noteq> []" "next_of (last (cycle_events L i)) e"
  shows "cycle_events L' i = cycle_events L i @ [e]
    \<and> dv_event_kind e \<in> set (discovery_successors (dv_event_kind (last (cycle_events L i))))"
proof -
  have i: "dv_cycle_id e = i" "dv_sequence e = dv_sequence (last (cycle_events L i)) + 1"
    using assms(3,4) cycle_events_ids [of "last (cycle_events L i)" L i] by (auto simp: next_of_def)
  have "event_row L (dv_event_id e) \<noteq> Some e"
  proof
    assume "event_row L (dv_event_id e) = Some e"
    then have "e \<in> set (cycle_events L i)" using i find_id [of dv_event_id] by (auto simp: event_row_def cycle_events_def)
    from cycle_event_before [OF this] show False using i by simp
  qed
  with assms(1,2) obtain L'' where "require_next_event L e = None" "L' = event_added e L''" "yl_events L'' = yl_events L"
    by (auto simp: appends_def)
  then show ?thesis using next_event_last [of L e L' L'' i] require_next_eventD [of L e] i by simp
qed

subsection \<open>Growth of a cycle\<close>

fun legal_from :: "discovery_kind \<Rightarrow> discovery_kind list \<Rightarrow> bool" where
  "legal_from k [] = True"
| "legal_from k (x # xs) = (x \<in> set (discovery_successors k) \<and> legal_from x xs)"

lemma legal_from_append: "legal_from k (xs @ ys) \<longleftrightarrow> legal_from k xs \<and> legal_from (if xs = [] then k else last xs) ys"
  by (induction k xs rule: legal_from.induct) auto

abbreviation kept_events :: "discovery_world \<Rightarrow> sha \<Rightarrow> discovery_event list" where
  "kept_events w i \<equiv> cycle_events (yw_ledger w) i"

text \<open>The kinds of the events appended between two worlds.\<close>

definition grew :: "sha \<Rightarrow> discovery_world \<Rightarrow> discovery_world \<Rightarrow> discovery_kind list \<Rightarrow> bool" where
  "grew i w w' ks \<longleftrightarrow> kept_events w i \<noteq> [] \<and> legal_from (dv_event_kind (last (kept_events w i))) ks
     \<and> (\<exists>es. map dv_event_kind es = ks \<and> kept_events w' i = kept_events w i @ es)"

lemma grew_refl: "kept_events w i \<noteq> [] \<Longrightarrow> yw_ledger w' = yw_ledger w \<Longrightarrow> grew i w w' []"
  by (simp add: grew_def)

lemma grew_trans:
  assumes "grew i w w1 ks" "grew i w1 w' ks'"
  shows "grew i w w' (ks @ ks')"
proof -
  from assms(1) obtain es where es: "map dv_event_kind es = ks" "kept_events w1 i = kept_events w i @ es" by (auto simp: grew_def)
  from assms(2) obtain es' where es': "map dv_event_kind es' = ks'" "kept_events w' i = kept_events w1 i @ es'" by (auto simp: grew_def)
  have "dv_event_kind (last (kept_events w1 i)) = (if ks = [] then dv_event_kind (last (kept_events w i)) else last ks)"
    using es by (cases "es = []") (auto simp: last_map)
  then have "legal_from (dv_event_kind (last (kept_events w i))) (ks @ ks')"
    using assms by (simp add: grew_def legal_from_append split: if_splits)
  moreover have "map dv_event_kind (es @ es') = ks @ ks' \<and> kept_events w' i = kept_events w i @ es @ es'" using es es' by simp
  ultimately show ?thesis using assms(1) unfolding grew_def by blast
qed

text \<open>A computation appends events of the kinds \<open>A\<close>, at least \<open>n\<close> when it does not raise.\<close>

definition grows :: "sha \<Rightarrow> discovery_kind set \<Rightarrow> nat \<Rightarrow> discovery_world \<Rightarrow> discovery_world \<times> (cycle_error + 'a) \<Rightarrow> bool" where
  "grows i A n w out \<longleftrightarrow> (\<exists>ks. grew i w (fst out) ks \<and> set ks \<subseteq> A \<and> (\<forall>x. snd out = Inr x \<longrightarrow> n \<le> length ks))"

lemma grows_raised [simp, intro]: "kept_events w i \<noteq> [] \<Longrightarrow> grows i A n w (w, Inl err)"
  using grew_refl [of w i w] by (fastforce simp: grows_def)

lemma grows_unchanged [simp, intro]: "kept_events w i \<noteq> [] \<Longrightarrow> grows i A 0 w (w, r)"
  using grew_refl [of w i w] by (fastforce simp: grows_def)

lemma then_do_simps [simp]:
  "then_do (w, Inl err) f = (w, Inl err)" "then_do (w, Inr x) f = f x w"
  by (simp_all add: then_do_def)

lemma grows_then:
  assumes "grows i A n w r" "\<And>x w1. r = (w1, Inr x) \<Longrightarrow> kept_events w1 i \<noteq> [] \<Longrightarrow> grows i A m w1 (f x w1)"
  shows "grows i A (n + m) w (then_do r f)"
proof -
  obtain w1 o1 where r: "r = (w1, o1)" by (cases r)
  from assms(1) obtain ks where ks: "grew i w w1 ks" "set ks \<subseteq> A" "\<forall>x. o1 = Inr x \<longrightarrow> n \<le> length ks" by (auto simp: grows_def r)
  show ?thesis
  proof (cases o1)
    case Inl then show ?thesis using ks by (auto simp: grows_def r)
  next
    case (Inr x)
    have "kept_events w1 i \<noteq> []" using ks(1) by (auto simp: grew_def)
    then obtain ks' where "grew i w1 (fst (f x w1)) ks'" "set ks' \<subseteq> A" "\<forall>y. snd (f x w1) = Inr y \<longrightarrow> m \<le> length ks'"
      using assms(2) [of w1 x] by (auto simp: grows_def r Inr)
    then have "grew i w (fst (f x w1)) (ks @ ks') \<and> set (ks @ ks') \<subseteq> A \<and> (\<forall>y. snd (f x w1) = Inr y \<longrightarrow> n + m \<le> length (ks @ ks'))"
      using ks grew_trans Inr by auto
    then show ?thesis unfolding grows_def r Inr then_do_simps by blast
  qed
qed

lemma grows_value:
  assumes "kept_events w i \<noteq> []" "\<And>x. r = Inr x \<Longrightarrow> grows i A m w (f x w)"
  shows "grows i A m w (then_do (w, r) f)"
  using assms by (cases r) auto

lemma write_ledger_raised: "write_ledger g w = (w', Inl err) \<Longrightarrow> w' = w"
  by (auto simp: write_ledger_def split: sum.splits)

text \<open>What the handlers rely on of an operation of the writer.\<close>

locale event_writer =
  fixes op :: "discovery_event \<Rightarrow> discovery_ledger \<Rightarrow> discovery_error + discovery_ledger \<times> bool"
  assumes appended: "appends e (op e)"
begin

lemma written:
  assumes "write_ledger (op e) w = (w', Inr b)" "kept_events w i \<noteq> []" "next_of (last (kept_events w i)) e"
  shows "kept_events w' i = kept_events w i @ [e]
    \<and> dv_event_kind e \<in> set (discovery_successors (dv_event_kind (last (kept_events w i))))"
proof -
  obtain L where "op e (yw_ledger w) = Inr (L, b)" "w' = w \<lparr> yw_ledger := L \<rparr>"
    using assms(1) by (auto simp: write_ledger_def split: sum.splits)
  then show ?thesis using next_event_written [OF appended] assms(2,3) by simp
qed

lemma grows:
  assumes "next_of (last (kept_events w i)) e" "kept_events w i \<noteq> []" "dv_event_kind e \<in> A"
  shows "grows i A 1 w (write_ledger (op e) w)"
proof (cases "write_ledger (op e) w")
  case (Pair w' r)
  show ?thesis
  proof (cases r)
    case (Inl err) then show ?thesis using Pair write_ledger_raised [of "op e" w w' err] assms(2) by simp
  next
    case (Inr b)
    then have "grew i w w' [dv_event_kind e]" using written [of e w w' b i] Pair assms by (auto simp: grew_def)
    then show ?thesis using Pair assms(3) by (auto simp: grows_def)
  qed
qed

lemma grows_then_ends:
  assumes "next_of (last (kept_events w i)) e" "kept_events w i \<noteq> []" "dv_event_kind e \<in> A"
  shows "grows i A 1 w (then_do (write_ledger (op e) w) (\<lambda>_ w. (w, Inr x)))"
proof -
  have "grows i A (1 + 0) w (then_do (write_ledger (op e) w) (\<lambda>_ w. (w, Inr x)))"
    by (rule grows_then [OF grows [OF assms]]) auto
  then show ?thesis by simp
qed

lemma grows_event:
  assumes "kept_events w i \<noteq> []" "\<And>e. r = Inr e \<Longrightarrow> next_of (last (kept_events w i)) e \<and> dv_event_kind e \<in> A"
  shows "grows i A 1 w (write_event op r w)"
  unfolding write_event_def using assms by (intro grows_value grows_then_ends) auto

end

interpretation reservations: event_writer "reserve_day_discovery_call K d" for K d
  by unfold_locales (rule appends_reserved)

interpretation responses: event_writer "record_day_discovery_call_response K" for K
  by unfold_locales (rule appends_response)

interpretation preparations: event_writer "prepare_day_discovery_branch K debit" for K debit
  by unfold_locales (rule appends_prepared)

interpretation intents: event_writer "start_day_discovery_effect K" for K
  by unfold_locales (rule appends_operations)

interpretation outcomes: event_writer "finalize_day_discovery_effect K" for K
  by unfold_locales (rule appends_operations)

interpretation branch_ends: event_writer "finalize_day_discovery_branch K" for K
  by unfold_locales (rule appends_operations)

interpretation cycle_ends: event_writer "finalize_day_discovery_cycle K" for K
  by unfold_locales (rule appends_operations)

subsection \<open>The handlers\<close>

definition sees :: "sha \<Rightarrow> discovery_state \<Rightarrow> discovery_world \<Rightarrow> bool" where
  "sees i st w \<longleftrightarrow> kept_events w i \<noteq> [] \<and> ys_events st = kept_events w i \<and> dc_cycle_id (ys_cycle st) = i"

lemma read_stateD:
  assumes "read_state K i w = Inr st"
  shows "sees i st w \<and> audited_chain i None (ys_events st) = None"
proof -
  obtain c a where s: "cycle_row (yw_ledger w) i = Some c" "ys_cycle st = c" "ys_events st = kept_events w (dc_cycle_id c)"
      "audit_events K (dc_cycle_id c) (ys_events st) (cycle_debits (yw_ledger w) a (dc_cycle_id c)) = None"
    using assms by (auto simp: read_state_def read_day_discovery_cycle_state_def Let_def split: sum.splits option.splits if_splits)
  have "dc_cycle_id c = i" using s(1) find_id [of dc_cycle_id] by (auto simp: cycle_row_def)
  then show ?thesis using s by (auto simp: sees_def audit_events_def split: option.splits if_splits)
qed

lemma sees_last: "sees i st w \<Longrightarrow> kept_events w i \<noteq> [] \<and> last_event st = last (kept_events w i)"
  by (simp add: sees_def last_event_def)

lemma terminal_branch_eventD:
  assumes "terminal_branch_event K E p reading reason remaining = Inr e"
  shows "next_of p e \<and> dv_event_kind e = BRANCH_FINALIZED"
  using assms by (auto simp: terminal_branch_event_def Let_def dest: timed_event_afterD)

lemma grows_terminal:
  assumes "kept_events w i \<noteq> []" "p = last (kept_events w i)" "BRANCH_FINALIZED \<in> A"
  shows "grows i A 1 w (finalize_terminal K E p reading reason remaining w)"
  unfolding finalize_terminal_def
  by (rule branch_ends.grows_event) (use assms in \<open>auto dest: terminal_branch_eventD\<close>)

lemma grows_science:
  assumes "sees i st w" "BRANCH_FINALIZED \<in> A"
  shows "grows i A 1 w (finalize_science_and_branch K E st reason capsule w)"
proof -
  note s = sees_last [OF assms(1)]
  have last: "grows i A 1 w (case ye_register_science E b result of Some err \<Rightarrow> (w, Inl err)
       | None \<Rightarrow> then_do (write_ledger (finalize_day_discovery_branch K e) w) (\<lambda>_ w. (w, Inr ())))"
    if "timed_event_after K E (last_event st) 0 BRANCH_FINALIZED branch payload = Inr e" for b result e branch payload
  proof (cases "ye_register_science E b result")
    case None
    then show ?thesis using timed_event_afterD [OF that] s assms(2) by (simp add: branch_ends.grows_then_ends del: One_nat_def)
  qed (use s in auto)
  show ?thesis
    unfolding finalize_science_and_branch_def Let_def
    by (intro grows_value conjunct1 [OF s]) (auto intro!: grows_value conjunct1 [OF s] last split: prod.splits simp del: One_nat_def)
qed

text \<open>Later than \<open>n\<close> events is later than fewer.\<close>

lemma grows_mono: "grows i A n w out \<Longrightarrow> m \<le> n \<Longrightarrow> A \<subseteq> B \<Longrightarrow> grows i B m w out"
  unfolding grows_def by (meson le_trans subset_trans)

lemma grows_recovered:
  assumes "sees i st w" "set outcome_kinds \<subseteq> A"
  shows "grows i A 1 w (recover_or_publish_artifact K E first_attempt st w)"
proof -
  note s = sees_last [OF assms(1)]
  have written: "grows i A 1 w (write_event (finalize_day_discovery_effect K) (timed_event_after K E (last_event st) 0 kind branch payload) w)"
    if "kind \<in> {ARTIFACT_VERIFIED, ARTIFACT_FAILED, ARTIFACT_OUTCOME_UNKNOWN}" for kind branch payload
    by (rule outcomes.grows_event) (use s that assms(2) in \<open>auto simp: outcome_kinds_def dest: timed_event_afterD\<close>)
  have kinds: "fst r \<in> {ARTIFACT_VERIFIED, ARTIFACT_FAILED, ARTIFACT_OUTCOME_UNKNOWN}"
    if "resolved_artifact E e b a ref = Inr r" for e b a ref r
    using that by (auto simp: resolved_artifact_def Let_def split: option.splits sum.splits if_splits)
  show ?thesis
  proof (cases "dv_payload (last_event st)")
    case (Resolution_Payload x a ref)
    have "grows i A 1 w (then_do (w, if first_attempt then map_sum id Some (prepared_from_state K E st) else Inr None) (\<lambda>b w.
        then_do (w, resolved_artifact E (last_event st) b a ref) (\<lambda>(kind, payload). write_event (finalize_day_discovery_effect K)
          (timed_event_after K E (last_event st) 0 kind (dv_branch_index (last_event st)) payload))))"
    proof (intro grows_value conjunct1 [OF s])
      fix b r assume "resolved_artifact E (last_event st) b a ref = Inr r"
      from written [OF kinds [OF this]] show "grows i A 1 w ((case r of (kind, payload) \<Rightarrow> write_event (finalize_day_discovery_effect K)
          (timed_event_after K E (last_event st) 0 kind (dv_branch_index (last_event st)) payload)) w)"
        by (cases r) simp
    qed
    then show ?thesis by (simp add: recover_or_publish_artifact_def Resolution_Payload Let_def del: One_nat_def)
  qed (use s in \<open>simp_all add: recover_or_publish_artifact_def\<close>)
qed

lemma grows_resolution:
  assumes "sees i st w" "RESOLUTION_INTENT \<in> A" "BRANCH_FINALIZED \<in> A" "set outcome_kinds \<subseteq> A"
  shows "grows i A 1 w (start_artifact_resolution K E st branch w)"
proof -
  note s = sees_last [OF assms(1)]
  have i: "dc_cycle_id (ys_cycle st) = i" using assms(1) by (simp add: sees_def)
  have intent: "grows i A 1 w (write_event (start_day_discovery_effect K)
      (timed_event_after K E (last_event st) 0 RESOLUTION_INTENT branch' payload) w)" for branch' payload
    by (rule intents.grows_event) (use s assms(2) in \<open>auto dest: timed_event_afterD\<close>)
  have "grows i A (1 + 0) w (then_do (write_event (start_day_discovery_effect K)
      (timed_event_after K E (last_event st) 0 RESOLUTION_INTENT branch' payload) w) (\<lambda>_ w.
         then_do (w, fault_point E ''resolution_intent'' (last_event st)) (\<lambda>_ w.
         then_do (w, read_state K (dc_cycle_id (ys_cycle st)) w) (recover_or_publish_artifact K E True))))"
    for branch' payload
  proof (rule grows_then [OF intent], intro grows_value)
    fix w1 st' assume "read_state K (dc_cycle_id (ys_cycle st)) w1 = Inr st'"
    then show "grows i A 0 w1 (recover_or_publish_artifact K E True st' w1)"
      using grows_mono [OF grows_recovered [of i st' w1 A K E True]] read_stateD i assms(4) by simp
  qed
  then show ?thesis
    unfolding start_artifact_resolution_def
    by (intro grows_value conjunct1 [OF s]) (auto intro!: grows_value grows_science assms(1,3) conjunct1 [OF s] simp del: One_nat_def)
qed

lemma grows_preflight:
  assumes "sees i st w" "PREFLIGHT_INTENT \<in> A" "set outcome_kinds \<subseteq> A"
  shows "grows i A 1 w (start_preflight K E view st w)"
proof -
  note s = sees_last [OF assms(1)]
  have finish: "grows i A 0 w1 (finish_preflight K E f w1)" if "kept_events w1 i \<noteq> []" "f = last (kept_events w1 i)" for w1 f
  proof -
    have "grows i A 1 w1 (write_event (finalize_day_discovery_effect K) (timed_event_after K E f 0 kind branch payload) w1)"
      if "kind \<in> {PREFLIGHT_VERIFIED, PREFLIGHT_FAILED}" for kind branch payload
      by (rule outcomes.grows_event)
        (use \<open>kept_events w1 i \<noteq> []\<close> \<open>f = last (kept_events w1 i)\<close> that assms(3) in
          \<open>auto simp: outcome_kinds_def dest: timed_event_afterD\<close>)
    from grows_mono [OF this, where m = 0] show ?thesis
      using that by (auto simp: finish_preflight_def split: preflight.splits)
  qed
  have "grows i A (1 + 0) w (then_do (write_ledger (start_day_discovery_effect K f) w) (\<lambda>_ w.
              then_do (w, fault_point E ''preflight_intent'' (last_event st)) (\<lambda>_. finish_preflight K E f)))"
    if "timed_event_after K E (last_event st) 0 PREFLIGHT_INTENT branch payload = Inr f" for branch payload f
  proof -
    note f = timed_event_afterD [OF that]
    have start: "grows i A 1 w (write_ledger (start_day_discovery_effect K f) w)"
      by (rule intents.grows) (use f s assms(2) in auto)
    show ?thesis
    proof (rule grows_then [OF start])
      fix b w1 assume "write_ledger (start_day_discovery_effect K f) w = (w1, Inr b)" and w1: "kept_events w1 i \<noteq> []"
      from intents.written [OF this(1), of i] have "f = last (kept_events w1 i)" using s f by simp
      then show "grows i A 0 w1 (then_do (w1, fault_point E ''preflight_intent'' (last_event st)) (\<lambda>_. finish_preflight K E f))"
        by (intro grows_value w1 finish)
    qed
  qed
  then show ?thesis
    using s by (auto simp: start_preflight_def Let_def intro!: grows_value simp del: One_nat_def split: discovery_payload.splits)
qed

lemma grows_prepared:
  assumes "sees i st w" "{BRANCH_PREPARED, BRANCH_FINALIZED} \<subseteq> A"
  shows "grows i A 1 w (prepare_branch K E view st branch w)"
proof -
  note s = sees_last [OF assms(1)]
  have "grows i A 1 w (then_do (write_ledger (prepare_day_discovery_branch K d f) w) (\<lambda>_ w. (w, Inr ())))"
    if "event_after K (last_event st) BRANCH_PREPARED branch' payload t = Inr f" for branch' payload t d f
    by (rule preparations.grows_then_ends) (use event_afterD [OF that] s assms(2) in auto)
  moreover have "grows i A 1 w (finalize_terminal K E (last_event st) 0 reason remaining w)" for reason remaining
    by (rule grows_terminal) (use s assms(2) in auto)
  ultimately show ?thesis
    using s by (auto simp: prepare_branch_def Let_def intro!: grows_value simp del: One_nat_def split: option.splits)
qed

lemma grows_finalized:
  assumes "sees i st w" "CYCLE_FINALIZED \<in> A"
  shows "grows i A 1 w (finalize_cycle K E view st w)"
  unfolding finalize_cycle_def
proof (rule grows_value)
  note s = sees_last [OF assms(1)]
  show "kept_events w i \<noteq> []" using s by simp
  fix result
  show "grows i A 1 w (write_event (finalize_day_discovery_cycle K)
      (timed_event_after K E (last_event st) 0 CYCLE_FINALIZED None (Final_Payload (dv_event_id (last_event st)) result)) w)"
    by (rule cycle_ends.grows_event) (use s assms(2) in \<open>auto dest: timed_event_afterD\<close>)
qed

text \<open>A reservation is the first event of the turn that reserves.\<close>

lemma reserve_callD:
  assumes "reserve_call K E st branch w = (w1, r)" "sees i st w"
  obtains (raised) err where "w1 = w" "r = Inl err"
  | (kept) e b plan where "r = Inr b" "kept_events w1 i = kept_events w i @ [e]" "dv_event_kind e = CALL_RESERVED"
      "grew i w w1 [CALL_RESERVED]" "dv_payload e = Reservation_Payload (planned_reservation K E st branch plan)"
      "valid_reservation K (planned_reservation K E st branch plan)" "dv_branch_index e = Some branch"
proof (cases r)
  case (Inl err)
  then have "w1 = w" using assms(1)
    by (auto simp: reserve_call_def Let_def then_do_def dest: write_ledger_raised split: option.splits if_splits sum.splits prod.splits)
  then show thesis using Inl raised by blast
next
  case (Inr b)
  then obtain plan e d where e: "valid_reservation K (planned_reservation K E st branch plan)"
      "event_after K (last_event st) CALL_RESERVED (Some branch) (Reservation_Payload (planned_reservation K E st branch plan))
         (ra_reserved_at (planned_reservation K E st branch plan)) = Inr e"
      "write_ledger (reserve_day_discovery_call K d e) w = (w1, Inr b)"
    using assms(1) by (auto simp: reserve_call_def Let_def then_do_def split: option.splits if_splits sum.splits prod.splits)
  note f = event_afterD [OF e(2)] and s = sees_last [OF assms(2)]
  from reservations.written [OF e(3), of i] have "kept_events w1 i = kept_events w i @ [e]
      \<and> CALL_RESERVED \<in> set (discovery_successors (dv_event_kind (last (kept_events w i))))"
    using f s by simp
  then show thesis using e(1) f s Inr by (intro kept [of b e plan]) (auto simp: grew_def)
qed

lemma grows_response:
  assumes "kept_events w i \<noteq> []" "e = last (kept_events w i)"
  shows "grows i {CALL_RESPONSE_RECORDED} 0 w (record_response K E e r w)"
proof -
  have "grows i {CALL_RESPONSE_RECORDED} 0 w (then_do (write_ledger (record_day_discovery_call_response K f) w) (\<lambda>_ w. (w, Inr x)))"
    if "event_after K e CALL_RESPONSE_RECORDED branch payload t = Inr f" for f branch payload t x
    by (rule grows_mono [OF responses.grows_then_ends [where A = "{CALL_RESPONSE_RECORDED}"]])
      (use event_afterD [OF that] assms in auto)
  then show ?thesis using assms by (auto simp: record_response_def Let_def split: completion.splits sum.splits)
qed

lemma grows_invoked:
  assumes "kept_events w i \<noteq> []" "e = last (kept_events w i)"
  shows "grows i {CALL_RESPONSE_RECORDED} 0 w (invoke_and_record_call K E e w)"
proof -
  have "grows i {CALL_RESPONSE_RECORDED} 0 w (record_response K E e r (w \<lparr> yw_calls := calls \<rparr>))" for r calls
    using grows_response [of "w \<lparr> yw_calls := calls \<rparr>" i e K E r] assms by (simp add: grows_def grew_def)
  then show ?thesis using assms
    by (auto simp: invoke_and_record_call_def split: option.splits call_readiness.splits)
qed

lemma grows_call_finished:
  assumes "sees i st w"
  shows "grows i {CALL_RESPONSE_RECORDED, BRANCH_FINALIZED} 0 w (finish_call K E st w)"
  unfolding finish_call_def
proof (rule grows_value)
  note s = sees_last [OF assms]
  show "kept_events w i \<noteq> []" using s by simp
  have invoked: "grows i {CALL_RESPONSE_RECORDED, BRANCH_FINALIZED} 0 w (invoke_and_record_call K E (last_event st) w)"
    using grows_mono [OF grows_invoked [of w i "last_event st" K E]] s by blast
  have "grows i {CALL_RESPONSE_RECORDED, BRANCH_FINALIZED} (0 + 0) w
      (then_do (invoke_and_record_call K E (last_event st) w) (\<lambda>recorded w. if recorded then (w, Inr ())
        else finalize_terminal K E (last_event st) 2 ''model_call_outcome_unknown'' (ys_remaining_budget st) w))"
  proof (rule grows_then [OF invoked])
    fix recorded w1 assume r: "invoke_and_record_call K E (last_event st) w = (w1, Inr recorded)" "kept_events w1 i \<noteq> []"
    have "kept_events w1 i = kept_events w i" if "\<not> recorded"
      using r(1) that by (auto simp: invoke_and_record_call_def record_response_def then_do_def Let_def
        split: option.splits call_readiness.splits completion.splits if_splits sum.splits prod.splits)
    then show "grows i {CALL_RESPONSE_RECORDED, BRANCH_FINALIZED} 0 w1 (if recorded then (w1, Inr ())
        else finalize_terminal K E (last_event st) 2 ''model_call_outcome_unknown'' (ys_remaining_budget st) w1)"
      using r(2) s grows_mono [OF grows_terminal, of w1 i "last_event st" "{CALL_RESPONSE_RECORDED, BRANCH_FINALIZED}" 0] by auto
  qed
  then show "grows i {CALL_RESPONSE_RECORDED, BRANCH_FINALIZED} 0 w
      (then_do (invoke_and_record_call K E (last_event st) w) (\<lambda>recorded w. if recorded then (w, Inr ())
        else finalize_terminal K E (last_event st) 2 ''model_call_outcome_unknown'' (ys_remaining_budget st) w))" by simp
qed

subsection \<open>A turn\<close>

text \<open>What a turn of the loop appends: a call is reserved first and for a draft that is left, and
  without an exception something is appended.\<close>

definition turn_kinds :: "int \<Rightarrow> discovery_state \<Rightarrow> discovery_kind list \<Rightarrow> cycle_error + unit \<Rightarrow> bool" where
  "turn_kinds max_drafts st ks r \<longleftrightarrow> CALL_RESERVED \<notin> set (tl ks)
     \<and> (ks \<noteq> [] \<and> hd ks = CALL_RESERVED \<longrightarrow> current_branch st < max_drafts) \<and> (r = Inr () \<longrightarrow> ks \<noteq> [])"

lemma turn_called:
  assumes "sees i st w" "current_branch st < max_drafts"
  shows "\<exists>ks. grew i w (fst (call_model K E st branch w)) ks \<and> turn_kinds max_drafts st ks (snd (call_model K E st branch w))"
proof -
  obtain w1 r where r: "reserve_call K E st branch w = (w1, r)" by (cases "reserve_call K E st branch w")
  from r assms(1) show ?thesis
  proof (cases rule: reserve_callD)
    case (raised err)
    then have "grew i w (fst (call_model K E st branch w)) [] \<and> turn_kinds max_drafts st [] (snd (call_model K E st branch w))"
      using sees_last [OF assms(1)] by (simp add: call_model_def r turn_kinds_def grew_refl)
    then show ?thesis by blast
  next
    case (kept e b plan)
    have i: "dc_cycle_id (ys_cycle st) = i" using assms(1) by (simp add: sees_def)
    have "grows i {CALL_RESPONSE_RECORDED, BRANCH_FINALIZED} 0 w1 (then_do (w1, read_state K i w1) (finish_call K E))"
      using kept(2) by (intro grows_value grows_call_finished) (auto dest: read_stateD)
    moreover have "call_model K E st branch w = (if \<not> b then (w1, Inr ()) else then_do (w1, read_state K i w1) (finish_call K E))"
      by (simp add: call_model_def r kept(1) i)
    ultimately have "grows i {CALL_RESPONSE_RECORDED, BRANCH_FINALIZED} 0 w1 (call_model K E st branch w)"
      using kept(2) by simp
    then obtain ks where "grew i w1 (fst (call_model K E st branch w)) ks" "set ks \<subseteq> {CALL_RESPONSE_RECORDED, BRANCH_FINALIZED}"
      by (auto simp: grows_def)
    moreover from this(2) have "turn_kinds max_drafts st (CALL_RESERVED # ks) out" for out using assms(2) by (auto simp: turn_kinds_def)
    ultimately show ?thesis using grew_trans [OF kept(4)] by fastforce
  qed
qed

lemma turn_grows:
  assumes "grows i A 1 w out" "CALL_RESERVED \<notin> A"
  shows "\<exists>ks. grew i w (fst out) ks \<and> turn_kinds max_drafts st ks (snd out)"
proof -
  from assms(1) obtain ks where "grew i w (fst out) ks" "set ks \<subseteq> A" "\<forall>x. snd out = Inr x \<longrightarrow> 1 \<le> length ks" by (auto simp: grows_def)
  moreover from this(2) have "CALL_RESERVED \<notin> set ks" using assms(2) by blast
  ultimately show ?thesis
    by (intro exI [of _ ks]) (cases ks; auto simp: turn_kinds_def)
qed

lemma turn_appends:
  assumes "sees i st w"
  shows "\<exists>ks. grew i w (fst (cycle_iteration K E view max_drafts st w)) ks
    \<and> turn_kinds max_drafts st ks (snd (cycle_iteration K E view max_drafts st w))"
proof -
  define A where "A = {BRANCH_PREPARED, BRANCH_FINALIZED, CYCLE_FINALIZED, RESOLUTION_INTENT, PREFLIGHT_INTENT} \<union> set outcome_kinds"
  have A: "CALL_RESERVED \<notin> A" "{BRANCH_PREPARED, BRANCH_FINALIZED} \<subseteq> A" "BRANCH_FINALIZED \<in> A" "CYCLE_FINALIZED \<in> A"
      "RESOLUTION_INTENT \<in> A" "PREFLIGHT_INTENT \<in> A" "set outcome_kinds \<subseteq> A" "PREFLIGHT_OUTCOME_UNKNOWN \<in> A"
    by (auto simp: A_def outcome_kinds_def)
  note s = sees_last [OF assms]
  have unknown: "grows i A 1 w (write_event (finalize_day_discovery_effect K)
      (timed_event_after K E (last_event st) 0 PREFLIGHT_OUTCOME_UNKNOWN branch Empty_Payload) w)" for branch
    by (rule outcomes.grows_event) (use s A(8) in \<open>auto dest: timed_event_afterD\<close>)
  have science: "grows i A 1 w (finalize_authoritative_branch K E st w)"
    using grows_science [OF assms A(3)] s
    by (auto simp: finalize_authoritative_branch_def Let_def split: discovery_kind.splits discovery_payload.splits)
  have terminal: "grows i A 1 w (finalize_terminal K E (last_event st) 0 reason remaining w)" for reason remaining
    by (rule grows_terminal) (use s A(3) in auto)
  have over: "\<exists>ks. grew i w (fst out) ks \<and> turn_kinds max_drafts st ks (snd out)"
    if "out = (if cycle_is_over max_drafts st then finalize_cycle K E view st w else call_model K E st (current_branch st) w)" for out
  proof (cases "cycle_is_over max_drafts st")
    case True then show ?thesis using that turn_grows [OF grows_finalized [OF assms A(4)] A(1)] by simp
  next
    case False
    then have "current_branch st < max_drafts" by (simp add: cycle_is_over_def)
    from turn_called [OF assms this] show ?thesis using that False by simp
  qed
  show ?thesis
    unfolding cycle_iteration_def Let_def
    by (cases "dv_event_kind (last_event st)")
      (simp_all add: over turn_grows [OF _ A(1)] unknown science terminal grows_prepared [OF assms A(2)]
        grows_resolution [OF assms A(5,3,7)] grows_recovered [OF assms A(7)] grows_preflight [OF assms A(6,7)] del: One_nat_def)
qed

subsection \<open>The measure\<close>

text \<open>The events a cycle can still have: eight for a draft and the last.\<close>

fun draft_stage :: "discovery_kind \<Rightarrow> nat" where
  "draft_stage CALL_RESERVED = 8"
| "draft_stage CALL_RESPONSE_RECORDED = 7"
| "draft_stage BRANCH_PREPARED = 6"
| "draft_stage RESOLUTION_INTENT = 5"
| "draft_stage ARTIFACT_VERIFIED = 4"
| "draft_stage PREFLIGHT_INTENT = 3"
| "draft_stage _ = 2"

definition steps_left :: "nat \<Rightarrow> discovery_kind \<Rightarrow> nat \<Rightarrow> nat" where
  "steps_left drafts k finished = (if k = CYCLE_FINALIZED then 0
     else if k = CYCLE_OPENED \<or> k = BRANCH_FINALIZED then 8 * (drafts - finished) + 1
     else 8 * (drafts - finished - 1) + draft_stage k)"

lemma steps_left_step:
  assumes "x \<in> set (discovery_successors k)" "x = CALL_RESERVED \<Longrightarrow> finished < drafts"
  shows "steps_left drafts x (finished + of_bool (x = BRANCH_FINALIZED)) < steps_left drafts k finished"
  using assms by (cases k) (auto simp: steps_left_def)

lemma steps_left_appended:
  assumes "legal_from k ks" "CALL_RESERVED \<notin> set (tl ks)" "ks \<noteq> [] \<Longrightarrow> hd ks = CALL_RESERVED \<Longrightarrow> finished < drafts"
  shows "length ks + steps_left drafts (last (k # ks)) (finished + count_list ks BRANCH_FINALIZED) \<le> steps_left drafts k finished"
  using assms
proof (induction ks arbitrary: k finished)
  case (Cons x xs)
  have "steps_left drafts x (finished + of_bool (x = BRANCH_FINALIZED)) < steps_left drafts k finished"
    using Cons.prems by (intro steps_left_step) auto
  moreover have "xs \<noteq> [] \<Longrightarrow> hd xs \<noteq> CALL_RESERVED" using Cons.prems(2) hd_in_set by fastforce
  then have "length xs + steps_left drafts (last (x # xs)) (finished + of_bool (x = BRANCH_FINALIZED) + count_list xs BRANCH_FINALIZED)
      \<le> steps_left drafts x (finished + of_bool (x = BRANCH_FINALIZED))"
    using Cons.prems by (intro Cons.IH) (auto, (cases xs; simp)?)
  moreover have "finished + of_bool (x = BRANCH_FINALIZED) + count_list xs BRANCH_FINALIZED = finished + count_list (x # xs) BRANCH_FINALIZED"
    by simp
  ultimately show ?case by simp
qed simp

definition cycle_steps_left :: "int \<Rightarrow> discovery_state \<Rightarrow> nat" where
  "cycle_steps_left max_drafts st =
     steps_left (nat max_drafts) (dv_event_kind (last_event st)) (length (finalized_branches st))"

lemma turn_shortens:
  assumes "sees i st w" "sees i st' w'" "grew i w w' ks" "turn_kinds max_drafts st ks r"
  shows "length ks + cycle_steps_left max_drafts st' \<le> cycle_steps_left max_drafts st"
proof -
  from assms(3) obtain es where es: "map dv_event_kind es = ks" "kept_events w' i = kept_events w i @ es"
      "legal_from (dv_event_kind (last_event st)) ks"
    using sees_last [OF assms(1)] by (auto simp: grew_def)
  have st': "ys_events st' = ys_events st @ es" using es assms(1,2) by (simp add: sees_def)
  have "length (filter (\<lambda>e. dv_event_kind e = k) es) = count_list (map dv_event_kind es) k" for k
    by (induction es) auto
  then have "length (finalized_branches st') = length (finalized_branches st) + count_list ks BRANCH_FINALIZED"
    using st' es(1) by (simp add: finalized_branches_def)
  moreover have "dv_event_kind (last_event st') = last (dv_event_kind (last_event st) # ks)"
    using st' es(1) by (cases "es = []") (auto simp: last_event_def last_map)
  moreover have "length ks + steps_left (nat max_drafts) (last (dv_event_kind (last_event st) # ks))
      (length (finalized_branches st) + count_list ks BRANCH_FINALIZED) \<le> cycle_steps_left max_drafts st"
    unfolding cycle_steps_left_def
    using es(3) assms(4) by (intro steps_left_appended) (auto simp: turn_kinds_def current_branch_def)
  ultimately show ?thesis by (simp add: cycle_steps_left_def)
qed

end
