(* ===== verification/Day_Discovery_Loop.thy ===== *)
theory Day_Discovery_Loop
  imports Day_Discovery_Progress
begin

text \<open>
  \<^verbatim>\<open>run_authoritative_cycle\<close> of \<^verbatim>\<open>day_discovery_state_machine.py\<close>, the function
  \<^verbatim>\<open>DayDiscoveryLoop.run\<close> calls: the loop over the handlers, and what it guarantees against
  failures of the outside and against repetition.
\<close>

subsection \<open>Running a cycle\<close>

definition world_steps_left :: "discovery_keys \<Rightarrow> int \<Rightarrow> sha \<Rightarrow> discovery_world \<Rightarrow> nat" where
  "world_steps_left K max_drafts i w = (case read_state K i w of Inl _ \<Rightarrow> 0 | Inr st \<Rightarrow> cycle_steps_left max_drafts st)"

lemma unfinished_steps: "dv_event_kind (last_event st) \<noteq> CYCLE_FINALIZED \<Longrightarrow> 0 < cycle_steps_left max_drafts st"
  by (cases "dv_event_kind (last_event st)") (simp_all add: cycle_steps_left_def steps_left_def)

lemma turn_descends:
  assumes "read_state K i w = Inr st" "dv_event_kind (last_event st) \<noteq> CYCLE_FINALIZED"
    and "cycle_iteration K E view max_drafts st w = (w', Inr u)"
  shows "world_steps_left K max_drafts i w' < world_steps_left K max_drafts i w"
proof (cases "read_state K i w'")
  case (Inl err)
  then show ?thesis using assms(1) unfinished_steps [OF assms(2)] by (simp add: world_steps_left_def)
next
  case (Inr st')
  note sees = conjunct1 [OF read_stateD [OF assms(1)]] conjunct1 [OF read_stateD [OF Inr]]
  obtain ks where ks: "grew i w w' ks" "turn_kinds max_drafts st ks (Inr ())"
    using turn_appends [OF sees(1), of K E view max_drafts] assms(3) by auto
  from turn_shortens [OF sees this] ks(2) show ?thesis
    using assms(1) Inr by (cases ks) (auto simp: world_steps_left_def turn_kinds_def)
qed

text \<open>The loop reads the state before each turn and ends with the state of a finalized cycle.\<close>

function cycle_loop ::
  "discovery_keys \<Rightarrow> discovery_env \<Rightarrow> discovery_view \<Rightarrow> int \<Rightarrow> sha \<Rightarrow> discovery_world \<Rightarrow> discovery_world \<times> (cycle_error + discovery_state)" where
  "cycle_loop K E view max_drafts i w =
     (case read_state K i w of
        Inl err \<Rightarrow> (w, Inl err)
      | Inr st \<Rightarrow>
          if dv_event_kind (last_event st) = CYCLE_FINALIZED then (w, Inr st)
          else (case cycle_iteration K E view max_drafts st w of
              (w', Inl err) \<Rightarrow> (w', Inl err)
            | (w', Inr _) \<Rightarrow> cycle_loop K E view max_drafts i w'))"
  by pat_completeness auto

termination
  by (relation "measure (\<lambda>(K, E, view, max_drafts, i, w). world_steps_left K max_drafts i w)") (auto dest: turn_descends [OF _ _ sym])

declare cycle_loop.simps [simp del]

definition run_authoritative_cycle ::
  "discovery_keys \<Rightarrow> discovery_env \<Rightarrow> discovery_view \<Rightarrow> int \<Rightarrow> discovery_world \<Rightarrow> discovery_world \<times> (cycle_error + cycle_result)" where
  "run_authoritative_cycle K E view max_drafts w =
     (if max_drafts < 1 \<or> 3 < max_drafts then (w, Inl (Cycle_Error ''max_drafts_out_of_range''))
      else if \<not> ye_context_safe E then (w, Inl (Cycle_Error ''day_prompt_sensitive_context''))
      else (let i = dc_cycle_id (discovery_cycle_of K view)
        in then_do (load_or_open_cycle K view w) (\<lambda>_ w.
           then_do (cycle_loop K E view max_drafts i w) (project_final_cycle E view i))))"

subsection \<open>Termination\<close>

text \<open>The events of the cycle that the loop appends, and where it ends.\<close>

lemma loop_appends:
  "cycle_loop K E view max_drafts i w = (w', r) \<Longrightarrow> read_state K i w = Inr st
     \<Longrightarrow> (\<exists>es. kept_events w' i = kept_events w i @ es \<and> length es \<le> cycle_steps_left max_drafts st)
       \<and> (\<forall>st'. r = Inr st' \<longrightarrow> dv_event_kind (last_event st') = CYCLE_FINALIZED \<and> read_state K i w' = Inr st')"
proof (induction K E view max_drafts i w arbitrary: st rule: cycle_loop.induct)
  case (1 K E view max_drafts i w)
  show ?case
  proof (cases "dv_event_kind (last_event st) = CYCLE_FINALIZED")
    case True then show ?thesis using 1(2,3) by (auto simp: cycle_loop.simps [of K E view max_drafts i w])
  next
    case False
    obtain w1 r1 where turn: "cycle_iteration K E view max_drafts st w = (w1, r1)" by (cases "cycle_iteration K E view max_drafts st w")
    note sees = conjunct1 [OF read_stateD [OF 1(3)]]
    obtain ks es where ks: "grew i w w1 ks" "turn_kinds max_drafts st ks r1" "map dv_event_kind es = ks"
        "kept_events w1 i = kept_events w i @ es"
      using turn_appends [OF sees, of K E view max_drafts] turn by (auto simp: grew_def)
    have own: "length es \<le> cycle_steps_left max_drafts st"
    proof -
      have "sees i (st \<lparr> ys_events := kept_events w1 i \<rparr>) w1" using sees ks(4) by (simp add: sees_def)
      from turn_shortens [OF sees this ks(1,2)] show ?thesis using ks(3) by auto
    qed
    show ?thesis
    proof (cases r1)
      case (Inl err)
      then have "w' = w1" "r = Inl err" using 1(2,3) False turn by (simp_all add: cycle_loop.simps [of K E view max_drafts i w])
      then show ?thesis using own ks(4) by auto
    next
      case (Inr u)
      then have rest: "cycle_loop K E view max_drafts i w1 = (w', r)"
        using 1(2,3) False turn by (simp add: cycle_loop.simps [of K E view max_drafts i w])
      show ?thesis
      proof (cases "read_state K i w1")
        case (Inl err)
        then show ?thesis using rest own ks(4) by (auto simp: cycle_loop.simps [of K E view max_drafts i w1])
      next
        case next_state: (Inr st1)
        note sees1 = conjunct1 [OF read_stateD [OF next_state]]
        have "(\<exists>es. kept_events w' i = kept_events w1 i @ es \<and> length es \<le> cycle_steps_left max_drafts st1)
            \<and> (\<forall>st'. r = Inr st' \<longrightarrow> dv_event_kind (last_event st') = CYCLE_FINALIZED \<and> read_state K i w' = Inr st')"
          using 1(1) [OF 1(3) False turn [symmetric] Inr rest next_state] .
        moreover have "length es + cycle_steps_left max_drafts st1 \<le> cycle_steps_left max_drafts st"
          using turn_shortens [OF sees sees1 ks(1,2)] ks(3) by auto
        ultimately show ?thesis using ks(4) by fastforce
      qed
    qed
  qed
qed

text \<open>C6.  The loop returns, whatever its environment does: from its opening on a discovery
  cycle appends at most eight events for each draft and one more, and the loop ends by an exception
  or with the cycle finalized.\<close>

theorem discovery_loop_ends:
  assumes "read_state K i w = Inr st" "dv_event_kind (last_event st) = CYCLE_OPENED" "0 \<le> max_drafts"
    and "cycle_loop K E view max_drafts i w = (w', r)"
  shows "\<exists>es. kept_events w' i = kept_events w i @ es \<and> int (length es) \<le> 8 * max_drafts + 1
    \<and> (case r of Inl err \<Rightarrow> True | Inr st' \<Rightarrow> dv_event_kind (last (kept_events w' i)) = CYCLE_FINALIZED)"
proof -
  from loop_appends [OF assms(4,1)] obtain es where es: "kept_events w' i = kept_events w i @ es"
      "length es \<le> cycle_steps_left max_drafts st"
      "\<forall>st'. r = Inr st' \<longrightarrow> dv_event_kind (last_event st') = CYCLE_FINALIZED \<and> read_state K i w' = Inr st'" by blast
  have "cycle_steps_left max_drafts st \<le> 8 * nat max_drafts + 1"
    using assms(2) by (simp add: cycle_steps_left_def steps_left_def)
  then have "int (length es) \<le> 8 * max_drafts + 1" using es(2) assms(3) by linarith
  moreover have "dv_event_kind (last (kept_events w' i)) = CYCLE_FINALIZED" if "r = Inr st'" for st'
    using es(3) that read_stateD [of K i w' st'] sees_last [of i st' w'] by auto
  ultimately show ?thesis using es(1) by (auto split: sum.splits)
qed

end
