(* ===== verification/Day_Discovery_Guarantees.thy ===== *)
theory Day_Discovery_Guarantees
  imports Day_Discovery_Loop
begin

text \<open>
  What day discovery guarantees over all its histories: runs of the loop with any environments,
  broken off and resumed at any point, of any cycles in any order.
\<close>

lemma loop_ended:
  assumes "cycle_loop K E view max_drafts i w = (w', Inr st')"
  shows "read_state K i w' = Inr st' \<and> dv_event_kind (last_event st') = CYCLE_FINALIZED"
proof (cases "read_state K i w")
  case (Inl err) then show ?thesis using assms by (simp add: cycle_loop.simps [of K E view max_drafts i w])
next
  case (Inr st) then show ?thesis using loop_appends [OF assms Inr] by blast
qed

subsection \<open>Histories\<close>

definition empty_discovery_world :: discovery_world where
  "empty_discovery_world = \<lparr> yw_ledger = empty_discovery_ledger, yw_calls = [], yw_receipts = Map.empty \<rparr>"

text \<open>The turns of several cycles may interleave; only the writes of a turn belong to it alone.\<close>

inductive discovery_history :: "discovery_keys \<Rightarrow> discovery_world \<Rightarrow> bool" for K where
  created: "discovery_history K empty_discovery_world"
| loaded: "discovery_history K w \<Longrightarrow> load_or_open_cycle K view w = (w', r) \<Longrightarrow> discovery_history K w'"
| turned: "discovery_history K w \<Longrightarrow> read_state K i w = Inr st \<Longrightarrow> cycle_iteration K E view max_drafts st w = (w', r)
    \<Longrightarrow> discovery_history K w'"
| projected: "discovery_history K w \<Longrightarrow> read_state K i w = Inr st \<Longrightarrow> project_final_cycle E view i st w = (w', r')
    \<Longrightarrow> discovery_history K w'"

text \<open>A run of the loop is a history.\<close>

lemma history_loop:
  "discovery_history K w \<Longrightarrow> cycle_loop K E view max_drafts i w = (w', r) \<Longrightarrow> discovery_history K w'"
proof (induction K E view max_drafts i w arbitrary: w' r rule: cycle_loop.induct)
  case (1 K E view max_drafts i w)
  show ?case
  proof (cases "read_state K i w")
    case (Inl err) then show ?thesis using 1(2,3) by (simp add: cycle_loop.simps [of K E view max_drafts i w])
  next
    case (Inr st)
    obtain w1 r1 where turn: "cycle_iteration K E view max_drafts st w = (w1, r1)" by (cases "cycle_iteration K E view max_drafts st w")
    show ?thesis
    proof (cases "dv_event_kind (last_event st) = CYCLE_FINALIZED")
      case True then show ?thesis using 1(2,3) Inr by (simp add: cycle_loop.simps [of K E view max_drafts i w])
    next
      case False
      have turned: "discovery_history K w1" using discovery_history.turned [OF 1(2) Inr turn] .
      show ?thesis
      proof (cases r1)
        case (Inl err)
        then show ?thesis using 1(3) Inr False turn turned by (simp add: cycle_loop.simps [of K E view max_drafts i w])
      next
        case r1: (Inr u)
        then have "cycle_loop K E view max_drafts i w1 = (w', r)"
          using 1(3) Inr False turn by (simp add: cycle_loop.simps [of K E view max_drafts i w])
        from 1(1) [OF Inr False turn [symmetric] r1 turned this] show ?thesis .
      qed
    qed
  qed
qed

lemma then_do_cases:
  assumes "then_do r f = (w', q)"
  obtains (raised) err where "r = (w', Inl err)" "q = Inl err" | (continued) w1 x where "r = (w1, Inr x)" "f x w1 = (w', q)"
  using assms by (cases r; cases "snd r") (auto simp: then_do_def)

lemma history_run:
  assumes "discovery_history K w" "run_authoritative_cycle K E view max_drafts w = (w', r)"
  shows "discovery_history K w'"
proof (cases "max_drafts < 1 \<or> 3 < max_drafts \<or> \<not> ye_context_safe E")
  case True then show ?thesis using assms by (auto simp: run_authoritative_cycle_def split: if_splits)
next
  case False
  define i where "i = dc_cycle_id (discovery_cycle_of K view)"
  have run: "then_do (load_or_open_cycle K view w) (\<lambda>_ w. then_do (cycle_loop K E view max_drafts i w) (project_final_cycle E view i)) = (w', r)"
    using assms(2) False by (simp add: run_authoritative_cycle_def Let_def i_def)
  then show ?thesis
  proof (cases rule: then_do_cases)
    case (raised err) then show ?thesis using discovery_history.loaded assms(1) by blast
  next
    case (continued w1 st)
    have loaded: "discovery_history K w1" using discovery_history.loaded [OF assms(1) continued(1)] .
    from continued(2) show ?thesis
    proof (cases rule: then_do_cases)
      case (raised err) then show ?thesis using history_loop [OF loaded] by blast
    next
      case end_state: (continued w2 st2)
      have "read_state K i w2 = Inr st2" using loop_ended [OF end_state(1)] by simp
      then show ?thesis using discovery_history.projected [OF history_loop [OF loaded end_state(1)]] end_state(2) by blast
    qed
  qed
qed

subsection \<open>Calls of the model\<close>

text \<open>A call the model has received was reserved before, and no reservation is called twice.\<close>

definition calls_reserved :: "discovery_keys \<Rightarrow> discovery_world \<Rightarrow> bool" where
  "calls_reserved K w \<longleftrightarrow> discovery_run K (yw_ledger w) \<and> distinct (yw_calls w)
     \<and> (\<forall>(i, branch) \<in> set (yw_calls w). (i, Some branch) \<in> set (reservation_keys (yw_ledger w)))"

lemma then_do_keeps:
  assumes "P (fst r)" "\<And>x w1. r = (w1, Inr x) \<Longrightarrow> P w1 \<Longrightarrow> P (fst (f x w1))"
  shows "P (fst (then_do r f))"
proof -
  obtain w1 q where r: "r = (w1, q)" by (cases r)
  show ?thesis using assms by (cases q) (simp_all add: r)
qed

lemmas calls_then = then_do_keeps [where P = "calls_reserved K" for K]

text \<open>What they rely on further: an operation is a step of a run.\<close>

locale run_writer = event_writer op for op +
  fixes K :: discovery_keys
  assumes steps: "discovery_run K L \<Longrightarrow> op e L = Inr (L', b) \<Longrightarrow> discovery_run K L'"
begin

lemma calls:
  assumes "calls_reserved K w"
  shows "calls_reserved K (fst (write_ledger (op e) w))"
proof (cases "op e (yw_ledger w)")
  case (Inl err) then show ?thesis using assms by (simp add: write_ledger_def)
next
  case (Inr p)
  obtain L b where p: "p = (L, b)" by (cases p)
  have "set (reservation_keys (yw_ledger w)) \<subseteq> set (reservation_keys L)"
    using appended [of e] Inr p by (fastforce simp: appends_def reservation_keys_def)
  moreover have "discovery_run K L" using assms steps Inr p by (auto simp: calls_reserved_def)
  ultimately show ?thesis using assms Inr p by (auto simp: write_ledger_def calls_reserved_def)
qed

lemma calls_event: "calls_reserved K w \<Longrightarrow> calls_reserved K (fst (write_event op r w))"
  unfolding write_event_def by (intro calls_then) (auto intro: calls)

end

interpretation reserved_runs: run_writer "reserve_day_discovery_call K d" K for K d
  by unfold_locales (rule discovery_run.reserved)

interpretation response_runs: run_writer "record_day_discovery_call_response K" K for K
  by unfold_locales (rule discovery_run.responded)

interpretation prepared_runs: run_writer "prepare_day_discovery_branch K debit" K for K debit
  by unfold_locales (rule discovery_run.prepared)

interpretation intent_runs: run_writer "start_day_discovery_effect K" K for K
  by unfold_locales (rule discovery_run.intent)

interpretation outcome_runs: run_writer "finalize_day_discovery_effect K" K for K
  by unfold_locales (rule discovery_run.outcome)

interpretation branch_runs: run_writer "finalize_day_discovery_branch K" K for K
  by unfold_locales (rule discovery_run.branch)

interpretation cycle_runs: run_writer "finalize_day_discovery_cycle K" K for K
  by unfold_locales (rule discovery_run.finished)

lemmas calls_written = reserved_runs.calls response_runs.calls prepared_runs.calls intent_runs.calls branch_runs.calls
  intent_runs.calls_event outcome_runs.calls_event branch_runs.calls_event cycle_runs.calls_event

lemma calls_terminal: "calls_reserved K w \<Longrightarrow> calls_reserved K (fst (finalize_terminal K E p reading reason remaining w))"
  unfolding finalize_terminal_def by (rule calls_written)

lemma calls_science: "calls_reserved K w \<Longrightarrow> calls_reserved K (fst (finalize_science_and_branch K E st reason capsule w))"
  unfolding finalize_science_and_branch_def Let_def
  by (intro calls_then)
    (auto intro!: calls_then calls_written split: prod.splits option.splits)

lemma calls_recovered: "calls_reserved K w \<Longrightarrow> calls_reserved K (fst (recover_or_publish_artifact K E first_attempt st w))"
  unfolding recover_or_publish_artifact_def Let_def
  by (auto intro!: calls_then calls_written split: prod.splits discovery_payload.splits)

lemma calls_resolution: "calls_reserved K w \<Longrightarrow> calls_reserved K (fst (start_artifact_resolution K E st branch w))"
  unfolding start_artifact_resolution_def
  by (auto intro!: calls_then calls_written calls_science calls_recovered)

lemma calls_preflight: "calls_reserved K w \<Longrightarrow> calls_reserved K (fst (start_preflight K E view st w))"
  unfolding start_preflight_def finish_preflight_def Let_def
  by (auto intro!: calls_then calls_written
    split: discovery_payload.splits preflight.splits)

lemma calls_prepared: "calls_reserved K w \<Longrightarrow> calls_reserved K (fst (prepare_branch K E view st branch w))"
  unfolding prepare_branch_def Let_def
  by (auto intro!: calls_then calls_written calls_terminal split: option.splits)

lemma calls_finalized: "calls_reserved K w \<Longrightarrow> calls_reserved K (fst (finalize_cycle K E view st w))"
  unfolding finalize_cycle_def
  by (auto intro!: calls_then calls_written)

lemma calls_branch: "calls_reserved K w \<Longrightarrow> calls_reserved K (fst (finalize_authoritative_branch K E st w))"
  unfolding finalize_authoritative_branch_def Let_def
  by (auto intro: calls_science split: discovery_kind.splits discovery_payload.splits)

text \<open>A call is logged under the reservation it was made for.\<close>

lemma calls_invoked:
  assumes "calls_reserved K w" "(dv_cycle_id e, dv_branch_index e) \<in> set (reservation_keys (yw_ledger w))"
    and "\<And>r. reservation_of K e = Some r \<Longrightarrow> dv_cycle_id e = ra_cycle_id r \<and> dv_branch_index e = Some (ra_branch_index r)
      \<and> (ra_cycle_id r, ra_branch_index r) \<notin> set (yw_calls w)"
  shows "calls_reserved K (fst (invoke_and_record_call K E e w))"
proof -
  have "calls_reserved K (fst (record_response K E e r (w \<lparr> yw_calls := yw_calls w @ [(ra_cycle_id r, ra_branch_index r)] \<rparr>)))"
    if "reservation_of K e = Some r" for r
  proof -
    have "calls_reserved K (w \<lparr> yw_calls := yw_calls w @ [(ra_cycle_id r, ra_branch_index r)] \<rparr>)"
      using assms(1,2) assms(3) [OF that] by (auto simp: calls_reserved_def)
    then show ?thesis
      by (auto simp: record_response_def Let_def intro!: calls_then calls_written
        split: completion.splits sum.splits)
  qed
  then show ?thesis using assms(1) by (auto simp: invoke_and_record_call_def split: option.splits call_readiness.splits)
qed

lemma calls_call_finished:
  assumes "calls_reserved K w" "(dv_cycle_id (last_event st), dv_branch_index (last_event st)) \<in> set (reservation_keys (yw_ledger w))"
    and "\<And>r. reservation_of K (last_event st) = Some r \<Longrightarrow> dv_cycle_id (last_event st) = ra_cycle_id r
      \<and> dv_branch_index (last_event st) = Some (ra_branch_index r) \<and> (ra_cycle_id r, ra_branch_index r) \<notin> set (yw_calls w)"
  shows "calls_reserved K (fst (finish_call K E st w))"
  unfolding finish_call_def using assms
  by (auto intro!: calls_then calls_invoked calls_terminal)

lemma reserved_call_key:
  "(i, b) \<in> set (reservation_keys L) \<longleftrightarrow> b \<in> set (map dv_branch_index (reserved_calls L i))"
  by (auto simp: reservation_keys_def reserved_calls_def cycle_events_def image_iff)

lemma calls_model:
  assumes "calls_reserved K w" "sees i st w"
  shows "calls_reserved K (fst (call_model K E st branch w))"
proof -
  obtain w1 r where r: "reserve_call K E st branch w = (w1, r)" by (cases "reserve_call K E st branch w")
  have kept1: "calls_reserved K w1"
  proof -
    have "calls_reserved K (fst (reserve_call K E st branch w))"
      unfolding reserve_call_def Let_def using assms(1)
      by (auto intro!: calls_then calls_written split: option.splits)
    then show ?thesis by (simp add: r)
  qed
  from r assms(2) show ?thesis
  proof (cases rule: reserve_callD)
    case (raised err) then show ?thesis using kept1 by (simp add: call_model_def r)
  next
    case (kept e b plan)
    have i: "dc_cycle_id (ys_cycle st) = i" using assms(2) by (simp add: sees_def)
    have e: "dv_cycle_id e = i" using kept(2) cycle_events_ids [of e "yw_ledger w1" i] by simp
    have calls: "yw_calls w1 = yw_calls w"
      using r by (auto simp: reserve_call_def write_ledger_def then_do_def Let_def split: option.splits if_splits sum.splits prod.splits)
    have "distinct (map dv_branch_index (reserved_calls (yw_ledger w1) i))"
      using branches_reserved_once discovery_run_ok kept1 by (auto simp: calls_reserved_def)
    moreover have "reserved_calls (yw_ledger w1) i = reserved_calls (yw_ledger w) i @ [e]"
      using kept(2,3) by (simp add: reserved_calls_def)
    ultimately have fresh: "(i, Some branch) \<notin> set (reservation_keys (yw_ledger w))"
      and reserved: "(i, Some branch) \<in> set (reservation_keys (yw_ledger w1))"
      unfolding reserved_call_key using kept(7) by auto
    have new: "(i, branch) \<notin> set (yw_calls w1)" using fresh assms(1) calls by (auto simp: calls_reserved_def)
    have "calls_reserved K (fst (finish_call K E st' w1))" if "read_state K i w1 = Inr st'" for st'
    proof -
      have "last_event st' = e" using sees_last [OF conjunct1 [OF read_stateD [OF that]]] kept(2) by simp
      moreover have "reservation_of K e = Some q \<Longrightarrow> ra_cycle_id q = i \<and> ra_branch_index q = branch" for q
        using kept(5,6) i by (auto simp: reservation_of_def planned_reservation_def Let_def)
      ultimately show ?thesis using kept1 reserved new e kept(7) by (intro calls_call_finished) auto
    qed
    then show ?thesis using kept1 by (auto simp: call_model_def r kept(1) i intro!: calls_then)
  qed
qed

lemma calls_turned:
  assumes "calls_reserved K w" "sees i st w"
  shows "calls_reserved K (fst (cycle_iteration K E view max_drafts st w))"
  unfolding cycle_iteration_def Let_def
  by (cases "dv_event_kind (last_event st)")
    (simp_all add: assms(1) calls_model [OF assms] calls_finalized calls_terminal calls_prepared calls_resolution calls_recovered
      calls_preflight calls_branch calls_written)

text \<open>Opening a cycle appends its first event or nothing.\<close>

lemma opened_events:
  assumes "open_day_discovery_cycle K a c L = Inr (L', e)"
  shows "yl_events L' = yl_events L \<or> yl_events L' = yl_events L @ [opened_event K c]"
proof -
  from assms obtain L1 L2 where "open_account a L = Inr L1" "opened_cycle c L1 = Inr L2" "first_event K c L2 = Inr (L', e)"
    by (auto simp: open_day_discovery_cycle_def split: if_splits)
  moreover from this have "yl_events L1 = yl_events L" "yl_events L2 = yl_events L1"
    by (auto simp: open_account_def insert_account_def opened_cycle_def insert_cycle_def split: if_splits option.splits)
  ultimately show ?thesis by (auto simp: first_event_def dest!: insert_eventD split: if_splits list.splits)
qed

lemma calls_loaded:
  assumes "calls_reserved K w" "load_or_open_cycle K view w = (w', r)"
  shows "calls_reserved K w'"
proof (cases "w' = w")
  case False
  then obtain L e where L: "open_day_discovery_cycle K (budget_account_of K view) (discovery_cycle_of K view) (yw_ledger w) = Inr (L, e)"
      "w' = w \<lparr> yw_ledger := L \<rparr>"
    using assms(2) by (auto simp: load_or_open_cycle_def Let_def split: sum.splits if_splits discovery_error.splits prod.splits)
  then have "set (reservation_keys (yw_ledger w)) \<subseteq> set (reservation_keys L)"
    using opened_events [OF L(1)] by (auto simp: reservation_keys_def)
  moreover have "discovery_run K L" using assms(1) L(1) discovery_run.opened by (auto simp: calls_reserved_def)
  ultimately show ?thesis using assms(1) L(2) by (auto simp: calls_reserved_def)
qed (use assms(1) in simp)

lemma projected_ledger:
  assumes "project_final_cycle E view i st w = (w', r)"
  shows "yw_ledger w' = yw_ledger w \<and> yw_calls w' = yw_calls w"
  using assms by (auto simp: project_final_cycle_def publish_receipt_def then_do_def Let_def
    split: discovery_payload.splits if_splits option.splits sum.splits)

lemma history_calls: "discovery_history K w \<Longrightarrow> calls_reserved K w"
proof (induction rule: discovery_history.induct)
  case created
  show ?case by (simp add: empty_discovery_world_def calls_reserved_def discovery_run.created)
next
  case (loaded w view w' r) then show ?case using calls_loaded by blast
next
  case (turned w i st E view max_drafts w' r)
  then show ?case using calls_turned [of K w i st E view max_drafts] read_stateD by simp
next
  case (projected w i st E view w' r)
  then show ?case using projected_ledger [of E view i st w w' r] by (simp add: calls_reserved_def)
qed

definition calls_of_account :: "discovery_world \<Rightarrow> budget_account \<Rightarrow> (sha \<times> int) list" where
  "calls_of_account w a = filter (\<lambda>(i, _). \<exists>c \<in> set (yl_cycles (yw_ledger w)). dc_cycle_id c = i \<and> dc_account_id c = ba_account_id a)
     (yw_calls w)"

text \<open>C5.  In no history of runs, crashes and resumptions does the model receive two calls for one branch of
  a cycle, and the calls of all the cycles of an account are at most the search budget of the
  account.\<close>

theorem model_calls_are_paid_once:
  assumes "discovery_history K w" "a \<in> set (yl_accounts (yw_ledger w))"
  shows "distinct (yw_calls w) \<and> int (length (calls_of_account w a)) \<le> ba_debit_limit a"
proof -
  define key where "key = (\<lambda>(i :: sha, b :: int). (i, Some b))"
  have kept: "calls_reserved K w" by (rule history_calls [OF assms(1)])
  then have "discovery_run K (yw_ledger w)" by (simp add: calls_reserved_def)
  note budget = discovery_budget_is_kept [OF this assms(2)]
  have distinct: "distinct (map key (calls_of_account w a))"
    using kept by (auto simp: calls_of_account_def calls_reserved_def distinct_map key_def inj_on_def)
  have "set (map key (calls_of_account w a))
      \<subseteq> set (map (\<lambda>e. (dv_cycle_id e, dv_branch_index e)) (account_calls (yw_ledger w) (ba_account_id a)))"
    using kept by (fastforce simp: calls_of_account_def calls_reserved_def key_def account_calls_def reservation_keys_def image_iff)
  from card_mono [OF _ this] have "length (calls_of_account w a) \<le> length (account_calls (yw_ledger w) (ba_account_id a))"
    using distinct_card [OF distinct] card_length [of "map (\<lambda>e. (dv_cycle_id e, dv_branch_index e)) (account_calls (yw_ledger w) (ba_account_id a))"]
    by simp
  then show ?thesis using budget kept by (simp add: calls_reserved_def)
qed

subsection \<open>Repetition\<close>



subsection \<open>A cycle that cannot end\<close>

text \<open>C40.  A cycle opened when the account has nothing left never ends: every run of it raises and leaves
  everything as it is.  The loop wants to finalize the cycle at once, and the table of successors
  allows only a reserved call after the opening.\<close>

theorem exhausted_discovery_cycle_never_ends:
  assumes "read_state K (dc_cycle_id (discovery_cycle_of K view)) w = Inr st"
    and "dv_event_kind (last_event st) = CYCLE_OPENED" "ys_remaining_budget st = 0"
  shows "\<exists>err. run_authoritative_cycle K E view max_drafts w = (w, Inl err)"
proof -
  define i where "i = dc_cycle_id (discovery_cycle_of K view)"
  note read = assms(1) [folded i_def]
  note sees = sees_last [OF conjunct1 [OF read_stateD [OF read]]]
  have refused: "\<exists>err. write_event (finalize_day_discovery_cycle K) (timed_event_after K E (last_event st) 0 CYCLE_FINALIZED branch payload) w
      = (w, Inl err)" for branch payload
  proof (cases "timed_event_after K E (last_event st) 0 CYCLE_FINALIZED branch payload")
    case (Inr e)
    note e = timed_event_afterD [OF this]
    have "\<exists>err. write_ledger (finalize_day_discovery_cycle K e) w = (w, Inl err)"
    proof (cases "write_ledger (finalize_day_discovery_cycle K e) w")
      case (Pair w' r)
      show ?thesis
      proof (cases r)
        case (Inl err) then show ?thesis using Pair write_ledger_raised [of _ w w' err] by auto
      next
        case (Inr b)
        from cycle_ends.written [OF Pair [unfolded Inr], of i] show ?thesis using e sees assms(2) by simp
      qed
    qed
    then show ?thesis using Inr by (auto simp: write_event_def)
  qed (simp add: write_event_def)
  have "\<exists>err. cycle_iteration K E view max_drafts st w = (w, Inl err)"
    using refused assms(2,3)
    by (cases "result_from_branches view (dc_cycle_id (ys_cycle st)) (ys_remaining_budget st) (finalized_branches st)")
      (simp_all add: cycle_iteration_def Let_def cycle_is_over_def finalize_cycle_def)
  then obtain err where turn: "cycle_iteration K E view max_drafts st w = (w, Inl err)" by blast
  have "cycle_loop K E view max_drafts i w = (w, Inl err)"
    using read assms(2) turn by (subst cycle_loop.simps) simp
  moreover have "load_or_open_cycle K view w = (w, Inr st)" using assms(1) by (simp add: load_or_open_cycle_def Let_def)
  ultimately show ?thesis by (simp add: run_authoritative_cycle_def Let_def i_def)
qed

end
