(* ===== verification/Day_Discovery_Acceptance.thy ===== *)
theory Day_Discovery_Acceptance
  imports Day_Discovery_Guarantees
begin

text \<open>
  What an accepted branch of a discovery cycle has passed: its event names the capsule of the
  verified preflight before it, and the table of successors fixes the events before that one.
\<close>

subsection \<open>Where acceptance comes from\<close>

definition admitted :: "discovery_event list \<Rightarrow> discovery_event \<Rightarrow> bool" where
  "admitted es e \<longleftrightarrow> dv_event_kind e = BRANCH_FINALIZED
     \<and> (\<exists>p \<in> set es. next_of p e \<and> dv_event_kind p = PREFLIGHT_VERIFIED
        \<and> (\<exists>c r. dv_payload p = Capsule_Payload c \<and> dv_payload e = Branch_Payload r \<and> bq_capsule_id r = Some (cz_capsule_id c)))"

definition acceptance_ok :: "discovery_world \<Rightarrow> bool" where
  "acceptance_ok w \<longleftrightarrow> (\<forall>e \<in> set (yl_events (yw_ledger w)). branch_accepted e \<longrightarrow> admitted (yl_events (yw_ledger w)) e)"

lemma admitted_append: "admitted es e \<Longrightarrow> admitted (es @ es') e"
  by (auto simp: admitted_def)

context event_writer
begin

lemma admits:
  assumes "acceptance_ok w" "branch_accepted e \<Longrightarrow> admitted (yl_events (yw_ledger w)) e"
  shows "acceptance_ok (fst (write_ledger (op e) w))"
proof (cases "op e (yw_ledger w)")
  case (Inl err) then show ?thesis using assms(1) by (simp add: write_ledger_def)
next
  case (Inr p)
  obtain L b where p: "p = (L, b)" by (cases p)
  have "yl_events L = yl_events (yw_ledger w) \<or> yl_events L = yl_events (yw_ledger w) @ [e]"
    using appended [of e] Inr p by (fastforce simp: appends_def)
  then have "acceptance_ok (w \<lparr> yw_ledger := L \<rparr>)"
    using assms by (auto simp: acceptance_ok_def admitted_append)
  then show ?thesis using Inr p by (simp add: write_ledger_def)
qed

end

lemmas acceptance_then = then_do_keeps [where P = acceptance_ok]

context event_writer
begin

lemma admits_event:
  assumes "acceptance_ok w" "\<And>e. r = Inr e \<Longrightarrow> branch_accepted e \<Longrightarrow> admitted (yl_events (yw_ledger w)) e"
  shows "acceptance_ok (fst (write_event op r w))"
  unfolding write_event_def using assms by (intro acceptance_then) (auto intro: admits)

end

lemma event_after_accepted:
  "event_after K p kind branch payload t = Inr e
     \<Longrightarrow> branch_accepted e \<longleftrightarrow> (case payload of Branch_Payload r \<Rightarrow> bq_accepted r | _ \<Rightarrow> False)"
  by (auto dest!: event_afterD simp: branch_accepted_def branch_result_of_def split: discovery_payload.splits)

lemma timed_event_after_accepted:
  "timed_event_after K E p reading kind branch payload = Inr e
     \<Longrightarrow> branch_accepted e \<longleftrightarrow> (case payload of Branch_Payload r \<Rightarrow> bq_accepted r | _ \<Rightarrow> False)"
  by (auto simp: timed_event_after_def event_after_accepted)

lemmas accepted_events = event_after_accepted timed_event_after_accepted

lemma acceptance_terminal: "acceptance_ok w \<Longrightarrow> acceptance_ok (fst (finalize_terminal K E p reading reason remaining w))"
  unfolding finalize_terminal_def
  by (rule branch_ends.admits_event) (auto simp: terminal_branch_event_def Let_def accepted_events)

lemma acceptance_science:
  assumes "acceptance_ok w" "last_event st \<in> set (yl_events (yw_ledger w))"
    and "\<And>c. capsule = Some c \<Longrightarrow> dv_event_kind (last_event st) = PREFLIGHT_VERIFIED \<and> dv_payload (last_event st) = Capsule_Payload c"
  shows "acceptance_ok (fst (finalize_science_and_branch K E st reason capsule w))"
proof -
  have "acceptance_ok (fst (write_ledger (finalize_day_discovery_branch K e) w))"
    if e: "timed_event_after K E (last_event st) 0 BRANCH_FINALIZED branch (Branch_Payload result) = Inr e"
      and result: "bq_accepted result = (capsule \<noteq> None)" "bq_capsule_id result = map_option cz_capsule_id capsule"
    for e branch result
  proof (rule branch_ends.admits [OF assms(1)])
    assume "branch_accepted e"
    then obtain c where "capsule = Some c" using e result(1) by (auto simp: accepted_events)
    then show "admitted (yl_events (yw_ledger w)) e"
      unfolding admitted_def using timed_event_afterD [OF e] assms(2,3) result(2) by fastforce
  qed
  then show ?thesis
    unfolding finalize_science_and_branch_def Let_def using assms(1)
    by (auto intro!: acceptance_then split: prod.splits option.splits)
qed

lemma acceptance_recovered: "acceptance_ok w \<Longrightarrow> acceptance_ok (fst (recover_or_publish_artifact K E first_attempt st w))"
proof -
  assume ok: "acceptance_ok w"
  have "acceptance_ok (fst (write_event (finalize_day_discovery_effect K) (timed_event_after K E e 0 kind branch payload) w))"
    if "resolved_artifact E e b a ref = Inr (kind, payload)" for e b a ref kind payload branch
    using that by (intro outcomes.admits_event [OF ok])
      (auto simp: resolved_artifact_def Let_def accepted_events split: option.splits sum.splits if_splits)
  then show ?thesis
    unfolding recover_or_publish_artifact_def Let_def using ok
    by (auto intro!: acceptance_then split: prod.splits discovery_payload.splits)
qed

lemma acceptance_resolution:
  assumes "acceptance_ok w" "last_event st \<in> set (yl_events (yw_ledger w))"
  shows "acceptance_ok (fst (start_artifact_resolution K E st branch w))"
  unfolding start_artifact_resolution_def using assms
  by (auto intro!: acceptance_then intents.admits_event acceptance_science acceptance_recovered simp: accepted_events)

lemma acceptance_preflight: "acceptance_ok w \<Longrightarrow> acceptance_ok (fst (start_preflight K E view st w))"
  unfolding start_preflight_def finish_preflight_def Let_def
  by (auto intro!: acceptance_then intents.admits outcomes.admits_event simp: accepted_events
    split: discovery_payload.splits preflight.splits)

lemma acceptance_prepared: "acceptance_ok w \<Longrightarrow> acceptance_ok (fst (prepare_branch K E view st branch w))"
  unfolding prepare_branch_def Let_def
  by (auto intro!: acceptance_then preparations.admits acceptance_terminal simp: accepted_events split: option.splits)

lemma acceptance_finalized: "acceptance_ok w \<Longrightarrow> acceptance_ok (fst (finalize_cycle K E view st w))"
  unfolding finalize_cycle_def
  by (auto intro!: acceptance_then cycle_ends.admits_event simp: accepted_events)

lemma acceptance_called: "acceptance_ok w \<Longrightarrow> acceptance_ok (fst (call_model K E st branch w))"
proof -
  assume ok: "acceptance_ok w"
  have invoked: "acceptance_ok (fst (invoke_and_record_call K E e w1))" if "acceptance_ok w1" for e w1
  proof -
    have "acceptance_ok (w1 \<lparr> yw_calls := calls \<rparr>)" for calls using that by (simp add: acceptance_ok_def)
    then show ?thesis using that
      by (auto simp: invoke_and_record_call_def record_response_def Let_def accepted_events
        intro!: acceptance_then responses.admits split: option.splits call_readiness.splits completion.splits sum.splits)
  qed
  have "acceptance_ok (fst (reserve_call K E st branch w))"
    unfolding reserve_call_def Let_def using ok
    by (auto intro!: acceptance_then reservations.admits simp: accepted_events split: option.splits)
  then show ?thesis
    unfolding call_model_def finish_call_def
    by (auto intro!: acceptance_then invoked acceptance_terminal)
qed

lemma acceptance_turned:
  assumes "acceptance_ok w" "sees i st w"
  shows "acceptance_ok (fst (cycle_iteration K E view max_drafts st w))"
proof -
  have last: "last_event st \<in> set (yl_events (yw_ledger w))"
    using sees_last [OF assms(2)] cycle_events_ids by (metis last_in_set)
  have "acceptance_ok (fst (finalize_authoritative_branch K E st w))"
    using assms(1)
    by (auto simp: finalize_authoritative_branch_def Let_def intro!: acceptance_science last
      split: discovery_kind.splits discovery_payload.splits)
  moreover have "acceptance_ok (fst (write_event (finalize_day_discovery_effect K)
      (timed_event_after K E (last_event st) 0 PREFLIGHT_OUTCOME_UNKNOWN branch Empty_Payload) w))" for branch
    by (rule outcomes.admits_event [OF assms(1)]) (simp add: accepted_events)
  ultimately show ?thesis
    unfolding cycle_iteration_def Let_def
    by (cases "dv_event_kind (last_event st)")
      (simp_all add: assms(1) acceptance_called acceptance_finalized acceptance_terminal acceptance_prepared
        acceptance_resolution [OF assms(1) last] acceptance_recovered acceptance_preflight)
qed

lemma acceptance_opened:
  assumes "load_or_open_cycle K view w = (w', r)" "acceptance_ok w"
  shows "acceptance_ok w'"
proof (cases "w' = w")
  case False
  then obtain L e where L: "open_day_discovery_cycle K (budget_account_of K view) (discovery_cycle_of K view) (yw_ledger w) = Inr (L, e)"
      "w' = w \<lparr> yw_ledger := L \<rparr>"
    using assms(1) by (auto simp: load_or_open_cycle_def Let_def split: sum.splits if_splits discovery_error.splits prod.splits)
  then have "yl_events L = yl_events (yw_ledger w)
      \<or> yl_events L = yl_events (yw_ledger w) @ [opened_event K (discovery_cycle_of K view)]"
    using opened_events [OF L(1)] by simp
  moreover have "\<not> branch_accepted (opened_event K c)" for c
    by (simp add: opened_event_def Let_def branch_accepted_def branch_result_of_def)
  ultimately show ?thesis using assms(2) L(2) by (auto simp: acceptance_ok_def admitted_append)
qed (use assms in simp)

lemma history_acceptance: "discovery_history K w \<Longrightarrow> acceptance_ok w"
proof (induction rule: discovery_history.induct)
  case created
  show ?case by (simp add: acceptance_ok_def empty_discovery_world_def empty_discovery_ledger_def)
next
  case (loaded w view w' r) then show ?case using acceptance_opened by blast
next
  case (turned w i st E view max_drafts w' r)
  then show ?case using acceptance_turned [of w i st K E view max_drafts] read_stateD by simp
next
  case (projected w i st E view w' r)
  then show ?case using projected_ledger [of E view i st w w' r] by (simp add: acceptance_ok_def)
qed

subsection \<open>What precedes it\<close>

lemma audited_nth:
  assumes "audited_chain i previous es = None" "n < length es"
  shows "dv_sequence (es ! n) = (case previous of None \<Rightarrow> 1 | Some p \<Rightarrow> dv_sequence p + 1) + int n
    \<and> (n = 0 \<longrightarrow> (case previous of None \<Rightarrow> dv_event_kind (es ! n) = CYCLE_OPENED
         | Some p \<Rightarrow> dv_event_kind (es ! n) \<in> set (discovery_successors (dv_event_kind p))))
    \<and> (0 < n \<longrightarrow> dv_event_kind (es ! n) \<in> set (discovery_successors (dv_event_kind (es ! (n - 1)))))"
  using assms
proof (induction es arbitrary: previous n)
  case (Cons e es)
  have e: "dv_sequence e = (case previous of None \<Rightarrow> 1 | Some p \<Rightarrow> dv_sequence p + 1)" "audited_chain i (Some e) es = None"
      "case previous of None \<Rightarrow> dv_event_kind e = CYCLE_OPENED
         | Some p \<Rightarrow> dv_event_kind e \<in> set (discovery_successors (dv_event_kind p))"
    using Cons.prems(1) by (auto split: option.splits if_splits)
  show ?case
  proof (cases n)
    case 0 then show ?thesis using e by (auto split: option.splits)
  next
    case (Suc m)
    have "m < length es" using Cons.prems(2) Suc by simp
    from Cons.IH [OF e(2) this] show ?thesis using Suc e(1) by (cases m) auto
  qed
qed simp

text \<open>The kinds with one predecessor.\<close>

lemma only_after:
  assumes "k \<in> set (discovery_successors p)"
  shows "(k = PREFLIGHT_VERIFIED \<longrightarrow> p = PREFLIGHT_INTENT) \<and> (k = PREFLIGHT_INTENT \<longrightarrow> p = ARTIFACT_VERIFIED)
    \<and> (k = ARTIFACT_VERIFIED \<longrightarrow> p = RESOLUTION_INTENT) \<and> (k = RESOLUTION_INTENT \<longrightarrow> p = BRANCH_PREPARED)
    \<and> (k = BRANCH_PREPARED \<longrightarrow> p = CALL_RESPONSE_RECORDED) \<and> (k = CALL_RESPONSE_RECORDED \<longrightarrow> p = CALL_RESERVED)"
  using assms by (cases p) auto

lemma kind_before:
  assumes "audited_chain i None es = None" "n < length es" "dv_event_kind (es ! n) = k" "k \<noteq> CYCLE_OPENED"
  shows "0 < n \<and> k \<in> set (discovery_successors (dv_event_kind (es ! (n - 1))))"
  using audited_nth [OF assms(1,2)] assms(3,4) by (cases n) auto

text \<open>C39.  In every history an accepted branch has passed every stage: right before its end the cycle
  recorded, in this order, the reserved call, its answer, the prepared draft, the intent to publish
  its artifact, the verified artifact, the intent to run the preflight and the verified preflight,
  and the accepted capsule is the one that preflight verified.\<close>

theorem accepted_branch_has_passed_every_stage:
  assumes "discovery_history K w" "n < length (kept_events w i)" "branch_accepted (kept_events w i ! n)"
  shows "7 \<le> n \<and> map dv_event_kind (drop (n - 7) (take (n + 1) (kept_events w i)))
      = [CALL_RESERVED, CALL_RESPONSE_RECORDED, BRANCH_PREPARED, RESOLUTION_INTENT, ARTIFACT_VERIFIED, PREFLIGHT_INTENT,
         PREFLIGHT_VERIFIED, BRANCH_FINALIZED]
    \<and> (\<exists>c. dv_payload (kept_events w i ! (n - 1)) = Capsule_Payload c
         \<and> map_option bq_capsule_id (branch_result_of (kept_events w i ! n)) = Some (Some (cz_capsule_id c)))"
proof -
  define es where "es = kept_events w i"
  note n = assms(2,3) [folded es_def]
  have chain: "audited_chain i None es = None"
    using discovery_run_ok history_calls [OF assms(1)] by (auto simp: es_def calls_reserved_def discovery_ok_def)
  have "es ! n \<in> set (yl_events (yw_ledger w))" "dv_cycle_id (es ! n) = i"
    using cycle_events_ids [of "es ! n" "yw_ledger w" i] n(1) by (auto simp: es_def)
  then obtain p c r where p: "dv_event_kind (es ! n) = BRANCH_FINALIZED" "p \<in> set (yl_events (yw_ledger w))" "next_of p (es ! n)"
      "dv_event_kind p = PREFLIGHT_VERIFIED" "dv_payload p = Capsule_Payload c" "dv_payload (es ! n) = Branch_Payload r"
      "bq_capsule_id r = Some (cz_capsule_id c)"
    using history_acceptance [OF assms(1)] n(2) by (auto simp: acceptance_ok_def admitted_def)
  then have "p \<in> set es" using \<open>dv_cycle_id (es ! n) = i\<close> by (simp add: es_def cycle_events_def next_of_def)
  then obtain k where k: "k < length es" "es ! k = p" by (auto simp: in_set_conv_nth)
  have "dv_sequence (es ! n) = 1 + int n" "dv_sequence (es ! k) = 1 + int k"
    using audited_nth [OF chain] n(1) k(1) by auto
  then have before: "n = Suc k" using p(3) k(2) by (simp add: next_of_def)
  have earlier: "0 < m \<and> kind' = dv_event_kind (es ! (m - 1))"
    if "m < length es" "dv_event_kind (es ! m) = kind"
      "(kind, kind') \<in> {(PREFLIGHT_VERIFIED, PREFLIGHT_INTENT), (PREFLIGHT_INTENT, ARTIFACT_VERIFIED),
         (ARTIFACT_VERIFIED, RESOLUTION_INTENT), (RESOLUTION_INTENT, BRANCH_PREPARED),
         (BRANCH_PREPARED, CALL_RESPONSE_RECORDED), (CALL_RESPONSE_RECORDED, CALL_RESERVED)}" for m kind kind'
    using kind_before [OF chain that(1,2)] only_after [of kind "dv_event_kind (es ! (m - 1))"] that(3) by auto
  have stage: "m < n \<and> m < length es" if "m \<le> k" for m using that before k(1) by simp
  have k1: "0 < k \<and> dv_event_kind (es ! (k - 1)) = PREFLIGHT_INTENT" using earlier [of k] k p(4) by auto
  have k2: "1 < k \<and> dv_event_kind (es ! (k - 2)) = ARTIFACT_VERIFIED" using earlier [of "k - 1"] stage k1 by (auto simp: numeral_2_eq_2)
  have k3: "2 < k \<and> dv_event_kind (es ! (k - 3)) = RESOLUTION_INTENT" using earlier [of "k - 2"] stage k2 by auto
  have k4: "3 < k \<and> dv_event_kind (es ! (k - 4)) = BRANCH_PREPARED" using earlier [of "k - 3"] stage k3 by auto
  have k5: "4 < k \<and> dv_event_kind (es ! (k - 5)) = CALL_RESPONSE_RECORDED" using earlier [of "k - 4"] stage k4 by auto
  have k6: "5 < k \<and> dv_event_kind (es ! (k - 6)) = CALL_RESERVED" using earlier [of "k - 5"] stage k5 by auto
  have "map dv_event_kind (drop (n - 7) (take (n + 1) es)) = map (\<lambda>m. dv_event_kind (es ! (k - 6 + m))) [0..<8]"
    using k6 before n(1) by (intro nth_equalityI) auto
  moreover have "[0..<8] = [0, 1, 2, 3, 4, 5, 6, 7 :: nat]" by (simp add: upt_rec)
  ultimately show ?thesis
    using k1 k2 k3 k4 k5 k6 k p before by (simp add: es_def [symmetric] branch_result_of_def)
qed

end
