(* ===== verification/Day_Discovery_Examples.thy ===== *)
theory Day_Discovery_Examples
  imports Day_Discovery_Acceptance
begin

text \<open>
  A discovery cycle at concrete inputs: a search budget of one call, a draft that is accepted, and a
  second cycle of the same account.
\<close>

definition sample_keys :: discovery_keys where
  "sample_keys = \<lparr> yk_account = (\<lambda>_ _. hex_id 1), yk_cycle = (\<lambda>c. if dc_cursor_sha256 c = hex_id 3 then hex_id 4 else hex_id 5),
     yk_debit = (\<lambda>d. hex_id (nat (dd_branch_index d))),
     yk_event = (\<lambda>e. hex_id (nat (dv_sequence e) + (if dv_cycle_id e = hex_id 4 then 0 else 10))),
     yk_reservation = (\<lambda>_. hex_id 7), yk_artifact = (\<lambda>_. hex_id 2), yk_prepared = (\<lambda>_. hex_id 6), yk_request = (\<lambda>_ _. hex_id 6),
     yk_attempt = (\<lambda>_ branch _. hex_id (nat branch)), yk_text = (\<lambda>s. hex_id (length s)), yk_payload_length = (\<lambda>_. 2) \<rparr>"

definition sample_view :: "string \<Rightarrow> discovery_view" where
  "sample_view cursor = \<lparr> vw_market_id = US_EQUITIES, vw_observed_at = 10, vw_completed_bar_at = 5,
     vw_first_eligible_completed_bar_at = 100, vw_existing_semantic_hashes = [], vw_budget_epoch_ref = ''e'',
     vw_search_budget = 1, vw_cursor = cursor, vw_evidence_sha256 = hex_id 9 \<rparr>"

definition sample_draft :: proposed_hypothesis where
  "sample_draft = \<lparr> qp_hypothesis_id = ''h-1'', qp_hypothesis = ''gap closes'', qp_economic_mechanism = ''overreaction'',
     qp_counterfactual_baseline = ''random entry'', qp_falsification_rule = ''no drift'', qp_card = hex_id 2,
     qp_research_source_keys = [hex_id 6], qp_model_id = ''m'', qp_prompt_sha256 = hex_id 3, qp_response_sha256 = hex_id 3,
     qp_called_at = 20, qp_source_code = ''code'', qp_free_parameters = [], qp_methodology_tags = [''gap''] \<rparr>"

definition sample_contracts :: hypothesis_contracts where
  "sample_contracts = \<lparr> hy_family_id = hex_id 8, hy_version_id = hex_id 9, hy_version_family_id = hex_id 8,
     hy_preregistered_id = hex_id 9, hy_code_sha256 = hex_id 4 \<rparr>"

definition sample_artifact :: generated_artifact where
  "sample_artifact = \<lparr> ga_artifact_id = hex_id 2, ga_source_sha256 = hex_id 4, ga_hypothesis_id = ''h-1'', ga_card_key = hex_id 2,
     ga_research_source_keys = [hex_id 6], ga_prompt_sha256 = hex_id 3, ga_response_sha256 = hex_id 3, ga_model_id = ''m'',
     ga_free_parameters = [], ga_runtime = hex_id 0, ga_created_at = 20 \<rparr>"

definition sample_capsule :: strategy_capsule where
  "sample_capsule = \<lparr> cz_capsule_id = hex_id 10, cz_artifact_ref = ''artifact'', cz_published_at = 50 \<rparr>"

definition sample_env :: discovery_env where
  "sample_env = \<lparr> ye_context_safe = True, ye_clock = None, ye_structured_plan = None, ye_prompt = ''{}'', ye_generator_name = ''g'',
     ye_creator = ''c'', ye_complete = (\<lambda>_. Completed ''raw'' 0 0), ye_parse = (\<lambda>_ _. None), ye_recorded = (\<lambda>_. Some sample_draft),
     ye_critic = (\<lambda>_. []), ye_critique_recorded = (\<lambda>_. True), ye_function_names = (\<lambda>_. Some [''create_strategy'', ''observe'']),
     ye_contracts = (\<lambda>_ _ _ _ _. Some sample_contracts), ye_runtime = hex_id 0,
     ye_publish = (\<lambda>_ _. Inr sample_artifact), ye_load = (\<lambda>_ _. Inr sample_artifact), ye_request = (\<lambda>_ _. True),
     ye_preflight = (\<lambda>_. Preflight_Passed sample_capsule), ye_semantic_parent = (\<lambda>_. None), ye_admission = (\<lambda>_. hex_id 11),
     ye_trial = (\<lambda>_. Inr (hex_id 12)), ye_register_science = (\<lambda>_ _. None), ye_final_join = (\<lambda>_. None),
     ye_receipt_published = True, ye_fault = (\<lambda>_ _. False) \<rparr>"

definition sample_result :: cycle_result where
  "sample_result = \<lparr> cy_cycle_id = hex_id 4, cy_attempt_ids = [hex_id 0], cy_family_id = Some (hex_id 8),
     cy_hypothesis_version_id = Some (hex_id 9), cy_capsule_id = Some (hex_id 10), cy_admission_id = Some (hex_id 11),
     cy_accepted = True, cy_terminal_reason = None, cy_drafts_attempted = 1, cy_remaining_budget = 0,
     cy_first_eligible_completed_bar_at = 100 \<rparr>"

text \<open>The world with the first cycle opened, after its run, and with the second opened.\<close>

definition opened_world :: discovery_world where
  "opened_world = fst (load_or_open_cycle sample_keys (sample_view ''one'') empty_discovery_world)"

definition finished_world :: discovery_world where
  "finished_world = fst (run_authoritative_cycle sample_keys sample_env (sample_view ''one'') 3 empty_discovery_world)"

definition exhausted_world :: discovery_world where
  "exhausted_world = fst (load_or_open_cycle sample_keys (sample_view ''again'') finished_world)"

lemma sample_keys_simps [simp]:
  "yk_account sample_keys = (\<lambda>_ _. hex_id 1)"
  "yk_cycle sample_keys = (\<lambda>c. if dc_cursor_sha256 c = hex_id 3 then hex_id 4 else hex_id 5)"
  "yk_debit sample_keys = (\<lambda>d. hex_id (nat (dd_branch_index d)))"
  "yk_event sample_keys = (\<lambda>e. hex_id (nat (dv_sequence e) + (if dv_cycle_id e = hex_id 4 then 0 else 10)))"
  "yk_reservation sample_keys = (\<lambda>_. hex_id 7)" "yk_artifact sample_keys = (\<lambda>_. hex_id 2)"
  "yk_prepared sample_keys = (\<lambda>_. hex_id 6)" "yk_request sample_keys = (\<lambda>_ _. hex_id 6)"
  "yk_attempt sample_keys = (\<lambda>_ branch _. hex_id (nat branch))"
  "yk_text sample_keys = (\<lambda>s. hex_id (length s))" "yk_payload_length sample_keys = (\<lambda>_. 2)"
  by (simp_all add: sample_keys_def)

lemma sample_view_simps [simp]:
  "vw_market_id (sample_view cursor) = US_EQUITIES" "vw_observed_at (sample_view cursor) = 10"
  "vw_completed_bar_at (sample_view cursor) = 5" "vw_first_eligible_completed_bar_at (sample_view cursor) = 100"
  "vw_existing_semantic_hashes (sample_view cursor) = []" "vw_budget_epoch_ref (sample_view cursor) = ''e''"
  "vw_search_budget (sample_view cursor) = 1" "vw_cursor (sample_view cursor) = cursor"
  "vw_evidence_sha256 (sample_view cursor) = hex_id 9"
  by (simp_all add: sample_view_def)

lemma sample_draft_simps [simp]:
  "qp_hypothesis_id sample_draft = ''h-1''" "qp_hypothesis sample_draft = ''gap closes''"
  "qp_economic_mechanism sample_draft = ''overreaction''" "qp_counterfactual_baseline sample_draft = ''random entry''"
  "qp_falsification_rule sample_draft = ''no drift''" "qp_card sample_draft = hex_id 2"
  "qp_research_source_keys sample_draft = [hex_id 6]" "qp_model_id sample_draft = ''m''"
  "qp_prompt_sha256 sample_draft = hex_id 3" "qp_response_sha256 sample_draft = hex_id 3"
  "qp_called_at sample_draft = 20" "qp_source_code sample_draft = ''code''" "qp_free_parameters sample_draft = []"
  "qp_methodology_tags sample_draft = [''gap'']"
  by (simp_all add: sample_draft_def)

lemma sample_contracts_simps [simp]:
  "hy_family_id sample_contracts = hex_id 8" "hy_version_id sample_contracts = hex_id 9"
  "hy_version_family_id sample_contracts = hex_id 8" "hy_preregistered_id sample_contracts = hex_id 9"
  "hy_code_sha256 sample_contracts = hex_id 4"
  by (simp_all add: sample_contracts_def)

lemma sample_capsule_simps [simp]:
  "cz_capsule_id sample_capsule = hex_id 10" "cz_artifact_ref sample_capsule = ''artifact''"
  "cz_published_at sample_capsule = 50"
  by (simp_all add: sample_capsule_def)

lemma sample_env_simps [simp]:
  "ye_context_safe sample_env = True" "ye_clock sample_env = None" "ye_structured_plan sample_env = None"
  "ye_prompt sample_env = ''{}''" "ye_generator_name sample_env = ''g''" "ye_creator sample_env = ''c''"
  "ye_complete sample_env = (\<lambda>_. Completed ''raw'' 0 0)" "ye_parse sample_env = (\<lambda>_ _. None)"
  "ye_recorded sample_env = (\<lambda>_. Some sample_draft)" "ye_critic sample_env = (\<lambda>_. [])"
  "ye_critique_recorded sample_env = (\<lambda>_. True)"
  "ye_function_names sample_env = (\<lambda>_. Some [''create_strategy'', ''observe''])"
  "ye_contracts sample_env = (\<lambda>_ _ _ _ _. Some sample_contracts)" "ye_runtime sample_env = hex_id 0"
  "ye_publish sample_env = (\<lambda>_ _. Inr sample_artifact)" "ye_load sample_env = (\<lambda>_ _. Inr sample_artifact)"
  "ye_request sample_env = (\<lambda>_ _. True)" "ye_preflight sample_env = (\<lambda>_. Preflight_Passed sample_capsule)"
  "ye_semantic_parent sample_env = (\<lambda>_. None)" "ye_admission sample_env = (\<lambda>_. hex_id 11)"
  "ye_trial sample_env = (\<lambda>_. Inr (hex_id 12))" "ye_register_science sample_env = (\<lambda>_ _. None)"
  "ye_final_join sample_env = (\<lambda>_. None)" "ye_receipt_published sample_env = True"
  "ye_fault sample_env = (\<lambda>_ _. False)"
  by (simp_all add: sample_env_def)

lemma hex_id_eq: "hex_id m = hex_id n \<longleftrightarrow> m mod 16 = n mod 16"
proof -
  have "m mod 16 < 16" "n mod 16 < 16" by simp_all
  moreover have "distinct ''0123456789abcdef''" "length ''0123456789abcdef'' = 16" by simp_all
  ultimately have "''0123456789abcdef'' ! (m mod 16) = ''0123456789abcdef'' ! (n mod 16) \<longleftrightarrow> m mod 16 = n mod 16"
    using nth_eq_iff_index_eq by metis
  then show ?thesis by (simp add: hex_id_def)
qed

lemma hex_id_nonempty: "hex_id n \<noteq> []" by (simp add: hex_id_def)

text \<open>The critic admits the draft.\<close>

lemma sample_judgements:
  "CHR ''e'' \<in> set alnum" "day_critic_reason sample_keys sample_env sample_draft (sample_view ''one'') 1 = None"
  "parameter_combination_demand sample_draft = 1"
  by code_simp+

lemmas sample_eval = sample_judgements hex_id_eq hex_id_nonempty hex_id_pattern Let_def
  sorted_set_def sample_artifact_def empty_discovery_world_def branch_in_range_def valid_account_def valid_cycle_def
  valid_debit_def valid_reservation_def valid_response_def valid_discovery_event_def valid_prepared_def
  valid_artifact_payload_def valid_cycle_result_def empty_discovery_ledger_def account_row_def cycle_row_def event_row_def
  cycle_events_def used_budget_def insert_account_def insert_cycle_def insert_debit_def insert_event_def opened_event_def
  open_account_def opened_cycle_def first_event_def open_day_discovery_cycle_def require_next_event_def append_next_def
  reservation_matches_def reservation_of_def response_of_def reserve_day_discovery_call_def append_day_discovery_event_def
  response_matches_def record_day_discovery_call_response_def prepared_numbers_def top_up_matches_def charge_top_up_def
  prepare_day_discovery_branch_def intent_kinds_def outcome_kinds_def append_kind_in_def start_day_discovery_effect_def
  finalize_day_discovery_effect_def finalize_day_discovery_branch_def finalize_day_discovery_cycle_def debit_of_def
  debit_branches_def charged_for_def reserved_branches_def audit_call_events_def topped_up_branches_def
  audit_prepared_events_def audit_events_def cycle_debits_def read_day_discovery_cycle_state_def day_critique_def
  critique_terminal_reason_def then_do_def write_ledger_def read_state_def fault_point_def cycle_time_def event_after_def
  timed_event_after_def terminal_branch_event_def write_event_def finalize_terminal_def last_event_def
  finalized_branches_def current_branch_def latest_event_def branch_spent_def typed_protocol_def call_plan_def
  planned_reservation_def cycle_debit_def reserve_call_def completed_response_def call_ready_def record_response_def
  invoke_and_record_call_def finish_call_def call_model_def answered_proposal_def criticised_proposal_def
  registration_at_def prepared_reason_def planned_demand_def drafted_branch_def top_up_debit_def prepare_branch_def
  answers_call_def prepared_from_state_def science_of_def forward_trial_of_def finalize_science_and_branch_def
  expected_artifact_def attempted_artifact_ref_def resolved_artifact_def recover_or_publish_artifact_def
  start_artifact_resolution_def finish_preflight_def start_preflight_def finalize_authoritative_branch_def
  branch_result_of_def result_from_branches_def branch_accepted_def cycle_is_over_def finalize_cycle_def
  cycle_local_remaining_budget_def read_receipt_def publish_receipt_def project_final_cycle_def budget_account_of_def
  discovery_cycle_of_def load_or_open_cycle_def cycle_iteration_def

lemma opened_state:
  "\<exists>st. read_state sample_keys (hex_id 4) opened_world = Inr st \<and> dv_event_kind (last_event st) = CYCLE_OPENED"
  by (simp add: opened_world_def sample_eval)

lemma finished_run:
  "run_authoritative_cycle sample_keys sample_env (sample_view ''one'') 3 empty_discovery_world = (finished_world, Inr sample_result)"
proof (rule prod_eqI)
  show "snd (run_authoritative_cycle sample_keys sample_env (sample_view ''one'') 3 empty_discovery_world)
      = snd (finished_world, Inr sample_result)"
    by (simp add: sample_result_def run_authoritative_cycle_def cycle_loop.simps sample_eval)
qed (simp add: finished_world_def)

lemma finished_rows:
  "yl_accounts (yw_ledger finished_world) = [budget_account_of sample_keys (sample_view ''one'')]
   \<and> yw_calls finished_world = [(hex_id 4, 0)] \<and> length (kept_events finished_world (hex_id 4)) = 10
   \<and> branch_accepted (kept_events finished_world (hex_id 4) ! 8)"
  by (simp add: finished_world_def run_authoritative_cycle_def cycle_loop.simps sample_eval)

lemma exhausted_state:
  "\<exists>st. read_state sample_keys (dc_cycle_id (discovery_cycle_of sample_keys (sample_view ''again''))) exhausted_world = Inr st
     \<and> dv_event_kind (last_event st) = CYCLE_OPENED \<and> ys_remaining_budget st = 0"
  by (simp add: exhausted_world_def finished_world_def run_authoritative_cycle_def cycle_loop.simps sample_eval)

lemma finished_history: "discovery_history sample_keys finished_world"
  using history_run [OF discovery_history.created finished_run] .

theorem discovery_budget_is_kept_witness:
  "(let L = yw_ledger finished_world in int (length (account_calls L (hex_id 1))) \<le> used_budget L (hex_id 1)
     \<and> used_budget L (hex_id 1) \<le> 1 \<and> (\<forall>i. length (reserved_calls L i) \<le> 3 \<and> distinct (map dv_branch_index (reserved_calls L i))))"
proof -
  have "discovery_run sample_keys (yw_ledger finished_world)" using history_calls [OF finished_history] by (simp add: calls_reserved_def)
  from discovery_budget_is_kept [OF this, of "budget_account_of sample_keys (sample_view ''one'')"] finished_rows show ?thesis
    by (simp add: budget_account_of_def Let_def)
qed

theorem discovery_loop_ends_witness:
  "\<exists>es. kept_events (fst (cycle_loop sample_keys sample_env (sample_view ''one'') 3 (hex_id 4) opened_world)) (hex_id 4)
     = kept_events opened_world (hex_id 4) @ es \<and> int (length es) \<le> 25"
proof -
  obtain st where "read_state sample_keys (hex_id 4) opened_world = Inr st" "dv_event_kind (last_event st) = CYCLE_OPENED"
    using opened_state by blast
  from discovery_loop_ends [OF this, of 3 sample_env "sample_view ''one''", OF _ surjective_pairing] show ?thesis by auto
qed

theorem model_calls_are_paid_once_witness:
  "yw_calls finished_world = [(hex_id 4, 0)] \<and> distinct (yw_calls finished_world)
   \<and> int (length (calls_of_account finished_world (budget_account_of sample_keys (sample_view ''one'')))) \<le> 1"
  using model_calls_are_paid_once [OF finished_history, of "budget_account_of sample_keys (sample_view ''one'')"] finished_rows
  by (simp add: budget_account_of_def)

theorem accepted_branch_has_passed_every_stage_witness:
  "\<exists>c. dv_payload (kept_events finished_world (hex_id 4) ! 7) = Capsule_Payload c
     \<and> dv_event_kind (kept_events finished_world (hex_id 4) ! 8) = BRANCH_FINALIZED"
proof -
  note rows = finished_rows
  have "8 < length (kept_events finished_world (hex_id 4))" using rows by simp
  note passed = accepted_branch_has_passed_every_stage [OF finished_history this]
  then have kinds: "map dv_event_kind (drop 1 (take 9 (kept_events finished_world (hex_id 4))))
      = [CALL_RESERVED, CALL_RESPONSE_RECORDED, BRANCH_PREPARED, RESOLUTION_INTENT, ARTIFACT_VERIFIED, PREFLIGHT_INTENT,
         PREFLIGHT_VERIFIED, BRANCH_FINALIZED]" using rows by simp
  have "dv_event_kind (kept_events finished_world (hex_id 4) ! 8) = BRANCH_FINALIZED"
    using arg_cong [OF kinds, of "\<lambda>ks. ks ! 7"] rows by simp
  then show ?thesis using passed rows by auto
qed


theorem exhausted_discovery_cycle_never_ends_witness:
  "\<exists>err. run_authoritative_cycle sample_keys sample_env (sample_view ''again'') 3 exhausted_world = (exhausted_world, Inl err)"
  using exhausted_discovery_cycle_never_ends exhausted_state by blast

end
