(* ===== verification/Spec2Isabelle.thy ===== *)
theory Spec2Isabelle
  imports Mutation_Protocol Order_Gate Safety_Planner Portfolio_Builder Protective_Orders Recommendation_Lifecycle
    Kr_Trade_Planner Kr_Position_Polling Trade_Extraction Lifecycle_Controller Day_Discovery_Examples
begin

text \<open>
  A verification library for the deterministic core of \<^verbatim>\<open>trading_agent\<close>, the package of an
  evidence-first trading research system.  The program collects market data, lets strategies
  publish recommendations (the signal plane) and places risk-bounded orders on a paper broker
  account (the execution plane); everything it decides is a function of evidence it has stored.
  The library models those decisions and the ledgers behind them, and proves that they are safe.

  The parts, in the order the code calls them, with the theory that models each:

  \<^item> \<open>Prelude\<close>, \<open>Numeric\<close>, \<open>Clock\<close>: Python's strings and sorted sets, \<^verbatim>\<open>Decimal\<close> and
    \<^verbatim>\<open>float\<close> as correctly rounded rationals, \<^verbatim>\<open>datetime\<close> as instants and wall clocks.
  \<^item> \<open>Us_Equity_Calendar\<close>: \<^verbatim>\<open>us_equity_calendar.py\<close> and the session predicates of
    \<^verbatim>\<open>kis_live.py\<close>.
  \<^item> \<open>Recommendation_Store\<close>, \<open>Momentum_Scanner\<close>, \<open>Opening_Range\<close>, \<open>Hod_Breakout\<close>,
    \<open>Vwap_Reclaim\<close>, \<open>Gap_Hold\<close>, \<open>Recommendation_Engine\<close>: the signal plane (\<^verbatim>\<open>models.py\<close>,
    \<^verbatim>\<open>store.py\<close>, \<^verbatim>\<open>risk.py\<close>, \<^verbatim>\<open>causality.py\<close>, \<^verbatim>\<open>scanner.py\<close>, \<^verbatim>\<open>strategy.py\<close>,
    \<^verbatim>\<open>hod_strategy.py\<close>, \<^verbatim>\<open>vwap_strategy.py\<close>, \<^verbatim>\<open>gap_strategy.py\<close>, \<^verbatim>\<open>engine.py\<close>).
    \<open>Recommendation_Invariants\<close> shows how every pass writes the table,
    \<open>Recommendation_Lifecycle\<close> what follows over all runs and restarts.
  \<^item> \<open>Execution_Models\<close>: the dataclasses of the execution plane.
  \<^item> \<open>Paper_Risk\<close>, \<open>Portfolio_Gate\<close>, \<open>Order_Gate\<close>: sizing and the gate in front of every
    entry (\<^verbatim>\<open>paper_risk.py\<close>, \<^verbatim>\<open>paper_portfolio_gate.py\<close>, \<^verbatim>\<open>paper_order_gate.py\<close>).
  \<^item> \<open>Broker_Projection\<close>: what the stored broker evidence says of an order
    (\<^verbatim>\<open>broker_order_projection.py\<close> and the three projections under it).
  \<^item> \<open>Portfolio_Builder\<close>: the portfolio the gate reads (\<^verbatim>\<open>paper_portfolio_builder.py\<close>).
  \<^item> \<open>Protective_Orders\<close>: one-cancels-other exits and their lifecycle
    (\<^verbatim>\<open>paper_protective_exit.py\<close>, \<^verbatim>\<open>paper_protective_oco_lifecycle.py\<close>).
  \<^item> \<open>Safety_Planner\<close>: the kill switch and the close of day (\<^verbatim>\<open>paper_safety_planner.py\<close>).
  \<^item> \<open>Mutation_Ledger\<close>, \<open>Mutation_Executor\<close>, \<open>Mutation_Recovery\<close>, \<open>Mutation_Protocol\<close>: the
    append-only ledger in front of every broker call, its execution, its recovery after a crash,
    and their composition (the \<^verbatim>\<open>paper_mutation_*\<close> files).
  \<^item> \<open>Kr_Price_Grid\<close>, \<open>Kr_Market_Models\<close>, \<open>Kr_Trade_Models\<close>, \<open>Kr_Trade_Planner\<close>: the
    autonomous planner of Korean trades, from its evidence to a recommendation or a reasoned
    refusal (\<^verbatim>\<open>kr_price_grid.py\<close>, \<^verbatim>\<open>kr_autonomous_*.py\<close>, \<^verbatim>\<open>kr_intraday_market_gate.py\<close>,
    \<^verbatim>\<open>kr_social_signal_models.py\<close>).
  \<^item> \<open>Kr_Virtual_Position\<close>, \<open>Kr_Position_History\<close>, \<open>Kr_Position_Polling\<close>: the virtual position
    a recommendation opens, its event log, and the outcome that minute bars give it
    (\<^verbatim>\<open>kr_virtual_position_*.py\<close>).
  \<^item> \<open>Performance_Metrics\<close>, \<open>Trade_Extraction\<close>, \<open>Adaptive_Evaluation\<close>: the trades of the
    signal plane, their performance and the action it recommends (\<^verbatim>\<open>metrics.py\<close>,
    \<^verbatim>\<open>adaptive_*.py\<close>, \<^verbatim>\<open>trade_cohort_models.py\<close>).
  \<^item> \<open>Experiment_Models\<close>, \<open>Experiment_Ledger\<close>, \<open>Experiment_Runs\<close>, \<open>Experiment_Guarantees\<close>: the
    ledger of hypotheses, strategy versions, authority bindings, trials and lifecycle events
    (\<^verbatim>\<open>experiment_ledger_store.py\<close>, \<^verbatim>\<open>experiment_ledger_models.py\<close>,
    \<^verbatim>\<open>lifecycle_authority_policy.py\<close>).
  \<^item> \<open>Lane_Registry\<close>, \<open>Lane_Review\<close>: the contracts and accounts of the lanes and the daily
    review of the intraday lane (\<^verbatim>\<open>lane_*.py\<close>, \<^verbatim>\<open>daily_research_contract.py\<close>).
  \<^item> \<open>Lifecycle_Controller\<close>: the controller that suspends a strategy on such a review
    (\<^verbatim>\<open>lifecycle_controller.py\<close>).
  \<^item> \<open>Day_Discovery_Models\<close>, \<open>Day_Discovery_Ledger\<close>, \<open>Day_Discovery_Budget\<close>: the ledger in front of
    the language model that proposes day strategies, its append-only events and the search budget
    it charges (\<^verbatim>\<open>day_discovery_ledger.py\<close>, \<^verbatim>\<open>day_discovery_ledger_models.py\<close>).
    \<open>Day_Discovery_Cycle\<close>, \<open>Day_Discovery_Machine\<close>, \<open>Day_Discovery_Loop\<close>: the resumable state
    machine of a discovery cycle over it (\<^verbatim>\<open>day_discovery_state_machine.py\<close>,
    \<^verbatim>\<open>day_discovery_effect_state.py\<close>, \<^verbatim>\<open>day_discovery_loop.py\<close>).
    \<open>Day_Discovery_Progress\<close> shows what each handler appends, \<open>Day_Discovery_Guarantees\<close> and
    \<open>Day_Discovery_Acceptance\<close> what follows over all histories, and \<open>Day_Discovery_Examples\<close> runs a
    cycle.

  State and operations.  A table of the program's SQLite stores is a list of rows in the order of
  insertion, a dictionary a function to \<open>option\<close>, a dataclass a record, an enumeration or a union a
  datatype.  An operation that can raise returns a sum whose left side is the error, with the state
  it has reached where it keeps one.  Runs are inductive step relations: \<open>protocol_step\<close> for the
  broker protocol, \<open>live_step\<close> and \<open>close_step\<close> for the signal plane (a step of which starts
  from any scanner and strategy state, because a restart loses both), \<open>experiment_run\<close> for the
  experiment ledger, \<open>registry_run\<close> for the lane registry, \<open>discovery_run\<close> for the discovery
  ledger and \<open>discovery_history\<close> for the runs of discovery cycles over it.  What a discovery cycle
  asks of the outside is a record \<open>discovery_env\<close> of functions of the event they follow, and each
  turn of a history has its own, so the outside may answer anything and fail at any point.

  Interfaces.  \<open>session_calendar\<close> is what the gates rely on of a calendar, \<open>strategy_contract\<close> what
  the engine relies on of a strategy; the code's calendar and its four strategies are their
  interpretations.  \<open>mutation_log\<close> is what the executor and the recovery rely on of the mutation
  ledger; \<open>event_writer\<close> and \<open>run_writer\<close> are what the handlers of a discovery cycle rely on of the
  writer, with one interpretation for each of its operations.

  Termination.  Every loop is structural recursion or has a proved measure; no fuel is used.  The
  search for the next session ends at the last published date.  The loop of a discovery cycle is
  \<open>cycle_loop\<close>: every turn that does not raise appends a legal event, of which a cycle has at most
  eight for a draft and one at its end, whatever its environment does.

  Idealisations.  A \<^verbatim>\<open>Decimal\<close> operation rounds to 28 digits half to even and a \<^verbatim>\<open>float\<close>
  operation to 53 bits, exponents unbounded; \<^verbatim>\<open>Decimal\<close> infinities and NaN are values of
  \<open>pynum\<close>, and an ordered comparison with NaN, which raises in Python, is false here.  New York
  follows the daylight saving rule in force since 2007, which covers the published calendar.  The
  ISO text of a datetime is identified with its instant, and the text of an identifier or a note
  with the values it is formatted from.  Case folding is that of ASCII, and the built-in \<^verbatim>\<open>sum\<close>
  of floats compensates as in Python 3.12.  SHA-256, the text of a \<^verbatim>\<open>Decimal\<close>, the conversion
  \<^verbatim>\<open>float(Decimal)\<close>, the draws of \<^verbatim>\<open>random.Random\<close>, the content keys of the stores, the
  broker and the wall clock are parameters.

  Not modelled: the HTTP and websocket clients, the SQL schemas and row codecs, the data providers,
  the research agents and the dashboards.  They are input and output around parsed values, or
  drive services whose answers are not determined by the code.  Of day discovery the older journal of files, the
  executor of agent actions, the text of the prompt and the tables of the science it registers in
  are left out; the lease that keeps two runs of one cycle apart is why a turn is one step.
\<close>

section \<open>Across components\<close>



text \<open>C31.  From the trades to the suspension: when the controller suspends a strategy on a review that
  the reviewer made from an evaluation of the strategy's sessions, that evaluation saw at least
  twenty sessions, and the last five of them hold at least ten trades whose profit factor is below
  three quarters, whose mean is negative and whose bootstrap interval lies below zero.\<close>

theorem suspension_rests_on_losses:
  assumes "experiment_run (cs_experiment C) L" "evaluate_strategy draw sessions context = Inr e"
    and "review_intraday_lane_day (cs_review C) R reviews daily (Some e) d t = Inr (reviews', created, made)"
    and "control_intraday_orb_lifecycle C R reviews' d t' L = (L', r)" "L' \<noteq> L"
  shows "20 \<le> length sessions \<and> lv_adaptive_action made = SUSPEND
    \<and> (\<exists>m. recent_performance draw sessions 5 = Inr m \<and> 10 \<le> pm_trade_count m \<and> below (pm_profit_factor m) (3/4)
         \<and> below (pm_average_return m) 0 \<and> below (pm_mean_ci_high m) 0)"
  using assms(1,4)
proof (cases rule: control_cases)
  case (suspension src event)
  have "cv_review src = made" "lv_adaptive_action made = av_action e"
    using recorded_review [OF assms(3) suspension(1)] by auto
  then have "av_action e = SUSPEND" using suspensionD(1) [OF suspension(1,2)] by simp
  then show ?thesis
    using stopped_on_failure [OF assms(2)] \<open>lv_adaptive_action made = av_action e\<close> by (auto simp: clearly_failing_def)
qed (use assms(5) in simp_all)

definition orb_daily :: daily_record where
  "orb_daily = \<lparr> dr_record_id = hex_id 15, dr_raw_sha256 = hex_id 11, dr_recorded_at = Aware (sample_time sample_session 17),
     dr_scope = orb_scope, dr_strategy_version = orb_sample_version, dr_code_version = ''c1'',
     dr_evaluator_version = evaluator_version, dr_promotion_blockers = [] \<rparr>"

definition orb_context :: evaluation_context where
  "orb_context = \<lparr> ct_as_of = sample_session, ct_strategy_version = orb_sample_version,
     ct_evaluator_version = evaluator_version, ct_external_promotion_blockers = [] \<rparr>"

lemma orb_reviewed:
  assumes "av_action e = SUSPEND" "av_reasons e = [''five_day_clear_degradation'']" "av_as_of e = sample_session"
    "av_strategy_version e = orb_sample_version" "av_evaluator_version e = evaluator_version"
    "av_proof_blockers e = unique_in_order losing_blockers"
  shows "review_intraday_lane_day sample_review_keys orb_registry [] (Some orb_daily) (Some e) sample_session
      (Aware (sample_time sample_session 18)) = Inr ([(hex_id 12, orb_review)], True, orb_review)"
proof -
  have blockers: "review_blockers orb_snapshot orb_daily e = orb_blockers" unfolding review_blockers_def assms by code_simp
  have reasons: "sorted_set (av_reasons e) = [''five_day_clear_degradation'']" unfolding assms by code_simp
  have parts: "daily_snapshot INTRADAY_MOMENTUM sample_session orb_registry = Inr (Some (hex_id 4, orb_snapshot))"
    "review_snapshot_ok sample_review_keys sample_session (sample_time sample_session 18) (hex_id 4, orb_snapshot)"
    "review_record_ok sample_review_keys (sample_time sample_session 18) orb_daily" "valid_review orb_review"
    by code_simp+
  have daily: "dr_record_id orb_daily = hex_id 15" "dr_raw_sha256 orb_daily = hex_id 11"
      "dr_strategy_version orb_daily = orb_sample_version" "dr_evaluator_version orb_daily = evaluator_version"
    by (simp_all add: orb_daily_def)
  have keys: "ly_scope (rk_lanes sample_review_keys) orb_scope = hex_id 1" "rk_evaluation sample_review_keys e = hex_id 13"
    by (simp_all add: sample_review_keys_def)
  note review = orb_review_def [unfolded One_nat_def, symmetric]
  have "build_review sample_review_keys orb_registry [] (Some orb_daily) (Some e) sample_session
      (Aware (sample_time sample_session 18)) = Some orb_review"
    unfolding build_review_def
    by (simp add: parts review_event_def assms(1,3-5) blockers reasons keys daily Let_def review)
  then show ?thesis
    using parts(4) by (simp add: review_intraday_lane_day_def append_review_def sample_review_keys_def)
qed

theorem suspension_rests_on_losses_witness:
  "\<exists>L' res m. control_intraday_orb_lifecycle sample_setup orb_registry [(hex_id 12, orb_review)] sample_session
      (Aware (sample_time sample_session 19)) orb_ledger = (L', Inr res) \<and> L' \<noteq> orb_ledger
    \<and> recent_performance first_draw losing_sessions 5 = Inr m \<and> below (pm_average_return m) 0"
proof -
  obtain e where e: "evaluate_strategy first_draw losing_sessions orb_context = Inr e" "av_action e = SUSPEND"
      "av_reasons e = [''five_day_clear_degradation'']" "av_as_of e = sample_session"
      "av_strategy_version e = orb_sample_version" "av_evaluator_version e = evaluator_version"
      "av_proof_blockers e = unique_in_order losing_blockers"
    using losing_evaluated [of orb_context] by (auto simp: orb_context_def)
  obtain L' res where call: "control_intraday_orb_lifecycle sample_setup orb_registry [(hex_id 12, orb_review)] sample_session
      (Aware (sample_time sample_session 19)) orb_ledger = (L', Inr res)" "L' \<noteq> orb_ledger"
    by (rule orb_suspended)
  have "review_intraday_lane_day (cs_review sample_setup) orb_registry [] (Some orb_daily) (Some e) sample_session
      (Aware (sample_time sample_session 18)) = Inr ([(hex_id 12, orb_review)], True, orb_review)"
    using orb_reviewed [OF e(2-7)] by (simp add: sample_setup_def)
  then show ?thesis using suspension_rests_on_losses [OF orb_run e(1) _ call] call by blast
qed

end
